(* ===== verification/Prelude.thy ===== *)
theory Prelude
  imports Main "HOL-Library.AList" "HOL-Library.List_Lexorder" "HOL-Library.Char_ord"
    "HOL-Library.Product_Lexorder"
begin

text \<open>
  Shared by every component: the collections of rewrite rules the component theories fill
  (\<open>go_str\<close> for the Go string library, \<open>views\<close> for the lookups of the article store,
  \<open>wf_rules\<close> for the preservation of invariants), the names of the bytes the wire formats
  use, and the generic lemmas on lists and association lists that several components need.

  A Go map is an association list with distinct keys. Its order stands for the order in which
  a \<open>range\<close> loop visits the map, which Go leaves open. \<open>map_of\<close> looks a key up,
  \<open>AList.update\<close> stores, \<open>AList.delete\<close> removes.
\<close>

named_theorems go_str \<open>rewrite rules of the Go string library\<close>
named_theorems views \<open>what the lookups of the store return after an operation\<close>
named_theorems wf_rules \<open>preservation of the invariants\<close>

section \<open>Bytes\<close>

abbreviation byte :: "char \<Rightarrow> nat" where
  "byte c \<equiv> of_char c"

abbreviation CR :: char where "CR \<equiv> CHR 0x0D"
abbreviation LF :: char where "LF \<equiv> CHR 0x0A"
abbreviation TAB :: char where "TAB \<equiv> CHR 0x09"
abbreviation SP :: char where "SP \<equiv> CHR 0x20"
abbreviation DOT :: char where "DOT \<equiv> CHR ''.''"
abbreviation CRLF :: string where "CRLF \<equiv> [CR, LF]"

section \<open>Lists\<close>

lemma take_length_eq_self: "take n s = p \<Longrightarrow> s = p @ drop n s"
  by (metis append_take_drop_id)

lemma list_all_concat: "list_all P (concat xss) = list_all (list_all P) xss"
  by (induction xss) auto

lemma find_Some_in: "find P xs = Some x \<Longrightarrow> x \<in> set xs \<and> P x"
  by (auto simp: find_Some_iff)

lemma find_None_all: "find P xs = None \<longleftrightarrow> (\<forall>x \<in> set xs. \<not> P x)"
  by (auto simp: find_None_iff)

lemma last_le_sorted: "sorted xs \<Longrightarrow> x \<in> set xs \<Longrightarrow> x \<le> last xs"
  by (induction xs) (auto split: if_splits)

lemma hd_le_sorted: "sorted xs \<Longrightarrow> x \<in> set xs \<Longrightarrow> hd xs \<le> x"
  by (cases xs) auto

lemma distinct_filter_key:
  "distinct (map fst xs) \<Longrightarrow> distinct (map fst (filter P xs))"
  by (induction xs) auto

text \<open>The loops that skip what a \<open>seen\<close> map already holds; \<open>key\<close> is what is remembered.\<close>

fun dedup_on :: "('a \<Rightarrow> 'k) \<Rightarrow> 'k list \<Rightarrow> 'a list \<Rightarrow> 'a list" where
  "dedup_on key seen [] = []"
| "dedup_on key seen (x # xs) =
     (if key x \<in> set seen then dedup_on key seen xs
      else x # dedup_on key (key x # seen) xs)"

lemma dedup_on_subset: "set (dedup_on key seen xs) \<subseteq> set xs"
  by (induction xs arbitrary: seen) auto

lemma dedup_on_keys: "key ` set (dedup_on key seen xs) = key ` set xs - set seen"
  by (induction xs arbitrary: seen) auto

lemma dedup_on_fresh: "x \<in> set (dedup_on key seen xs) \<Longrightarrow> key x \<notin> set seen"
  using dedup_on_keys[of key seen xs] by blast

lemma dedup_on_distinct: "distinct (map key (dedup_on key seen xs))"
  by (induction xs arbitrary: seen) (auto simp: dedup_on_keys)

section \<open>Association lists as Go maps\<close>

lemma map_of_update [simp]: "map_of (AList.update k v xs) = (map_of xs)(k \<mapsto> v)"
  by (rule update_conv')

lemma map_of_delete [simp]: "map_of (AList.delete k xs) = (map_of xs)(k := None)"
  by (rule delete_conv')

lemma update_new: "n \<notin> fst ` set hs \<Longrightarrow> AList.update n v hs = hs @ [(n, v)]"
  by (induction hs) auto

lemma keys_update: "set (map fst (AList.update k v xs)) = insert k (set (map fst xs))"
  by (simp add: dom_update flip: dom_map_of_conv_image_fst)

lemma distinct_keys_update [intro]:
  "distinct (map fst xs) \<Longrightarrow> distinct (map fst (AList.update k v xs))"
  by (rule distinct_update)

lemma distinct_keys_delete [intro]:
  "distinct (map fst xs) \<Longrightarrow> distinct (map fst (AList.delete k xs))"
  by (rule distinct_delete)

lemma map_of_None_keys: "map_of xs k = None \<longleftrightarrow> k \<notin> fst ` set xs"
  by (simp add: map_of_eq_None_iff)

lemma map_of_Some_in: "distinct (map fst xs) \<Longrightarrow> map_of xs k = Some v \<longleftrightarrow> (k, v) \<in> set xs"
  by (simp add: map_of_eq_Some_iff)

lemma map_of_map_val: "map_of (map (\<lambda>(k, v). (k, f k v)) xs) k = map_option (f k) (map_of xs k)"
  by (induction xs) auto

lemma map_of_filter_key:
  "map_of (filter (\<lambda>(k, v). P k) xs) k = (if P k then map_of xs k else None)"
  by (induction xs) auto

lemma map_of_filter_distinct:
  "distinct (map fst xs) \<Longrightarrow>
   map_of (filter P xs) k = Option.bind (map_of xs k) (\<lambda>v. if P (k, v) then Some v else None)"
proof (induction xs)
  case (Cons x xs)
  have "fst x = k \<Longrightarrow> map_of xs k = None" using Cons.prems by (auto simp: map_of_eq_None_iff)
  then show ?case using Cons by (cases x) auto
qed simp

end
