(* ===== verification/GoStrings.thy ===== *)
theory GoStrings
  imports Prelude
begin

text \<open>
  The part of Go's \<open>strings\<close>, \<open>strconv\<close>, \<open>unicode\<close> and
  \<open>unicode/utf8\<close> packages the server uses. A Go string is a sequence of bytes, which is
  what \<open>string\<close> (a list of 8-bit characters) is here.

  White space is Unicode white space, recognised by its UTF-8 encodings. Every such encoding
  begins with a byte that cannot occur inside another rune, so scanning bytes and scanning runes
  agree. Case folding is exact whenever one side of the comparison is ASCII, as in every
  comparison with a keyword or a header name: the two runes that fold into ASCII letters
  (U+017F, U+212A) and those whose upper or lower case is ASCII (U+0130, U+0131) are written
  out, other non-ASCII bytes are compared as they are.
\<close>

section \<open>Prefixes, suffixes, substrings\<close>

definition has_prefix :: "string \<Rightarrow> string \<Rightarrow> bool" where
  "has_prefix s p \<longleftrightarrow> take (length p) s = p"

definition has_suffix :: "string \<Rightarrow> string \<Rightarrow> bool" where
  "has_suffix s p \<longleftrightarrow> has_prefix (rev s) (rev p)"

definition trim_prefix :: "string \<Rightarrow> string \<Rightarrow> string" where
  "trim_prefix s p = (if has_prefix s p then drop (length p) s else s)"

definition trim_suffix :: "string \<Rightarrow> string \<Rightarrow> string" where
  "trim_suffix s p = (if has_suffix s p then take (length s - length p) s else s)"

text \<open>\<open>strings.Index\<close>.\<close>

fun index_of :: "string \<Rightarrow> string \<Rightarrow> nat option" where
  "index_of [] p = (if p = [] then Some 0 else None)"
| "index_of (c # s) p =
     (if has_prefix (c # s) p then Some 0 else map_option Suc (index_of s p))"

definition contains :: "string \<Rightarrow> string \<Rightarrow> bool" where
  "contains s p \<longleftrightarrow> index_of s p \<noteq> None"

text \<open>\<open>strings.Cut\<close>: what is before and after the first separator, and whether it is there.\<close>

definition cut :: "string \<Rightarrow> string \<Rightarrow> string \<times> string \<times> bool" where
  "cut s sep = (case index_of s sep of
     None \<Rightarrow> (s, [], False)
   | Some i \<Rightarrow> (take i s, drop (i + length sep) s, True))"

definition count_char :: "string \<Rightarrow> char \<Rightarrow> nat" where
  "count_char s c = length (filter (\<lambda>x. x = c) s)"

definition contains_any :: "string \<Rightarrow> string \<Rightarrow> bool" where
  "contains_any s cs \<longleftrightarrow> list_ex (\<lambda>c. c \<in> set cs) s"

lemma has_prefix_Nil [simp, go_str]: "has_prefix s []"
  by (simp add: has_prefix_def)

lemma has_prefix_Nil_Cons [simp, go_str]: "\<not> has_prefix [] (c # p)"
  by (simp add: has_prefix_def)

lemma has_prefix_Cons [simp, go_str]: "has_prefix (a # s) (c # p) \<longleftrightarrow> a = c \<and> has_prefix s p"
  by (auto simp: has_prefix_def)

lemma has_prefix_append [simp, go_str]: "has_prefix (p @ s) p"
  by (simp add: has_prefix_def)

lemma has_prefix_iff: "has_prefix s p \<longleftrightarrow> (\<exists>t. s = p @ t)"
  by (metis append_eq_conv_conj append_take_drop_id has_prefix_def)

lemma has_suffix_iff: "has_suffix s p \<longleftrightarrow> (\<exists>t. s = t @ p)"
  by (metis has_prefix_iff has_suffix_def rev_append rev_rev_ident)

lemma has_suffix_append [simp, go_str]: "has_suffix (s @ p) p"
  by (auto simp: has_suffix_iff)

lemma has_suffix_Nil [simp, go_str]: "has_suffix s []"
  by (simp add: has_suffix_def)

lemma trim_prefix_append [simp, go_str]: "trim_prefix (p @ s) p = s"
  by (simp add: trim_prefix_def)

lemma trim_prefix_no: "\<not> has_prefix s p \<Longrightarrow> trim_prefix s p = s"
  by (simp add: trim_prefix_def)

lemma trim_suffix_append [simp, go_str]: "trim_suffix (s @ p) p = s"
  by (simp add: trim_suffix_def)

lemma index_of_Some: "index_of s p = Some i \<Longrightarrow> s = take i s @ p @ drop (i + length p) s"
proof (induction s arbitrary: i)
  case Nil
  then show ?case by (auto split: if_splits)
next
  case (Cons c s)
  show ?case
  proof (cases "has_prefix (c # s) p")
    case True
    then have "i = 0" using Cons.prems by simp
    moreover obtain t where "c # s = p @ t" using True by (auto simp: has_prefix_iff)
    ultimately show ?thesis by simp
  next
    case False
    then obtain j where j: "index_of s p = Some j" "i = Suc j"
      using Cons.prems by (auto split: if_splits)
    show ?thesis using Cons.IH[OF j(1)] j(2) by simp
  qed
qed

lemma index_of_le: "index_of s p = Some i \<Longrightarrow> i + length p \<le> length s"
proof (induction s arbitrary: i)
  case Nil
  then show ?case by (auto split: if_splits)
next
  case (Cons c s)
  then show ?case
    by (fastforce simp: has_prefix_iff split: if_splits dest: arg_cong[where f = length])
qed

lemma index_of_single: "index_of s [c] = None \<longleftrightarrow> c \<notin> set s"
  by (induction s) auto

lemma index_of_single_append: "c \<notin> set s \<Longrightarrow> index_of (s @ c # t) [c] = Some (length s)"
  by (induction s) auto

lemma contains_single [simp, go_str]: "contains s [c] \<longleftrightarrow> c \<in> set s"
  by (auto simp: contains_def index_of_single)

lemma cut_single: "c \<notin> set s \<Longrightarrow> cut (s @ c # t) [c] = (s, t, True)"
  by (simp add: cut_def index_of_single_append)

lemma cut_single_None: "c \<notin> set s \<Longrightarrow> cut s [c] = (s, [], False)"
  by (simp add: cut_def index_of_single[THEN iffD2])

lemma cut_found: "cut s sep = (a, b, True) \<Longrightarrow> s = a @ sep @ b"
  by (auto simp: cut_def dest: index_of_Some split: option.splits)

lemma contains_any_iff: "contains_any s cs \<longleftrightarrow> set s \<inter> set cs \<noteq> {}"
  by (auto simp: contains_any_def list_ex_iff)

section \<open>Splitting and joining\<close>

text \<open>\<open>strings.Split\<close> with a separator of one byte, and with a longer one.\<close>

fun split_on :: "char \<Rightarrow> string \<Rightarrow> string list" where
  "split_on c [] = [[]]"
| "split_on c (x # xs) =
     (if x = c then [] # split_on c xs
      else (case split_on c xs of [] \<Rightarrow> [[x]] | y # ys \<Rightarrow> (x # y) # ys))"

function split_str :: "string \<Rightarrow> string \<Rightarrow> string list" where
  "split_str sep s =
     (if sep = [] then map (\<lambda>c. [c]) s
      else (case index_of s sep of
        None \<Rightarrow> [s]
      | Some i \<Rightarrow> take i s # split_str sep (drop (i + length sep) s)))"
  by pat_completeness auto
termination
proof (relation "measure (\<lambda>(sep, s). length s)")
  show "wf (measure (\<lambda>(sep :: string, s :: string). length s))" by simp
  show "\<And>sep s i. sep \<noteq> [] \<Longrightarrow> index_of s sep = Some i \<Longrightarrow>
      ((sep, drop (i + length sep) s), sep, s) \<in> measure (\<lambda>(sep, s). length s)"
    by (frule index_of_le) (auto simp: neq_Nil_conv)
qed

declare split_str.simps [simp del]

fun join :: "string \<Rightarrow> string list \<Rightarrow> string" where
  "join sep [] = []"
| "join sep [x] = x"
| "join sep (x # y # ys) = x @ sep @ join sep (y # ys)"

text \<open>\<open>strings.ReplaceAll\<close> of a non-empty substring.\<close>

definition replace_all :: "string \<Rightarrow> string \<Rightarrow> string \<Rightarrow> string" where
  "replace_all s old new = join new (split_str old s)"

lemma split_on_neq_Nil [simp]: "split_on c s \<noteq> []"
  by (induction s) (auto split: list.splits)

lemma split_on_no_sep: "p \<in> set (split_on c s) \<Longrightarrow> c \<notin> set p"
  by (induction s arbitrary: p) (auto split: list.splits if_splits)

lemma split_on_chars: "p \<in> set (split_on c s) \<Longrightarrow> set p \<subseteq> set s"
  by (induction s arbitrary: p) (fastforce split: list.splits if_splits)+

lemma join_Cons: "xs \<noteq> [] \<Longrightarrow> join sep (x # xs) = x @ sep @ join sep xs"
  by (cases xs) auto

lemma join_Cons_char: "join sep ((x # a) # l) = x # join sep (a # l)"
  by (cases l) auto

lemma join_split_on: "join [c] (split_on c s) = s"
proof (induction s)
  case (Cons x s)
  then show ?case by (cases "split_on c s") (auto simp: join_Cons join_Cons_char)
qed simp

lemma split_on_single: "c \<notin> set s \<Longrightarrow> split_on c s = [s]"
  by (induction s) auto

lemma split_on_append:
  "c \<notin> set s \<Longrightarrow> split_on c (s @ c # t) = s # split_on c t"
  by (induction s) auto

lemma split_on_join:
  "xs \<noteq> [] \<Longrightarrow> (\<forall>x \<in> set xs. c \<notin> set x) \<Longrightarrow> split_on c (join [c] xs) = xs"
  by (induction xs rule: induct_list012) (auto simp: split_on_single split_on_append)

lemma split_str_neq_Nil: "sep \<noteq> [] \<Longrightarrow> split_str sep s \<noteq> []"
  by (subst split_str.simps) (auto split: option.splits)

lemma split_str_None: "sep \<noteq> [] \<Longrightarrow> index_of s sep = None \<Longrightarrow> split_str sep s = [s]"
  by (subst split_str.simps) simp

lemma split_str_Some:
  "sep \<noteq> [] \<Longrightarrow> index_of s sep = Some i \<Longrightarrow>
   split_str sep s = take i s # split_str sep (drop (i + length sep) s)"
  by (subst split_str.simps) simp

lemma join_split_str: "sep \<noteq> [] \<Longrightarrow> join sep (split_str sep s) = s"
proof (induction sep s rule: split_str.induct)
  case (1 sep s)
  show ?case
  proof (cases "index_of s sep")
    case None
    then show ?thesis using "1.prems" by (simp add: split_str_None)
  next
    case (Some i)
    then have "join sep (split_str sep s) = take i s @ sep @ drop (i + length sep) s"
      using "1.IH"[OF "1.prems" Some "1.prems"] "1.prems"
      by (simp add: split_str_Some join_Cons split_str_neq_Nil)
    then show ?thesis using index_of_Some[OF Some] by simp
  qed
qed

end
