(* ===== verification/GoText.thy ===== *)
theory GoText
  imports GoStrings
begin

text \<open>
  White space, fields, letter case, runes and numbers of Go strings: \<open>strings.TrimSpace\<close>,
  \<open>strings.Fields\<close>, \<open>strings.ToLower\<close>, \<open>strings.ToUpper\<close>, \<open>strings.EqualFold\<close>, the
  conversion \<open>[]rune(s)\<close> with \<open>utf8.DecodeRune\<close>, \<open>strconv.FormatInt\<close>, \<open>strconv.ParseInt\<close>
  and the \<open>%q\<close> verb.
\<close>

section \<open>White space\<close>

definition ascii :: "char \<Rightarrow> bool" where
  "ascii c \<longleftrightarrow> byte c < 128"

definition ascii_space :: "char \<Rightarrow> bool" where
  "ascii_space c \<longleftrightarrow> c = SP \<or> c = TAB \<or> c = LF \<or> c = CHR 0x0B \<or> c = CHR 0x0C \<or> c = CR"

text \<open>The UTF-8 encodings of the white space runes above ASCII (\<open>unicode.IsSpace\<close>).\<close>

definition wide_spaces :: "string list" where
  "wide_spaces =
     [[CHR 0xC2, CHR 0x85], [CHR 0xC2, CHR 0xA0], [CHR 0xE1, CHR 0x9A, CHR 0x80],
      [CHR 0xE2, CHR 0x80, CHR 0x80], [CHR 0xE2, CHR 0x80, CHR 0x81], [CHR 0xE2, CHR 0x80, CHR 0x82],
      [CHR 0xE2, CHR 0x80, CHR 0x83], [CHR 0xE2, CHR 0x80, CHR 0x84], [CHR 0xE2, CHR 0x80, CHR 0x85],
      [CHR 0xE2, CHR 0x80, CHR 0x86], [CHR 0xE2, CHR 0x80, CHR 0x87], [CHR 0xE2, CHR 0x80, CHR 0x88],
      [CHR 0xE2, CHR 0x80, CHR 0x89], [CHR 0xE2, CHR 0x80, CHR 0x8A], [CHR 0xE2, CHR 0x80, CHR 0xA8],
      [CHR 0xE2, CHR 0x80, CHR 0xA9], [CHR 0xE2, CHR 0x80, CHR 0xAF], [CHR 0xE2, CHR 0x81, CHR 0x9F],
      [CHR 0xE3, CHR 0x80, CHR 0x80]]"

text \<open>Length of the white space rune a string begins with, 0 if it begins with another one.\<close>

fun space_len :: "string \<Rightarrow> nat" where
  "space_len [] = 0"
| "space_len (a # s) =
     (if ascii_space a then 1
      else if ascii a then 0
      else if take 2 (a # s) \<in> set wide_spaces then 2
      else if take 3 (a # s) \<in> set wide_spaces then 3
      else 0)"

text \<open>The same at the end of a string, which is given reversed.\<close>

fun space_len_rev :: "string \<Rightarrow> nat" where
  "space_len_rev [] = 0"
| "space_len_rev (a # s) =
     (if ascii_space a then 1
      else if ascii a then 0
      else if rev (take 2 (a # s)) \<in> set wide_spaces then 2
      else if rev (take 3 (a # s)) \<in> set wide_spaces then 3
      else 0)"

function trim_by :: "(string \<Rightarrow> nat) \<Rightarrow> string \<Rightarrow> string" where
  "trim_by len s = (if len s = 0 \<or> s = [] then s else trim_by len (drop (len s) s))"
  by pat_completeness auto
termination
  by (relation "measure (\<lambda>(len, s). length s)") auto

declare trim_by.simps [simp del]

definition trim_left_space :: "string \<Rightarrow> string" where
  "trim_left_space s = trim_by space_len s"

definition trim_right_space :: "string \<Rightarrow> string" where
  "trim_right_space s = rev (trim_by space_len_rev (rev s))"

definition trim_space :: "string \<Rightarrow> string" where
  "trim_space s = trim_right_space (trim_left_space s)"

text \<open>\<open>strings.TrimRight\<close> and \<open>strings.Trim\<close> with a cutset of ASCII characters.\<close>

definition trim_right :: "string \<Rightarrow> string \<Rightarrow> string" where
  "trim_right s cs = rev (dropWhile (\<lambda>c. c \<in> set cs) (rev s))"

definition trim_cutset :: "string \<Rightarrow> string \<Rightarrow> string" where
  "trim_cutset s cs = trim_right (dropWhile (\<lambda>c. c \<in> set cs) s) cs"

text \<open>\<open>strings.Fields\<close>: the maximal runs without white space. \<open>cur\<close> is the current run, reversed.\<close>

function fields_from :: "string \<Rightarrow> string \<Rightarrow> string list" where
  "fields_from cur [] = (if cur = [] then [] else [rev cur])"
| "fields_from cur (a # s) =
     (if space_len (a # s) = 0 then fields_from (a # cur) s
      else (if cur = [] then [] else [rev cur]) @
           fields_from [] (drop (space_len (a # s)) (a # s)))"
  by pat_completeness auto
termination
  by (relation "measure (\<lambda>(cur, s). length s)") auto

definition str_fields :: "string \<Rightarrow> string list" where
  "str_fields s = fields_from [] s"

definition has_space :: "string \<Rightarrow> bool" where
  "has_space s \<longleftrightarrow> list_ex ascii_space s"

lemma ascii_blanks [simp]:
  "ascii SP" "ascii TAB" "ascii LF" "ascii CR" "ascii_space SP" "ascii_space TAB"
  "ascii_space LF" "ascii_space CR"
  by (simp_all add: ascii_def ascii_space_def)

lemma wide_spaces_length: "w \<in> set wide_spaces \<Longrightarrow> length w = 2 \<or> length w = 3"
  by (auto simp: wide_spaces_def)

lemma wide_spaces_hd: "a # w \<in> set wide_spaces \<Longrightarrow> \<not> ascii a"
  by (auto simp: wide_spaces_def ascii_def)

lemma ascii_space_ascii: "ascii_space c \<Longrightarrow> ascii c"
  by (auto simp: ascii_space_def ascii_def)

lemma space_len_ascii [simp]: "ascii a \<Longrightarrow> space_len (a # s) = (if ascii_space a then 1 else 0)"
  by simp

lemma space_len_rev_ascii [simp]:
  "ascii a \<Longrightarrow> space_len_rev (a # s) = (if ascii_space a then 1 else 0)"
  by simp

declare space_len.simps(2) [simp del] space_len_rev.simps(2) [simp del]

lemma space_len_0_visible: "space_len (a # s) = 0 \<Longrightarrow> \<not> ascii_space a"
  by (auto simp: space_len.simps split: if_splits)

lemma space_len_prefix:
  assumes "space_len s = 0" "s = p @ q"
  shows "space_len p = 0"
proof (cases p)
  case (Cons a r)
  have s: "s = a # r @ q" using assms(2) Cons by simp
  have t: "take n p = take n s" if "take n p \<in> set wide_spaces" "n = 2 \<or> n = 3" for n
  proof (cases "n \<le> length p")
    case True then show ?thesis using assms(2) by simp
  next
    case False
    then have tp: "take n p = p" by simp
    then have "length p = 2 \<and> n = 3"
      using wide_spaces_length[of p] that False by auto
    then have "take 2 s = p" "p \<in> set wide_spaces" using assms(2) that(1) tp by auto
    then show ?thesis using assms(1) s wide_spaces_hd[of a r] Cons
      by (auto simp: space_len.simps ascii_space_ascii split: if_splits)
  qed
  show ?thesis
  proof (cases "ascii a")
    case True
    then show ?thesis using assms(1) s Cons by (auto simp: space_len_ascii split: if_splits)
  next
    case False
    then have "take 2 s \<notin> set wide_spaces" "take 3 s \<notin> set wide_spaces"
      using assms(1) s by (auto simp: space_len.simps split: if_splits)
    then have "take 2 p \<notin> set wide_spaces" "take 3 p \<notin> set wide_spaces"
      using t[of 2] t[of 3] by auto
    then show ?thesis using False Cons by (auto simp: space_len.simps ascii_space_ascii)
  qed
qed simp

lemma trim_by_fixed: "len s = 0 \<Longrightarrow> trim_by len s = s"
  by (subst trim_by.simps) simp

lemma trim_by_done: "trim_by len s = [] \<or> len (trim_by len s) = 0"
proof (induction len s rule: trim_by.induct)
  case (1 len s)
  show ?case
  proof (cases "len s = 0 \<or> s = []")
    case True then show ?thesis by (subst (1 2) trim_by.simps) auto
  next
    case False
    then have "trim_by len s = trim_by len (drop (len s) s)" by (subst trim_by.simps) simp
    then show ?thesis using "1"[OF False] by simp
  qed
qed

lemma trim_by_suffix: "\<exists>p. s = p @ trim_by len s"
proof (induction len s rule: trim_by.induct)
  case (1 len s)
  show ?case
  proof (cases "len s = 0 \<or> s = []")
    case True then show ?thesis by (subst trim_by.simps) auto
  next
    case False
    then obtain p where p: "drop (len s) s = p @ trim_by len (drop (len s) s)"
      using "1"[OF False] by blast
    have "trim_by len s = trim_by len (drop (len s) s)"
      using False by (subst trim_by.simps) simp
    then have "s = (take (len s) s @ p) @ trim_by len s"
      using p by (metis append.assoc append_take_drop_id)
    then show ?thesis by blast
  qed
qed

lemma trim_by_idem: "trim_by len (trim_by len s) = trim_by len s"
proof -
  have "trim_by len t = t" if "t = [] \<or> len t = 0" for t
    using that by (auto intro: trim_by_fixed) (subst trim_by.simps, simp)
  then show ?thesis using trim_by_done by metis
qed

lemma trim_right_space_prefix: "\<exists>q. s = trim_right_space s @ q"
proof -
  obtain p where "rev s = p @ trim_by space_len_rev (rev s)" using trim_by_suffix by blast
  then have "s = trim_right_space s @ rev p"
    by (simp add: trim_right_space_def) (metis rev_append rev_rev_ident)
  then show ?thesis by blast
qed

lemma trim_left_trimmed: "space_len (trim_left_space s) = 0"
  using trim_by_done[of space_len s] by (auto simp: trim_left_space_def)

lemma space_len_trim_space: "space_len (trim_space s) = 0"
  unfolding trim_space_def
  using trim_right_space_prefix[of "trim_left_space s"] space_len_prefix[OF trim_left_trimmed]
  by blast

lemma trim_space_idem [simp, go_str]: "trim_space (trim_space s) = trim_space s"
proof -
  have l: "trim_left_space (trim_space s) = trim_space s"
    unfolding trim_left_space_def by (rule trim_by_fixed) (rule space_len_trim_space)
  show ?thesis
    unfolding trim_space_def[of "trim_space s"] l
    by (simp add: trim_space_def trim_right_space_def trim_by_idem)
qed

lemma trim_space_Nil [simp, go_str]: "trim_space [] = []"
  by (simp add: trim_space_def trim_left_space_def trim_right_space_def trim_by.simps)

lemma trim_space_chars: "set (trim_space s) \<subseteq> set s"
proof -
  obtain p where "s = p @ trim_left_space s"
    using trim_by_suffix[of s space_len] by (auto simp: trim_left_space_def)
  moreover obtain q where "trim_left_space s = trim_space s @ q"
    using trim_right_space_prefix[of "trim_left_space s"] by (auto simp: trim_space_def)
  ultimately show ?thesis by (metis UnCI set_append subsetI)
qed

text \<open>A string whose first and last bytes are visible ASCII characters is not changed.\<close>

lemma trim_space_id:
  assumes "ascii (hd s)" "\<not> ascii_space (hd s)" "ascii (last s)" "\<not> ascii_space (last s)"
  shows "trim_space s = s"
proof (cases s)
  case (Cons a r)
  have l: "trim_left_space s = s"
    unfolding trim_left_space_def using assms(1,2) Cons by (auto intro!: trim_by_fixed)
  obtain b t where r: "rev s = b # t" "b = last s"
    using Cons by (metis last_rev hd_rev list.collapse list.discI rev_is_Nil_conv)
  have "trim_by space_len_rev (rev s) = rev s"
    using assms(3,4) r(2) by (intro trim_by_fixed) (simp add: r(1))
  then show ?thesis by (simp add: trim_space_def l trim_right_space_def)
qed simp

lemma fields_from_visible:
  "\<not> has_space cur \<Longrightarrow> f \<in> set (fields_from cur s) \<Longrightarrow> f \<noteq> [] \<and> \<not> has_space f"
proof (induction cur s rule: fields_from.induct)
  case (1 cur)
  then show ?case by (auto simp: has_space_def list_ex_iff split: if_splits)
next
  case (2 cur a s)
  show ?case
  proof (cases "space_len (a # s) = 0")
    case True
    then have "\<not> has_space (a # cur)"
      using "2.prems"(1) space_len_0_visible by (auto simp: has_space_def)
    then show ?thesis using "2.IH"(1)[OF True] "2.prems"(2) True by simp
  next
    case False
    have "\<not> has_space []" by (simp add: has_space_def)
    from "2.IH"(2)[OF False this] show ?thesis using "2.prems" False
      by (auto simp: has_space_def list_ex_iff split: if_splits)
  qed
qed

lemma fields_visible: "f \<in> set (str_fields s) \<Longrightarrow> f \<noteq> [] \<and> \<not> has_space f"
  unfolding str_fields_def by (rule fields_from_visible) (auto simp: has_space_def)

lemma fields_from_word:
  "list_all (\<lambda>c. ascii c \<and> \<not> ascii_space c) w \<Longrightarrow> fields_from cur (w @ s) = fields_from (rev w @ cur) s"
  by (induction w arbitrary: cur) auto

lemma fields_word_space:
  "list_all (\<lambda>c. ascii c \<and> \<not> ascii_space c) w \<Longrightarrow> w \<noteq> [] \<Longrightarrow>
   str_fields (w @ SP # s) = w # str_fields s"
  by (simp add: str_fields_def fields_from_word)

lemma fields_word:
  "list_all (\<lambda>c. ascii c \<and> \<not> ascii_space c) w \<Longrightarrow> w \<noteq> [] \<Longrightarrow> str_fields w = [w]"
  using fields_from_word[of w "[]" "[]"] by (simp add: str_fields_def)

section \<open>Letter case\<close>

definition is_upper :: "char \<Rightarrow> bool" where
  "is_upper c \<longleftrightarrow> 65 \<le> byte c \<and> byte c \<le> 90"

definition is_lower :: "char \<Rightarrow> bool" where
  "is_lower c \<longleftrightarrow> 97 \<le> byte c \<and> byte c \<le> 122"

definition is_digit :: "char \<Rightarrow> bool" where
  "is_digit c \<longleftrightarrow> 48 \<le> byte c \<and> byte c \<le> 57"

definition lower_char :: "char \<Rightarrow> char" where
  "lower_char c = (if is_upper c then char_of (byte c + 32) else c)"

definition upper_char :: "char \<Rightarrow> char" where
  "upper_char c = (if is_lower c then char_of (byte c - 32) else c)"

definition kelvin_sign :: string where "kelvin_sign = [CHR 0xE2, CHR 0x84, CHR 0xAA]"
definition long_s :: string where "long_s = [CHR 0xC5, CHR 0xBF]"
definition dotted_I :: string where "dotted_I = [CHR 0xC4, CHR 0xB0]"
definition dotless_i :: string where "dotless_i = [CHR 0xC4, CHR 0xB1]"

text \<open>Maps bytes with \<open>f\<close>, and each encoding of \<open>tab\<close> to the ASCII letter it stands for.\<close>

fun case_map :: "(string \<times> char) list \<Rightarrow> (char \<Rightarrow> char) \<Rightarrow> string \<Rightarrow> string" where
  "case_map tab f [] = []"
| "case_map tab f (a # s) =
     (case find (\<lambda>(e, c). has_prefix (a # s) e) tab of
        Some (e, c) \<Rightarrow> c # case_map tab f (drop (length e - 1) s)
      | None \<Rightarrow> f a # case_map tab f s)"

definition to_lower :: "string \<Rightarrow> string" where
  "to_lower s = (if list_all ascii s then map lower_char s
     else case_map [(dotted_I, CHR ''i''), (kelvin_sign, CHR ''k'')] lower_char s)"

definition to_upper :: "string \<Rightarrow> string" where
  "to_upper s = (if list_all ascii s then map upper_char s
     else case_map [(dotless_i, CHR ''I''), (long_s, CHR ''S'')] upper_char s)"

definition fold_case :: "string \<Rightarrow> string" where
  "fold_case s = (if list_all ascii s then map lower_char s
     else case_map [(long_s, CHR ''s''), (kelvin_sign, CHR ''k'')] lower_char s)"

definition equal_fold :: "string \<Rightarrow> string \<Rightarrow> bool" where
  "equal_fold s t \<longleftrightarrow> fold_case s = fold_case t"

lemma equal_fold_refl [simp, go_str]: "equal_fold s s"
  by (simp add: equal_fold_def)

lemma equal_fold_sym: "equal_fold s t = equal_fold t s"
  by (auto simp: equal_fold_def)

lemma equal_fold_trans: "equal_fold s t \<Longrightarrow> equal_fold t u \<Longrightarrow> equal_fold s u"
  by (simp add: equal_fold_def)

lemma fold_case_Nil_iff [simp]: "fold_case s = [] \<longleftrightarrow> s = []"
  by (cases s) (auto simp: fold_case_def split: option.splits)

lemma equal_fold_Nil [simp, go_str]: "equal_fold s [] \<longleftrightarrow> s = []"
  by (auto simp: equal_fold_def fold_case_def)
     (metis fold_case_Nil_iff fold_case_def)

section \<open>Runes\<close>

text \<open>\<open>utf8.DecodeRune\<close>: the rune and its width; invalid bytes are (U+FFFD, 1), the empty string (U+FFFD, 0).\<close>

definition in_range :: "nat \<Rightarrow> nat \<Rightarrow> char \<Rightarrow> bool" where
  "in_range lo hi c \<longleftrightarrow> lo \<le> byte c \<and> byte c \<le> hi"

definition rune_error :: nat where "rune_error = 65533"

fun decode2 :: "nat \<Rightarrow> string \<Rightarrow> nat \<times> nat" where
  "decode2 b0 (b # s) =
     (if in_range 128 191 b then ((b0 - 192) * 64 + (byte b - 128), 2) else (rune_error, 1))"
| "decode2 b0 [] = (rune_error, 1)"

fun decode3 :: "nat \<Rightarrow> string \<Rightarrow> nat \<times> nat" where
  "decode3 b0 (b # c # s) =
     (if in_range (if b0 = 224 then 160 else 128) (if b0 = 237 then 159 else 191) b
         \<and> in_range 128 191 c
      then ((b0 - 224) * 4096 + (byte b - 128) * 64 + (byte c - 128), 3)
      else (rune_error, 1))"
| "decode3 b0 s = (rune_error, 1)"

fun decode4 :: "nat \<Rightarrow> string \<Rightarrow> nat \<times> nat" where
  "decode4 b0 (b # c # d # s) =
     (if in_range (if b0 = 240 then 144 else 128) (if b0 = 244 then 143 else 191) b
         \<and> in_range 128 191 c \<and> in_range 128 191 d
      then ((b0 - 240) * 262144 + (byte b - 128) * 4096 + (byte c - 128) * 64 + (byte d - 128), 4)
      else (rune_error, 1))"
| "decode4 b0 s = (rune_error, 1)"

fun decode_rune :: "string \<Rightarrow> nat \<times> nat" where
  "decode_rune [] = (rune_error, 0)"
| "decode_rune (a # s) =
     (let b0 = byte a in
      if b0 < 128 then (b0, 1)
      else if 194 \<le> b0 \<and> b0 \<le> 223 then decode2 b0 s
      else if 224 \<le> b0 \<and> b0 \<le> 239 then decode3 b0 s
      else if 240 \<le> b0 \<and> b0 \<le> 244 then decode4 b0 s
      else (rune_error, 1))"

text \<open>The conversion \<open>[]rune(s)\<close>, which is also what \<open>for _, r := range s\<close> visits.\<close>

fun runes :: "string \<Rightarrow> nat list" where
  "runes [] = []"
| "runes (a # s) =
     fst (decode_rune (a # s)) # runes (drop (snd (decode_rune (a # s)) - 1) s)"

text \<open>\<open>utf8.ValidString\<close>.\<close>

fun valid_utf8 :: "string \<Rightarrow> bool" where
  "valid_utf8 [] = True"
| "valid_utf8 (a # s) =
     (decode_rune (a # s) \<noteq> (rune_error, 1)
      \<and> valid_utf8 (drop (snd (decode_rune (a # s)) - 1) s))"

text \<open>\<open>utf8.AppendRune\<close>, for the runes a decoder can return.\<close>

definition encode_rune :: "nat \<Rightarrow> string" where
  "encode_rune r =
     (if r < 128 then [char_of r]
      else if r < 2048 then [char_of (192 + r div 64), char_of (128 + r mod 64)]
      else if r < 65536 then
        [char_of (224 + r div 4096), char_of (128 + (r div 64) mod 64), char_of (128 + r mod 64)]
      else
        [char_of (240 + r div 262144), char_of (128 + (r div 4096) mod 64),
         char_of (128 + (r div 64) mod 64), char_of (128 + r mod 64)])"

lemma decode_rune_wide: "\<not> ascii a \<Longrightarrow> 128 \<le> fst (decode_rune (a # s))"
proof -
  assume a: "\<not> ascii a"
  have 2: "128 \<le> fst (decode2 b0 s)" if "194 \<le> b0" for b0
  proof (cases s)
    case (Cons b t)
    have "2 * 64 \<le> (b0 - 192) * (64::nat)" using that by (intro mult_le_mono1) simp
    then show ?thesis using Cons by (auto simp: rune_error_def)
  qed (simp add: rune_error_def)
  have 3: "128 \<le> fst (decode3 b0 s)" if "224 \<le> b0" for b0
  proof (cases "b0 = 224")
    case True
    then show ?thesis
      by (cases "(b0, s)" rule: decode3.cases) (auto simp: rune_error_def in_range_def)
  next
    case False
    then have "1 * 4096 \<le> (b0 - 224) * (4096::nat)" using that by (intro mult_le_mono1) simp
    then show ?thesis
      by (cases "(b0, s)" rule: decode3.cases) (auto simp: rune_error_def simp del: One_nat_def)
  qed
  have 4: "128 \<le> fst (decode4 b0 s)" if "240 \<le> b0" for b0
  proof (cases "b0 = 240")
    case True
    then show ?thesis
      by (cases "(b0, s)" rule: decode4.cases) (auto simp: rune_error_def in_range_def)
  next
    case False
    then have "1 * 262144 \<le> (b0 - 240) * (262144::nat)" using that by (intro mult_le_mono1) simp
    then show ?thesis
      by (cases "(b0, s)" rule: decode4.cases) (auto simp: rune_error_def simp del: One_nat_def)
  qed
  show ?thesis using a 2 3 4 by (auto simp: ascii_def Let_def rune_error_def)
qed

lemma runes_all_small: "list_all (\<lambda>r. r < 128) (runes s) \<Longrightarrow> list_all ascii s"
proof (induction s)
  case (Cons a s)
  have "ascii a" using Cons.prems decode_rune_wide[of a s] by fastforce
  then show ?case using Cons by (simp add: ascii_def Let_def)
qed simp

lemma runes_ascii: "list_all ascii s \<Longrightarrow> runes s = map byte s"
  by (induction s) (auto simp: ascii_def)

lemma valid_utf8_ascii: "list_all ascii s \<Longrightarrow> valid_utf8 s"
  by (induction s) (auto simp: ascii_def rune_error_def)

section \<open>Numbers\<close>

definition digit_char :: "nat \<Rightarrow> char" where
  "digit_char d = char_of (48 + d)"

fun digits_of :: "nat \<Rightarrow> string" where
  "digits_of n = (if n < 10 then [digit_char n] else digits_of (n div 10) @ [digit_char (n mod 10)])"

declare digits_of.simps [simp del]

text \<open>\<open>strconv.FormatInt(n, 10)\<close>, \<open>strconv.Itoa\<close> and the \<open>%d\<close> verb.\<close>

definition format_int :: "int \<Rightarrow> string" where
  "format_int n = (if n < 0 then CHR ''-'' # digits_of (nat (- n)) else digits_of (nat n))"

fun dec_value :: "nat \<Rightarrow> string \<Rightarrow> nat option" where
  "dec_value n [] = Some n"
| "dec_value n (c # s) =
     (if is_digit c then dec_value (10 * n + (byte c - 48)) s else None)"

text \<open>
  \<open>strconv.ParseInt(s, 10, 64)\<close> and \<open>strconv.Atoi\<close>: an optional sign, at least one digit, and
  the value in the range of \<open>int64\<close>. \<open>None\<close> is an error.
\<close>

definition parse_int :: "string \<Rightarrow> int option" where
  "parse_int s =
     (let (neg, t) = (case s of
          [] \<Rightarrow> (False, [])
        | c # r \<Rightarrow> if c = CHR ''-'' then (True, r) else if c = CHR ''+'' then (False, r) else (False, s))
      in if t = [] then None
         else (case dec_value 0 t of
             None \<Rightarrow> None
           | Some n \<Rightarrow>
               if neg then (if n \<le> 2 ^ 63 then Some (- int n) else None)
               else (if n < 2 ^ 63 then Some (int n) else None)))"

lemma is_digit_digit_char: "d < 10 \<Longrightarrow> is_digit (digit_char d)"
  by (simp add: is_digit_def digit_char_def)

lemma byte_digit_char: "d < 10 \<Longrightarrow> byte (digit_char d) = 48 + d"
  by (simp add: digit_char_def)

lemma digits_of_digits: "list_all is_digit (digits_of n)"
proof (induction n rule: digits_of.induct)
  case (1 n)
  then show ?case by (subst digits_of.simps) (auto simp: is_digit_digit_char)
qed

lemma digits_of_neq_Nil: "digits_of n \<noteq> []"
  by (subst digits_of.simps) simp

lemma dec_value_append:
  "dec_value n (s @ t) = (case dec_value n s of None \<Rightarrow> None | Some m \<Rightarrow> dec_value m t)"
  by (induction n s rule: dec_value.induct) auto

lemma dec_value_digits_of: "dec_value 0 (digits_of n) = Some n"
proof (induction n rule: digits_of.induct)
  case (1 n)
  show ?case
  proof (cases "n < 10")
    case True
    then show ?thesis
      by (subst digits_of.simps) (simp add: is_digit_digit_char byte_digit_char)
  next
    case False
    then have "dec_value 0 (digits_of (n div 10)) = Some (n div 10)" by (rule "1")
    then show ?thesis using False
      by (subst digits_of.simps) (simp add: dec_value_append is_digit_digit_char byte_digit_char)
  qed
qed

lemma digit_not_sign: "is_digit c \<Longrightarrow> c \<noteq> CHR ''-'' \<and> c \<noteq> CHR ''+''"
  by (auto simp: is_digit_def)

lemma digits_of_Cons: "\<exists>c s. digits_of n = c # s \<and> is_digit c"
  using digits_of_neq_Nil[of n] digits_of_digits[of n] by (cases "digits_of n") auto

lemma parse_int_format_int:
  assumes "- (2 ^ 63) \<le> n" "n < 2 ^ 63"
  shows "parse_int (format_int n) = Some n"
proof -
  obtain c s where c: "digits_of (nat \<bar>n\<bar>) = c # s" "is_digit c"
    using digits_of_Cons by blast
  have v: "dec_value 0 (c # s) = Some (nat \<bar>n\<bar>)"
    using dec_value_digits_of[of "nat \<bar>n\<bar>"] c by simp
  show ?thesis
  proof (cases "n < 0")
    case True
    then have "nat \<bar>n\<bar> \<le> 2 ^ 63" using assms(1) by (simp add: nat_le_iff)
    then show ?thesis
      using True c(1) v digits_of_neq_Nil[of "nat (-n)"]
      by (auto simp: parse_int_def format_int_def simp del: dec_value.simps)
  next
    case False
    then have "nat \<bar>n\<bar> < 2 ^ 63" using assms(2) by (simp add: nat_less_iff)
    then show ?thesis
      using False c(1) v digit_not_sign[OF c(2)]
      by (auto simp: parse_int_def format_int_def simp del: dec_value.simps)
  qed
qed

lemma format_int_chars: "c \<in> set (format_int n) \<Longrightarrow> is_digit c \<or> c = CHR ''-''"
  using digits_of_digits by (auto simp: format_int_def list_all_iff split: if_splits)

lemma format_int_neq_Nil [simp]: "format_int n \<noteq> []"
  by (simp add: format_int_def digits_of_neq_Nil)

text \<open>
  The \<open>%q\<close> verb (\<open>strconv.Quote\<close>). Valid runes above ASCII are taken to be printable.
\<close>

definition hex_char :: "nat \<Rightarrow> char" where
  "hex_char d = (if d < 10 then char_of (48 + d) else char_of (87 + d))"

definition hex_byte :: "char \<Rightarrow> string" where
  "hex_byte c = [hex_char (byte c div 16), hex_char (byte c mod 16)]"

text \<open>\<open>hex.EncodeToString\<close>.\<close>

definition hex_encode :: "string \<Rightarrow> string" where
  "hex_encode s = concat (map hex_byte s)"

definition quote_ascii :: "char \<Rightarrow> string" where
  "quote_ascii c =
     (if c = CHR 0x22 then [CHR 0x5C, CHR 0x22]
      else if c = CHR 0x5C then [CHR 0x5C, CHR 0x5C]
      else if c = CHR 0x07 then [CHR 0x5C, CHR ''a'']
      else if c = CHR 0x08 then [CHR 0x5C, CHR ''b'']
      else if c = CHR 0x0C then [CHR 0x5C, CHR ''f'']
      else if c = LF then [CHR 0x5C, CHR ''n'']
      else if c = CR then [CHR 0x5C, CHR ''r'']
      else if c = TAB then [CHR 0x5C, CHR ''t'']
      else if c = CHR 0x0B then [CHR 0x5C, CHR ''v'']
      else if byte c < 32 \<or> byte c = 127 then [CHR 0x5C, CHR ''x''] @ hex_byte c
      else [c])"

fun quote_from :: "string \<Rightarrow> string" where
  "quote_from [] = []"
| "quote_from (a # s) =
     (if ascii a then quote_ascii a @ quote_from s
      else if decode_rune (a # s) = (rune_error, 1)
      then [CHR 0x5C, CHR ''x''] @ hex_byte a @ quote_from s
      else take (snd (decode_rune (a # s))) (a # s)
             @ quote_from (drop (snd (decode_rune (a # s)) - 1) s))"

definition go_quote :: "string \<Rightarrow> string" where
  "go_quote s = [CHR 0x22] @ quote_from s @ [CHR 0x22]"

end
