(* ===== verification/GoTime.thy ===== *)
theory GoTime
  imports GoText
begin

text \<open>
  The part of Go's \<open>time\<close> package the server uses. An instant is the number of nanoseconds
  since 1970-01-01 00:00 UTC, as \<open>UnixNano\<close> counts them but unbounded. A \<open>Duration\<close> is a
  signed 64-bit number of nanoseconds: products wrap, the difference of two instants saturates.
\<close>

section \<open>Durations\<close>

definition wrap64 :: "int \<Rightarrow> int" where
  "wrap64 x = (x + 2 ^ 63) mod 2 ^ 64 - 2 ^ 63"

definition clamp64 :: "int \<Rightarrow> int" where
  "clamp64 x = max (- (2 ^ 63)) (min (2 ^ 63 - 1) x)"

abbreviation second :: int where "second \<equiv> 1000000000"
abbreviation minute :: int where "minute \<equiv> 60 * second"
abbreviation hour :: int where "hour \<equiv> 60 * minute"

text \<open>\<open>t.Sub(u)\<close>.\<close>

definition time_sub :: "int \<Rightarrow> int \<Rightarrow> int" where
  "time_sub t u = clamp64 (t - u)"

lemma wrap64_id: "- (2 ^ 63) \<le> x \<Longrightarrow> x < 2 ^ 63 \<Longrightarrow> wrap64 x = x"
  by (simp add: wrap64_def)

lemma wrap64_range: "- (2 ^ 63) \<le> wrap64 x \<and> wrap64 x < 2 ^ 63"
  by (simp add: wrap64_def)

lemma wrap64_cong: "wrap64 x mod 2 ^ 64 = x mod 2 ^ 64"
  by (simp add: wrap64_def mod_diff_left_eq)

section \<open>The calendar\<close>

text \<open>The zero \<open>time.Time\<close>, 0001-01-01 00:00 UTC.\<close>

definition zero_time :: int where "zero_time = - 62135596800 * second"

text \<open>Year, month and day of a day number counted from 1970-01-01, and back.\<close>

definition civil :: "int \<Rightarrow> int \<times> int \<times> int" where
  "civil day =
     (let z = day + 719468;
          era = z div 146097;
          doe = z mod 146097;
          yoe = (doe - doe div 1460 + doe div 36524 - doe div 146096) div 365;
          doy = doe - (365 * yoe + yoe div 4 - yoe div 100);
          mp = (5 * doy + 2) div 153;
          d = doy - (153 * mp + 2) div 5 + 1;
          m = (if mp < 10 then mp + 3 else mp - 9);
          y = yoe + era * 400 + (if m \<le> 2 then 1 else 0)
      in (y, m, d))"

definition day_number :: "int \<Rightarrow> int \<Rightarrow> int \<Rightarrow> int" where
  "day_number y m d =
     (let y' = (if m \<le> 2 then y - 1 else y);
          era = y' div 400;
          yoe = y' mod 400;
          doy = (153 * (if m > 2 then m - 3 else m + 9) + 2) div 5 + d - 1;
          doe = yoe * 365 + yoe div 4 - yoe div 100 + doy
      in era * 146097 + doe - 719468)"

definition leap_year :: "int \<Rightarrow> bool" where
  "leap_year y \<longleftrightarrow> y mod 4 = 0 \<and> (y mod 100 \<noteq> 0 \<or> y mod 400 = 0)"

definition days_in :: "int \<Rightarrow> int \<Rightarrow> int" where
  "days_in y m = (if m = 2 then (if leap_year y then 29 else 28)
                  else if m \<in> {4, 6, 9, 11} then 30 else 31)"

definition day_of :: "int \<Rightarrow> int" where "day_of t = t div (24 * hour)"

definition clock_of :: "int \<Rightarrow> int \<times> int \<times> int" where
  "clock_of t = (let s = (t div second) mod 86400 in (s div 3600, (s div 60) mod 60, s mod 60))"

definition weekday_name :: "int \<Rightarrow> string" where
  "weekday_name day = [''Sun'', ''Mon'', ''Tue'', ''Wed'', ''Thu'', ''Fri'', ''Sat''] ! nat ((day + 4) mod 7)"

definition month_name :: "int \<Rightarrow> string" where
  "month_name m = [''Jan'', ''Feb'', ''Mar'', ''Apr'', ''May'', ''Jun'', ''Jul'', ''Aug'', ''Sep'',
     ''Oct'', ''Nov'', ''Dec''] ! nat (m - 1)"

section \<open>Formats, in UTC\<close>

definition pad :: "char \<Rightarrow> nat \<Rightarrow> int \<Rightarrow> string" where
  "pad c w n = (let s = format_int n in replicate (w - length s) c @ s)"

abbreviation pad0 :: "nat \<Rightarrow> int \<Rightarrow> string" where "pad0 \<equiv> pad CHR ''0''"

definition hms :: "string \<Rightarrow> int \<Rightarrow> string" where
  "hms sep t = (let (h, m, s) = clock_of t in pad0 2 h @ sep @ pad0 2 m @ sep @ pad0 2 s)"

text \<open>\<open>time.RFC1123Z\<close>, \<open>time.ANSIC\<close>, \<open>time.RFC3339\<close>, \<open>20060102150405\<close> and \<open>2006-01-02\<close>.\<close>

definition format_rfc1123z :: "int \<Rightarrow> string" where
  "format_rfc1123z t =
     (let (y, m, d) = civil (day_of t)
      in weekday_name (day_of t) @ '', '' @ pad0 2 d @ '' '' @ month_name m @ '' '' @ pad0 4 y
         @ '' '' @ hms '':'' t @ '' +0000'')"

definition format_ansic :: "int \<Rightarrow> string" where
  "format_ansic t =
     (let (y, m, d) = civil (day_of t)
      in weekday_name (day_of t) @ '' '' @ month_name m @ '' '' @ pad SP 2 d @ '' '' @ hms '':'' t
         @ '' '' @ pad0 4 y)"

definition format_day :: "int \<Rightarrow> string" where
  "format_day t = (let (y, m, d) = civil (day_of t) in pad0 4 y @ ''-'' @ pad0 2 m @ ''-'' @ pad0 2 d)"

definition format_rfc3339 :: "int \<Rightarrow> string" where
  "format_rfc3339 t = format_day t @ ''T'' @ hms '':'' t @ ''Z''"

definition format_compact :: "int \<Rightarrow> string" where
  "format_compact t = (let (y, m, d) = civil (day_of t) in pad0 4 y @ pad0 2 m @ pad0 2 d @ hms [] t)"

lemma civil_epoch: "civil 0 = (1970, 1, 1)" "civil 19782 = (2024, 2, 29)" "civil (-719162) = (1, 1, 1)"
  by code_simp+

lemma day_number_epoch: "day_number 1970 1 1 = 0" "day_number 2024 2 29 = 19782" "day_number 1 1 1 = -719162"
  by code_simp+

end
