(* ===== verification/Lines.thy ===== *)
theory Lines
  imports GoStrings
begin

text \<open>
  Text made of lines. \<open>crlf_ok\<close> is the canonical form of Netnews text: every carriage return is
  followed by a line feed and every line feed follows a carriage return. The lemmas turn
  \<open>ReplaceAll\<close>, \<open>Split\<close> and \<open>Cut\<close> on line ends into recursions over such text.
\<close>

section \<open>Replacing\<close>

lemma replace_all_Nil [simp, go_str]: "old \<noteq> [] \<Longrightarrow> replace_all [] old new = []"
  by (simp add: replace_all_def split_str_None)

lemma index_of_here: "index_of (p @ s) p = Some 0"
  by (cases p) (cases s, simp_all)

lemma replace_all_hit: "old \<noteq> [] \<Longrightarrow> replace_all (old @ s) old new = new @ replace_all s old new"
  using split_str_Some[OF _ index_of_here[of old s]]
  by (simp add: replace_all_def join_Cons split_str_neq_Nil)

lemma replace_all_skip:
  "old \<noteq> [] \<Longrightarrow> \<not> has_prefix (c # s) old \<Longrightarrow>
   replace_all (c # s) old new = c # replace_all s old new"
  by (cases "index_of s old")
     (auto simp: replace_all_def split_str_None split_str_Some[of old s] split_str_Some[of old "c # s"]
        join_Cons split_str_neq_Nil)

lemma replace_char [go_str]:
  "replace_all s [x] new = concat (map (\<lambda>c. if c = x then new else [c]) s)"
proof (induction s)
  case (Cons c s)
  then show ?case using replace_all_hit[of "[x]" s new] replace_all_skip[of "[x]" c s new] by auto
qed simp

lemma replace_char_none: "x \<notin> set s \<Longrightarrow> replace_all s [x] new = s"
  by (induction s) (auto simp: replace_char)

section \<open>Canonical line ends\<close>

fun crlf_ok :: "string \<Rightarrow> bool" where
  "crlf_ok [] = True"
| "crlf_ok (c # s) =
     (if c = CR then (case s of [] \<Rightarrow> False | d # t \<Rightarrow> d = LF \<and> crlf_ok t)
      else c \<noteq> LF \<and> crlf_ok s)"

abbreviation plain :: "string \<Rightarrow> bool" where
  "plain s \<equiv> CR \<notin> set s \<and> LF \<notin> set s"

lemma crlf_ok_plain [simp]: "plain s \<Longrightarrow> crlf_ok (s @ t) = crlf_ok t"
  by (induction s) auto

lemma crlf_ok_plain_only: "plain s \<Longrightarrow> crlf_ok s"
  using crlf_ok_plain[of s "[]"] by simp

lemma crlf_ok_append: "crlf_ok s \<Longrightarrow> crlf_ok (s @ t) = crlf_ok t"
proof (induction s rule: crlf_ok.induct)
  case (2 c s)
  then show ?case by (cases "c = CR"; cases s) auto
qed simp

lemma crlf_ok_concat: "(\<forall>l \<in> set ls. crlf_ok l) \<Longrightarrow> crlf_ok (concat ls)"
  by (induction ls) (auto simp: crlf_ok_append)

lemma crlf_ok_line [simp]: "plain s \<Longrightarrow> crlf_ok (s @ CR # LF # t) = crlf_ok t"
  by simp

lemma crlf_ok_cases:
  assumes "crlf_ok s"
  obtains "plain s" | l t where "s = l @ CRLF @ t" "plain l" "crlf_ok t"
proof -
  have "plain s \<or> (\<exists>l t. s = l @ CRLF @ t \<and> plain l \<and> crlf_ok t)"
    using assms
  proof (induction s rule: crlf_ok.induct)
    case (2 c s)
    show ?case
    proof (cases "c = CR")
      case True
      then obtain t where "c # s = [] @ CRLF @ t" "crlf_ok t"
        using "2.prems" by (auto split: list.splits)
      then show ?thesis by (metis empty_iff empty_set)
    next
      case False
      then have c: "c \<noteq> LF" "crlf_ok s" using "2.prems" by auto
      then have "plain s \<or> (\<exists>l t. s = l @ CRLF @ t \<and> plain l \<and> crlf_ok t)"
        using "2.IH"(2) False by blast
      then show ?thesis
      proof
        assume "plain s"
        then show ?thesis using c False by auto
      next
        assume "\<exists>l t. s = l @ CRLF @ t \<and> plain l \<and> crlf_ok t"
        then obtain l t where "s = l @ CRLF @ t" "plain l" "crlf_ok t" by blast
        then have "c # s = (c # l) @ CRLF @ t \<and> plain (c # l) \<and> crlf_ok t" using c False by auto
        then show ?thesis by blast
      qed
    qed
  qed simp
  then show thesis using that by blast
qed

section \<open>Splitting at line ends\<close>

lemma index_of_CRLF: "plain l \<Longrightarrow> index_of (l @ CR # LF # t) CRLF = Some (length l)"
  by (induction l) auto

lemma index_of_CRLF_None: "plain l \<Longrightarrow> index_of l CRLF = None"
  by (induction l) auto

lemma split_CRLF_line: "plain l \<Longrightarrow> split_str CRLF (l @ CR # LF # t) = l # split_str CRLF t"
  using split_str_Some[OF _ index_of_CRLF[of l t]] by simp

lemma split_CRLF_plain: "plain l \<Longrightarrow> split_str CRLF l = [l]"
  by (simp add: split_str_None index_of_CRLF_None)

lemma split_CRLF_join:
  "ls \<noteq> [] \<Longrightarrow> (\<forall>l \<in> set ls. plain l) \<Longrightarrow> split_str CRLF (join CRLF ls) = ls"
  by (induction ls rule: induct_list012) (auto simp: split_CRLF_plain split_CRLF_line)

lemma split_CRLF_all_plain: "crlf_ok s \<Longrightarrow> l \<in> set (split_str CRLF s) \<Longrightarrow> plain l"
proof (induction s arbitrary: l rule: length_induct)
  case (1 s)
  from \<open>crlf_ok s\<close> show ?case
  proof (cases rule: crlf_ok_cases)
    case 1
    then show ?thesis using "1.prems" by (simp add: split_CRLF_plain)
  next
    case (2 k t)
    then have "l = k \<or> l \<in> set (split_str CRLF t)" using "1.prems" by (simp add: split_CRLF_line)
    moreover have "length t < length s" using 2 by simp
    ultimately show ?thesis using "1.IH" 2 by blast
  qed
qed

lemma join_line_ends: "ls \<noteq> [] \<Longrightarrow> join sep ls @ sep = concat (map (\<lambda>l. l @ sep) ls)"
  by (induction ls rule: induct_list012) auto

end
