(* ===== verification/Article.thy ===== *)
theory Article
  imports GoTime Lines
begin

text \<open>
  Netnews articles: \<open>internal/article\<close>. An article is parsed from the wire into a header map
  and a body, checked and completed at injection (\<open>InjectForPost\<close>) or at transfer
  (\<open>InjectForIHave\<close>), and written back (\<open>Wire\<close>). The header map is an association list: its
  order is the unspecified order in which Go's \<open>range\<close> visits a map, here the same for all
  loops over one map.
\<close>

section \<open>Parsing\<close>

record article =
  raw_headers :: string
  body :: string
  headers :: "(string \<times> string list) list"

datatype article_error =
    No_Separator | Folded_Header | Malformed_Header
  | Missing_From | Missing_Newsgroups | Missing_Subject | Bad_Group string
  | Missing_Message_ID | Bad_Message_ID | Missing_Date | Path_Loop

definition article_error_text :: "article_error \<Rightarrow> string" where
  "article_error_text e = (case e of
     No_Separator \<Rightarrow> ''article has no header/body separator''
   | Folded_Header \<Rightarrow> ''folded header with no name''
   | Malformed_Header \<Rightarrow> ''malformed header line''
   | Missing_From \<Rightarrow> ''missing From''
   | Missing_Newsgroups \<Rightarrow> ''missing Newsgroups''
   | Missing_Subject \<Rightarrow> ''missing Subject''
   | Bad_Group g \<Rightarrow> ''bad newsgroup name '' @ go_quote g
   | Missing_Message_ID \<Rightarrow> ''missing Message-ID''
   | Bad_Message_ID \<Rightarrow> ''bad Message-ID''
   | Missing_Date \<Rightarrow> ''missing Date''
   | Path_Loop \<Rightarrow> ''path loop'')"

definition normalize_newlines :: "string \<Rightarrow> string" where
  "normalize_newlines b =
     replace_all (replace_all (replace_all b CRLF [LF]) [CR] [LF]) [LF] CRLF"

text \<open>The local state of \<open>parseHeaders\<close>: the pending name and value, and the map.\<close>

record header_state =
  cur_name :: string
  cur_val :: string
  hdrs :: "(string \<times> string list) list"

definition header_values :: "(string \<times> string list) list \<Rightarrow> string \<Rightarrow> string list" where
  "header_values h k = (case map_of h k of None \<Rightarrow> [] | Some vs \<Rightarrow> vs)"

definition flush_header :: "header_state \<Rightarrow> header_state" where
  "flush_header st =
     (if cur_name st = [] then st
      else \<lparr>cur_name = [], cur_val = [],
            hdrs = AList.update (cur_name st)
                     (header_values (hdrs st) (cur_name st) @ [trim_space (cur_val st)]) (hdrs st)\<rparr>)"

fun header_line :: "string \<Rightarrow> header_state \<Rightarrow> article_error + header_state" where
  "header_line [] st = Inr st"
| "header_line (c # cs) st =
     (if c = SP \<or> c = TAB then
        if cur_name st = [] then Inl Folded_Header
        else Inr (st\<lparr>cur_val := cur_val st @ '' '' @ trim_space (c # cs)\<rparr>)
      else
        let st' = flush_header st; (name, val, ok) = cut (c # cs) '':'' in
        if \<not> ok then Inl Malformed_Header
        else Inr (st'\<lparr>cur_name := name, cur_val := cur_val st' @ trim_prefix val '' ''\<rparr>))"

fun header_lines :: "string list \<Rightarrow> header_state \<Rightarrow> article_error + header_state" where
  "header_lines [] st = Inr (flush_header st)"
| "header_lines (l # ls) st =
     (case header_line l st of Inl e \<Rightarrow> Inl e | Inr st' \<Rightarrow> header_lines ls st')"

definition parse_headers :: "string \<Rightarrow> article_error + (string \<times> string list) list" where
  "parse_headers head =
     map_sum id hdrs (header_lines (split_str CRLF head) \<lparr>cur_name = [], cur_val = [], hdrs = []\<rparr>)"

definition make_article :: "string \<Rightarrow> string \<Rightarrow> article_error + article" where
  "make_article head bdy =
     map_sum id (\<lambda>h. \<lparr>raw_headers = head, body = bdy, headers = h\<rparr>) (parse_headers head)"

definition parse_article :: "string \<Rightarrow> article_error + article" where
  "parse_article raw =
     (let text = normalize_newlines raw; (head, bdy, ok) = cut text (CRLF @ CRLF) in
      if ok then make_article head bdy
      else if has_suffix text CRLF then make_article (trim_suffix text CRLF) []
      else Inl No_Separator)"

section \<open>Header access\<close>

fun first_header :: "(string \<times> string list) list \<Rightarrow> string \<Rightarrow> string" where
  "first_header [] name = []"
| "first_header ((k, vs) # hs) name =
     (if equal_fold k name \<and> vs \<noteq> [] then hd vs else first_header hs name)"

definition get_header :: "article \<Rightarrow> string \<Rightarrow> string" where
  "get_header a name = first_header (headers a) name"

definition drop_header :: "string \<Rightarrow> article \<Rightarrow> article" where
  "drop_header name a = a\<lparr>headers := filter (\<lambda>(k, vs). \<not> equal_fold k name) (headers a)\<rparr>"

definition set_header :: "string \<Rightarrow> string \<Rightarrow> article \<Rightarrow> article" where
  "set_header name v a =
     (let a' = drop_header name a in a'\<lparr>headers := AList.update name [v] (headers a')\<rparr>)"

definition has_header :: "article \<Rightarrow> string \<Rightarrow> bool" where
  "has_header a name = (get_header a name \<noteq> [])"

definition newsgroups :: "article \<Rightarrow> string list" where
  "newsgroups a =
     (let raw = get_header a ''Newsgroups'' in
      if raw = [] then []
      else filter (\<lambda>g. g \<noteq> []) (map trim_space (split_on CHR '','' raw)))"

section \<open>Writing\<close>

definition wire_order :: "string list" where
  "wire_order =
     [''Path'', ''From'', ''Newsgroups'', ''Subject'', ''Date'', ''Message-ID'',
      ''Organization'', ''Injection-Date'', ''Injection-Info'', ''References'',
      ''Followup-To'', ''Reply-To'', ''Sender'', ''Expires'', ''Distribution'',
      ''Keywords'', ''Summary'', ''Approved'', ''Control'', ''MIME-Version'',
      ''Content-Type'', ''Content-Transfer-Encoding'', ''User-Agent'', ''Xref'']"

definition header_text :: "string \<times> string \<Rightarrow> string" where
  "header_text h = fst h @ '': '' @ snd h @ CRLF"

definition entry_lines :: "string \<times> string list \<Rightarrow> (string \<times> string) list" where
  "entry_lines h = map (\<lambda>v. (fst h, v)) (snd h)"

text \<open>The name/value pairs in the order \<open>Wire\<close> writes them.\<close>

definition wire_lines :: "(string \<times> string list) list \<Rightarrow> (string \<times> string) list" where
  "wire_lines hs =
     concat (map (\<lambda>name. concat (map entry_lines (filter (\<lambda>(k, vs). equal_fold k name) hs))) wire_order)
     @ concat (map entry_lines
         (filter (\<lambda>(k, vs). \<not> list_ex (\<lambda>name. equal_fold k name) wire_order) hs))"

definition wire :: "article \<Rightarrow> string" where
  "wire a =
     concat (map header_text (wire_lines (headers a))) @ CRLF @ body a
     @ (if body a \<noteq> [] \<and> \<not> has_suffix (body a) CRLF then CRLF else [])"

definition article_bytes :: "article \<Rightarrow> nat" where
  "article_bytes a = length (wire a)"

definition body_lines :: "string \<Rightarrow> nat" where
  "body_lines b =
     (if b = [] then 0
      else count_char b LF + (if has_suffix b [LF] then 0 else 1))"

definition article_lines :: "article \<Rightarrow> nat" where
  "article_lines a = body_lines (body a)"

definition sanitize_overview :: "string \<Rightarrow> string" where
  "sanitize_overview s =
     replace_all (replace_all (replace_all s [TAB] [SP]) [CR] [SP]) [LF] [SP]"

definition overview_fields :: "int \<Rightarrow> article \<Rightarrow> string \<Rightarrow> string list" where
  "overview_fields num a xref =
     [format_int num,
      sanitize_overview (get_header a ''Subject''),
      sanitize_overview (get_header a ''From''),
      sanitize_overview (get_header a ''Date''),
      sanitize_overview (get_header a ''Message-ID''),
      sanitize_overview (get_header a ''References''),
      format_int (int (article_bytes a)),
      format_int (int (article_lines a))]
     @ (if xref \<noteq> [] then [''Xref: '' @ xref] else [])"

definition overview_line :: "int \<Rightarrow> article \<Rightarrow> string \<Rightarrow> string" where
  "overview_line num a xref = join [TAB] (overview_fields num a xref)"

section \<open>Names\<close>

definition max_message_id :: nat where "max_message_id = 250"

definition group_rune :: "nat \<Rightarrow> bool" where
  "group_rune r \<longleftrightarrow>
     65 \<le> r \<and> r \<le> 90 \<or> 97 \<le> r \<and> r \<le> 122 \<or> 48 \<le> r \<and> r \<le> 57 \<or> r \<in> {46, 43, 45, 95}"

definition valid_group_name :: "string \<Rightarrow> bool" where
  "valid_group_name g =
     (g \<noteq> [] \<and> length g \<le> 255
      \<and> list_all (\<lambda>r. r \<le> 127 \<and> group_rune r) (runes g)
      \<and> \<not> (has_prefix g ''.'' \<or> has_suffix g ''.'' \<or> contains g ''..''))"

definition valid_message_id :: "string \<Rightarrow> bool" where
  "valid_message_id s =
     (if length s < 3 \<or> length s > max_message_id then False
      else if hd s \<noteq> CHR ''<'' \<or> last s \<noteq> CHR ''>'' then False
      else
        let inner = drop 1 (take (length s - 1) s) in
        \<not> contains_any inner (''<> '' @ [TAB, CR, LF])
        \<and> list_all (\<lambda>c. 33 \<le> byte c \<and> byte c \<le> 126) inner
        \<and> contains inner ''@'')"

text \<open>The clock reading and the eight random bytes are arguments.\<close>

definition generate_message_id :: "string \<Rightarrow> int \<Rightarrow> string \<Rightarrow> string" where
  "generate_message_id host clock rnd =
     ''<'' @ format_int clock @ ''.'' @ hex_encode rnd @ ''@''
     @ (if host = [] then ''localhost'' else host) @ ''>''"

definition path_contains :: "string \<Rightarrow> string \<Rightarrow> bool" where
  "path_contains path token =
     (let t = trim_space token in
      if t = [] \<or> path = [] then False
      else list_ex (\<lambda>hop. equal_fold hop t) (split_on CHR ''!'' path))"

section \<open>Injection\<close>

record inject_opts =
  pathhost :: string
  hostname :: string
  organization :: string
  io_now :: int

definition strip_xref :: "article \<Rightarrow> article" where
  "strip_xref a = drop_header ''Xref'' a"

definition check_required :: "article \<Rightarrow> article_error option" where
  "check_required a =
     (if trim_space (get_header a ''From'') = [] then Some Missing_From
      else if newsgroups a = [] then Some Missing_Newsgroups
      else if trim_space (get_header a ''Subject'') = [] then Some Missing_Subject
      else map_option Bad_Group (find (\<lambda>g. \<not> valid_group_name g) (newsgroups a)))"

definition default_header :: "string \<Rightarrow> string \<Rightarrow> article \<Rightarrow> article" where
  "default_header name v a = (if has_header a name then a else set_header name v a)"

definition fill_path :: "inject_opts \<Rightarrow> article \<Rightarrow> article" where
  "fill_path opt a =
     (if \<not> has_header a ''Path'' then set_header ''Path'' (pathhost opt @ ''!not-for-mail'') a
      else if \<not> has_prefix (get_header a ''Path'') (pathhost opt @ ''!'')
      then set_header ''Path'' (pathhost opt @ ''!'' @ get_header a ''Path'') a
      else a)"

definition fill_organization :: "inject_opts \<Rightarrow> article \<Rightarrow> article" where
  "fill_organization opt a =
     (if organization opt \<noteq> [] then default_header ''Organization'' (organization opt) a else a)"

definition injection_info :: "inject_opts \<Rightarrow> string" where
  "injection_info opt =
     hostname opt @ ''; posting-account='' @ [CHR 0x22] @ ''openusenet'' @ [CHR 0x22]"

definition fill_post_headers :: "inject_opts \<Rightarrow> int \<Rightarrow> article \<Rightarrow> article" where
  "fill_post_headers opt now a =
     strip_xref
       (default_header ''Injection-Info'' (injection_info opt)
         (default_header ''Injection-Date'' (format_rfc1123z now)
           (fill_organization opt
             (fill_path opt (default_header ''Date'' (format_rfc1123z now) a)))))"

definition inject_for_post ::
  "inject_opts \<Rightarrow> int \<Rightarrow> string \<Rightarrow> article \<Rightarrow> article_error + article" where
  "inject_for_post opt clock rnd a =
     (let now = (if io_now opt = zero_time then clock else io_now opt) in
      case check_required a of Some e \<Rightarrow> Inl e
      | None \<Rightarrow>
        let msgid = trim_space (get_header a ''Message-ID'') in
        if msgid \<noteq> [] \<and> \<not> valid_message_id msgid then Inl Bad_Message_ID
        else
          let a0 = set_header ''Message-ID''
                     (if msgid \<noteq> [] then msgid else generate_message_id (hostname opt) clock rnd) a
          in Inr (fill_post_headers opt now a0))"

text \<open>\<open>InjectForIHave\<close> may have rewritten the Message-ID before it fails, so it returns the
  article with the error.\<close>

definition inject_for_ihave :: "inject_opts \<Rightarrow> article \<Rightarrow> article \<times> article_error option" where
  "inject_for_ihave opt a =
     (case check_required a of Some e \<Rightarrow> (a, Some e)
      | None \<Rightarrow>
        let msgid = trim_space (get_header a ''Message-ID'') in
        if msgid = [] then (a, Some Missing_Message_ID)
        else if \<not> valid_message_id msgid then (a, Some Bad_Message_ID)
        else
          let a1 = set_header ''Message-ID'' msgid a in
          if trim_space (get_header a1 ''Date'') = [] then (a1, Some Missing_Date)
          else if path_contains (get_header a1 ''Path'') (pathhost opt) then (a1, Some Path_Loop)
          else
            let a2 = (if \<not> has_header a1 ''Path'' then set_header ''Path'' (pathhost opt @ ''!not-for-mail'') a1
                      else set_header ''Path'' (pathhost opt @ ''!'' @ get_header a1 ''Path'') a1)
            in (strip_xref a2, None))"

section \<open>Policy\<close>

text \<open>\<open>ParseDate\<close> tries ten layouts of \<open>time.Parse\<close>; the parser is the argument \<open>parse_date\<close>.\<close>

definition too_old :: "(string \<Rightarrow> int option) \<Rightarrow> string \<Rightarrow> int \<Rightarrow> int \<Rightarrow> int \<Rightarrow> bool" where
  "too_old parse_date date_hdr cutoff_days now clock =
     (if cutoff_days \<le> 0 then False
      else
        let now' = (if now = zero_time then clock else now) in
        case parse_date date_hdr of None \<Rightarrow> False
        | Some t \<Rightarrow> time_sub now' t > wrap64 (cutoff_days * 24 * hour))"

definition cancel_target :: "article \<Rightarrow> string" where
  "cancel_target a =
     (let ctrl = trim_space (get_header a ''Control'') in
      if ctrl = [] then []
      else case str_fields ctrl of
        f0 # f1 # _ \<Rightarrow>
          if \<not> equal_fold f0 ''cancel'' then []
          else if valid_message_id (trim_space f1) then trim_space f1 else []
      | _ \<Rightarrow> [])"

definition supersedes_target :: "article \<Rightarrow> string" where
  "supersedes_target a =
     (let s = trim_space (get_header a ''Supersedes'') in if valid_message_id s then s else [])"

section \<open>UTF-8\<close>

function sanitize_from :: "string \<Rightarrow> string" where
  "sanitize_from [] = []"
| "sanitize_from (c # s) =
     (if byte c < 32 \<and> c \<noteq> TAB \<and> c \<noteq> LF \<and> c \<noteq> CR then sanitize_from s
      else
        let (r, size) = decode_rune (c # s) in
        if r \<noteq> rune_error \<or> size > 1 then encode_rune r @ sanitize_from (drop (size - 1) s)
        else encode_rune (byte c) @ sanitize_from s)"
  by pat_completeness auto
termination by (relation "measure length") auto

definition sanitize_utf8 :: "string \<Rightarrow> string" where
  "sanitize_utf8 s = (if valid_utf8 s \<and> CHR 0x00 \<notin> set s then s else sanitize_from s)"

section \<open>Line ends of a parsed article\<close>

lemma replace_plain: "plain l \<Longrightarrow> replace_all (l @ t) CRLF new = l @ replace_all t CRLF new"
  by (induction l) (auto simp: replace_all_skip)

lemma replace_CRLF_line: "plain l \<Longrightarrow> replace_all (l @ CR # LF # t) CRLF [LF] = l @ LF # replace_all t CRLF [LF]"
  using replace_all_hit[of CRLF t "[LF]"] by (simp add: replace_plain)

lemma unix_lines:
  "crlf_ok s \<Longrightarrow> CR \<notin> set (replace_all s CRLF [LF]) \<and> replace_all (replace_all s CRLF [LF]) [LF] CRLF = s"
proof (induction s rule: length_induct)
  case (1 s)
  from \<open>crlf_ok s\<close> show ?case
  proof (cases rule: crlf_ok_cases)
    case 1
    then show ?thesis using replace_plain[of s "[]" "[LF]"] by (simp add: replace_char_none)
  next
    case (2 l t)
    then have "length t < length s" by simp
    then have "CR \<notin> set (replace_all t CRLF [LF])" "replace_all (replace_all t CRLF [LF]) [LF] CRLF = t"
      using "1.IH" 2 by blast+
    moreover have "replace_all s CRLF [LF] = l @ LF # replace_all t CRLF [LF]"
      using 2 by (simp add: replace_CRLF_line)
    moreover have "replace_all (l @ LF # u) [LF] CRLF = l @ CRLF @ replace_all u [LF] CRLF" for u
      using 2 replace_char_none[of LF l CRLF] by (simp add: replace_char)
    ultimately show ?thesis using 2 by simp
  qed
qed

lemma normalize_newlines_id: "crlf_ok s \<Longrightarrow> normalize_newlines s = s"
  using unix_lines[of s] by (simp add: normalize_newlines_def replace_char_none)

lemma crlf_ok_unix: "CR \<notin> set u \<Longrightarrow> crlf_ok (replace_all u [LF] CRLF)"
  by (induction u) (auto simp: replace_char)

lemma crlf_ok_normalize: "crlf_ok (normalize_newlines s)"
proof -
  have "CR \<notin> set (replace_all u [CR] [LF])" for u
    by (auto simp: replace_char)
  then show ?thesis by (simp add: normalize_newlines_def crlf_ok_unix)
qed

section \<open>Writing and reading back\<close>

definition header_name_ok :: "string \<Rightarrow> bool" where
  "header_name_ok k \<longleftrightarrow> k \<noteq> [] \<and> plain k \<and> CHR '':'' \<notin> set k \<and> hd k \<noteq> SP \<and> hd k \<noteq> TAB"

definition header_value_ok :: "string \<Rightarrow> bool" where
  "header_value_ok v \<longleftrightarrow> plain v \<and> trim_space v = v"

text \<open>What every stored header map looks like: one spelling per name, no empty entry.\<close>

definition wf_headers :: "(string \<times> string list) list \<Rightarrow> bool" where
  "wf_headers hs \<longleftrightarrow>
     distinct (map (fold_case \<circ> fst) hs)
     \<and> list_all (\<lambda>(k, vs). header_name_ok k \<and> vs \<noteq> [] \<and> list_all header_value_ok vs) hs"

definition wf_article :: "article \<Rightarrow> bool" where
  "wf_article a \<longleftrightarrow> headers a \<noteq> [] \<and> wf_headers (headers a) \<and> crlf_ok (body a)"

definition pair_line :: "string \<times> string \<Rightarrow> string" where
  "pair_line p = fst p @ '': '' @ snd p"

definition pair_ok :: "string \<times> string \<Rightarrow> bool" where
  "pair_ok p \<longleftrightarrow> header_name_ok (fst p) \<and> header_value_ok (snd p)"

definition add_header :: "string \<times> string \<Rightarrow> (string \<times> string list) list \<Rightarrow> (string \<times> string list) list" where
  "add_header p h = AList.update (fst p) (header_values h (fst p) @ [snd p]) h"

abbreviation pending :: "string \<times> string \<Rightarrow> (string \<times> string list) list \<Rightarrow> header_state" where
  "pending p h \<equiv> \<lparr>cur_name = fst p, cur_val = snd p, hdrs = h\<rparr>"

lemma flush_pending:
  "pair_ok p \<Longrightarrow> flush_header (pending p h) = \<lparr>cur_name = [], cur_val = [], hdrs = add_header p h\<rparr>"
  by (simp add: flush_header_def pair_ok_def header_name_ok_def header_value_ok_def add_header_def)

lemma cut_pair_line:
  "pair_ok p \<Longrightarrow> cut (pair_line p) '':'' = (fst p, SP # snd p, True)"
  using cut_single[of "CHR '':''" "fst p" "SP # snd p"]
  by (simp add: pair_ok_def header_name_ok_def pair_line_def)

lemma header_line_pair:
  assumes "pair_ok p" "cur_name st \<noteq> [] \<or> cur_val st = []"
  shows "header_line (pair_line p) st = Inr (pending p (hdrs (flush_header st)))"
proof -
  obtain c cs where l: "pair_line p = c # cs" "c \<noteq> SP" "c \<noteq> TAB"
    using assms(1) by (cases "fst p") (auto simp: pair_line_def pair_ok_def header_name_ok_def)
  have "cur_val (flush_header st) = []" using assms(2) by (auto simp: flush_header_def)
  moreover have "trim_prefix (SP # snd p) '' '' = snd p"
    using trim_prefix_append[of "'' ''" "snd p"] by simp
  moreover have "flush_header st\<lparr>cur_name := fst p, cur_val := snd p\<rparr> = pending p (hdrs (flush_header st))"
    by simp
  ultimately show ?thesis
    using l cut_pair_line[OF assms(1)] by simp
qed

lemma header_lines_pairs:
  "list_all pair_ok (p # ps) \<Longrightarrow>
   header_lines (map pair_line ps) (pending p h)
     = Inr \<lparr>cur_name = [], cur_val = [], hdrs = fold add_header (p # ps) h\<rparr>"
proof (induction ps arbitrary: p h)
  case Nil
  then show ?case by (simp add: flush_pending)
next
  case (Cons q ps)
  have "fst p \<noteq> []" using Cons.prems by (simp add: pair_ok_def header_name_ok_def)
  then have "header_line (pair_line q) (pending p h) = Inr (pending q (add_header p h))"
    using Cons.prems header_line_pair[of q "pending p h"] flush_pending[of p h] by simp
  then show ?case using Cons by simp
qed

lemma pair_line_plain: "pair_ok p \<Longrightarrow> plain (pair_line p) \<and> pair_line p \<noteq> []"
  by (auto simp: pair_ok_def header_name_ok_def header_value_ok_def pair_line_def)

lemma parse_headers_pairs:
  assumes "list_all pair_ok ps" "ps \<noteq> []"
  shows "parse_headers (join CRLF (map pair_line ps)) = Inr (fold add_header ps [])"
proof -
  obtain p qs where ps: "ps = p # qs" using assms(2) by (cases ps) auto
  have "split_str CRLF (join CRLF (map pair_line ps)) = map pair_line ps"
    using assms pair_line_plain by (intro split_CRLF_join) (auto simp: list_all_iff)
  moreover have "header_line (pair_line p) \<lparr>cur_name = [], cur_val = [], hdrs = []\<rparr> = Inr (pending p [])"
    using header_line_pair[of p "\<lparr>cur_name = [], cur_val = [], hdrs = []\<rparr>"] assms(1) ps
    by (simp add: flush_header_def)
  ultimately show ?thesis
    using header_lines_pairs[of p qs "[]"] assms(1) ps by (simp add: parse_headers_def)
qed

lemma header_values_add:
  "header_values (add_header p h) k = header_values h k @ (if fst p = k then [snd p] else [])"
  by (simp add: add_header_def header_values_def)

lemma header_values_fold:
  "header_values (fold add_header ps h) k
     = header_values h k @ map snd (filter (\<lambda>p. fst p = k) ps)"
  by (induction ps arbitrary: h) (auto simp: header_values_add)

definition full :: "(string \<times> string list) list \<Rightarrow> bool" where
  "full h \<longleftrightarrow> (\<forall>k vs. map_of h k = Some vs \<longrightarrow> vs \<noteq> [])"

lemma full_add: "full h \<Longrightarrow> full (add_header p h)"
  by (simp add: full_def add_header_def)

lemma full_fold: "full h \<Longrightarrow> full (fold add_header ps h)"
  by (induction ps arbitrary: h) (simp_all add: full_add)

lemma map_of_full: "full h \<Longrightarrow> map_of h k = (if header_values h k = [] then None else Some (header_values h k))"
  by (auto simp: full_def header_values_def split: option.splits)

lemma first_blank_line:
  assumes "plain l"
  shows "index_of (l @ CR # LF # CR # LF # t) (CRLF @ CRLF) = Some (length l)"
  using assms by (induction l) auto

lemma first_blank_line_skip:
  assumes "plain l" "u \<noteq> []" "hd u \<noteq> CR"
  shows "index_of (l @ CR # LF # u) (CRLF @ CRLF)
     = map_option (\<lambda>i. length l + 2 + i) (index_of u (CRLF @ CRLF))"
proof -
  obtain x v where "u = x # v" "x \<noteq> CR" using assms by (cases u) auto
  then show ?thesis
    using assms(1) by (induction l) (auto simp: option.map_comp comp_def)
qed

lemma index_of_blank_line:
  "ls \<noteq> [] \<Longrightarrow> (\<forall>l \<in> set ls. plain l \<and> l \<noteq> []) \<Longrightarrow>
   index_of (join CRLF ls @ CRLF @ CRLF @ t) (CRLF @ CRLF) = Some (length (join CRLF ls))"
proof (induction ls rule: induct_list012)
  case (2 l)
  then show ?case using first_blank_line[of l t] by simp
next
  case (3 l k ls)
  let ?u = "join CRLF (k # ls) @ CRLF @ CRLF @ t"
  have "join CRLF (k # ls) \<noteq> []" "hd (join CRLF (k # ls)) = hd k" using 3(4) by (cases ls; simp)+
  moreover have "hd k \<in> set k" "CR \<notin> set k" using 3(4) by simp_all
  ultimately have "?u \<noteq> []" "hd ?u \<noteq> CR" by (auto simp: hd_append)
  moreover have "join CRLF (l # k # ls) @ CRLF @ CRLF @ t = l @ CR # LF # ?u" by simp
  moreover have "index_of ?u (CRLF @ CRLF) = Some (length (join CRLF (k # ls)))" using 3 by simp
  ultimately show ?case using first_blank_line_skip[of l ?u] 3(4) by simp
qed simp

lemma cut_blank_line:
  "ls \<noteq> [] \<Longrightarrow> (\<forall>l \<in> set ls. plain l \<and> l \<noteq> []) \<Longrightarrow>
   cut (join CRLF ls @ CRLF @ CRLF @ t) (CRLF @ CRLF) = (join CRLF ls, t, True)"
  using index_of_blank_line[of ls t] by (simp add: cut_def)

lemma wire_order_distinct: "distinct (map fold_case wire_order)"
  by code_simp

lemma filter_entry_lines:
  "map snd (filter (\<lambda>p. fst p = k) (concat (map entry_lines hs)))
     = concat (map snd (filter (\<lambda>h. fst h = k) hs))"
  by (induction hs) (auto simp: entry_lines_def filter_map comp_def)

lemma concat_one_of:
  "distinct (map f ns) \<Longrightarrow>
   concat (map (\<lambda>n. if x = f n then vs else []) ns) = (if x \<in> f ` set ns then vs else [])"
  by (induction ns) (auto simp: concat_eq_Nil_conv image_iff)

lemma values_of_key:
  "distinct (map fst hs) \<Longrightarrow>
   concat (map snd (filter (\<lambda>h. fst h = k) (filter (\<lambda>(k, vs). Q k) hs)))
     = (if Q k then header_values hs k else [])"
proof (induction hs)
  case (Cons h hs)
  have "fst h = k \<Longrightarrow> map_of hs k = None" using Cons.prems by (auto simp: map_of_eq_None_iff)
  then show ?case using Cons by (cases h) (auto simp: header_values_def split: option.splits)
qed (simp add: header_values_def)

lemma wire_lines_values:
  assumes "distinct (map fst hs)"
  shows "map snd (filter (\<lambda>p. fst p = k) (wire_lines hs)) = header_values hs k"
proof -
  let ?known = "fold_case k \<in> fold_case ` set wire_order"
  have 1: "map snd (filter (\<lambda>p. fst p = k)
        (concat (map entry_lines (filter (\<lambda>(k, vs). Q k) hs)))) = (if Q k then header_values hs k else [])" for Q
    by (simp only: filter_entry_lines values_of_key[OF assms])
  have "map snd (filter (\<lambda>p. fst p = k)
      (concat (map (\<lambda>name. concat (map entry_lines (filter (\<lambda>(k, vs). equal_fold k name) hs))) ns)))
    = concat (map (\<lambda>n. if fold_case k = fold_case n then header_values hs k else []) ns)" for ns
    by (induction ns) (simp_all add: 1 equal_fold_def)
  then have "map snd (filter (\<lambda>p. fst p = k)
      (concat (map (\<lambda>name. concat (map entry_lines (filter (\<lambda>(k, vs). equal_fold k name) hs))) wire_order)))
    = (if ?known then header_values hs k else [])"
    by (simp only: concat_one_of[OF wire_order_distinct])
  moreover have "map snd (filter (\<lambda>p. fst p = k) (concat (map entry_lines
         (filter (\<lambda>(k, vs). \<not> list_ex (\<lambda>name. equal_fold k name) wire_order) hs))))
    = (if ?known then [] else header_values hs k)"
    using 1[of "\<lambda>k. \<not> list_ex (\<lambda>name. equal_fold k name) wire_order"]
    by (simp add: list_ex_iff equal_fold_def image_iff)
  ultimately show ?thesis by (simp add: wire_lines_def)
qed


lemma wire_lines_from: "p \<in> set (wire_lines hs) \<Longrightarrow> \<exists>vs. (fst p, vs) \<in> set hs \<and> snd p \<in> set vs"
  by (auto simp: wire_lines_def entry_lines_def)

lemma wf_headers_keys: "wf_headers hs \<Longrightarrow> distinct (map fst hs)"
  unfolding wf_headers_def by (metis distinct_map list.map_comp)

lemma wf_headers_pairs: "wf_headers hs \<Longrightarrow> list_all pair_ok (wire_lines hs)"
  using wire_lines_from by (fastforce simp: list_all_iff wf_headers_def pair_ok_def)

lemma wf_headers_full: "wf_headers hs \<Longrightarrow> full hs"
  by (auto simp: full_def wf_headers_def list_all_iff dest!: map_of_SomeD)

lemma wf_headers_wire_lines_Nil: "wf_headers hs \<Longrightarrow> hs \<noteq> [] \<Longrightarrow> wire_lines hs \<noteq> []"
proof
  assume hs: "wf_headers hs" "hs \<noteq> []" "wire_lines hs = []"
  obtain k vs where "(k, vs) \<in> set hs" using hs(2) by (cases hs) auto
  then have "map_of hs k = Some vs" "vs \<noteq> []"
    using map_of_Some_in[OF wf_headers_keys[OF hs(1)]] hs(1) by (auto simp: wf_headers_def list_all_iff)
  then show False
    using wire_lines_values[OF wf_headers_keys[OF hs(1)], of k] hs(3) by (simp add: header_values_def)
qed

lemma parse_wire_map:
  assumes "wf_headers hs"
  shows "map_of (fold add_header (wire_lines hs) []) = map_of hs"
proof
  fix k
  have v: "header_values (fold add_header (wire_lines hs) []) k = header_values hs k"
    by (simp add: header_values_fold wire_lines_values[OF wf_headers_keys[OF assms]] header_values_def[of "[]"])
  have "full (fold add_header (wire_lines hs) [])" by (rule full_fold) (simp add: full_def)
  then show "map_of (fold add_header (wire_lines hs) []) k = map_of hs k"
    using v map_of_full[OF wf_headers_full[OF assms]] by (simp add: map_of_full)
qed

text \<open>What \<open>Wire\<close> writes after the blank line.\<close>

definition closed_body :: "string \<Rightarrow> string" where
  "closed_body b = b @ (if b \<noteq> [] \<and> \<not> has_suffix b CRLF then CRLF else [])"

lemma wire_text:
  assumes "wf_article a"
  shows "wire a = join CRLF (map pair_line (wire_lines (headers a))) @ CRLF @ CRLF @ closed_body (body a)"
proof -
  have "concat (map header_text ps) = concat (map (\<lambda>l. l @ CRLF) (map pair_line ps))" for ps
    by (induction ps) (simp_all add: header_text_def pair_line_def)
  moreover have "map pair_line (wire_lines (headers a)) \<noteq> []"
    using assms wf_headers_wire_lines_Nil by (simp add: wf_article_def)
  ultimately show ?thesis
    using join_line_ends[of "map pair_line (wire_lines (headers a))" CRLF]
    by (simp add: wire_def closed_body_def flip: append_assoc)
qed

lemma parse_wire:
  assumes "wf_article a"
  shows "\<exists>a'. parse_article (wire a) = Inr a' \<and> map_of (headers a') = map_of (headers a)
     \<and> distinct (map fst (headers a')) \<and> body a' = closed_body (body a)"
proof -
  let ?ps = "wire_lines (headers a)" and ?ls = "map pair_line (wire_lines (headers a))"
  have wf: "wf_headers (headers a)" and b: "crlf_ok (body a)" and ne: "?ps \<noteq> []"
    using assms wf_headers_wire_lines_Nil by (auto simp: wf_article_def)
  have ls: "\<forall>l \<in> set ?ls. plain l \<and> l \<noteq> []"
    using wf_headers_pairs[OF wf] pair_line_plain by (auto simp: list_all_iff)
  have "crlf_ok (closed_body (body a))" using b by (simp add: closed_body_def crlf_ok_append)
  moreover have "crlf_ok (concat (map (\<lambda>l. l @ CRLF) ?ls))"
    using ls by (intro crlf_ok_concat) auto
  moreover have "wire a = concat (map (\<lambda>l. l @ CRLF) ?ls) @ CRLF @ closed_body (body a)"
    using join_line_ends[of ?ls CRLF] ne by (simp add: wire_text[OF assms] flip: append_assoc)
  ultimately have "crlf_ok (wire a)" by (simp only: crlf_ok_append) simp
  then have "parse_article (wire a) = make_article (join CRLF ?ls) (closed_body (body a))"
    using cut_blank_line[of ?ls "closed_body (body a)"] ls ne
    by (simp add: parse_article_def normalize_newlines_id wire_text[OF assms])
  then have "parse_article (wire a) = Inr \<lparr>raw_headers = join CRLF ?ls,
      body = closed_body (body a), headers = fold add_header ?ps []\<rparr>"
    using parse_headers_pairs[OF wf_headers_pairs[OF wf] ne] by (simp add: make_article_def)
  moreover have "distinct (map fst (fold add_header ps h))" if "distinct (map fst h)" for ps h
    using that by (induction ps arbitrary: h) (simp_all add: add_header_def distinct_keys_update)
  ultimately show ?thesis using parse_wire_map[OF wf] by simp
qed

section \<open>Header fields\<close>

text \<open>
  What the injection code relies on: names are compared without regard to case, a field that
  is stored can be read under every spelling, and no other field changes.
\<close>

locale header_fields =
  fixes get :: "'a \<Rightarrow> string \<Rightarrow> string"
    and put :: "string \<Rightarrow> string \<Rightarrow> 'a \<Rightarrow> 'a"
    and del :: "string \<Rightarrow> 'a \<Rightarrow> 'a"
  assumes get_put: "get (put n v a) m = (if equal_fold n m then v else get a m)"
    and get_del: "get (del n a) m = (if equal_fold n m then [] else get a m)"
begin

lemma get_put_same: "get (put n v a) n = v"
  by (simp add: get_put)

lemma get_default: "get (if get a n \<noteq> [] then a else put n v a) n = (if get a n \<noteq> [] then get a n else v)"
  by (simp add: get_put_same)

lemma get_default_other:
  "\<not> equal_fold n m \<Longrightarrow> get (if P then a else put n v a) m = get a m"
  by (simp add: get_put)

lemma del_put: "equal_fold n k \<Longrightarrow> get (del k (put n v a)) m = get (del k a) m"
  by (auto simp: get_put get_del dest: equal_fold_trans[of k n m] simp: equal_fold_sym[of n k])

end

lemma first_header_filter:
  "first_header (filter (\<lambda>(k, vs). \<not> equal_fold k n) hs) m
     = (if equal_fold n m then [] else first_header hs m)"
proof (induction hs)
  case (Cons h hs)
  have "equal_fold (fst h) n \<Longrightarrow> equal_fold (fst h) m = equal_fold n m"
    by (simp add: equal_fold_def)
  then show ?case using Cons by (cases h) (auto simp: equal_fold_def)
qed simp

lemma first_header_none: "(\<forall>(k, vs) \<in> set hs. \<not> equal_fold k m) \<Longrightarrow> first_header hs m = []"
  by (induction hs) auto

lemma first_header_append_none:
  "(\<forall>(k, vs) \<in> set hs. \<not> equal_fold k m) \<Longrightarrow> first_header (hs @ gs) m = first_header gs m"
  by (induction hs) auto

lemma first_header_append_other:
  "(\<forall>(k, vs) \<in> set gs. \<not> equal_fold k m) \<Longrightarrow> first_header (hs @ gs) m = first_header hs m"
  by (induction hs) (auto simp: first_header_none)

lemma get_set_header: "get_header (set_header n v a) m = (if equal_fold n m then v else get_header a m)"
proof -
  let ?hs = "filter (\<lambda>(k, vs). \<not> equal_fold k n) (headers a)"
  have "n \<notin> fst ` set ?hs" by auto
  then have g: "get_header (set_header n v a) m = first_header (?hs @ [(n, [v])]) m"
    by (simp add: get_header_def set_header_def drop_header_def Let_def update_new)
  show ?thesis
  proof (cases "equal_fold n m")
    case True
    then have "\<forall>(k, vs) \<in> set ?hs. \<not> equal_fold k m"
      by (auto simp: equal_fold_def)
    then show ?thesis using True by (simp add: g first_header_append_none)
  next
    case False
    then have "get_header (set_header n v a) m = first_header ?hs m"
      unfolding g by (intro first_header_append_other) simp
    then show ?thesis using False by (simp add: first_header_filter get_header_def)
  qed
qed

lemma get_drop_header: "get_header (drop_header n a) m = (if equal_fold n m then [] else get_header a m)"
  by (simp add: get_header_def drop_header_def first_header_filter)

interpretation hf: header_fields get_header set_header drop_header
  by unfold_locales (simp_all add: get_set_header get_drop_header)

lemma field_name_eq:
  "a \<in> set wire_order \<Longrightarrow> b \<in> set wire_order \<Longrightarrow> equal_fold a b \<longleftrightarrow> a = b"
  using wire_order_distinct by (auto simp: equal_fold_def distinct_map inj_on_def)

lemma in_wire_order [simp]:
  "''Path'' \<in> set wire_order" "''From'' \<in> set wire_order" "''Newsgroups'' \<in> set wire_order"
  "''Subject'' \<in> set wire_order" "''Date'' \<in> set wire_order" "''Message-ID'' \<in> set wire_order"
  "''Organization'' \<in> set wire_order" "''Injection-Date'' \<in> set wire_order"
  "''Injection-Info'' \<in> set wire_order" "''Xref'' \<in> set wire_order" "''Control'' \<in> set wire_order"
  "''Approved'' \<in> set wire_order" "''Distribution'' \<in> set wire_order" "''References'' \<in> set wire_order"
  by (simp_all add: wire_order_def)

lemmas field_rules = hf.get_put hf.get_del field_name_eq

lemma newsgroups_cong: "get_header a ''Newsgroups'' = get_header b ''Newsgroups'' \<Longrightarrow> newsgroups a = newsgroups b"
  by (simp add: newsgroups_def)

lemma check_required_cong:
  "(\<forall>n \<in> {''From'', ''Newsgroups'', ''Subject''}. get_header a n = get_header b n) \<Longrightarrow>
   check_required a = check_required b"
  using newsgroups_cong[of a b] by (simp add: check_required_def)

lemma check_required_None:
  "check_required a = None \<longleftrightarrow>
     trim_space (get_header a ''From'') \<noteq> [] \<and> newsgroups a \<noteq> []
     \<and> trim_space (get_header a ''Subject'') \<noteq> [] \<and> list_all valid_group_name (newsgroups a)"
  by (auto simp: check_required_def find_None_iff list_all_iff)

section \<open>Transfer\<close>

lemma inject_for_ihave_cases:
  assumes "inject_for_ihave opt a = (a', None)"
  shows "check_required a = None"
    and "valid_message_id (trim_space (get_header a ''Message-ID''))"
    and "trim_space (get_header a ''Date'') \<noteq> []"
    and "\<not> path_contains (get_header a ''Path'') (pathhost opt)"
    and "get_header a' n =
      (if equal_fold ''Xref'' n then []
       else if equal_fold ''Path'' n then
         pathhost opt @ ''!'' @ (if has_header a ''Path'' then get_header a ''Path'' else ''not-for-mail'')
       else if equal_fold ''Message-ID'' n then trim_space (get_header a ''Message-ID'')
       else get_header a n)"
  using assms
  by (auto simp: inject_for_ihave_def Let_def strip_xref_def field_rules has_header_def
      split: option.splits if_splits)

lemma path_contains_head:
  "trim_space h = h \<Longrightarrow> h \<noteq> [] \<Longrightarrow> CHR ''!'' \<notin> set h \<Longrightarrow> path_contains (h @ CHR ''!'' # p) h"
  by (simp add: path_contains_def Let_def split_on_append)


section \<open>Names\<close>

definition group_char :: "char \<Rightarrow> bool" where
  "group_char c \<longleftrightarrow> is_upper c \<or> is_lower c \<or> is_digit c \<or> c \<in> set ''.+-_''"

lemma group_rune_byte: "ascii c \<Longrightarrow> group_rune (byte c) \<longleftrightarrow> group_char c"
  by (auto simp: group_rune_def group_char_def is_upper_def is_lower_def is_digit_def
      char_of_eq_iff simp flip: of_char_eq_iff[where 'a = nat])

lemma group_char_ascii: "group_char c \<Longrightarrow> ascii c"
  by (auto simp: group_char_def is_upper_def is_lower_def is_digit_def ascii_def)

lemma group_runes_chars:
  "list_all (\<lambda>r. r \<le> 127 \<and> group_rune r) (runes g) \<longleftrightarrow> list_all group_char g"
proof
  assume a: "list_all (\<lambda>r. r \<le> 127 \<and> group_rune r) (runes g)"
  then have g: "list_all ascii g"
    by (intro runes_all_small) (auto simp: list_all_iff)
  then show "list_all group_char g"
    using a by (auto simp: runes_ascii list_all_iff group_rune_byte)
next
  assume g: "list_all group_char g"
  then have "list_all ascii g" by (auto simp: list_all_iff group_char_ascii)
  then show "list_all (\<lambda>r. r \<le> 127 \<and> group_rune r) (runes g)"
    using g by (auto simp: runes_ascii list_all_iff group_rune_byte ascii_def)
qed

lemma contains_pair: "contains (x # s) [c, c] \<longleftrightarrow> (x = c \<and> s \<noteq> [] \<and> hd s = c) \<or> contains s [c, c]"
  by (cases s) (auto simp: contains_def)

lemma split_on_hd_Nil: "hd (split_on c s) = [] \<longleftrightarrow> s = [] \<or> hd s = c"
  by (cases s) (auto split: list.splits)

lemma split_on_tl_Nil:
  "[] \<notin> set (tl (split_on c s)) \<longleftrightarrow> (s = [] \<or> last s \<noteq> c) \<and> \<not> contains s [c, c]"
proof (induction s)
  case Nil
  then show ?case by (simp add: contains_def)
next
  case (Cons x s)
  obtain z zs where z: "split_on c s = z # zs" by (meson list.exhaust split_on_neq_Nil)
  then have "z = [] \<longleftrightarrow> s = [] \<or> hd s = c" using split_on_hd_Nil[of c s] by simp
  then show ?case using Cons.IH z by (auto simp: contains_pair)
qed

lemma split_on_Nil_iff:
  "[] \<notin> set (split_on c s) \<longleftrightarrow>
     s \<noteq> [] \<and> hd s \<noteq> c \<and> last s \<noteq> c \<and> \<not> contains s [c, c]"
proof -
  have "[] \<notin> set (split_on c s) \<longleftrightarrow> hd (split_on c s) \<noteq> [] \<and> [] \<notin> set (tl (split_on c s))"
    by (cases "split_on c s") auto
  then show ?thesis by (auto simp: split_on_hd_Nil split_on_tl_Nil)
qed

lemma valid_group_name_iff:
  "valid_group_name g \<longleftrightarrow>
     length g \<le> 255 \<and> list_all group_char g \<and> [] \<notin> set (split_on CHR ''.'' g)"
proof -
  have "has_prefix g ''.'' \<longleftrightarrow> g \<noteq> [] \<and> hd g = DOT" by (cases g) auto
  moreover have "has_suffix g ''.'' \<longleftrightarrow> g \<noteq> [] \<and> last g = DOT"
    by (cases g rule: rev_cases) (auto simp: has_suffix_def)
  ultimately show ?thesis
    by (auto simp: valid_group_name_def group_runes_chars split_on_Nil_iff)
qed

definition id_char :: "char \<Rightarrow> bool" where
  "id_char c \<longleftrightarrow> 33 \<le> byte c \<and> byte c \<le> 126 \<and> c \<noteq> CHR ''<'' \<and> c \<noteq> CHR ''>''"

lemma id_char_iff:
  "id_char c \<longleftrightarrow> 33 \<le> byte c \<and> byte c \<le> 126 \<and> c \<notin> set (''<> '' @ [TAB, CR, LF])"
  by (auto simp: id_char_def)

lemma bracketed:
  "length s \<ge> 2 \<Longrightarrow> hd s = a \<Longrightarrow> last s = b \<Longrightarrow> s = a # drop 1 (take (length s - 1) s) @ [b]"
  by (cases s rule: rev_cases) (auto simp: neq_Nil_conv Suc_le_eq)

lemma valid_message_id_iff:
  "valid_message_id s \<longleftrightarrow>
     (\<exists>inner. s = CHR ''<'' # inner @ ''>'' \<and> length s \<le> max_message_id
        \<and> list_all id_char inner \<and> CHR ''@'' \<in> set inner)"
  (is "_ \<longleftrightarrow> ?R")
proof
  assume v: "valid_message_id s"
  then have s: "s = CHR ''<'' # drop 1 (take (length s - 1) s) @ ''>''"
    by (intro bracketed) (auto simp: valid_message_id_def split: if_splits)
  have "list_all id_char (drop 1 (take (length s - 1) s)) \<and> CHR ''@'' \<in> set (drop 1 (take (length s - 1) s))
      \<and> length s \<le> max_message_id"
    using v by (auto simp: valid_message_id_def Let_def list_all_iff id_char_iff contains_any_iff split: if_splits)
  then show ?R using s by blast
next
  assume ?R
  then obtain inner where s: "s = CHR ''<'' # inner @ ''>''" "length s \<le> max_message_id"
    "list_all id_char inner" "CHR ''@'' \<in> set inner" by blast
  then have "drop 1 (take (length s - 1) s) = inner" "inner \<noteq> []" by auto
  then show "valid_message_id s"
    using s by (auto simp: valid_message_id_def Let_def list_all_iff id_char_iff contains_any_iff Suc_le_eq)
qed

section \<open>Injection of a local posting\<close>

lemma Message_ID_generated_nonempty: "generate_message_id host clock rnd \<noteq> []"
  by (simp add: generate_message_id_def)

lemma has_prefix_id: "has_prefix s p \<Longrightarrow> \<exists>t. s = p @ t"
  by (simp add: has_prefix_iff)

lemma get_default_header:
  "get_header (default_header n v a) m =
     (if equal_fold n m \<and> get_header a n = [] then v else get_header a m)"
  by (auto simp: default_header_def has_header_def hf.get_put)

lemma get_fill_path:
  "get_header (fill_path opt a) m =
     (if equal_fold ''Path'' m then
        if get_header a ''Path'' = [] then pathhost opt @ ''!not-for-mail''
        else if has_prefix (get_header a ''Path'') (pathhost opt @ ''!'') then get_header a m
        else pathhost opt @ ''!'' @ get_header a ''Path''
      else get_header a m)"
  by (simp add: fill_path_def has_header_def hf.get_put)

lemma get_fill_organization:
  "get_header (fill_organization opt a) m =
     (if equal_fold ''Organization'' m \<and> get_header a ''Organization'' = [] \<and> organization opt \<noteq> []
      then organization opt else get_header a m)"
  by (simp add: fill_organization_def get_default_header)

lemmas fill_rules = fill_post_headers_def strip_xref_def hf.get_del get_default_header
  get_fill_path get_fill_organization field_name_eq

lemma fill_post_headers_get:
  "n \<in> {''From'', ''Newsgroups'', ''Subject'', ''Message-ID''} \<Longrightarrow>
   get_header (fill_post_headers opt now a) n = get_header a n"
  by (elim insertE emptyE) (simp_all add: fill_rules)

lemma fill_post_headers_Xref: "get_header (fill_post_headers opt now a) ''Xref'' = []"
  by (simp add: fill_rules)

lemma fill_post_headers_Path:
  "has_prefix (get_header (fill_post_headers opt now a) ''Path'') (pathhost opt @ ''!'')"
  using has_prefix_append[of "pathhost opt @ ''!''" "''not-for-mail''"]
    has_prefix_append[of "pathhost opt @ ''!''" "get_header a ''Path''"]
  by (simp add: fill_rules)

lemma format_rfc1123z_neq_Nil [simp]: "format_rfc1123z t \<noteq> []"
  by (auto simp: format_rfc1123z_def split: prod.splits)

lemma fill_post_headers_present:
  "n \<in> {''Date'', ''Injection-Date'', ''Injection-Info''} \<Longrightarrow>
   get_header (fill_post_headers opt now a) n \<noteq> []"
  by (elim insertE emptyE) (simp_all add: fill_rules injection_info_def)

lemma inject_for_post_cases:
  assumes "inject_for_post opt clock rnd a = Inr a'"
  obtains now mid where "check_required a = None"
    and "a' = fill_post_headers opt now (set_header ''Message-ID'' mid a)"
    and "mid = (if trim_space (get_header a ''Message-ID'') = []
                then generate_message_id (hostname opt) clock rnd
                else trim_space (get_header a ''Message-ID''))"
    and "trim_space (get_header a ''Message-ID'') = [] \<or> valid_message_id mid"
  using assms that
  by (auto simp: inject_for_post_def Let_def split: option.splits if_splits)

lemma id_char_format_int: "c \<in> set (format_int n) \<Longrightarrow> id_char c"
  using format_int_chars[of c n] by (auto simp: id_char_def is_digit_def)

lemma hex_char_id: "d < 16 \<Longrightarrow> id_char (hex_char d)"
  by (auto simp: hex_char_def id_char_def simp flip: of_char_eq_iff[where 'a = nat])

lemma id_char_hex: "c \<in> set (hex_encode s) \<Longrightarrow> id_char c"
  by (auto simp: hex_encode_def hex_byte_def intro!: hex_char_id less_mult_imp_div_less)

lemma generated_id_valid:
  assumes "list_all id_char host" "length (generate_message_id host clock rnd) \<le> max_message_id"
  shows "valid_message_id (generate_message_id host clock rnd)"
proof -
  let ?i = "format_int clock @ ''.'' @ hex_encode rnd @ ''@'' @ (if host = [] then ''localhost'' else host)"
  have "list_all id_char ?i"
    using assms(1) by (auto simp: list_all_iff id_char_format_int id_char_hex) (auto simp: id_char_def)
  moreover have "generate_message_id host clock rnd = CHR ''<'' # ?i @ ''>''" "CHR ''@'' \<in> set ?i"
    by (simp_all add: generate_message_id_def)
  ultimately show ?thesis using assms(2) valid_message_id_iff by blast
qed

section \<open>Overview lines\<close>

lemma sanitize_overview_chars: "c \<in> set (sanitize_overview s) \<Longrightarrow> c \<notin> {TAB, CR, LF}"
  by (auto simp: sanitize_overview_def replace_char split: if_splits)

lemma format_int_no_control: "c \<in> set (format_int n) \<Longrightarrow> c \<notin> {TAB, CR, LF}"
  using id_char_format_int[of c n] by (auto simp: id_char_def)

lemma overview_field_chars:
  "c \<in> set f \<Longrightarrow> f \<in> set (overview_fields num a xref) \<Longrightarrow> c \<in> {TAB, CR, LF} \<Longrightarrow> c \<in> set xref"
  using sanitize_overview_chars format_int_no_control
  by (fastforce simp: overview_fields_def split: if_splits)

section \<open>Properties\<close>

text \<open>C15: an article written by \<open>Wire\<close> and read by \<open>Parse\<close> comes back with the same header map
  and the same body, closed by a line end, whenever its header names are well formed, spelled in
  one way only, and its values and lines are canonical.\<close>

theorem parse_wire_roundtrip:
  assumes "wf_article a"
  shows "\<exists>a'. parse_article (wire a) = Inr a' \<and> map_of (headers a') = map_of (headers a)
     \<and> body a' = closed_body (body a)"
  using parse_wire[OF assms] by blast

theorem parse_wire_roundtrip_witness:
  "let a = \<lparr>raw_headers = [], body = ''hi'' @ CRLF,
            headers = [(''Subject'', [''re: x'']), (''X-Trace'', [''1'', ''2'']), (''From'', [''a@b''])]\<rparr>
   in \<exists>a'. parse_article (wire a) = Inr a' \<and> map_of (headers a') = map_of (headers a)
     \<and> body a' = body a"
proof -
  let ?a = "\<lparr>raw_headers = [], body = ''hi'' @ CRLF,
            headers = [(''Subject'', [''re: x'']), (''X-Trace'', [''1'', ''2'']), (''From'', [''a@b''])]\<rparr>"
  have "wf_article ?a" by code_simp
  moreover have "closed_body (body ?a) = body ?a" by code_simp
  ultimately show ?thesis using parse_wire_roundtrip[of ?a] by (simp add: Let_def)
qed

text \<open>A transferred article is accepted only with a valid Message-ID, valid group names and a
  Path that does not yet name this host; the accepted article has this host in front of its Path
  and no Xref, and its groups, sender and subject are unchanged.\<close>

theorem ihave_accepts:
  assumes "inject_for_ihave opt a = (a', None)"
  shows "valid_message_id (get_header a' ''Message-ID'')
    \<and> \<not> path_contains (get_header a ''Path'') (pathhost opt)
    \<and> get_header a' ''Path'' = pathhost opt @ ''!'' @
         (if has_header a ''Path'' then get_header a ''Path'' else ''not-for-mail'')
    \<and> get_header a' ''Xref'' = []
    \<and> newsgroups a' = newsgroups a \<and> newsgroups a \<noteq> [] \<and> list_all valid_group_name (newsgroups a)
    \<and> list_all (\<lambda>n. get_header a' n = get_header a n) [''From'', ''Subject'', ''Date'']"
proof (intro conjI)
  note c = inject_for_ihave_cases(1-4)[OF assms] and g = inject_for_ihave_cases(5)[OF assms]
  show "valid_message_id (get_header a' ''Message-ID'')" "get_header a' ''Xref'' = []"
    "\<not> path_contains (get_header a ''Path'') (pathhost opt)"
    "get_header a' ''Path'' = pathhost opt @ ''!'' @
       (if has_header a ''Path'' then get_header a ''Path'' else ''not-for-mail'')"
    "list_all (\<lambda>n. get_header a' n = get_header a n) [''From'', ''Subject'', ''Date'']"
    using c by (simp_all add: g field_name_eq)
  have "newsgroups a' = newsgroups a" by (intro newsgroups_cong) (simp add: g field_name_eq)
  then show "newsgroups a' = newsgroups a" "newsgroups a \<noteq> []" "list_all valid_group_name (newsgroups a)"
    using c(1) by (simp_all add: check_required_None)
qed

definition sample_opts :: inject_opts where
  "sample_opts = \<lparr>pathhost = ''news.a.org'', hostname = ''a.org'', organization = ''A'', io_now = zero_time\<rparr>"

definition sample_article :: article where
  "sample_article = \<lparr>raw_headers = [], body = ''hi'' @ CRLF, headers =
     [(''Path'', [''b!c'']), (''From'', [''u@b'']), (''Newsgroups'', [''x.y, z'']), (''Subject'', [''s'']),
      (''Date'', [''d'']), (''Message-ID'', [''<1@b>'']), (''Xref'', [''q''])]\<rparr>"

lemma sample_headers:
  "get_header sample_article ''From'' = ''u@b''" "get_header sample_article ''Newsgroups'' = ''x.y, z''"
  "get_header sample_article ''Subject'' = ''s''" "get_header sample_article ''Date'' = ''d''"
  "get_header sample_article ''Message-ID'' = ''<1@b>''" "get_header sample_article ''Path'' = ''b!c''"
  by (simp_all add: get_header_def sample_article_def field_name_eq)

lemma sample_texts:
  "trim_space ''u@b'' = ''u@b''" "trim_space ''s'' = ''s''" "trim_space ''d'' = ''d''"
  "trim_space ''<1@b>'' = ''<1@b>''" "valid_message_id ''<1@b>''"
  "trim_space ''x.y'' = ''x.y''" "trim_space '' z'' = ''z''"
  by code_simp+

lemma sample_required: "check_required sample_article = None"
proof -
  have "newsgroups sample_article = [''x.y'', ''z'']"
    by (simp add: newsgroups_def sample_headers sample_texts)
  moreover have "list_all valid_group_name [''x.y'', ''z'']"
    by (simp add: valid_group_name_iff group_char_def is_lower_def)
  ultimately show ?thesis by (simp only: check_required_None sample_headers sample_texts) simp
qed

lemma sample_accepted:
  "inject_for_ihave sample_opts sample_article = (fst (inject_for_ihave sample_opts sample_article), None)"
proof -
  have "\<not> path_contains ''b!c'' (pathhost sample_opts)" by code_simp
  then show ?thesis
    by (simp add: inject_for_ihave_def sample_required sample_headers sample_texts Let_def field_rules has_header_def)
qed

theorem ihave_accepts_witness:
  "get_header (fst (inject_for_ihave sample_opts sample_article)) ''Path'' = ''news.a.org!b!c''"
  using ihave_accepts[OF sample_accepted] by (simp add: sample_opts_def sample_article_def has_header_def
      get_header_def field_name_eq)

text \<open>An article this host has accepted is refused as a path loop when it comes back.\<close>

theorem ihave_loop_refused:
  assumes "inject_for_ihave opt a = (a', None)"
    and "trim_space (pathhost opt) = pathhost opt" "pathhost opt \<noteq> []" "CHR ''!'' \<notin> set (pathhost opt)"
  shows "snd (inject_for_ihave opt a') = Some Path_Loop"
proof -
  have g: "get_header a' n = get_header a n" if "n \<in> {''From'', ''Newsgroups'', ''Subject'', ''Date''}" for n
    using inject_for_ihave_cases(5)[OF assms(1), of n] that by (auto simp: field_name_eq)
  then have "check_required a' = check_required a" by (intro check_required_cong) auto
  moreover have "get_header a' ''Message-ID'' = trim_space (get_header a ''Message-ID'')"
    using inject_for_ihave_cases(5)[OF assms(1), of "''Message-ID''"] by (simp add: field_name_eq)
  moreover have "path_contains (get_header a' ''Path'') (pathhost opt)"
    using inject_for_ihave_cases(5)[OF assms(1), of "''Path''"] path_contains_head[OF assms(2-4)]
    by (simp add: field_name_eq)
  moreover have "valid_message_id s \<Longrightarrow> s \<noteq> []" for s by (auto simp: valid_message_id_def)
  ultimately show ?thesis
    using inject_for_ihave_cases(1-4)[OF assms(1)] g[of "''Date''"]
    by (auto simp: inject_for_ihave_def Let_def field_rules)
qed

theorem ihave_loop_refused_witness:
  "snd (inject_for_ihave sample_opts (fst (inject_for_ihave sample_opts sample_article))) = Some Path_Loop"
  by (rule ihave_loop_refused[OF sample_accepted]) code_simp+

text \<open>C23: a posted article leaves injection with a Message-ID (its own, valid one, or a generated
  one), a Path that starts at this host, a Date, an Injection-Date and an Injection-Info, without
  Xref, and with the groups, sender and subject it came with.\<close>

theorem post_injection_complete:
  assumes "inject_for_post opt clock rnd a = Inr a'"
  shows "get_header a' ''Message-ID'' =
      (if trim_space (get_header a ''Message-ID'') = [] then generate_message_id (hostname opt) clock rnd
       else trim_space (get_header a ''Message-ID''))
    \<and> (trim_space (get_header a ''Message-ID'') = [] \<or> valid_message_id (get_header a' ''Message-ID''))
    \<and> has_prefix (get_header a' ''Path'') (pathhost opt @ ''!'')
    \<and> list_all (has_header a') [''Date'', ''Injection-Date'', ''Injection-Info'']
    \<and> \<not> has_header a' ''Xref''
    \<and> newsgroups a' = newsgroups a \<and> newsgroups a \<noteq> [] \<and> list_all valid_group_name (newsgroups a)
    \<and> list_all (\<lambda>n. get_header a' n = get_header a n) [''From'', ''Subject'']"
proof (intro conjI)
  obtain now mid where c: "check_required a = None"
    "a' = fill_post_headers opt now (set_header ''Message-ID'' mid a)"
    "mid = (if trim_space (get_header a ''Message-ID'') = []
            then generate_message_id (hostname opt) clock rnd
            else trim_space (get_header a ''Message-ID''))"
    "trim_space (get_header a ''Message-ID'') = [] \<or> valid_message_id mid"
    using inject_for_post_cases[OF assms] by blast
  show "get_header a' ''Message-ID'' =
      (if trim_space (get_header a ''Message-ID'') = [] then generate_message_id (hostname opt) clock rnd
       else trim_space (get_header a ''Message-ID''))"
    "trim_space (get_header a ''Message-ID'') = [] \<or> valid_message_id (get_header a' ''Message-ID'')"
    using c by (simp_all add: fill_post_headers_get field_rules)
  show "has_prefix (get_header a' ''Path'') (pathhost opt @ ''!'')"
    "list_all (has_header a') [''Date'', ''Injection-Date'', ''Injection-Info'']"
    "\<not> has_header a' ''Xref''"
    using c by (simp_all add: fill_post_headers_Path fill_post_headers_Xref has_header_def fill_post_headers_present)
  have g: "n \<in> {''From'', ''Newsgroups'', ''Subject''} \<Longrightarrow> get_header a' n = get_header a n" for n
    using c by (auto simp: fill_post_headers_get field_rules)
  then have "newsgroups a' = newsgroups a" by (intro newsgroups_cong) simp
  then show "newsgroups a' = newsgroups a" "newsgroups a \<noteq> []" "list_all valid_group_name (newsgroups a)"
    using c(1) by (simp_all add: check_required_None)
  show "list_all (\<lambda>n. get_header a' n = get_header a n) [''From'', ''Subject'']" using g by simp
qed

theorem post_injection_complete_witness:
  "\<exists>a'. inject_for_post sample_opts 7 ''r'' sample_article = Inr a'
     \<and> get_header a' ''Message-ID'' = ''<1@b>'' \<and> \<not> has_header a' ''Xref''"
proof -
  have t: "trim_space (get_header sample_article ''Message-ID'') = ''<1@b>''"
    by (simp add: sample_headers sample_texts)
  obtain a' where "inject_for_post sample_opts 7 ''r'' sample_article = Inr a'"
    unfolding inject_for_post_def Let_def by (simp add: t sample_required sample_texts)
  moreover note t
  ultimately show ?thesis using post_injection_complete[of sample_opts 7 "''r''" sample_article a'] by simp
qed

text \<open>The accepted group names are exactly the dotted names of RFC 5536: at most 255 bytes of
  letters, digits, plus, minus, underscore and dot, with no empty component.\<close>

theorem group_name_grammar:
  "valid_group_name g \<longleftrightarrow>
     length g \<le> 255 \<and> list_all group_char g \<and> list_all (\<lambda>c. c \<noteq> []) (split_on CHR ''.'' g)"
  by (auto simp: valid_group_name_iff list_all_iff)

text \<open>A generated Message-ID passes the server's own check whenever the host name consists of
  printable characters other than angle brackets and the whole stays within 250 bytes.\<close>

theorem generated_message_id_valid:
  assumes "list_all id_char host" "length (generate_message_id host clock rnd) \<le> max_message_id"
  shows "valid_message_id (generate_message_id host clock rnd)"
  using assms by (rule generated_id_valid)

theorem generated_message_id_valid_witness:
  "valid_message_id (generate_message_id ''news.a.org'' 17 ''1234'')"
  by (rule generated_message_id_valid) code_simp+

text \<open>Splitting an overview line at its tabs gives back its eight or nine columns, whatever the
  headers contain: no header can forge a column or a line.\<close>

theorem overview_columns:
  assumes "TAB \<notin> set xref"
  shows "split_on TAB (overview_line num a xref) = overview_fields num a xref"
  unfolding overview_line_def
  using assms overview_field_chars[of TAB] by (intro split_on_join) (auto simp: overview_fields_def)

theorem overview_columns_witness:
  "split_on TAB (overview_line 3 sample_article ''h x.y:3'') = overview_fields 3 sample_article ''h x.y:3''"
  by (rule overview_columns) simp

text \<open>A header line that starts with its colon is not rejected: its value is prepended to the
  value of the header after it.\<close>

theorem nameless_header_leaks:
  assumes "pair_ok p" "plain v"
  shows "parse_headers (join CRLF [CHR '':'' # v, pair_line p])
     = Inr [(fst p, [trim_space (trim_prefix v '' '' @ snd p)])]"
proof -
  have "\<forall>l \<in> set [CHR '':'' # v, pair_line p]. plain l" using assms pair_line_plain by auto
  then have s: "split_str CRLF (join CRLF [CHR '':'' # v, pair_line p]) = [CHR '':'' # v, pair_line p]"
    by (intro split_CRLF_join) simp_all
  obtain c cs where l: "pair_line p = c # cs" "c \<noteq> SP" "c \<noteq> TAB"
    using assms(1) by (cases "fst p") (auto simp: pair_line_def pair_ok_def header_name_ok_def)
  have "fst p \<noteq> []" using assms(1) by (simp add: pair_ok_def header_name_ok_def)
  moreover have "trim_prefix (SP # snd p) '' '' = snd p"
    using trim_prefix_append[of "'' ''" "snd p"] by simp
  moreover have "cut (CHR '':'' # v) '':'' = ([], v, True)"
    using cut_single[of "CHR '':''" "[]" v] by simp
  ultimately show ?thesis
    using cut_pair_line[OF assms(1)] l
    unfolding parse_headers_def s by (simp add: flush_header_def header_values_def)
qed

theorem nameless_header_leaks_witness:
  "parse_headers (join CRLF ['':x y'', ''Subject: hi'']) = Inr [(''Subject'', [''x yhi''])]"
proof -
  have "pair_ok (''Subject'', ''hi'')" by code_simp
  moreover have "trim_space (trim_prefix ''x y'' '' '' @ ''hi'') = ''x yhi''" by code_simp
  ultimately show ?thesis
    using nameless_header_leaks[of "(''Subject'', ''hi'')" "''x y''"] by (simp add: pair_line_def)
qed

end
