(* ===== verification/Wire.thy ===== *)
theory Wire
  imports Article
begin

text \<open>
  The NNTP connection: \<open>internal/nntp/wire.go\<close> and the reply codes of \<open>codes.go\<close>. A connection
  is the bytes still to be read, the bytes written so far, and whether the peer still takes
  them; deadlines are not modelled, a closed input is the only read error. Long lines, dot
  stuffing and the byte limit of an article are as in the code.
\<close>

section \<open>Reading\<close>

definition max_command :: nat where "max_command = 512"
definition max_line_bytes :: nat where "max_line_bytes = 1048576"

datatype io_error = EOF | Too_Long | Short_Reply string | Bad_Reply string | Write_Failed

definition strip_cr :: "string \<Rightarrow> string" where
  "strip_cr l = (if l \<noteq> [] \<and> last l = CR then butlast l else l)"

text \<open>After an overlong line: read on to its end, or give up after 2^20 bytes.\<close>

fun drain_line :: "char \<Rightarrow> nat \<Rightarrow> string \<Rightarrow> string" where
  "drain_line b n [] = []"
| "drain_line b n (c # s) =
     (if b = LF then c # s
      else if n + 1 > max_line_bytes then s
      else drain_line c (n + 1) s)"

text \<open>\<open>buf\<close> is reversed.\<close>

fun read_line_from :: "nat \<Rightarrow> string \<Rightarrow> string \<Rightarrow> (io_error + string) \<times> string" where
  "read_line_from max_line buf [] = (Inl EOF, [])"
| "read_line_from max_line buf (b # s) =
     (if length (b # buf) > max_line then (Inl Too_Long, drain_line b (length (b # buf)) s)
      else if b = LF then (Inr (strip_cr (rev buf)), s)
      else read_line_from max_line (b # buf) s)"

definition read_line :: "nat \<Rightarrow> string \<Rightarrow> (io_error + string) \<times> string" where
  "read_line max_line inp = read_line_from max_line [] inp"

lemma drain_line_shorter: "length (drain_line b n s) \<le> length s"
  by (induction b n s rule: drain_line.induct) auto

lemma read_line_from_shorter:
  "read_line_from m buf s = (r, s') \<Longrightarrow> s \<noteq> [] \<Longrightarrow> length s' < length s"
proof (induction m buf s rule: read_line_from.induct)
  case (2 m buf b s)
  then show ?case
    using drain_line_shorter[of b "length (b # buf)" s]
    by (cases s) (auto split: if_splits)
qed simp

lemma read_line_shorter: "read_line m s = (Inr l, s') \<Longrightarrow> length s' < length s"
  unfolding read_line_def using read_line_from_shorter[of m "[]" s "Inr l" s'] by (cases "s = []") auto

definition read_command :: "string \<Rightarrow> (io_error + string) \<times> string" where
  "read_command inp = read_line max_command inp"

text \<open>The rest of a block that is too large is read up to its terminator.\<close>

function drain_block :: "string \<Rightarrow> io_error \<times> string" where
  "drain_block inp =
     (case read_line max_line_bytes inp of
        (Inl e, inp') \<Rightarrow> (e, inp')
      | (Inr l, inp') \<Rightarrow> if l = ''.'' then (Too_Long, inp') else drain_block inp')"
  by pat_completeness auto
termination by (relation "measure length") (auto dest: read_line_shorter[OF sym])

declare drain_block.simps [simp del]

function read_article_from :: "nat \<Rightarrow> string \<Rightarrow> string \<Rightarrow> (io_error + string) \<times> string" where
  "read_article_from max_bytes acc inp =
     (case read_line max_line_bytes inp of
        (Inl e, inp') \<Rightarrow> (Inl e, inp')
      | (Inr l, inp') \<Rightarrow>
          if l = ''.'' then (Inr acc, inp')
          else
            let acc' = acc @ trim_prefix l ''.'' @ CRLF in
            if max_bytes > 0 \<and> length acc' > max_bytes then map_prod Inl id (drain_block inp')
            else read_article_from max_bytes acc' inp')"
  by pat_completeness auto
termination by (relation "measure (\<lambda>(m, acc, inp). length inp)") (auto dest: read_line_shorter[OF sym])

declare read_article_from.simps [simp del]

definition read_article :: "nat \<Rightarrow> string \<Rightarrow> (io_error + string) \<times> string" where
  "read_article max_bytes inp = read_article_from max_bytes [] inp"

definition reply_code :: "string \<Rightarrow> nat" where
  "reply_code line = foldl (\<lambda>n c. n * 10 + (byte c - 48)) 0 (take 3 line)"

definition read_reply :: "string \<Rightarrow> (io_error + nat \<times> string) \<times> string" where
  "read_reply inp =
     (case read_line max_command inp of
        (Inl e, inp') \<Rightarrow> (Inl e, inp')
      | (Inr l, inp') \<Rightarrow>
          if length l < 3 then (Inl (Short_Reply l), inp')
          else if \<not> list_all is_digit (take 3 l) then (Inl (Bad_Reply l), inp')
          else (Inr (reply_code l, l), inp'))"

definition split_args :: "string \<Rightarrow> string list" where
  "split_args line = (let l = trim_space line in if l = [] then [] else str_fields l)"

section \<open>Writing\<close>

definition raw_text :: "string \<Rightarrow> string" where
  "raw_text line = line @ CRLF"

definition reply_text :: "nat \<Rightarrow> string \<Rightarrow> string" where
  "reply_text code text =
     (if text = [] then format_int (int code) @ CRLF
      else format_int (int code) @ '' '' @ text @ CRLF)"

definition reply_args_text :: "nat \<Rightarrow> string list \<Rightarrow> string \<Rightarrow> string" where
  "reply_args_text code args text =
     format_int (int code) @ concat (map (\<lambda>a. '' '' @ a) args)
     @ (if text \<noteq> [] then '' '' @ text else []) @ CRLF"

text \<open>\<open>splitCRLF\<close>: the lines of a text without their ends; the last may lack its end.\<close>

definition split_crlf :: "string \<Rightarrow> string list" where
  "split_crlf b =
     (let ls = split_on LF b in map strip_cr (if last ls = [] then butlast ls else ls))"

definition stuff_line :: "string \<Rightarrow> string" where
  "stuff_line l = (if l \<noteq> [] \<and> hd l = DOT then DOT # l else l)"

definition dot_block :: "string \<Rightarrow> string" where
  "dot_block b = concat (map (\<lambda>l. stuff_line l @ CRLF) (split_crlf b)) @ ''.'' @ CRLF"

definition block_text :: "nat \<Rightarrow> string list \<Rightarrow> string \<Rightarrow> string \<Rightarrow> string" where
  "block_text code args text b = reply_args_text code args text @ dot_block b"

section \<open>Escaping lines\<close>

text \<open>
  A line format that ends a block (or separates two) by a special line must escape the lines
  that look like it. The contract holds for the lines of \<open>ok\<close>.
\<close>

locale line_codec =
  fixes escape unescape :: "string \<Rightarrow> string"
    and stop ok :: "string \<Rightarrow> bool"
  assumes unescape_escape: "ok l \<Longrightarrow> unescape (escape l) = l"
    and escape_no_stop: "ok l \<Longrightarrow> \<not> stop (escape l)"
begin

lemma block_read:
  "list_all ok ls \<Longrightarrow> stop e \<Longrightarrow>
   map unescape (takeWhile (\<lambda>l. \<not> stop l) (map escape ls @ e # rest)) = ls
   \<and> dropWhile (\<lambda>l. \<not> stop l) (map escape ls @ e # rest) = e # rest"
  by (induction ls) (auto simp: unescape_escape escape_no_stop)

lemma block_inj: "list_all ok ls \<Longrightarrow> list_all ok ks \<Longrightarrow> map escape ls = map escape ks \<Longrightarrow> ls = ks"
proof -
  assume a: "list_all ok ls" "list_all ok ks" "map escape ls = map escape ks"
  have "list_all ok xs \<Longrightarrow> map unescape (map escape xs) = xs" for xs
    by (induction xs) (auto simp: unescape_escape)
  then show "ls = ks" using a by metis
qed

end

definition unstuff_line :: "string \<Rightarrow> string" where
  "unstuff_line l = trim_prefix l ''.''"

interpretation dots: line_codec stuff_line unstuff_line "\<lambda>l. l = ''.''" "\<lambda>l. True"
proof unfold_locales
  show "unstuff_line (stuff_line l) = l" for l
    by (cases l) (auto simp: stuff_line_def unstuff_line_def trim_prefix_def)
  show "stuff_line l \<noteq> ''.''" for l
    by (cases l) (auto simp: stuff_line_def)
qed

lemma strip_cr_line [simp]: "strip_cr (l @ [CR]) = l"
  by (simp add: strip_cr_def)

lemma read_line_from_line:
  "LF \<notin> set l \<Longrightarrow> length buf + length l + 2 \<le> m \<Longrightarrow>
   read_line_from m buf (l @ CR # LF # s) = (Inr (rev buf @ l), s)"
  by (induction l arbitrary: buf) auto

lemma read_line_line:
  "LF \<notin> set l \<Longrightarrow> length l + 2 \<le> m \<Longrightarrow> read_line m (l @ CR # LF # s) = (Inr l, s)"
  by (simp add: read_line_def read_line_from_line)

lemma read_line_from_bounds:
  "read_line_from m buf s = (Inr l, s') \<Longrightarrow> LF \<notin> set buf \<Longrightarrow>
   length l < m \<and> LF \<notin> set l \<and> (\<exists>e \<in> {[LF], CRLF}. rev buf @ s = l @ e @ s')"
proof (induction m buf s rule: read_line_from.induct)
  case (2 m buf b s)
  show ?case
  proof (cases "length (b # buf) > m \<or> b \<noteq> LF")
    case True
    then show ?thesis using 2 by (auto split: if_splits)
  next
    case False
    then have l: "l = strip_cr (rev buf)" "s' = s" "length buf < m" "b = LF" using "2.prems" by auto
    show ?thesis
    proof (cases buf)
      case (Cons a as)
      then show ?thesis using l "2.prems"(2) by (cases "a = CR") (auto simp: strip_cr_def)
    qed (use l in \<open>auto simp: strip_cr_def\<close>)
  qed
qed simp

text \<open>What a text becomes when it is sent and received: every line closed by CRLF.\<close>

definition canonical_text :: "string \<Rightarrow> string" where
  "canonical_text b = concat (map (\<lambda>l. l @ CRLF) (split_crlf b))"

lemma strip_cr_set: "set (strip_cr l) \<subseteq> set l"
  by (auto simp: strip_cr_def dest: in_set_butlastD)

lemma split_crlf_no_LF: "l \<in> set (split_crlf b) \<Longrightarrow> LF \<notin> set l"
proof -
  assume "l \<in> set (split_crlf b)"
  then obtain k where "k \<in> set (split_on LF b)" "l = strip_cr k"
    by (auto simp: split_crlf_def Let_def dest: in_set_butlastD split: if_splits)
  then show ?thesis using split_on_no_sep strip_cr_set by blast
qed

lemma read_article_lines:
  "(\<forall>l \<in> set ls. LF \<notin> set l \<and> length l + 3 \<le> max_line_bytes) \<Longrightarrow>
   m = 0 \<or> length (acc @ concat (map (\<lambda>l. l @ CRLF) ls)) \<le> m \<Longrightarrow>
   read_article_from m acc (concat (map (\<lambda>l. stuff_line l @ CRLF) ls) @ ''.'' @ CRLF @ rest)
     = (Inr (acc @ concat (map (\<lambda>l. l @ CRLF) ls)), rest)"
proof (induction ls arbitrary: acc)
  case Nil
  have "read_line max_line_bytes (''.'' @ CR # LF # rest) = (Inr ''.'', rest)"
    by (rule read_line_line) (simp_all add: max_line_bytes_def)
  then show ?case by (simp add: read_article_from.simps)
next
  case (Cons l ls)
  let ?s = "concat (map (\<lambda>l. stuff_line l @ CRLF) ls) @ ''.'' @ CRLF @ rest"
  have "LF \<notin> set (stuff_line l)" "length (stuff_line l) + 2 \<le> max_line_bytes"
    using Cons.prems(1) by (auto simp: stuff_line_def)
  then have "read_line max_line_bytes (stuff_line l @ CR # LF # ?s) = (Inr (stuff_line l), ?s)"
    by (rule read_line_line)
  moreover have "stuff_line l \<noteq> ''.''" using dots.escape_no_stop by simp
  moreover have "trim_prefix (stuff_line l) ''.'' = l"
    using dots.unescape_escape[of l] by (simp add: unstuff_line_def)
  moreover have "\<not> (0 < m \<and> m < Suc (Suc (length acc + length l)))" using Cons.prems(2) by auto
  ultimately show ?case
    using Cons.IH[of "acc @ l @ CRLF"] Cons.prems
    by (auto simp: read_article_from.simps[of m acc])
qed

section \<open>Properties\<close>

text \<open>A line that is read is shorter than the limit, holds no line feed, and is exactly the
  input up to its line end; what follows is left to be read.\<close>

theorem read_line_exact:
  assumes "read_line m inp = (Inr l, rest)"
  shows "length l < m \<and> LF \<notin> set l \<and> (inp = l @ LF # rest \<or> inp = l @ CR # LF # rest)"
  using read_line_from_bounds[of m "[]" inp l rest] assms by (simp add: read_line_def)

theorem read_line_exact_witness:
  "length ''DATE'' < 512 \<and> read_line 512 (''DATE'' @ CRLF @ ''x'') = (Inr ''DATE'', ''x'')"
proof -
  have "read_line 512 (''DATE'' @ CRLF @ ''x'') = (Inr ''DATE'', ''x'')" by code_simp
  then show ?thesis using read_line_exact[of 512 "''DATE'' @ CRLF @ ''x''" "''DATE''" "''x''"] by simp
qed

text \<open>C13: a block that \<open>WriteDot\<close> sends is received by \<open>ReadArticle\<close> line for line, with nothing
  of what follows it consumed, provided no line reaches 2^20 bytes and the size limit is met:
  no content can end the block early.\<close>

theorem dot_block_roundtrip:
  assumes "\<forall>l \<in> set (split_crlf b). length l + 3 \<le> max_line_bytes"
    and "m = 0 \<or> length (canonical_text b) \<le> m"
  shows "read_article m (dot_block b @ rest) = (Inr (canonical_text b), rest)"
  using read_article_lines[of "split_crlf b" m "[]" rest] assms split_crlf_no_LF
  by (simp add: read_article_def dot_block_def canonical_text_def)

theorem dot_block_roundtrip_witness:
  "read_article 100 (dot_block (''.a'' @ CRLF @ ''.'' @ CRLF @ ''b'') @ ''QUIT'')
     = (Inr (''.a'' @ CRLF @ ''.'' @ CRLF @ ''b'' @ CRLF), ''QUIT'')"
proof -
  let ?b = "''.a'' @ CRLF @ ''.'' @ CRLF @ ''b''"
  have s: "split_crlf ?b = [''.a'', ''.'', ''b'']" by code_simp
  then have "canonical_text ?b = ''.a'' @ CRLF @ ''.'' @ CRLF @ ''b'' @ CRLF"
    by (simp add: canonical_text_def)
  then show ?thesis using dot_block_roundtrip[of ?b 100 "''QUIT''"] s by (simp add: max_line_bytes_def)
qed

end
