(* ===== verification/Mail.thy ===== *)
theory Mail
  imports GoText
begin

text \<open>
  Outbound mail: the settings of \<open>internal/mail/settings.go\<close> and the checks and the message text
  of \<open>internal/mail/send.go\<close>. The SMTP conversation is not modelled: \<open>send_raw\<close> and
  \<open>send_mail\<close> yield the delivery that \<open>sendBytes\<close> would attempt.
\<close>

section \<open>Settings\<close>

record mail_settings =
  mail_host :: string
  mail_port :: int
  mail_user :: string
  mail_pass :: string
  mail_from :: string
  mail_security :: string

definition no_mail_settings :: mail_settings where
  "no_mail_settings = \<lparr>mail_host = [], mail_port = 0, mail_user = [], mail_pass = [],
     mail_from = [], mail_security = []\<rparr>"

datatype mail_error =
    Bad_Security | Bad_Port | Bad_Host | Bad_Username
  | From_Required | From_Not_One_Line | From_No_At
  | Not_Configured | No_Recipients | Subject_Required | Subject_Not_One_Line | Empty_Message

definition normalize_security :: "string \<Rightarrow> string" where
  "normalize_security s =
     (let k = to_lower (trim_space s) in
      if k \<in> {[], ''auto'', ''opportunistic''} then ''auto''
      else if k \<in> {''starttls'', ''start-tls''} then ''starttls''
      else if k \<in> {''plain'', ''none'', ''off''} then ''plain''
      else if k \<in> {''tls'', ''ssl'', ''smtps'', ''ssl/tls'', ''ssl-tls'', ''implicit''} then ''tls''
      else k)"

definition default_mail_port :: "string \<Rightarrow> int" where
  "default_mail_port sec = (if sec = ''starttls'' then 587 else if sec = ''tls'' then 465 else 25)"

definition normalize_mail :: "mail_settings \<Rightarrow> mail_settings" where
  "normalize_mail s =
     (let sec = normalize_security (mail_security s) in
      s\<lparr>mail_host := trim_space (mail_host s), mail_user := trim_space (mail_user s),
        mail_from := trim_space (mail_from s), mail_security := sec,
        mail_port := (if mail_port s \<le> 0 then default_mail_port sec else mail_port s)\<rparr>)"

definition prefer_saved :: "mail_settings \<Rightarrow> bool \<Rightarrow> mail_settings \<Rightarrow> mail_settings" where
  "prefer_saved saved ok fallback = (if ok then normalize_mail saved else normalize_mail fallback)"

definition for_send :: "mail_settings \<Rightarrow> mail_settings \<Rightarrow> mail_settings" where
  "for_send base over =
     (if trim_space (mail_host over) = [] then normalize_mail base
      else
        let out = normalize_mail over in
        if trim_space (mail_from over) = [] then out\<lparr>mail_from := trim_space (mail_from base)\<rparr> else out)"

text \<open>What follows the last \<open><\<close>, if there is one: \<open>strings.LastIndex\<close>.\<close>

definition after_last :: "char \<Rightarrow> string \<Rightarrow> string option" where
  "after_last c s = (if c \<in> set s then Some (last (split_on c s)) else None)"

definition envelope_addr :: "string \<Rightarrow> string" where
  "envelope_addr from =
     (case after_last CHR ''<'' from of
        None \<Rightarrow> from
      | Some t \<Rightarrow> if has_suffix from ''>'' then trim_space (butlast t) else from)"

definition envelope :: "string \<Rightarrow> mail_error + string" where
  "envelope from0 =
     (let from = trim_space from0 in
      if from = [] then Inl From_Required
      else if contains_any from [CR, LF] then Inl From_Not_One_Line
      else
        let addr = envelope_addr from in
        if \<not> contains addr ''@'' \<or> contains_any addr ('' '' @ [TAB] @ ''<>'') then Inl From_No_At
        else Inr addr)"

definition validate_mail :: "mail_settings \<Rightarrow> mail_error option" where
  "validate_mail s0 =
     (let s = normalize_mail s0 in
      if mail_security s \<notin> {''auto'', ''starttls'', ''plain'', ''tls''} then Some Bad_Security
      else if mail_port s < 1 \<or> mail_port s > 65535 then Some Bad_Port
      else if mail_host s \<noteq> []
          \<and> (contains_any (mail_host s) ('' /'' @ [TAB, CR, LF]) \<or> contains (mail_host s) ''://'')
      then Some Bad_Host
      else if contains_any (mail_user s) [CR, LF] then Some Bad_Username
      else if mail_from s \<noteq> [] then
        (case envelope (mail_from s) of Inl e \<Rightarrow> Some e | Inr _ \<Rightarrow> None)
      else None)"

section \<open>Messages\<close>

record mail_message =
  mail_to :: "string list"
  mail_cc :: "string list"
  mail_subject :: string
  mail_body :: string

record delivery =
  envelope_from :: string
  recipients :: "string list"
  mail_data :: string

definition clean_addrs :: "string list \<Rightarrow> string list" where
  "clean_addrs xs = dedup_on (\<lambda>a. a) [[]] (map trim_space xs)"

definition implicit_tls :: "mail_settings \<Rightarrow> bool" where
  "implicit_tls s =
     (if mail_security s = ''tls'' then True
      else if mail_security s = ''auto'' \<or> mail_security s = ''starttls'' then mail_port s = 465
      else False)"

definition send_raw :: "mail_settings \<Rightarrow> string list \<Rightarrow> string \<Rightarrow> mail_error + delivery" where
  "send_raw s0 rcpts raw =
     (let s = normalize_mail s0 in
      case validate_mail s of Some e \<Rightarrow> Inl e
      | None \<Rightarrow>
        if mail_host s = [] then Inl Not_Configured
        else case envelope (mail_from s) of Inl e \<Rightarrow> Inl e
        | Inr env \<Rightarrow>
          if clean_addrs rcpts = [] then Inl No_Recipients
          else if trim_space raw = [] then Inl Empty_Message
          else Inr \<lparr>envelope_from = env, recipients = clean_addrs rcpts, mail_data = raw\<rparr>)"

definition build_message :: "string \<Rightarrow> string list \<Rightarrow> string list \<Rightarrow> string \<Rightarrow> string \<Rightarrow> string" where
  "build_message from to cc subject text =
     (let b = replace_all (replace_all text CRLF [LF]) [LF] CRLF in
      ''From: '' @ from @ CRLF @ ''To: '' @ join '', '' to @ CRLF
      @ (if cc \<noteq> [] then ''Cc: '' @ join '', '' cc @ CRLF else [])
      @ ''Subject: '' @ subject @ CRLF @ ''MIME-Version: 1.0'' @ CRLF
      @ ''Content-Type: text/plain; charset=utf-8'' @ CRLF @ CRLF
      @ b @ (if has_suffix b CRLF then [] else CRLF))"

definition send_mail :: "mail_settings \<Rightarrow> mail_message \<Rightarrow> mail_error + delivery" where
  "send_mail s0 msg =
     (let s = normalize_mail s0 in
      case validate_mail s of Some e \<Rightarrow> Inl e
      | None \<Rightarrow>
        if mail_host s = [] then Inl Not_Configured
        else case envelope (mail_from s) of Inl e \<Rightarrow> Inl e
        | Inr env \<Rightarrow>
          let to = clean_addrs (mail_to msg); cc = clean_addrs (mail_cc msg);
              subject = trim_space (mail_subject msg) in
          if to = [] then Inl No_Recipients
          else if subject = [] then Inl Subject_Required
          else if contains_any subject [CR, LF] then Inl Subject_Not_One_Line
          else Inr \<lparr>envelope_from = env, recipients = to @ cc,
                    mail_data = build_message (mail_from s) to cc subject (mail_body msg)\<rparr>)"

section \<open>Lemmas\<close>

lemma after_last_chars: "after_last c s = Some t \<Longrightarrow> set t \<subseteq> set s"
  using split_on_chars[of "last (split_on c s)" c s] by (auto simp: after_last_def split: if_splits)

lemma envelope_addr_chars: "set (envelope_addr s) \<subseteq> set s"
proof (cases "after_last CHR ''<'' s")
  case (Some t)
  have "set (trim_space (butlast t)) \<subseteq> set t"
    using trim_space_chars[of "butlast t"] by (auto dest: in_set_butlastD)
  then show ?thesis using after_last_chars[OF Some] Some by (auto simp: envelope_addr_def)
qed (simp add: envelope_addr_def)

lemma envelope_ok:
  "envelope from = Inr a \<Longrightarrow>
   CHR ''@'' \<in> set a \<and> set a \<inter> {CR, LF, SP, TAB, CHR ''<'', CHR ''>''} = {}"
  using envelope_addr_chars[of "trim_space from"]
  by (auto simp: envelope_def Let_def contains_any_iff split: if_splits)

lemma clean_addrs_ok: "distinct (clean_addrs xs) \<and> [] \<notin> set (clean_addrs xs)"
  using dedup_on_distinct[of "\<lambda>a. a"] dedup_on_fresh[of "[]" "\<lambda>a. a" "[[]]"]
  by (auto simp: clean_addrs_def)

section \<open>Properties\<close>

text \<open>Mail is delivered only with a usable server name, to at least one non-empty recipient,
  each named once, under an envelope sender that holds an at sign and no blank, angle bracket or
  line end: no setting can add a line to the SMTP conversation.\<close>

theorem send_raw_safe:
  assumes "send_raw s rcpts raw = Inr d"
  shows "CHR ''@'' \<in> set (envelope_from d)
    \<and> set (envelope_from d) \<inter> {CR, LF, SP, TAB, CHR ''<'', CHR ''>''} = {}
    \<and> recipients d \<noteq> [] \<and> distinct (recipients d) \<and> [] \<notin> set (recipients d)
    \<and> mail_host (normalize_mail s) \<noteq> []
    \<and> validate_mail (normalize_mail s) = None \<and> mail_data d = raw"
proof -
  obtain env where env: "envelope (mail_from (normalize_mail s)) = Inr env"
    "d = \<lparr>envelope_from = env, recipients = clean_addrs rcpts, mail_data = raw\<rparr>"
    "clean_addrs rcpts \<noteq> []" "mail_host (normalize_mail s) \<noteq> []"
    "validate_mail (normalize_mail s) = None"
    using assms by (auto simp: send_raw_def Let_def split: option.splits sum.splits if_splits)
  then show ?thesis using envelope_ok[OF env(1)] clean_addrs_ok[of rcpts] by simp
qed

theorem send_raw_safe_witness:
  "\<exists>d. send_raw \<lparr>mail_host = ''mx'', mail_port = 25, mail_user = [], mail_pass = [],
      mail_from = ''N <n@a>'', mail_security = ''plain''\<rparr> ['' m@b ''] ''x'' = Inr d
    \<and> CHR ''@'' \<in> set (envelope_from d)"
proof -
  let ?s = "\<lparr>mail_host = ''mx'', mail_port = 25, mail_user = [], mail_pass = [],
      mail_from = ''N <n@a>'', mail_security = ''plain''\<rparr>"
  have "\<not> isl (send_raw ?s ['' m@b ''] ''x'')" by code_simp
  then obtain d where "send_raw ?s ['' m@b ''] ''x'' = Inr d"
    by (cases "send_raw ?s ['' m@b ''] ''x''") auto
  then show ?thesis using send_raw_safe by blast
qed

end
