(* ===== verification/Wildmat.thy ===== *)
theory Wildmat
  imports GoText
begin

text \<open>
  The wildmat matcher of \<open>internal/wildmat/wildmat.go\<close>: RFC 3977 section 4 patterns with the
  poison mark \<open>@\<close> of INN. The matcher works on runes. The lemmas give its two layers a
  declarative reading: one pattern matches exactly the strings of the relation \<open>glob\<close>, and a
  comma-separated wildmat is decided by the last component that matches.
\<close>

section \<open>One pattern\<close>

abbreviation star :: nat where "star \<equiv> 42"
abbreviation quest :: nat where "quest \<equiv> 63"

fun match_runes :: "nat list \<Rightarrow> nat list \<Rightarrow> bool" where
  "match_runes [] s = (s = [])"
| "match_runes (p # pat) s =
     (if p = star then list_ex (\<lambda>i. match_runes pat (drop i s)) [0..<Suc (length s)]
      else if p = quest then (case s of [] \<Rightarrow> False | c # t \<Rightarrow> match_runes pat t)
      else (case s of [] \<Rightarrow> False | c # t \<Rightarrow> p = c \<and> match_runes pat t))"

definition match_pattern :: "string \<Rightarrow> string \<Rightarrow> bool" where
  "match_pattern pat s = match_runes (runes pat) (runes s)"

text \<open>What a pattern means: a star stands for any run, a question mark for one rune.\<close>

inductive glob :: "nat list \<Rightarrow> nat list \<Rightarrow> bool" where
  glob_end: "glob [] []"
| glob_star: "glob pat t \<Longrightarrow> glob (star # pat) (u @ t)"
| glob_any: "glob pat t \<Longrightarrow> glob (quest # pat) (c # t)"
| glob_lit: "p \<noteq> star \<Longrightarrow> p \<noteq> quest \<Longrightarrow> glob pat t \<Longrightarrow> glob (p # pat) (p # t)"

inductive_simps glob_Nil: "glob [] s"
inductive_simps glob_Cons: "glob (p # pat) s"

lemma match_runes_glob: "match_runes pat s \<longleftrightarrow> glob pat s"
proof (induction pat arbitrary: s)
  case Nil
  then show ?case by (simp add: glob_Nil)
next
  case (Cons p pat)
  show ?case
  proof (cases "p = star")
    case True
    have "(\<exists>i < Suc (length s). glob pat (drop i s)) \<longleftrightarrow> (\<exists>u t. s = u @ t \<and> glob pat t)"
    proof
      assume "\<exists>i < Suc (length s). glob pat (drop i s)"
      then show "\<exists>u t. s = u @ t \<and> glob pat t" by (metis append_take_drop_id)
    next
      assume "\<exists>u t. s = u @ t \<and> glob pat t"
      then obtain u t where "s = u @ t" "glob pat t" by blast
      then have "length u < Suc (length s) \<and> glob pat (drop (length u) s)" by simp
      then show "\<exists>i < Suc (length s). glob pat (drop i s)" by blast
    qed
    moreover have "match_runes (p # pat) s \<longleftrightarrow> (\<exists>i < Suc (length s). glob pat (drop i s))"
      using True Cons.IH by (auto simp: list_ex_iff simp del: upt_Suc)
    moreover have "glob (p # pat) s \<longleftrightarrow> (\<exists>u t. s = u @ t \<and> glob pat t)"
      using True by (auto simp: glob_Cons)
    ultimately show ?thesis by simp
  next
    case False
    then show ?thesis using Cons.IH by (cases s) (auto simp: glob_Cons)
  qed
qed

section \<open>Comma-separated patterns\<close>

definition negated :: "string \<Rightarrow> bool" where
  "negated p \<longleftrightarrow> has_prefix p ''!'' \<or> has_prefix p ''@''"

definition pattern_body :: "string \<Rightarrow> string" where
  "pattern_body p = (if negated p then drop 1 p else p)"

text \<open>One round of the loop of \<open>Match\<close>; the state is \<open>(found, matched)\<close>.\<close>

definition match_step :: "string \<Rightarrow> bool \<times> bool \<Rightarrow> string \<Rightarrow> bool \<times> bool" where
  "match_step s st p =
     (if pattern_body p = [] then st
      else if match_pattern (pattern_body p) s then (True, \<not> negated p)
      else st)"

definition wildmat_match :: "string \<Rightarrow> string \<Rightarrow> bool" where
  "wildmat_match w s =
     (if w = [] then False
      else let (found, matched) = foldl (match_step s) (False, False) (split_on CHR '','' w)
           in found \<and> matched)"

definition match_any :: "string \<Rightarrow> string list \<Rightarrow> bool" where
  "match_any w ss = list_ex (wildmat_match w) ss"

definition poisoned :: "string \<Rightarrow> string \<Rightarrow> bool" where
  "poisoned w s =
     (if w = [] then False
      else list_ex (\<lambda>p. has_prefix p ''@'' \<and> drop 1 p \<noteq> [] \<and> match_pattern (drop 1 p) s)
             (split_on CHR '','' w))"

definition group_banned :: "string list \<Rightarrow> string \<Rightarrow> bool" where
  "group_banned patterns g =
     list_ex (\<lambda>p. trim_space p \<noteq> [] \<and> wildmat_match (trim_space p) g) patterns"

definition keep_groups :: "string list \<Rightarrow> string list \<Rightarrow> string list" where
  "keep_groups patterns gs =
     (if patterns = [] then gs else filter (\<lambda>g. \<not> group_banned patterns g) gs)"

text \<open>\<open>Valid\<close>: the syntax check of the wildmat arguments of LIST and NEWNEWS.\<close>

definition valid_component :: "string \<Rightarrow> bool" where
  "valid_component p =
     (let q = trim_prefix (trim_prefix p ''!'') ''@'' in
      q \<noteq> [] \<and> list_all (\<lambda>r. r \<notin> {44, 92, 91, 93}) (runes q))"

definition valid_wildmat :: "string \<Rightarrow> bool" where
  "valid_wildmat w =
     (w \<noteq> [] \<and> valid_utf8 w \<and> list_all valid_component (split_on CHR '','' w))"

section \<open>The last matching rule decides\<close>

text \<open>
  The contract of a rule list read from left to right in which a later match overrides an
  earlier one. \<open>decide\<close> is the client's operation on a list of rules.
\<close>

locale last_match =
  fixes hits :: "'r \<Rightarrow> 'x \<Rightarrow> bool"
    and positive :: "'r \<Rightarrow> bool"
    and decide :: "'r list \<Rightarrow> 'x \<Rightarrow> bool"
  assumes decide_Nil: "\<not> decide [] x"
    and decide_snoc: "decide (rs @ [r]) x = (if hits r x then positive r else decide rs x)"
begin

lemma decide_no_hit: "(\<forall>r \<in> set rs. \<not> hits r x) \<Longrightarrow> \<not> decide rs x"
  by (induction rs rule: rev_induct) (auto simp: decide_Nil decide_snoc)

lemma decide_skip: "(\<forall>r \<in> set qs. \<not> hits r x) \<Longrightarrow> decide (rs @ qs) x = decide rs x"
proof (induction qs rule: rev_induct)
  case (snoc q qs)
  then show ?case using decide_snoc[of "rs @ qs" q x] by simp
qed simp

lemma decide_last: "hits r x \<Longrightarrow> (\<forall>q \<in> set qs. \<not> hits q x) \<Longrightarrow> decide (rs @ r # qs) x = positive r"
  using decide_skip[of qs x "rs @ [r]"] by (simp add: decide_snoc)

lemma decide_iff:
  "decide rs x \<longleftrightarrow>
     (\<exists>ps r qs. rs = ps @ r # qs \<and> hits r x \<and> positive r \<and> (\<forall>q \<in> set qs. \<not> hits q x))"
proof
  assume d: "decide rs x"
  then have "\<exists>r \<in> set rs. hits r x" using decide_no_hit by blast
  then obtain ps r qs where rs: "rs = ps @ r # qs" "hits r x" "\<forall>q \<in> set qs. \<not> hits q x"
    using split_list_last_prop[of rs "\<lambda>r. hits r x"] by blast
  then have "positive r" using d decide_last by simp
  then show "\<exists>ps r qs. rs = ps @ r # qs \<and> hits r x \<and> positive r \<and> (\<forall>q \<in> set qs. \<not> hits q x)"
    using rs by blast
next
  assume "\<exists>ps r qs. rs = ps @ r # qs \<and> hits r x \<and> positive r \<and> (\<forall>q \<in> set qs. \<not> hits q x)"
  then show "decide rs x" using decide_last by blast
qed

end

definition component_hits :: "string \<Rightarrow> string \<Rightarrow> bool" where
  "component_hits p s \<longleftrightarrow> pattern_body p \<noteq> [] \<and> match_pattern (pattern_body p) s"

definition decide_components :: "string list \<Rightarrow> string \<Rightarrow> bool" where
  "decide_components ps s =
     (let (found, matched) = foldl (match_step s) (False, False) ps in found \<and> matched)"

interpretation wild: last_match component_hits "\<lambda>p. \<not> negated p" decide_components
  by unfold_locales
     (auto simp: decide_components_def component_hits_def match_step_def split: prod.splits)

lemma wildmat_match_decide:
  "wildmat_match w s = (w \<noteq> [] \<and> decide_components (split_on CHR '','' w) s)"
  by (simp add: wildmat_match_def decide_components_def)

lemma component_hits_glob:
  "component_hits p s \<longleftrightarrow> pattern_body p \<noteq> [] \<and> glob (runes (pattern_body p)) (runes s)"
  by (simp add: component_hits_def match_pattern_def match_runes_glob)

lemma match_runes_star [simp]: "match_runes [star] s"
  by (auto simp: match_runes_glob glob_Cons glob_Nil)

lemma wildmat_star [simp]: "wildmat_match ''*'' s"
  by (simp add: wildmat_match_def match_step_def pattern_body_def negated_def match_pattern_def)

lemma group_banned_Nil [simp]: "\<not> group_banned [] g"
  by (simp add: group_banned_def)

lemma keep_groups_subset: "set (keep_groups ps gs) \<subseteq> set gs"
  by (auto simp: keep_groups_def)

lemma keep_groups_iff: "g \<in> set (keep_groups ps gs) \<longleftrightarrow> g \<in> set gs \<and> \<not> group_banned ps g"
  by (auto simp: keep_groups_def)

section \<open>Properties\<close>


text \<open>A wildmat accepts a string exactly when the last of its components that matches it
  carries neither \<open>!\<close> nor \<open>@\<close>; a string no component matches is refused.\<close>

theorem wildmat_last_match_wins:
  "wildmat_match w s \<longleftrightarrow>
     (\<exists>ps p qs. split_on CHR '','' w = ps @ p # qs \<and> component_hits p s \<and> \<not> negated p
        \<and> \<not> list_ex (\<lambda>q. component_hits q s) qs)"
proof -
  have "w = [] \<Longrightarrow> \<not> decide_components (split_on CHR '','' w) s"
    by (simp add: decide_components_def match_step_def pattern_body_def negated_def)
  then have "wildmat_match w s = decide_components (split_on CHR '','' w) s"
    by (auto simp: wildmat_match_decide)
  then show ?thesis by (simp add: wild.decide_iff list_ex_iff)
qed

end
