(* ===== verification/Moderate.thy ===== *)
theory Moderate
  imports Mail Wildmat Lines
begin

text \<open>
  Submission of articles for moderated groups, \<open>internal/moderate/submit.go\<close>: which group of an
  article needs a moderator, the address of that moderator, and the mail that is sent. A
  \<open>Rule\<close> is a record; mail goes out through \<open>send_raw\<close>, the sender \<open>deliver\<close> holds by default.
\<close>

record mod_rule =
  rule_pattern :: string
  rule_address :: string

datatype moderate_error =
    Group_Name_Required | Address_Required | Bad_Percent | Second_Group | Not_An_Address
  | Not_Single_Wildmat | Mail_Failed mail_error

definition default_address :: string where
  "default_address = ''%s@moderators.isc.org''"

text \<open>\<open>lookup\<close> yields the status of a known group, or \<open>None\<close>; its error is the other summand.\<close>

fun first_moderated :: "(string \<Rightarrow> 'e + string option) \<Rightarrow> string list \<Rightarrow> 'e + string" where
  "first_moderated lookup [] = Inr []"
| "first_moderated lookup (g # gs) =
     (case lookup g of Inl e \<Rightarrow> Inl e
      | Inr st \<Rightarrow> if st = Some ''m'' then Inr g else first_moderated lookup gs)"

definition moderated_target ::
    "string list \<Rightarrow> bool \<Rightarrow> (string \<Rightarrow> 'e + string option) \<Rightarrow> 'e + string" where
  "moderated_target gs approved lookup = (if approved then Inr [] else first_moderated lookup gs)"

text \<open>The loop over the template; \<open>seen\<close> tells whether the group was already put in.\<close>

fun expand :: "string \<Rightarrow> bool \<Rightarrow> string \<Rightarrow> moderate_error + string" where
  "expand dashed seen [] = Inr []"
| "expand dashed seen (c # t) =
     (if c \<noteq> CHR ''%'' then map_sum id (\<lambda>r. c # r) (expand dashed seen t)
      else case t of [] \<Rightarrow> Inl Bad_Percent
      | d # t' \<Rightarrow>
          if d = CHR ''%'' then map_sum id (\<lambda>r. CHR ''%'' # r) (expand dashed seen t')
          else if d = CHR ''s'' then
            (if seen then Inl Second_Group else map_sum id (\<lambda>r. dashed @ r) (expand dashed True t'))
          else Inl Bad_Percent)"

definition check_address :: "string \<Rightarrow> moderate_error + string" where
  "check_address addr =
     (if contains_any addr ([SP, TAB, CR, LF] @ ''<>'') \<or> count_char addr CHR ''@'' \<noteq> 1 then Inl Not_An_Address
      else case cut addr ''@'' of (lo, domain, _) \<Rightarrow>
        if lo = [] \<or> domain = [] then Inl Not_An_Address else Inr addr)"

definition dash_group :: "string \<Rightarrow> string" where
  "dash_group g = replace_all (trim_space g) ''.'' ''-''"

definition apply_template :: "string \<Rightarrow> string \<Rightarrow> moderate_error + string" where
  "apply_template g template0 =
     (let template = trim_space template0 in
      if template = [] then Inl Address_Required
      else case expand (dash_group g) False template of
        Inl e \<Rightarrow> Inl e
      | Inr addr \<Rightarrow> check_address addr)"

definition moderator_address :: "string \<Rightarrow> mod_rule list \<Rightarrow> moderate_error + string" where
  "moderator_address g0 rules =
     (let g = trim_space g0 in
      if g = [] then Inl Group_Name_Required
      else case find (\<lambda>r. wildmat_match (rule_pattern r) g) rules of
        Some r \<Rightarrow> apply_template g (rule_address r)
      | None \<Rightarrow> apply_template g default_address)"

definition normalize_rule :: "string \<Rightarrow> string \<Rightarrow> moderate_error + string \<times> string" where
  "normalize_rule pattern0 address0 =
     (let pattern = trim_space pattern0; address = trim_space address0 in
      if pattern = [] \<or> contains_any pattern [SP, TAB, CR, LF, CHR '','']
         \<or> has_prefix pattern ''!'' \<or> has_prefix pattern ''@'' \<or> \<not> valid_wildmat pattern
      then Inl Not_Single_Wildmat
      else case apply_template ''example.test'' address of
        Inl e \<Rightarrow> Inl e
      | Inr _ \<Rightarrow> Inr (pattern, address))"

definition mail_article :: "mail_settings \<Rightarrow> string \<Rightarrow> string \<Rightarrow> moderate_error + delivery" where
  "mail_article settings to w =
     (if contains_any to [CR, LF] then Inl Not_An_Address
      else map_sum Mail_Failed id (send_raw settings [to] (''To: '' @ to @ CRLF @ w)))"

definition submit_moderated ::
    "mail_settings \<Rightarrow> string \<Rightarrow> mod_rule list \<Rightarrow> string \<Rightarrow> moderate_error + string \<times> delivery" where
  "submit_moderated settings g rules w =
     (case moderator_address g rules of
        Inl e \<Rightarrow> Inl e
      | Inr addr \<Rightarrow> map_sum id (\<lambda>d. (addr, d)) (mail_article settings addr w))"

section \<open>What a template expands to\<close>

text \<open>
  A template is a sequence of characters in which \<open>None\<close> stands for the group. Reading a
  template does not depend on the group, and the checks on the result do not either, as long as
  the group holds none of the characters they look for.
\<close>

fun parse_template :: "bool \<Rightarrow> string \<Rightarrow> moderate_error + char option list" where
  "parse_template seen [] = Inr []"
| "parse_template seen (c # t) =
     (if c \<noteq> CHR ''%'' then map_sum id (\<lambda>r. Some c # r) (parse_template seen t)
      else case t of [] \<Rightarrow> Inl Bad_Percent
      | d # t' \<Rightarrow>
          if d = CHR ''%'' then map_sum id (\<lambda>r. Some CHR ''%'' # r) (parse_template seen t')
          else if d = CHR ''s'' then
            (if seen then Inl Second_Group else map_sum id (\<lambda>r. None # r) (parse_template True t'))
          else Inl Bad_Percent)"

definition fill :: "string \<Rightarrow> char option list \<Rightarrow> string" where
  "fill d ts = concat (map (\<lambda>x. case x of None \<Rightarrow> d | Some c \<Rightarrow> [c]) ts)"

lemma fill_simps [simp]:
  "fill d [] = []" "fill d (Some c # ts) = c # fill d ts" "fill d (None # ts) = d @ fill d ts"
  "fill d (xs @ ys) = fill d xs @ fill d ys"
  by (simp_all add: fill_def)

lemma expand_fill: "expand d seen t = map_sum id (fill d) (parse_template seen t)"
  by (induction seen t rule: parse_template.induct)
     (auto simp: sum.map_comp comp_def split: list.splits)

definition address_safe :: "string \<Rightarrow> bool" where
  "address_safe d \<longleftrightarrow> d \<noteq> [] \<and> set d \<inter> ({SP, TAB, CR, LF, CHR ''@''} \<union> set ''<>'') = {}"

lemma fill_member: "c \<notin> set d \<Longrightarrow> c \<in> set (fill d ts) \<longleftrightarrow> Some c \<in> set ts"
  by (induction ts) (auto simp: fill_def split: option.splits)

lemma fill_count: "c \<notin> set d \<Longrightarrow> count_char (fill d ts) c = length (filter (\<lambda>x. x = Some c) ts)"
  by (induction ts) (auto simp: count_char_def fill_def filter_empty_conv split: option.splits)

lemma fill_Nil: "d \<noteq> [] \<Longrightarrow> fill d ts = [] \<longleftrightarrow> ts = []"
  by (cases ts) (auto simp: fill_def split: option.splits)

lemma split_first: "x \<in> set xs \<Longrightarrow> \<exists>ys zs. xs = ys @ x # zs \<and> x \<notin> set ys"
  by (rule split_list_first)

lemma fill_any: "list_all (\<lambda>c. c \<notin> set d) cs \<Longrightarrow> contains_any (fill d ts) cs = list_ex (\<lambda>c. Some c \<in> set ts) cs"
proof (induction cs)
  case (Cons c cs)
  have "contains_any s (c # cs) \<longleftrightarrow> c \<in> set s \<or> contains_any s cs" for s by (auto simp: contains_any_iff)
  then show ?case using Cons by (simp add: fill_member)
qed (simp add: contains_any_iff)

lemma check_fill:
  assumes "address_safe d" "address_safe e"
  shows "check_address (fill d ts) = Inr (fill d ts) \<longleftrightarrow> check_address (fill e ts) = Inr (fill e ts)"
proof -
  have c: "c \<in> {SP, TAB, CR, LF, CHR ''@''} \<union> set ''<>'' \<Longrightarrow> c \<notin> set d \<and> c \<notin> set e" for c
    using assms by (auto simp: address_safe_def)
  have any: "contains_any (fill d ts) ([SP, TAB, CR, LF] @ ''<>'') = contains_any (fill e ts) ([SP, TAB, CR, LF] @ ''<>'')"
    using fill_any[where cs = "[SP, TAB, CR, LF] @ ''<>''"] c by simp
  have at: "count_char (fill d ts) CHR ''@'' = count_char (fill e ts) CHR ''@''"
    using c by (simp add: fill_count)
  show ?thesis
  proof (cases "Some CHR ''@'' \<in> set ts")
    case True
    then obtain xs ys where ts: "ts = xs @ Some CHR ''@'' # ys" "Some CHR ''@'' \<notin> set xs"
      by (blast dest: split_list_first)
    have "cut (fill f ts) ''@'' = (fill f xs, fill f ys, True)" if "CHR ''@'' \<notin> set f" for f
      using cut_single[of "CHR ''@''" "fill f xs" "fill f ys"] ts fill_member[OF that] by simp
    then have "cut (fill d ts) ''@'' = (fill d xs, fill d ys, True)" "cut (fill e ts) ''@'' = (fill e xs, fill e ys, True)"
      using c by simp_all
    then show ?thesis using any at assms by (simp add: check_address_def address_safe_def fill_Nil)
  next
    case False
    then have "count_char (fill d ts) CHR ''@'' = 0"
      using c False by (auto simp: fill_count filter_empty_conv)
    then show ?thesis using at by (simp add: check_address_def)
  qed
qed

lemma check_address_Inr: "check_address a = Inr b \<Longrightarrow> b = a"
  by (auto simp: check_address_def split: if_splits prod.splits)

lemma check_address_ok:
  "check_address a = Inr b \<Longrightarrow>
   set b \<inter> {SP, TAB, CR, LF, CHR ''<'', CHR ''>''} = {} \<and> count_char b CHR ''@'' = 1"
  by (auto simp: check_address_def contains_any_iff split: if_splits prod.splits)

lemma apply_template_ok:
  assumes "apply_template g t = Inr a"
  shows "set a \<inter> {SP, TAB, CR, LF, CHR ''<'', CHR ''>''} = {} \<and> count_char a CHR ''@'' = 1"
proof -
  obtain x where "check_address x = Inr a"
    using assms by (cases "expand (dash_group g) False (trim_space t)")
      (auto simp: apply_template_def Let_def split: if_splits)
  then show ?thesis by (rule check_address_ok)
qed

lemma dash_group_safe:
  "trim_space g \<noteq> [] \<Longrightarrow> set g \<inter> {SP, TAB, CR, LF, CHR ''@'', CHR ''<'', CHR ''>''} = {} \<Longrightarrow>
   address_safe (dash_group g)"
  using trim_space_chars[of g]
  by (cases "trim_space g") (auto simp: address_safe_def dash_group_def replace_char split: if_splits)

lemma apply_template_any_group:
  assumes "apply_template g t = Inr a" "address_safe (dash_group g)" "address_safe (dash_group h)"
  shows "\<exists>b. apply_template h t = Inr b"
proof -
  obtain ts where ts: "parse_template False (trim_space t) = Inr ts" "trim_space t \<noteq> []"
    "check_address (fill (dash_group g) ts) = Inr a"
    using assms(1) by (auto simp: apply_template_def expand_fill Let_def split: if_splits sum.splits)
      (metis map_sum.simps(2) obj_sumE map_sum.simps(1) sum.distinct(1) sum.inject(2))
  then show ?thesis
    using check_fill[OF assms(2,3), of ts] check_address_Inr[OF ts(3)]
    by (simp add: apply_template_def expand_fill)
qed

section \<open>Properties\<close>

text \<open>A local moderator rule that is accepted for storage works for every newsgroup: whatever
  well-formed group its pattern is applied to, the address template expands to an address with
  one at sign and no blank or angle bracket.\<close>

theorem accepted_rule_expands:
  assumes "normalize_rule pattern address = Inr (p, t)" and "trim_space g \<noteq> []"
    and "set g \<inter> {SP, TAB, CR, LF, CHR ''@'', CHR ''<'', CHR ''>''} = {}"
  shows "\<exists>a. apply_template g t = Inr a \<and> count_char a CHR ''@'' = 1
    \<and> set a \<inter> {SP, TAB, CR, LF, CHR ''<'', CHR ''>''} = {}"
proof -
  obtain b where b: "apply_template ''example.test'' t = Inr b"
    using assms(1) by (auto simp: normalize_rule_def Let_def split: if_splits sum.splits)
  moreover have "address_safe (dash_group ''example.test'')" by code_simp
  ultimately obtain a where a: "apply_template g t = Inr a"
    using apply_template_any_group dash_group_safe[OF assms(2,3)] by blast
  then show ?thesis using apply_template_ok by blast
qed

theorem accepted_rule_expands_witness: "\<exists>a. apply_template ''misc.test'' ''mod+%s@x.org'' = Inr a"
proof -
  have v: "valid_wildmat ''misc.*''"
    by (simp add: valid_wildmat_def valid_component_def valid_utf8_ascii runes_ascii ascii_def trim_prefix_def
        rune_error_def Let_def)
  have t1: "trim_space ''misc.*'' = ''misc.*''" by code_simp
  have t2: "trim_space ''mod+%s@x.org'' = ''mod+%s@x.org''" by code_simp
  have "trim_space ''example.test'' = ''example.test''" by code_simp
  with t2 have "apply_template ''example.test'' ''mod+%s@x.org'' = Inr ''mod+example-test@x.org''"
    by (simp add: apply_template_def dash_group_def replace_char check_address_def contains_any_def
        count_char_def cut_def)
  with t1 t2 v have "normalize_rule ''misc.*'' ''mod+%s@x.org'' = Inr (''misc.*'', ''mod+%s@x.org'')"
    by (simp add: normalize_rule_def contains_any_def)
  then have "\<exists>a. apply_template ''misc.test'' ''mod+%s@x.org'' = Inr a \<and> count_char a CHR ''@'' = 1
      \<and> set a \<inter> {SP, TAB, CR, LF, CHR ''<'', CHR ''>''} = {}"
  proof (rule accepted_rule_expands)
    show "trim_space ''misc.test'' \<noteq> []" by code_simp
  qed simp
  then show ?thesis by (elim exE conjE) (rule exI)
qed

text \<open>C35: a submitted article goes to the address of the first rule whose pattern matches, or to the
  public default, as a message of its own whose only added line is one \<open>To\<close> header; nothing in
  the group name or the template can add a header.\<close>

theorem submission_delivered:
  assumes "submit_moderated settings g rules w = Inr (addr, d)"
  shows "moderator_address g rules = Inr addr \<and> recipients d = [trim_space addr]
    \<and> mail_data d = ''To: '' @ addr @ CRLF @ w \<and> set addr \<inter> {CR, LF, SP, TAB} = {}
    \<and> envelope (mail_from (normalize_mail settings)) = Inr (envelope_from d)"
proof -
  have a: "moderator_address g rules = Inr addr" and m: "mail_article settings addr w = Inr d"
    using assms by (auto simp: submit_moderated_def map_sum_def split: sum.splits)
  then have s: "send_raw settings [addr] (''To: '' @ addr @ CRLF @ w) = Inr d"
    by (auto simp: mail_article_def map_sum_def split: if_splits sum.splits)
  have chars: "set addr \<inter> {SP, TAB, CR, LF, CHR ''<'', CHR ''>''} = {}"
    using a apply_template_ok by (auto simp: moderator_address_def Let_def split: if_splits option.splits)
  have d: "clean_addrs [addr] \<noteq> []" "recipients d = clean_addrs [addr]"
      "mail_data d = ''To: '' @ addr @ CRLF @ w" "envelope (mail_from (normalize_mail settings)) = Inr (envelope_from d)"
    using s by (auto simp: send_raw_def Let_def split: option.splits sum.splits if_splits)
  have "clean_addrs [addr] = [trim_space addr]"
    using d(1) by (auto simp: clean_addrs_def split: if_splits)
  with d(2) have "recipients d = [trim_space addr]" by simp
  moreover have "set addr \<inter> {CR, LF, SP, TAB} = {}" using chars by (simp add: disjoint_iff)
  ultimately show ?thesis using a d(3,4) by simp
qed

theorem submission_delivered_witness:
  "\<exists>d. submit_moderated \<lparr>mail_host = ''mx'', mail_port = 25, mail_user = [], mail_pass = [],
      mail_from = ''n@a'', mail_security = ''plain''\<rparr> ''a.b'' [] ''x'' = Inr (''a-b@moderators.isc.org'', d)
    \<and> recipients d = [trim_space ''a-b@moderators.isc.org'']"
proof -
  let ?s = "\<lparr>mail_host = ''mx'', mail_port = 25, mail_user = [], mail_pass = [],
      mail_from = ''n@a'', mail_security = ''plain''\<rparr>"
  let ?a = "''a-b@moderators.isc.org''"
  have "trim_space ''a.b'' = ''a.b''" "trim_space default_address = default_address" by code_simp+
  then have "moderator_address ''a.b'' [] = Inr ?a"
    by (simp add: moderator_address_def apply_template_def dash_group_def replace_char)
       (simp add: default_address_def check_address_def contains_any_def count_char_def cut_def)
  moreover have "normalize_mail ?s = ?s" by code_simp
  moreover have "validate_mail ?s = None" by code_simp
  moreover have "envelope ''n@a'' = Inr ''n@a''" by code_simp
  moreover have "clean_addrs [?a] = [?a]" by code_simp
  moreover have "trim_space (''To: '' @ ?a @ CRLF @ ''x'') \<noteq> []" by code_simp
  ultimately have "map_sum id fst (submit_moderated ?s ''a.b'' [] ''x'') = Inr ?a"
    by (simp add: submit_moderated_def mail_article_def send_raw_def contains_any_def)
  then obtain d where "submit_moderated ?s ''a.b'' [] ''x'' = Inr (''a-b@moderators.isc.org'', d)"
    by (cases "submit_moderated ?s ''a.b'' [] ''x''") auto
  then show ?thesis using submission_delivered by blast
qed

end
