(* ===== verification/StoreTypes.thy ===== *)
theory StoreTypes
  imports Moderate
begin

text \<open>
  The data of the article store: the types of \<open>internal/store/store.go\<close>, \<open>types_auth.go\<close> and
  \<open>stats.go\<close>, and the state of the in-process store \<open>Memory\<close> of \<open>memory.go\<close>. A struct is a
  record, an embedded struct a record extension. The objects \<open>*memArt\<close> are shared between the
  maps \<open>arts\<close> and \<open>byNum\<close>, so they live in a heap and the maps hold references.
\<close>

section \<open>Groups and articles\<close>

record group_info =
  g_name :: string
  g_desc :: string
  g_status :: string
  g_low :: int
  g_high :: int
  g_count :: int
  g_created :: int
  g_ret_days :: "int option"
  g_ret_mode :: string
  g_origin :: string

record mem_group = group_info +
  g_nums :: "int list"

record stored_article =
  s_num :: int
  s_msgid :: string
  s_headers :: string
  s_body :: string
  s_bytes :: int
  s_lines :: int
  s_stored_at :: int
  s_xref :: string
  s_subject :: string
  s_from :: string
  s_date :: string
  s_refs :: string

record mem_art = stored_article +
  a_groups :: "(string \<times> int) list"
  a_binary :: bool

record overview_row =
  o_num :: int
  o_subject :: string
  o_from :: string
  o_date :: string
  o_msgid :: string
  o_refs :: string
  o_bytes :: int
  o_lines :: int
  o_xref :: string
  o_header :: string

record post_result =
  pr_msgid :: string
  pr_xref :: string
  pr_numbers :: "(string \<times> int) list"

record purge_result =
  pu_articles :: int
  pu_groups :: "string list"
  pu_cross :: "string list"
  pu_msgids :: "string list"

record expire_result =
  ex_overview :: int
  ex_articles :: int
  ex_history :: int

section \<open>Alerts, quotas, feeds\<close>

record group_alert =
  al_id :: int
  al_group :: string
  al_kind :: string
  al_detail :: string
  al_status :: string
  al_created :: int

text \<open>\<open>MinRatio\<close> is the exact value of the float, as a fraction (numerator, denominator).\<close>

record flood_params =
  fl_window :: int
  fl_min_binary :: int
  fl_min_ratio :: "int \<times> int"
  fl_days :: int
  fl_seed :: string

record mem_accept =
  ac_binary :: bool
  ac_at :: int

record feed_item =
  fq_id :: int
  fq_peer :: int
  fq_msgid :: string
  fq_attempts :: int
  fq_next :: int
  fq_error :: string
  fq_created :: int

record feed_stats =
  fs_depth :: int
  fs_by_peer :: "(int \<times> int) list"
  fs_oldest :: int

record moderator_rule =
  mr_pattern :: string
  mr_address :: string

section \<open>Accounts and peers\<close>

record user =
  u_id :: int
  u_name :: string
  u_hash :: string
  u_role :: string
  u_can_post :: bool
  u_disabled :: bool
  u_display :: string
  u_email :: string
  u_must_change :: bool
  u_gen :: int
  u_created :: int

definition is_admin :: "user \<Rightarrow> bool" where
  "is_admin u = (u_role u = ''admin'')"

definition may_post :: "user \<Rightarrow> bool" where
  "may_post u = (\<not> u_disabled u \<and> (u_can_post u \<or> is_admin u))"

record peer =
  p_id :: int
  p_name :: string
  p_path_token :: string
  p_incoming :: string
  p_host :: string
  p_port :: int
  p_patterns :: string
  p_distributions :: string
  p_flags :: string
  p_enabled :: bool
  p_in_password :: string
  p_out_password :: string
  p_notes :: string
  p_created :: int

section \<open>The store\<close>

record stat_gb =
  text_n :: int
  bin_n :: int

record subscription =
  sb_group :: string
  sb_desc :: string
  sb_status :: string
  sb_low :: int
  sb_high :: int
  sb_count :: int
  sb_last_read :: int
  sb_unread :: int
  sb_at :: int

record memory =
  m_groups :: "(string \<times> mem_group) list"
  m_arts :: "(string \<times> nat) list"
  m_by_num :: "(string \<times> (int \<times> nat) list) list"
  m_heap :: "(nat \<times> mem_art) list"
  m_next_ref :: nat
  m_history :: "(string \<times> int) list"
  m_users :: "(string \<times> user) list"
  m_peers :: "(int \<times> peer) list"
  m_next_uid :: int
  m_next_pid :: int
  m_next_aid :: int
  m_next_fqid :: int
  m_subs :: "(int \<times> (string \<times> int) list) list"
  m_reads :: "(int \<times> (string \<times> int) list) list"
  m_accepts :: "(string \<times> mem_accept list) list"
  m_alerts :: "group_alert list"
  m_bin_quota :: "(string \<times> int) list"
  m_feed_q :: "feed_item list"
  m_secrets :: "(string \<times> string) list"
  m_bans :: "string list"
  m_mod_rules :: "moderator_rule list"
  m_mail_saved :: bool
  m_mail :: mail_settings
  m_stat_group_day :: "(string \<times> (string \<times> stat_gb) list) list"
  m_stat_group_total :: "(string \<times> stat_gb) list"
  m_stat_from_day :: "(string \<times> (string \<times> int) list) list"
  m_stat_path_day :: "(string \<times> (string \<times> int) list) list"

definition new_memory :: memory where
  "new_memory = \<lparr>m_groups = [], m_arts = [], m_by_num = [], m_heap = [], m_next_ref = 0,
     m_history = [], m_users = [], m_peers = [], m_next_uid = 0, m_next_pid = 0, m_next_aid = 0,
     m_next_fqid = 0, m_subs = [], m_reads = [], m_accepts = [], m_alerts = [], m_bin_quota = [],
     m_feed_q = [], m_secrets = [], m_bans = [], m_mod_rules = [], m_mail_saved = False,
     m_mail = no_mail_settings, m_stat_group_day = [], m_stat_group_total = [],
     m_stat_from_day = [], m_stat_path_day = []\<rparr>"

datatype store_error =
    Duplicate_ID | No_Group | User_Exists | User_Not_Found | Peer_Not_Found | Quota_Exceeded
  | Username_Required | Password_Required | Host_Required | Group_Required
  | Invalid_Pattern | Ban_Not_Found | Rule_Not_Found | Alert_Not_Found | Unknown_Action string
  | Group_Not_Found | Bad_Rule moderate_error | Mail_Invalid mail_error

end
