(* ===== verification/StoreFeed.thy ===== *)
theory StoreFeed
  imports StoreTypes GoTime
begin

text \<open>
  The queue of outgoing articles in the in-process store, \<open>internal/store/memory.go\<close>. The clock is
  an argument. The contract of the queue is an interface: the feeder relies on an offer being
  pending at most once per peer and on a completed offer being gone.
\<close>

definition enqueue_feed :: "int \<Rightarrow> int \<Rightarrow> string \<Rightarrow> memory \<Rightarrow> memory" where
  "enqueue_feed now pid m s =
     (if list_ex (\<lambda>it. fq_peer it = pid \<and> fq_msgid it = m) (m_feed_q s) then s
      else s\<lparr>m_next_fqid := m_next_fqid s + 1,
             m_feed_q := m_feed_q s @ [\<lparr>fq_id = m_next_fqid s + 1, fq_peer = pid, fq_msgid = m,
               fq_attempts = 0, fq_next = now, fq_error = [], fq_created = now\<rparr>]\<rparr>)"

definition claimed :: "int \<Rightarrow> feed_item \<Rightarrow> feed_item" where
  "claimed now it = it\<lparr>fq_attempts := fq_attempts it + 1, fq_next := now + 2 * minute\<rparr>"

text \<open>The loop: at most \<open>limit\<close> due items are claimed; the queue and the claimed copies.\<close>

fun claim_loop :: "int \<Rightarrow> nat \<Rightarrow> feed_item list \<Rightarrow> feed_item list \<times> feed_item list" where
  "claim_loop now limit [] = ([], [])"
| "claim_loop now limit (it # q) =
     (if limit = 0 then (it # q, [])
      else if now < fq_next it then (case claim_loop now limit q of (q', out) \<Rightarrow> (it # q', out))
      else (case claim_loop now (limit - 1) q of (q', out) \<Rightarrow> (claimed now it # q', claimed now it # out)))"

definition claim_feed_due :: "int \<Rightarrow> int \<Rightarrow> memory \<Rightarrow> memory \<times> feed_item list" where
  "claim_feed_due now limit0 s =
     (let limit = (if limit0 \<le> 0 then 32 else limit0);
          (q, out) = claim_loop now (nat limit) (m_feed_q s)
      in (s\<lparr>m_feed_q := q\<rparr>, out))"

definition complete_feed :: "int \<Rightarrow> memory \<Rightarrow> memory" where
  "complete_feed k s = s\<lparr>m_feed_q := filter (\<lambda>it. fq_id it \<noteq> k) (m_feed_q s)\<rparr>"

fun fail_first :: "int \<Rightarrow> (feed_item \<Rightarrow> feed_item) \<Rightarrow> feed_item list \<Rightarrow> feed_item list" where
  "fail_first k f [] = []"
| "fail_first k f (it # q) = (if fq_id it = k then f it # q else it # fail_first k f q)"

definition fail_feed :: "int \<Rightarrow> int \<Rightarrow> string \<Rightarrow> int \<Rightarrow> memory \<Rightarrow> memory" where
  "fail_feed now k err retry0 s =
     (let retry = (if retry0 \<le> 0 then 2 * minute else retry0)
      in s\<lparr>m_feed_q := fail_first k (\<lambda>it. it\<lparr>fq_error := err, fq_next := now + retry\<rparr>) (m_feed_q s)\<rparr>)"

definition flush_feed_queue :: "int \<Rightarrow> memory \<Rightarrow> memory \<times> int" where
  "flush_feed_queue pid s =
     (let kept = filter (\<lambda>it. pid > 0 \<and> fq_peer it \<noteq> pid) (m_feed_q s)
      in (s\<lparr>m_feed_q := kept\<rparr>, int (length (m_feed_q s)) - int (length kept)))"

definition oldest_item :: "feed_item list \<Rightarrow> int option" where
  "oldest_item q = fold (\<lambda>it old. case old of None \<Rightarrow> Some (fq_created it)
     | Some t \<Rightarrow> if fq_created it < t then Some (fq_created it) else Some t) q None"

definition count_peer :: "feed_item \<Rightarrow> (int \<times> int) list \<Rightarrow> (int \<times> int) list" where
  "count_peer it m =
     AList.update (fq_peer it) ((case map_of m (fq_peer it) of None \<Rightarrow> 0 | Some n \<Rightarrow> n) + 1) m"

definition feed_queue_stats :: "int \<Rightarrow> memory \<Rightarrow> feed_stats" where
  "feed_queue_stats now s =
     \<lparr>fs_depth = int (length (m_feed_q s)), fs_by_peer = fold count_peer (m_feed_q s) [],
      fs_oldest = (case oldest_item (m_feed_q s) of None \<Rightarrow> 0 | Some t \<Rightarrow> time_sub now t)\<rparr>"

section \<open>The contract of the queue\<close>

text \<open>\<open>pending s p m\<close>: an offer of \<open>m\<close> to peer \<open>p\<close> waits; \<open>sound\<close> is the invariant.\<close>

locale feed_queue =
  fixes sound :: "'s \<Rightarrow> bool"
    and pending :: "'s \<Rightarrow> int \<Rightarrow> string \<Rightarrow> nat"
    and enqueue :: "int \<Rightarrow> string \<Rightarrow> 's \<Rightarrow> 's"
    and claim :: "int \<Rightarrow> 's \<Rightarrow> 's \<times> feed_item list"
    and complete :: "int \<Rightarrow> 's \<Rightarrow> 's"
    and fail :: "int \<Rightarrow> string \<Rightarrow> int \<Rightarrow> 's \<Rightarrow> 's"
  assumes once: "sound s \<Longrightarrow> pending s p m \<le> 1"
    and enqueue_sound: "sound s \<Longrightarrow> sound (enqueue p m s)"
    and enqueue_pending: "sound s \<Longrightarrow> pending (enqueue p m s) q k = (if q = p \<and> k = m then 1 else pending s q k)"
    and claim_sound: "sound s \<Longrightarrow> sound (fst (claim n s))"
    and claim_pending: "pending (fst (claim n s)) p m = pending s p m"
    and claimed_pending: "sound s \<Longrightarrow> it \<in> set (snd (claim n s)) \<Longrightarrow> pending s (fq_peer it) (fq_msgid it) = 1"
    and complete_sound: "sound s \<Longrightarrow> sound (complete i s)"
    and complete_claimed: "sound s \<Longrightarrow> it \<in> set (snd (claim n s)) \<Longrightarrow>
        pending (complete (fq_id it) (fst (claim n s))) p m
          = (if p = fq_peer it \<and> m = fq_msgid it then 0 else pending s p m)"
    and fail_sound: "sound s \<Longrightarrow> sound (fail i e t s)"
    and fail_pending: "pending (fail i e t s) p m = pending s p m"
begin

lemma enqueue_twice: "sound s \<Longrightarrow> pending (enqueue p m (enqueue p m s)) p m = 1"
  by (simp add: enqueue_pending enqueue_sound)

lemma offered_until_completed:
  "sound s \<Longrightarrow> it \<in> set (snd (claim n s)) \<Longrightarrow>
   pending (fail (fq_id it) e t (fst (claim n s))) (fq_peer it) (fq_msgid it) = 1"
  by (simp add: fail_pending claim_pending claimed_pending)

lemma requeue_after_complete:
  "sound s \<Longrightarrow> it \<in> set (snd (claim n s)) \<Longrightarrow>
   pending (enqueue (fq_peer it) (fq_msgid it) (complete (fq_id it) (fst (claim n s)))) (fq_peer it) (fq_msgid it) = 1"
  by (simp add: enqueue_pending complete_sound claim_sound)

end

definition feed_key :: "feed_item \<Rightarrow> int \<times> string" where
  "feed_key it = (fq_peer it, fq_msgid it)"

definition feed_sound :: "memory \<Rightarrow> bool" where
  "feed_sound s \<longleftrightarrow> distinct (map feed_key (m_feed_q s)) \<and> distinct (map fq_id (m_feed_q s))
     \<and> (\<forall>it \<in> set (m_feed_q s). fq_id it \<le> m_next_fqid s)"

definition feed_pending :: "memory \<Rightarrow> int \<Rightarrow> string \<Rightarrow> nat" where
  "feed_pending s p m = length (filter (\<lambda>it. fq_peer it = p \<and> fq_msgid it = m) (m_feed_q s))"

lemma claimed_key [simp]: "feed_key (claimed now it) = feed_key it" "fq_id (claimed now it) = fq_id it"
  "fq_peer (claimed now it) = fq_peer it" "fq_msgid (claimed now it) = fq_msgid it"
  by (simp_all add: claimed_def feed_key_def)

lemma claim_loop_queue:
  "claim_loop now n q = (q', out) \<Longrightarrow>
   map feed_key q' = map feed_key q \<and> map fq_id q' = map fq_id q \<and> set out \<subseteq> set q'
   \<and> length out \<le> n \<and> list_all (\<lambda>it. fq_next it = now + 2 * minute) out"
proof (induction now n q arbitrary: q' out rule: claim_loop.induct)
  case (2 now n it q)
  then show ?case
    by (cases "claim_loop now n q"; cases "claim_loop now (n - 1) q")
       (auto simp: claimed_def feed_key_def split: if_splits)
qed simp

lemma fail_first_queue:
  "map feed_key (fail_first k (\<lambda>it. it\<lparr>fq_error := e, fq_next := t\<rparr>) q) = map feed_key q
   \<and> map fq_id (fail_first k (\<lambda>it. it\<lparr>fq_error := e, fq_next := t\<rparr>) q) = map fq_id q"
  by (induction q) (auto simp: feed_key_def)

lemma feed_pending_keys: "feed_pending s p m = length (filter (\<lambda>k. k = (p, m)) (map feed_key (m_feed_q s)))"
  by (simp add: feed_pending_def feed_key_def filter_map comp_def)

lemma feed_ids: "(\<forall>it \<in> set q. fq_id it \<le> k) \<longleftrightarrow> (\<forall>i \<in> set (map fq_id q). i \<le> k)"
  by auto

lemma distinct_count: "distinct xs \<Longrightarrow> length (filter (\<lambda>k. k = x) xs) = (if x \<in> set xs then 1 else 0)"
  by (induction xs) auto

lemma feed_pending_sound:
  "feed_sound s \<Longrightarrow> feed_pending s p m = (if (p, m) \<in> feed_key ` set (m_feed_q s) then 1 else 0)"
  unfolding feed_pending_keys feed_sound_def by (subst distinct_count) auto

lemma claim_feed_due_queue:
  "map feed_key (m_feed_q (fst (claim_feed_due now n s))) = map feed_key (m_feed_q s)"
  "map fq_id (m_feed_q (fst (claim_feed_due now n s))) = map fq_id (m_feed_q s)"
  "m_next_fqid (fst (claim_feed_due now n s)) = m_next_fqid s"
  "set (snd (claim_feed_due now n s)) \<subseteq> set (m_feed_q (fst (claim_feed_due now n s)))"
  using claim_loop_queue
  by (auto simp: claim_feed_due_def Let_def split: prod.split)

lemma claim_feed_sound: "feed_sound s \<Longrightarrow> feed_sound (fst (claim_feed_due now n s))"
  unfolding feed_sound_def feed_ids claim_feed_due_queue by simp

lemma claimed_in_queue:
  "it \<in> set (snd (claim_feed_due now n s)) \<Longrightarrow> feed_key it \<in> feed_key ` set (m_feed_q s)"
proof -
  assume "it \<in> set (snd (claim_feed_due now n s))"
  then have "feed_key it \<in> set (map feed_key (m_feed_q (fst (claim_feed_due now n s))))"
    using claim_feed_due_queue(4) by fastforce
  then show ?thesis unfolding claim_feed_due_queue by simp
qed

lemma complete_claimed_item:
  assumes "feed_sound s" "it \<in> set (snd (claim_feed_due now n s))"
  shows "feed_pending (complete_feed (fq_id it) (fst (claim_feed_due now n s))) p m
    = (if p = fq_peer it \<and> m = fq_msgid it then 0 else feed_pending s p m)"
proof -
  let ?q = "m_feed_q (fst (claim_feed_due now n s))"
  have q: "distinct (map feed_key ?q)" "distinct (map fq_id ?q)" "it \<in> set ?q"
    using claim_feed_sound[OF assms(1), of now n] claim_feed_due_queue(4)[of now n s] assms(2)
    by (auto simp: feed_sound_def)
  have same: "x \<in> set ?q \<Longrightarrow> fq_id x = fq_id it \<longleftrightarrow> feed_key x = feed_key it" for x
    using q by (metis distinct_map inj_on_def)
  have "feed_sound (complete_feed (fq_id it) (fst (claim_feed_due now n s)))"
    using claim_feed_sound[OF assms(1), of now n]
    by (auto simp: feed_sound_def complete_feed_def distinct_map inj_on_def)
  moreover have "feed_key ` set (filter (\<lambda>x. fq_id x \<noteq> fq_id it) ?q) = feed_key ` set ?q - {feed_key it}"
    using same by auto
  moreover have "feed_key ` set ?q = feed_key ` set (m_feed_q s)"
    using arg_cong[OF claim_feed_due_queue(1)[of now n s], of set] by simp
  ultimately show ?thesis
    using assms(1) by (simp add: feed_pending_sound complete_feed_def) (auto simp: feed_key_def)
qed

lemma fail_feed_queue:
  "map feed_key (m_feed_q (fail_feed now i e t s)) = map feed_key (m_feed_q s)"
  "map fq_id (m_feed_q (fail_feed now i e t s)) = map fq_id (m_feed_q s)"
  "m_next_fqid (fail_feed now i e t s) = m_next_fqid s"
  by (simp_all add: fail_feed_def Let_def fail_first_queue)

interpretation fq: feed_queue feed_sound feed_pending "enqueue_feed now" "claim_feed_due now" complete_feed "fail_feed now"
  for now
proof unfold_locales
  show "feed_sound s \<Longrightarrow> feed_pending s p m \<le> 1" for s p m by (simp add: feed_pending_sound)
  show e: "feed_sound s \<Longrightarrow> feed_sound (enqueue_feed now p m s)" for s p m
    by (auto simp: feed_sound_def enqueue_feed_def list_ex_iff feed_key_def)
  show "feed_sound s \<Longrightarrow>
      feed_pending (enqueue_feed now p m s) q k = (if q = p \<and> k = m then 1 else feed_pending s q k)" for s p m q k
    using e[of s p m] feed_pending_sound
    by (auto simp: feed_pending_sound) (auto simp: enqueue_feed_def list_ex_iff feed_key_def split: if_splits)
  show "feed_sound s \<Longrightarrow> feed_sound (fst (claim_feed_due now n s))" for s n by (rule claim_feed_sound)
  show "feed_pending (fst (claim_feed_due now n s)) p m = feed_pending s p m" for n s p m
    unfolding feed_pending_keys claim_feed_due_queue ..
  show "feed_sound s \<Longrightarrow> it \<in> set (snd (claim_feed_due now n s)) \<Longrightarrow>
      feed_pending s (fq_peer it) (fq_msgid it) = 1" for s it n
    using claimed_in_queue[of it now n s] by (simp add: feed_pending_sound feed_key_def)
  show "feed_sound s \<Longrightarrow> feed_sound (complete_feed i s)" for s i
    by (auto simp: feed_sound_def complete_feed_def distinct_map inj_on_def)
  show "feed_sound s \<Longrightarrow> it \<in> set (snd (claim_feed_due now n s)) \<Longrightarrow>
      feed_pending (complete_feed (fq_id it) (fst (claim_feed_due now n s))) p m
        = (if p = fq_peer it \<and> m = fq_msgid it then 0 else feed_pending s p m)" for s it n p m
    by (rule complete_claimed_item)
  show "feed_sound s \<Longrightarrow> feed_sound (fail_feed now i e t s)" for s i e t
    unfolding feed_sound_def feed_ids fail_feed_queue by simp
  show "feed_pending (fail_feed now i e t s) p m = feed_pending s p m" for i e t s p m
    unfolding feed_pending_keys fail_feed_queue ..
qed


section \<open>Properties\<close>

definition demo_feed :: memory where
  "demo_feed = enqueue_feed 5 2 ''<b@x>'' (enqueue_feed 4 1 ''<b@x>'' (enqueue_feed 3 1 ''<a@x>'' new_memory))"

lemma demo_feed_sound: "feed_sound demo_feed"
  by (simp add: demo_feed_def enqueue_feed_def new_memory_def feed_sound_def feed_key_def)

text \<open>An article is offered to a peer at most once: whatever is enqueued twice waits once, and other
  offers are not disturbed.\<close>

theorem enqueue_once:
  assumes "feed_sound s"
  shows "feed_sound (enqueue_feed now p m s)
    \<and> feed_pending (enqueue_feed now p m (enqueue_feed now p m s)) p m = 1
    \<and> (q \<noteq> p \<or> k \<noteq> m \<longrightarrow> feed_pending (enqueue_feed now p m s) q k = feed_pending s q k)"
  using assms fq.enqueue_sound fq.enqueue_twice fq.enqueue_pending by metis

theorem enqueue_once_witness:
  "feed_pending (enqueue_feed 9 1 ''<a@x>'' (enqueue_feed 9 1 ''<a@x>'' demo_feed)) 1 ''<a@x>'' = 1"
  using enqueue_once[OF demo_feed_sound, of 9 1 "''<a@x>''"] by blast

text \<open>Claiming takes at most the limit of due offers, defers each for two minutes and loses none:
  a claimed offer that fails waits still, one that is completed is gone, and no other offer is
  touched by either.\<close>

theorem claim_complete_fail:
  assumes "feed_sound s" and "claim_feed_due now limit s = (s', out)" and "it \<in> set out" and "limit > 0"
  shows "int (length out) \<le> limit \<and> fq_next it = now + 2 * minute
    \<and> feed_pending (fail_feed now (fq_id it) err retry s') p m = feed_pending s p m
    \<and> feed_pending (complete_feed (fq_id it) s') p m
        = (if p = fq_peer it \<and> m = fq_msgid it then 0 else feed_pending s p m)
    \<and> feed_pending s (fq_peer it) (fq_msgid it) = 1"
proof -
  obtain q where l: "claim_loop now (nat limit) (m_feed_q s) = (q, out)"
    using assms(2,4) by (auto simp: claim_feed_due_def split: prod.splits)
  note claim_loop_queue[OF l]
  then have "int (length out) \<le> limit" "fq_next it = now + 2 * minute"
    using assms(3,4) by (auto simp: list_all_iff)
  moreover have s': "s' = fst (claim_feed_due now limit s)" "it \<in> set (snd (claim_feed_due now limit s))"
    using assms by auto
  ultimately show ?thesis
    using fq.complete_claimed[OF assms(1) s'(2)] fq.fail_pending fq.claim_pending
      fq.claimed_pending[OF assms(1) s'(2)] by (simp add: s'(1))
qed

theorem claim_complete_fail_witness:
  "fq_next (hd (snd (claim_feed_due 9 2 demo_feed))) = 9 + 2 * minute"
proof -
  let ?r = "claim_feed_due 9 2 demo_feed"
  have "snd ?r \<noteq> []"
    by (simp add: demo_feed_def enqueue_feed_def new_memory_def claim_feed_due_def)
  then have h: "hd (snd ?r) \<in> set (snd ?r)" by simp
  show ?thesis
    using claim_complete_fail[OF demo_feed_sound, of 9 2 "fst ?r" "snd ?r" "hd (snd ?r)"] h by simp
qed

end
