(* ===== verification/Ops.thy ===== *)
theory Ops
  imports Config StoreFeed
begin

text \<open>
  The runtime gates of the server and the watchdog that moves them: \<open>internal/ops/mode.go\<close> and
  \<open>internal/ops/watchdog.go\<close>. Load and disk use are the values of the floats, as rationals;
  reading them from the machine is not modelled, they are arguments of \<open>watch_tick\<close>.
\<close>

datatype op_mode = Running | Paused | Throttled

record controller =
  c_mode :: op_mode
  c_reason :: string
  c_changed :: int
  c_by :: string
  c_readers :: bool
  c_readers_msg :: string
  c_peers :: bool
  c_peers_msg :: string
  c_watchdog :: bool
  c_last_watch :: int
  c_disk :: rat
  c_load :: rat
  c_depth :: int
  c_expire_last :: int
  c_expire_result :: "expire_result option"

definition new_controller :: "int \<Rightarrow> controller" where
  "new_controller now = \<lparr>c_mode = Running, c_reason = [], c_changed = now, c_by = ''startup'',
     c_readers = True, c_readers_msg = [], c_peers = True, c_peers_msg = [], c_watchdog = True,
     c_last_watch = zero_time, c_disk = 0, c_load = 0, c_depth = 0, c_expire_last = zero_time,
     c_expire_result = None\<rparr>"

definition set_mode :: "int \<Rightarrow> op_mode \<Rightarrow> string \<Rightarrow> string \<Rightarrow> controller \<Rightarrow> controller" where
  "set_mode now m reason by c = c\<lparr>c_mode := m, c_reason := reason, c_changed := now, c_by := by\<rparr>"

definition pause :: "int \<Rightarrow> string \<Rightarrow> string \<Rightarrow> controller \<Rightarrow> controller" where
  "pause now reason by c = set_mode now Paused (if reason = [] then ''paused'' else reason) by c"

definition throttle :: "int \<Rightarrow> string \<Rightarrow> string \<Rightarrow> controller \<Rightarrow> controller" where
  "throttle now reason by c = set_mode now Throttled (if reason = [] then ''throttled'' else reason) by c"

definition go_on :: "int \<Rightarrow> string \<Rightarrow> controller \<Rightarrow> controller" where
  "go_on now by c = set_mode now Running [] by c"

definition set_readers :: "bool \<Rightarrow> string \<Rightarrow> controller \<Rightarrow> controller" where
  "set_readers on msg c = c\<lparr>c_readers := on, c_readers_msg := msg\<rparr>"

definition set_peers :: "bool \<Rightarrow> string \<Rightarrow> controller \<Rightarrow> controller" where
  "set_peers on msg c = c\<lparr>c_peers := on, c_peers_msg := msg\<rparr>"

definition set_watchdog :: "bool \<Rightarrow> controller \<Rightarrow> controller" where
  "set_watchdog on c = c\<lparr>c_watchdog := on\<rparr>"

definition note_watch :: "int \<Rightarrow> rat \<Rightarrow> rat \<Rightarrow> int \<Rightarrow> controller \<Rightarrow> controller" where
  "note_watch now ld disk depth c = c\<lparr>c_last_watch := now, c_load := ld, c_disk := disk, c_depth := depth\<rparr>"

definition note_expire :: "int \<Rightarrow> expire_result \<Rightarrow> controller \<Rightarrow> controller" where
  "note_expire now r c = c\<lparr>c_expire_last := now, c_expire_result := Some r\<rparr>"

text \<open>The gates yield \<open>None\<close> when open, and otherwise the reason given to the client.\<close>

definition accept_articles :: "controller \<Rightarrow> string option" where
  "accept_articles c = (if c_mode c = Paused \<or> c_mode c = Throttled then Some (c_reason c) else None)"

definition accept_peers :: "controller \<Rightarrow> string option" where
  "accept_peers c =
     (if \<not> c_peers c then Some (if c_peers_msg c = [] then ''peer feeds disabled'' else c_peers_msg c)
      else if c_mode c = Throttled then Some (c_reason c) else None)"

definition accept_readers :: "controller \<Rightarrow> string option" where
  "accept_readers c =
     (if \<not> c_readers c then Some (if c_readers_msg c = [] then ''readers disabled'' else c_readers_msg c)
      else None)"

section \<open>The watchdog\<close>

definition disk_high :: "watchdog_cfg \<Rightarrow> rat \<Rightarrow> bool" where
  "disk_high w disk \<longleftrightarrow> 0 < wd_disk w \<and> of_int (wd_disk w) \<le> disk"

definition queue_high :: "watchdog_cfg \<Rightarrow> int \<Rightarrow> bool" where
  "queue_high w depth \<longleftrightarrow> 0 < wd_queue w \<and> wd_queue w \<le> depth"

definition load_high :: "watchdog_cfg \<Rightarrow> rat \<Rightarrow> bool" where
  "load_high w ld \<longleftrightarrow> 0 < wd_load_throttle w \<and> wd_load_throttle w \<le> ld"

definition need_throttle :: "watchdog_cfg \<Rightarrow> rat \<Rightarrow> rat \<Rightarrow> int \<Rightarrow> bool" where
  "need_throttle w ld disk depth \<longleftrightarrow> disk_high w disk \<or> queue_high w depth \<or> load_high w ld"

definition need_pause :: "watchdog_cfg \<Rightarrow> rat \<Rightarrow> bool" where
  "need_pause w ld \<longleftrightarrow> \<not> load_high w ld \<and> 0 < wd_load_pause w \<and> wd_load_pause w \<le> ld"

text \<open>The last test that holds gives the reason.\<close>

definition watch_reason :: "watchdog_cfg \<Rightarrow> rat \<Rightarrow> rat \<Rightarrow> int \<Rightarrow> string" where
  "watch_reason w ld disk depth =
     (if load_high w ld then ''load average high''
      else if need_pause w ld then ''load average elevated''
      else if queue_high w depth then ''feed queue depth''
      else if disk_high w disk then ''disk space low'' else [])"

text \<open>Integer division in Go rounds towards zero.\<close>

definition half :: "int \<Rightarrow> int" where
  "half n = (if n < 0 then - ((- n) div 2) else n div 2)"

definition disk_ok :: "watchdog_cfg \<Rightarrow> rat \<Rightarrow> bool" where
  "disk_ok w disk \<longleftrightarrow> wd_disk w \<le> 0 \<or> disk < of_int (wd_disk w) - 2"

definition queue_ok :: "watchdog_cfg \<Rightarrow> int \<Rightarrow> bool" where
  "queue_ok w depth \<longleftrightarrow> wd_queue w \<le> 0 \<or> depth < half (wd_queue w)"

definition load_ok :: "watchdog_cfg \<Rightarrow> rat \<Rightarrow> bool" where
  "load_ok w ld \<longleftrightarrow> wd_load_go w \<le> 0 \<or> ld \<le> wd_load_go w"

definition held_by_admin :: "controller \<Rightarrow> bool" where
  "held_by_admin c \<longleftrightarrow> c_by c = ''admin'' \<and> (c_mode c = Paused \<or> c_mode c = Throttled)"

definition watch_move :: "int \<Rightarrow> watchdog_cfg \<Rightarrow> rat \<Rightarrow> rat \<Rightarrow> int \<Rightarrow> controller \<Rightarrow> controller" where
  "watch_move now w ld disk depth c =
     (if need_throttle w ld disk depth then
        (if held_by_admin c then c else throttle now (watch_reason w ld disk depth) ''watchdog'' c)
      else if need_pause w ld then
        (if held_by_admin c then c
         else if c_mode c = Throttled \<and> c_by c = ''watchdog'' then
           (if 0 < wd_load_go w \<and> ld \<le> wd_load_go w
               \<and> (wd_disk w = 0 \<or> disk < of_int (wd_disk w) - 2)
               \<and> (wd_queue w = 0 \<or> depth < half (wd_queue w))
            then go_on now ''watchdog'' c else c)
         else pause now (watch_reason w ld disk depth) ''watchdog'' c)
      else if c_by c \<noteq> ''watchdog'' then c
      else if c_mode c = Running then c
      else if load_ok w ld \<and> disk_ok w disk \<and> queue_ok w depth then go_on now ''watchdog'' c
      else c)"

definition watch_depth :: "int \<Rightarrow> memory option \<Rightarrow> int" where
  "watch_depth now st = (case st of None \<Rightarrow> 0 | Some s \<Rightarrow> fs_depth (feed_queue_stats now s))"

definition watch_tick :: "int \<Rightarrow> watchdog_cfg \<Rightarrow> rat \<Rightarrow> rat \<Rightarrow> memory option \<Rightarrow> controller \<Rightarrow> controller" where
  "watch_tick now w ld disk st c =
     (if \<not> c_watchdog c \<or> \<not> watchdog_enabled w then c
      else watch_move now w ld disk (watch_depth now st)
             (note_watch now ld disk (watch_depth now st) c))"

section \<open>Properties\<close>

lemma watch_reason_neq_Nil: "need_throttle w ld disk depth \<Longrightarrow> watch_reason w ld disk depth \<noteq> []"
  by (auto simp: watch_reason_def need_throttle_def)

lemma half_le: "0 < n \<Longrightarrow> half n \<le> n"
  by (auto simp: half_def)

text \<open>Below every threshold for going on; the thresholds are hysteretic.\<close>

definition calm :: "watchdog_cfg \<Rightarrow> rat \<Rightarrow> rat \<Rightarrow> int \<Rightarrow> bool" where
  "calm w ld disk depth \<longleftrightarrow> load_ok w ld \<and> disk_ok w disk \<and> queue_ok w depth
     \<and> \<not> load_high w ld \<and> \<not> need_pause w ld"

lemma calm_no_throttle: "calm w ld disk depth \<Longrightarrow> \<not> need_throttle w ld disk depth"
  using half_le[of "wd_queue w"]
  by (auto simp: calm_def need_throttle_def disk_high_def disk_ok_def queue_high_def queue_ok_def)

lemma watch_move_note [simp]:
  "c_mode (note_watch now ld disk d c) = c_mode c" "c_by (note_watch now ld disk d c) = c_by c"
  "c_reason (note_watch now ld disk d c) = c_reason c" "c_watchdog (note_watch now ld disk d c) = c_watchdog c"
  "held_by_admin (note_watch now ld disk d c) = held_by_admin c"
  by (simp_all add: note_watch_def held_by_admin_def)

lemma set_mode_simps [simp]:
  "c_mode (throttle now r by c) = Throttled" "c_mode (pause now r by c) = Paused" "c_mode (go_on now by c) = Running"
  "c_by (throttle now r by c) = by" "c_by (pause now r by c) = by" "c_by (go_on now by c) = by"
  "c_reason (throttle now r by c) = (if r = [] then ''throttled'' else r)"
  "c_watchdog (throttle now r by c) = c_watchdog c" "c_watchdog (pause now r by c) = c_watchdog c"
  "c_watchdog (go_on now by c) = c_watchdog c"
  by (simp_all add: throttle_def pause_def go_on_def set_mode_def)

lemma watch_move_watchdog [simp]: "c_watchdog (watch_move now w ld disk d c) = c_watchdog c"
  by (simp add: watch_move_def)

text \<open>C11: the watchdog respects the administrator and its thresholds: it leaves a manual pause or
  throttle alone; otherwise a reading over a threshold closes the server to posts and to peers,
  with a reason; and a server that runs after the tick either was running, or every reading lies
  below its threshold for going on.\<close>

theorem watchdog_gates:
  assumes "c_watchdog c" and "watchdog_enabled w" and "c' = watch_tick now w ld disk st c"
  shows "(c_by c = ''admin'' \<and> c_mode c \<noteq> Running \<longrightarrow> c_mode c' = c_mode c \<and> c_reason c' = c_reason c \<and> c_by c' = c_by c)
    \<and> (\<not> (c_by c = ''admin'' \<and> c_mode c \<noteq> Running) \<and> need_throttle w ld disk (watch_depth now st) \<longrightarrow>
        (\<exists>r. r \<noteq> [] \<and> accept_articles c' = Some r) \<and> accept_peers c' \<noteq> None)
    \<and> (c_mode c' = Running \<longrightarrow> c_mode c = Running \<and> \<not> need_throttle w ld disk (watch_depth now st)
        \<or> \<not> need_throttle w ld disk (watch_depth now st) \<and> load_ok w ld \<and> disk_ok w disk \<and> queue_ok w (watch_depth now st))"
proof -
  have c': "c' = watch_move now w ld disk (watch_depth now st) (note_watch now ld disk (watch_depth now st) c)"
    using assms by (simp add: watch_tick_def)
  have h: "c_by c = ''admin'' \<and> c_mode c \<noteq> Running \<longleftrightarrow> held_by_admin c" by (cases "c_mode c") (auto simp: held_by_admin_def)
  show ?thesis
    unfolding h unfolding c' using watch_reason_neq_Nil h
    by (auto simp: watch_move_def accept_articles_def accept_peers_def load_ok_def disk_ok_def queue_ok_def)
qed

definition demo_watch :: watchdog_cfg where
  "demo_watch = \<lparr>wd_enabled = None, wd_interval = 60, wd_load_pause = 8, wd_load_throttle = 16,
     wd_load_go = 4, wd_disk = 90, wd_queue = 1000\<rparr>"

theorem watchdog_gates_witness:
  "accept_peers (watch_tick 5 demo_watch 1 95 None (new_controller 0)) \<noteq> None"
proof -
  have "c_watchdog (new_controller 0)" "watchdog_enabled demo_watch" "c_by (new_controller 0) \<noteq> ''admin''"
    "need_throttle demo_watch 1 95 (watch_depth 5 None)"
    by (simp_all add: new_controller_def demo_watch_def watchdog_enabled_def need_throttle_def disk_high_def)
  then show ?thesis using watchdog_gates[OF _ _ refl, of "new_controller 0" demo_watch 5 1 95 None] by blast
qed

text \<open>A server the watchdog has closed opens again: after the first calm reading it runs and
  accepts articles, and it stays so as long as the readings stay calm.\<close>

theorem watchdog_recovers:
  assumes "c_watchdog c" and "watchdog_enabled w" and "c_by c = ''watchdog''" and "rs \<noteq> []"
    and "list_all (\<lambda>(now, ld, disk, st). calm w ld disk (watch_depth now st)) rs"
  shows "accept_articles (fold (\<lambda>(now, ld, disk, st). watch_tick now w ld disk st) rs c) = None"
proof -
  let ?f = "\<lambda>(now, ld, disk, st). watch_tick now w ld disk st"
  have one: "c_mode (?f r d) = Running \<and> c_by (?f r d) = ''watchdog'' \<and> c_watchdog (?f r d)"
    if "c_watchdog d" "c_by d = ''watchdog''" "case r of (now, ld, disk, st) \<Rightarrow> calm w ld disk (watch_depth now st)" for r d
    using that assms(2) calm_no_throttle
    by (cases r) (auto simp: watch_tick_def watch_move_def calm_def)
  have "c_mode (fold ?f rs c) = Running \<and> c_by (fold ?f rs c) = ''watchdog'' \<and> c_watchdog (fold ?f rs c)"
    using assms(4,5,1,3)
  proof (induction rs arbitrary: c)
    case (Cons r rs)
    then show ?case using one[of c r] by (cases rs) auto
  qed simp
  then show ?thesis by (simp add: accept_articles_def)
qed

theorem watchdog_recovers_witness:
  "accept_articles (fold (\<lambda>(now, ld, disk, st). watch_tick now demo_watch ld disk st) [(9, 1, 50, None), (10, 1, 50, None)]
     (watch_tick 5 demo_watch 1 95 None (new_controller 0))) = None"
proof (rule watchdog_recovers)
  show "c_watchdog (watch_tick 5 demo_watch 1 95 None (new_controller 0))"
    "c_by (watch_tick 5 demo_watch 1 95 None (new_controller 0)) = ''watchdog''"
    by (simp_all add: watch_tick_def new_controller_def demo_watch_def watchdog_enabled_def watch_move_def need_throttle_def disk_high_def
        held_by_admin_def note_watch_def watch_depth_def throttle_def set_mode_def)
  show "list_all (\<lambda>(now, ld, disk, st). calm demo_watch ld disk (watch_depth now st)) [(9, 1, 50, None), (10, 1, 50, None)]"
    by (simp add: calm_def load_ok_def disk_ok_def queue_ok_def load_high_def need_pause_def demo_watch_def watchdog_enabled_def watch_depth_def half_def)
qed (simp_all add: demo_watch_def watchdog_enabled_def)

end
