(* ===== verification/StoreUsers.thy ===== *)
theory StoreUsers
  imports StoreTypes GoTime
begin

text \<open>
  Accounts, peers, subscriptions, read marks, secrets, mail settings and moderator rules in the
  in-process store: \<open>internal/store/memory.go\<close>, \<open>memory_moderators.go\<close>, and \<open>peer_inn.go\<close>.
  Pointers handed out are copies; a change through \<open>m.users[name]\<close> is an update of the map.
  The clock, and the random bytes of a new secret, are arguments.
\<close>

section \<open>Accounts\<close>

definition count_users :: "memory \<Rightarrow> int" where
  "count_users s = int (length (m_users s))"

definition list_users :: "memory \<Rightarrow> user list" where
  "list_users s = sort_key u_name (map snd (m_users s))"

definition get_user :: "string \<Rightarrow> memory \<Rightarrow> user option" where
  "get_user name s = map_of (m_users s) (trim_space name)"

definition get_user_by_id :: "int \<Rightarrow> memory \<Rightarrow> user option" where
  "get_user_by_id k s = find (\<lambda>u. u_id u = k) (map snd (m_users s))"

definition put_user :: "string \<Rightarrow> user \<Rightarrow> memory \<Rightarrow> memory" where
  "put_user name u s = s\<lparr>m_users := AList.update name u (m_users s)\<rparr>"

definition create_user :: "int \<Rightarrow> user \<Rightarrow> memory \<Rightarrow> store_error + memory \<times> user" where
  "create_user now u0 s =
     (let name = trim_space (u_name u0) in
      if name = [] \<or> u_hash u0 = [] then Inl Username_Required
      else if map_of (m_users s) name \<noteq> None then Inl User_Exists
      else
        let u = u0\<lparr>u_name := name, u_role := (if u_role u0 = [] then ''user'' else u_role u0),
                  u_id := m_next_uid s + 1, u_created := now\<rparr>
        in Inr (put_user name u (s\<lparr>m_next_uid := m_next_uid s + 1\<rparr>), u))"

definition updated_user ::
    "string \<Rightarrow> bool option \<Rightarrow> bool option \<Rightarrow> string \<Rightarrow> user \<Rightarrow> user" where
  "updated_user role can_post disabled hash u =
     (let u1 = (if role \<noteq> [] then u\<lparr>u_role := role\<rparr> else u);
          u2 = (case can_post of None \<Rightarrow> u1 | Some b \<Rightarrow> u1\<lparr>u_can_post := b\<rparr>);
          u3 = (case disabled of None \<Rightarrow> u2 | Some b \<Rightarrow> u2\<lparr>u_disabled := b\<rparr>);
          u4 = (if hash \<noteq> [] then u3\<lparr>u_hash := hash, u_must_change := True, u_gen := u_gen u3 + 1\<rparr> else u3)
      in if disabled = Some True \<and> \<not> u_disabled u then u4\<lparr>u_gen := u_gen u4 + 1\<rparr> else u4)"

definition update_user ::
    "string \<Rightarrow> string \<Rightarrow> bool option \<Rightarrow> bool option \<Rightarrow> string \<Rightarrow> memory \<Rightarrow> store_error + memory" where
  "update_user name role can_post disabled hash s =
     (case map_of (m_users s) (trim_space name) of
        None \<Rightarrow> Inl User_Not_Found
      | Some u \<Rightarrow> Inr (put_user (trim_space name) (updated_user role can_post disabled hash u) s))"

definition update_profile :: "string \<Rightarrow> string \<Rightarrow> string \<Rightarrow> memory \<Rightarrow> store_error + memory" where
  "update_profile name display email s =
     (case map_of (m_users s) (trim_space name) of
        None \<Rightarrow> Inl User_Not_Found
      | Some u \<Rightarrow> Inr (put_user (trim_space name)
          (u\<lparr>u_display := trim_space display, u_email := trim_space email\<rparr>) s))"

definition change_password :: "string \<Rightarrow> string \<Rightarrow> memory \<Rightarrow> store_error + memory \<times> user" where
  "change_password name hash s =
     (case map_of (m_users s) (trim_space name) of
        None \<Rightarrow> Inl User_Not_Found
      | Some u \<Rightarrow>
          if hash = [] then Inl Password_Required
          else let v = u\<lparr>u_hash := hash, u_must_change := False, u_gen := u_gen u + 1\<rparr>
               in Inr (put_user (trim_space name) v s, v))"

definition delete_user :: "string \<Rightarrow> memory \<Rightarrow> store_error + memory" where
  "delete_user name s =
     (if map_of (m_users s) (trim_space name) = None then Inl User_Not_Found
      else Inr (s\<lparr>m_users := AList.delete (trim_space name) (m_users s)\<rparr>))"

section \<open>Secrets and mail settings\<close>

text \<open>\<open>rnd\<close> is what \<open>rand.Read\<close> yields: 32 bytes, or an error.\<close>

definition get_or_create_secret :: "string option \<Rightarrow> string \<Rightarrow> memory \<Rightarrow> (memory \<times> string) option" where
  "get_or_create_secret rnd name s =
     (case map_of (m_secrets s) name of
        Some v \<Rightarrow> Some (s, v)
      | None \<Rightarrow> map_option (\<lambda>b. (s\<lparr>m_secrets := AList.update name (hex_encode b) (m_secrets s)\<rparr>, hex_encode b)) rnd)"

definition get_mail_settings :: "memory \<Rightarrow> mail_settings \<times> bool" where
  "get_mail_settings s = (if m_mail_saved s then (m_mail s, True) else (no_mail_settings, False))"

definition save_mail_settings :: "mail_settings \<Rightarrow> memory \<Rightarrow> store_error + memory" where
  "save_mail_settings ms0 s =
     (let ms = normalize_mail ms0 in
      case validate_mail ms of
        Some e \<Rightarrow> Inl (Mail_Invalid e)
      | None \<Rightarrow> Inr (s\<lparr>m_mail := ms, m_mail_saved := True\<rparr>))"

section \<open>Moderator rules\<close>

definition list_moderator_rules :: "memory \<Rightarrow> moderator_rule list" where
  "list_moderator_rules s = m_mod_rules s"

fun set_rule :: "string \<Rightarrow> string \<Rightarrow> moderator_rule list \<Rightarrow> moderator_rule list" where
  "set_rule p a [] = [\<lparr>mr_pattern = p, mr_address = a\<rparr>]"
| "set_rule p a (r # rs) = (if mr_pattern r = p then r\<lparr>mr_address := a\<rparr> # rs else r # set_rule p a rs)"

definition add_moderator_rule :: "string \<Rightarrow> string \<Rightarrow> memory \<Rightarrow> store_error + memory" where
  "add_moderator_rule pattern address s =
     (case normalize_rule pattern address of
        Inl e \<Rightarrow> Inl (Bad_Rule e)
      | Inr (p, a) \<Rightarrow> Inr (s\<lparr>m_mod_rules := set_rule p a (m_mod_rules s)\<rparr>))"

fun remove_rule :: "string \<Rightarrow> moderator_rule list \<Rightarrow> moderator_rule list option" where
  "remove_rule p [] = None"
| "remove_rule p (r # rs) = (if mr_pattern r = p then Some rs else map_option (\<lambda>q. r # q) (remove_rule p rs))"

definition delete_moderator_rule :: "string \<Rightarrow> memory \<Rightarrow> store_error + memory" where
  "delete_moderator_rule p s =
     (case remove_rule p (m_mod_rules s) of
        None \<Rightarrow> Inl Rule_Not_Found
      | Some rs \<Rightarrow> Inr (s\<lparr>m_mod_rules := rs\<rparr>))"

section \<open>Peers\<close>

definition default_peer_name :: "string \<Rightarrow> string" where
  "default_peer_name host =
     (case index_of host ''.'' of Some i \<Rightarrow> if i > 0 then take i host else host | None \<Rightarrow> host)"

definition trim_peer :: "peer \<Rightarrow> peer" where
  "trim_peer p = p\<lparr>p_host := trim_space (p_host p), p_incoming := trim_space (p_incoming p),
     p_name := trim_space (p_name p), p_path_token := trim_space (p_path_token p),
     p_patterns := trim_space (p_patterns p), p_distributions := trim_space (p_distributions p),
     p_flags := trim_space (p_flags p), p_in_password := trim_space (p_in_password p),
     p_out_password := trim_space (p_out_password p)\<rparr>"

definition normalize_peer :: "peer \<Rightarrow> peer" where
  "normalize_peer p0 =
     (let p1 = trim_peer p0;
          p2 = (if p_incoming p1 = [] then p1\<lparr>p_incoming := p_host p1\<rparr> else p1);
          p3 = (if p_host p2 = [] then p2\<lparr>p_host := p_incoming p2\<rparr> else p2);
          p4 = (if p_port p3 \<le> 0 then p3\<lparr>p_port := 119\<rparr> else p3);
          p5 = (if p_patterns p4 = [] then p4\<lparr>p_patterns := ''*''\<rparr> else p4);
          p6 = (if p_flags p5 = [] then p5\<lparr>p_flags := ''Tm''\<rparr> else p5)
      in if p_name p6 = [] \<and> p_host p6 \<noteq> [] then p6\<lparr>p_name := default_peer_name (p_host p6)\<rparr> else p6)"

definition peer_ihave_hosts :: "peer list \<Rightarrow> string list" where
  "peer_ihave_hosts ps =
     dedup_on to_lower []
       (filter (\<lambda>h. h \<noteq> []) (map trim_space (concat (map (\<lambda>p. let n = normalize_peer p in [p_incoming n, p_host n])
          (filter p_enabled ps)))))"

definition count_peers :: "memory \<Rightarrow> int" where
  "count_peers s = int (length (m_peers s))"

definition list_peers :: "memory \<Rightarrow> peer list" where
  "list_peers s = sort_key (\<lambda>p. (p_host p, p_port p)) (map snd (m_peers s))"

definition list_enabled_peers :: "memory \<Rightarrow> peer list" where
  "list_enabled_peers s = filter p_enabled (list_peers s)"

definition get_peer :: "int \<Rightarrow> memory \<Rightarrow> peer option" where
  "get_peer k s = map_of (m_peers s) k"

definition create_peer :: "int \<Rightarrow> peer \<Rightarrow> memory \<Rightarrow> store_error + memory \<times> peer" where
  "create_peer now p0 s =
     (let p1 = normalize_peer p0 in
      if p_host p1 = [] then Inl Host_Required
      else let k = m_next_pid s + 1; p = p1\<lparr>p_id := k, p_created := now\<rparr>
           in Inr (s\<lparr>m_next_pid := k, m_peers := AList.update k p (m_peers s)\<rparr>, p))"

definition update_peer :: "peer \<Rightarrow> memory \<Rightarrow> store_error + memory \<times> peer" where
  "update_peer p0 s =
     (if map_of (m_peers s) (p_id p0) = None then Inl Peer_Not_Found
      else
        let p = normalize_peer p0 in
        if p_host p = [] then Inl Host_Required
        else Inr (s\<lparr>m_peers := AList.update (p_id p0) p (m_peers s)\<rparr>, p))"

definition delete_peer :: "int \<Rightarrow> memory \<Rightarrow> store_error + memory" where
  "delete_peer k s =
     (if map_of (m_peers s) k = None then Inl Peer_Not_Found
      else Inr (s\<lparr>m_peers := AList.delete k (m_peers s)\<rparr>))"

section \<open>Subscriptions and read marks\<close>

definition user_map :: "(int \<times> (string \<times> int) list) list \<Rightarrow> int \<Rightarrow> (string \<times> int) list" where
  "user_map m uid = (case map_of m uid of None \<Rightarrow> [] | Some l \<Rightarrow> l)"

definition subscription_of :: "memory \<Rightarrow> int \<Rightarrow> string \<times> int \<Rightarrow> subscription" where
  "subscription_of s uid e =
     (let sb = \<lparr>sb_group = fst e, sb_desc = [], sb_status = [], sb_low = 0, sb_high = 0, sb_count = 0,
                sb_last_read = 0, sb_unread = 0, sb_at = snd e\<rparr>;
          sb1 = (case map_of (m_groups s) (fst e) of None \<Rightarrow> sb
            | Some g \<Rightarrow> sb\<lparr>sb_desc := g_desc g, sb_status := g_status g, sb_low := g_low g,
                          sb_high := g_high g, sb_count := g_count g\<rparr>);
          sb2 = (case map_of (user_map (m_reads s) uid) (fst e) of None \<Rightarrow> sb1
            | Some n \<Rightarrow> sb1\<lparr>sb_last_read := n\<rparr>)
      in if sb_last_read sb2 < sb_high sb2 then sb2\<lparr>sb_unread := sb_high sb2 - sb_last_read sb2\<rparr> else sb2)"

definition list_subscriptions :: "int \<Rightarrow> memory \<Rightarrow> subscription list" where
  "list_subscriptions uid s = sort_key sb_group (map (subscription_of s uid) (user_map (m_subs s) uid))"

definition subscribe :: "int \<Rightarrow> int \<Rightarrow> string \<Rightarrow> memory \<Rightarrow> store_error + memory" where
  "subscribe now uid group0 s =
     (let g = trim_space group0; l = user_map (m_subs s) uid in
      if g = [] then Inl Group_Required
      else if map_of (m_groups s) g = None then Inl No_Group
      else Inr (s\<lparr>m_subs := AList.update uid (if map_of l g = None then AList.update g now l else l) (m_subs s)\<rparr>))"

definition unsubscribe :: "int \<Rightarrow> string \<Rightarrow> memory \<Rightarrow> memory" where
  "unsubscribe uid group0 s =
     (case map_of (m_subs s) uid of None \<Rightarrow> s
      | Some l \<Rightarrow> s\<lparr>m_subs := AList.update uid (AList.delete (trim_space group0) l) (m_subs s)\<rparr>)"

definition get_read_state :: "int \<Rightarrow> string \<Rightarrow> memory \<Rightarrow> int" where
  "get_read_state uid g s =
     (case map_of (user_map (m_reads s) uid) (trim_space g) of None \<Rightarrow> 0 | Some n \<Rightarrow> n)"

definition set_read_state :: "int \<Rightarrow> string \<Rightarrow> int \<Rightarrow> memory \<Rightarrow> memory" where
  "set_read_state uid g0 n0 s =
     (let n = max n0 0; g = trim_space g0; l = user_map (m_reads s) uid;
          new = (case map_of l g of None \<Rightarrow> True | Some cur \<Rightarrow> cur < n)
      in s\<lparr>m_reads := AList.update uid (if new then AList.update g n l else l) (m_reads s)\<rparr>)"

section \<open>The account table\<close>

definition users_wf :: "memory \<Rightarrow> bool" where
  "users_wf s \<longleftrightarrow> distinct (map fst (m_users s)) \<and> distinct (map (u_id \<circ> snd) (m_users s))
     \<and> list_all (\<lambda>(n, u). u_name u = n \<and> n \<noteq> [] \<and> trim_space n = n \<and> u_hash u \<noteq> []
          \<and> u_id u \<le> m_next_uid s) (m_users s)"

text \<open>The account operations as steps; only their successes change the store.\<close>

inductive account_step :: "memory \<Rightarrow> memory \<Rightarrow> bool" where
  creates: "create_user now u s = Inr (t, v) \<Longrightarrow> account_step s t"
| updates: "update_user name role cp dis hash s = Inr t \<Longrightarrow> account_step s t"
| profiles: "update_profile name d e s = Inr t \<Longrightarrow> account_step s t"
| passwords: "change_password name hash s = Inr (t, v) \<Longrightarrow> account_step s t"
| deletes: "delete_user name s = Inr t \<Longrightarrow> account_step s t"

lemma get_user_by_id_iff:
  assumes "users_wf s"
  shows "get_user_by_id k s = Some u \<longleftrightarrow> map_of (m_users s) (u_name u) = Some u \<and> u_id u = k"
proof
  assume "get_user_by_id k s = Some u"
  then obtain n where "(n, u) \<in> set (m_users s)" "u_id u = k"
    by (auto simp: get_user_by_id_def dest!: find_Some_in)
  then show "map_of (m_users s) (u_name u) = Some u \<and> u_id u = k"
    using assms by (auto simp: users_wf_def map_of_Some_in list_all_iff)
next
  assume a: "map_of (m_users s) (u_name u) = Some u \<and> u_id u = k"
  then have u: "u \<in> set (map snd (m_users s))" "u_id u = k" by (auto dest!: map_of_SomeD intro: rev_image_eqI)
  then obtain w where w: "find (\<lambda>u. u_id u = k) (map snd (m_users s)) = Some w"
    by (cases "find (\<lambda>u. u_id u = k) (map snd (m_users s))") (auto simp: find_None_iff)
  then have "w \<in> set (map snd (m_users s))" "u_id w = k" by (auto dest: find_Some_in)
  moreover have "distinct (map u_id (map snd (m_users s)))" using assms by (simp add: users_wf_def)
  ultimately have "w = u" using u by (metis (no_types, lifting) distinct_map inj_onD)
  then show "get_user_by_id k s = Some u" using w by (simp add: get_user_by_id_def)
qed


lemma update_same_image:
  "map_of xs n = Some u \<Longrightarrow> f v = f u \<Longrightarrow> map (f \<circ> snd) (AList.update n v xs) = map (f \<circ> snd) xs"
  by (induction xs) (auto split: if_splits)

lemma list_all_update:
  "list_all P xs \<Longrightarrow> P (k, v) \<Longrightarrow> list_all P (AList.update k v xs)"
  by (induction xs) auto

lemma put_user_wf:
  assumes "users_wf s" "map_of (m_users s) n = Some u" "u_id v = u_id u" "u_name v = u_name u" "u_hash v \<noteq> []"
  shows "users_wf (put_user n v s)"
proof -
  have "case (n, u) of (n, u) \<Rightarrow> u_name u = n \<and> n \<noteq> [] \<and> trim_space n = n \<and> u_hash u \<noteq> [] \<and> u_id u \<le> m_next_uid s"
    using assms(1) map_of_SomeD[OF assms(2)] unfolding users_wf_def list_all_iff by blast
  then show ?thesis
    using assms update_same_image[OF assms(2), of u_id v]
    by (auto simp: users_wf_def put_user_def intro!: list_all_update)
qed

lemma stored_user: "users_wf s \<Longrightarrow> map_of (m_users s) n = Some u \<Longrightarrow> u_name u = n \<and> u_hash u \<noteq> [] \<and> u_id u \<le> m_next_uid s"
  by (auto simp: users_wf_def list_all_iff dest!: map_of_SomeD)

lemma updated_user_keeps [simp]:
  "u_id (updated_user r c d h u) = u_id u" "u_name (updated_user r c d h u) = u_name u"
  "u_hash (updated_user r c d h u) = (if h \<noteq> [] then h else u_hash u)"
  "u_disabled (updated_user r c d h u) = (case d of None \<Rightarrow> u_disabled u | Some b \<Rightarrow> b)"
  "u_gen (updated_user r c d h u) =
     u_gen u + (if h \<noteq> [] then 1 else 0) + (if d = Some True \<and> \<not> u_disabled u then 1 else 0)"
  by (auto simp: updated_user_def Let_def split: option.splits)

text \<open>A step creates one account under a new id, rewrites one, or deletes one.\<close>

definition session_order :: "user \<Rightarrow> user \<Rightarrow> bool" where
  "session_order u v \<longleftrightarrow> u_gen u \<le> u_gen v
     \<and> (u_hash v \<noteq> u_hash u \<or> u_disabled v \<and> \<not> u_disabled u \<longrightarrow> u_gen u < u_gen v)"

lemma account_step_cases:
  assumes "account_step s t" "users_wf s"
  obtains (new) u where "map_of (m_users s) (u_name u) = None" "u_id u = m_next_uid s + 1" "u_name u \<noteq> []"
      "trim_space (u_name u) = u_name u" "u_hash u \<noteq> []"
      "t = put_user (u_name u) u (s\<lparr>m_next_uid := m_next_uid s + 1\<rparr>)"
  | (change) n u v where "map_of (m_users s) n = Some u" "u_id v = u_id u" "u_name v = u_name u" "u_hash v \<noteq> []"
      "session_order u v" "t = put_user n v s"
  | (gone) n where "t = s\<lparr>m_users := AList.delete n (m_users s)\<rparr>"
  using assms(1)
proof cases
  case (creates now u v)
  then show ?thesis using new[of v] by (auto simp: create_user_def Let_def split: if_splits)
next
  case (updates name role cp dis hash)
  then obtain u where u: "map_of (m_users s) (trim_space name) = Some u"
    "t = put_user (trim_space name) (updated_user role cp dis hash u) s"
    by (auto simp: update_user_def split: option.splits)
  have "session_order u (updated_user role cp dis hash u)"
    by (auto simp: session_order_def split: option.splits)
  then show ?thesis using u change[of _ u "updated_user role cp dis hash u"] stored_user[OF assms(2) u(1)] by simp
next
  case (profiles name d e)
  then obtain u where u: "map_of (m_users s) (trim_space name) = Some u"
    "t = put_user (trim_space name) (u\<lparr>u_display := trim_space d, u_email := trim_space e\<rparr>) s"
    by (auto simp: update_profile_def split: option.splits)
  then show ?thesis using change[OF u(1) _ _ _ _ u(2)] stored_user[OF assms(2) u(1)] by (simp add: session_order_def)
next
  case (passwords name hash v)
  then obtain u where u: "map_of (m_users s) (trim_space name) = Some u" "hash \<noteq> []"
    "t = put_user (trim_space name) (u\<lparr>u_hash := hash, u_must_change := False, u_gen := u_gen u + 1\<rparr>) s"
    by (auto simp: change_password_def Let_def split: option.splits if_splits)
  then show ?thesis using change[OF u(1) _ _ _ _ u(3)] by (simp add: session_order_def)
next
  case (deletes name)
  then show ?thesis using gone by (auto simp: delete_user_def split: if_splits)
qed


lemma delete_filter: "AList.delete k xs = filter (\<lambda>(k', _). k \<noteq> k') xs"
  by (induction xs) auto

lemma account_step_wf [wf_rules]:
  assumes "account_step s t" "users_wf s"
  shows "users_wf t"
  using assms
proof (cases rule: account_step_cases)
  case (new u)
  have "list_all (\<lambda>(n, w). u_name w = n \<and> n \<noteq> [] \<and> trim_space n = n \<and> u_hash w \<noteq> [] \<and> u_id w \<le> m_next_uid s + 1) (m_users s)"
    using assms(2) by (auto simp: users_wf_def list_all_iff)
  then show ?thesis
    using new assms(2) by (auto simp: users_wf_def put_user_def update_new list_all_iff map_of_eq_None_iff)
next
  case (change n u v)
  then show ?thesis using put_user_wf[OF assms(2)] by simp
next
  case (gone n)
  then show ?thesis using assms(2)
    by (auto simp: users_wf_def delete_filter list_all_iff intro: distinct_map_filter)
qed

lemma account_step_user:
  assumes "account_step s t" "users_wf s" "get_user_by_id k t = Some v"
  shows "(\<exists>u. get_user_by_id k s = Some u \<and> session_order u v) \<or> m_next_uid s < k"
proof -
  have v: "map_of (m_users t) (u_name v) = Some v" "u_id v = k"
    using assms get_user_by_id_iff[OF account_step_wf[OF assms(1,2)]] by auto
  have same: ?thesis if "map_of (m_users s) (u_name v) = Some v"
    using that v(2) get_user_by_id_iff[OF assms(2), of k v] by (auto simp: session_order_def)
  from assms(1,2) show ?thesis
  proof (cases rule: account_step_cases)
    case (new u)
    show ?thesis
    proof (cases "u_name u = u_name v")
      case True
      then have "v = u" using v(1) new(6) by (simp add: put_user_def)
      then show ?thesis using v(2) new(2) by simp
    next
      case False
      then show ?thesis using v(1) new(6) same by (simp add: put_user_def)
    qed
  next
    case (change n u w)
    have n: "u_name u = n" using stored_user[OF assms(2) change(1)] by simp
    show ?thesis
    proof (cases "n = u_name v")
      case True
      then have "w = v" using v(1) change(6) by (simp add: put_user_def)
      then have "get_user_by_id k s = Some u"
        using get_user_by_id_iff[OF assms(2), of k u] n change(1,2) v(2) by simp
      then show ?thesis using change(5) \<open>w = v\<close> by blast
    next
      case False
      then show ?thesis using v(1) change(6) same by (simp add: put_user_def)
    qed
  next
    case (gone n)
    then show ?thesis using v(1) same by (auto split: if_splits)
  qed
qed

lemma account_step_next: "account_step s t \<Longrightarrow> users_wf s \<Longrightarrow> m_next_uid s \<le> m_next_uid t"
  by (cases rule: account_step_cases) (auto simp: put_user_def)

lemma session_order_trans: "session_order u v \<Longrightarrow> session_order v w \<Longrightarrow> session_order u w"
  unfolding session_order_def by force

lemma account_steps_user:
  assumes "account_step\<^sup>*\<^sup>* s t" "users_wf s"
  shows "users_wf t \<and> m_next_uid s \<le> m_next_uid t \<and>
    (\<forall>v. get_user_by_id k t = Some v \<longrightarrow> (\<exists>u. get_user_by_id k s = Some u \<and> session_order u v) \<or> m_next_uid s < k)"
  using assms(1)
proof (induction rule: rtranclp_induct)
  case base
  then show ?case using assms(2) by (auto simp: session_order_def)
next
  case (step y z)
  then have wf: "users_wf z" and n: "m_next_uid s \<le> m_next_uid z"
    using account_step_wf account_step_next order_trans by blast+
  have "(\<exists>u. get_user_by_id k s = Some u \<and> session_order u v) \<or> m_next_uid s < k" if "get_user_by_id k z = Some v" for v
    using account_step_user[OF step(2) _ that] step.IH session_order_trans by fastforce
  then show ?case using wf n by blast
qed

section \<open>Properties\<close>

text \<open>C9: a password change, a reset and the locking of an account end its sessions, however many
  account operations lie between: the session generation of an account never falls and is larger
  than any it had under another password or before it was locked. An identifier is never given to
  a second account.\<close>

theorem session_generations:
  assumes "account_step\<^sup>*\<^sup>* s t" and "users_wf s" and "get_user_by_id k t = Some v" and "k \<le> m_next_uid s"
  shows "\<exists>u. get_user_by_id k s = Some u \<and> u_gen u \<le> u_gen v
    \<and> (u_hash v \<noteq> u_hash u \<or> u_disabled v \<and> \<not> u_disabled u \<longrightarrow> u_gen u < u_gen v)"
  using account_steps_user[OF assms(1,2), of k] assms(3,4) unfolding session_order_def by fastforce

definition demo_user :: user where
  "demo_user = \<lparr>u_id = 0, u_name = '' ann '', u_hash = ''h1'', u_role = [], u_can_post = True,
     u_disabled = False, u_display = [], u_email = [], u_must_change = False, u_gen = 0, u_created = 0\<rparr>"

definition demo_users :: memory where
  "demo_users = (case create_user 7 demo_user new_memory of Inr (s, u) \<Rightarrow> s | Inl e \<Rightarrow> new_memory)"

lemma trim_ann: "trim_space '' ann '' = ''ann''" "trim_space ''ann'' = ''ann''"
  by code_simp+

lemma demo_users_eval: "create_user 7 demo_user new_memory = Inr (demo_users, demo_user\<lparr>u_name := ''ann'',
    u_role := ''user'', u_id := 1, u_created := 7\<rparr>)"
  by (simp add: demo_users_def create_user_def demo_user_def new_memory_def trim_ann Let_def)

lemma demo_users_wf: "users_wf demo_users"
proof -
  have "users_wf new_memory" by (simp add: users_wf_def new_memory_def)
  then show ?thesis using account_step_wf account_step.creates[OF demo_users_eval] by blast
qed

lemma demo_users_map: "m_users demo_users = [(''ann'', demo_user\<lparr>u_name := ''ann'',
    u_role := ''user'', u_id := 1, u_created := 7\<rparr>)]"
  by (simp add: demo_users_def create_user_def demo_user_def new_memory_def trim_ann put_user_def Let_def)

theorem session_generations_witness:
  "\<exists>t v. account_step\<^sup>*\<^sup>* demo_users t \<and> get_user_by_id 1 t = Some v \<and> u_hash v = ''h2''
     \<and> (\<exists>u. get_user_by_id 1 demo_users = Some u \<and> u_gen u < u_gen v)"
proof -
  let ?w = "demo_user\<lparr>u_name := ''ann'', u_role := ''user'', u_id := 1, u_created := 7\<rparr>"
  let ?v = "?w\<lparr>u_hash := ''h2'', u_must_change := False, u_gen := 1\<rparr>"
  have c: "change_password ''ann'' ''h2'' demo_users = Inr (put_user ''ann'' ?v demo_users, ?v)"
    by (simp add: change_password_def trim_ann demo_users_map Let_def) (simp add: demo_user_def)
  have st: "account_step\<^sup>*\<^sup>* demo_users (put_user ''ann'' ?v demo_users)"
    using account_step.passwords[OF c] by blast
  have g: "get_user_by_id 1 (put_user ''ann'' ?v demo_users) = Some ?v"
    by (simp add: get_user_by_id_def put_user_def demo_users_map)
  have "get_user_by_id 1 demo_users = Some ?w" "1 \<le> m_next_uid demo_users"
    by (simp_all add: get_user_by_id_def demo_users_map)
       (simp add: demo_users_def create_user_def demo_user_def new_memory_def trim_ann put_user_def Let_def)
  then have "\<exists>u. get_user_by_id 1 demo_users = Some u \<and> u_gen u < u_gen ?v"
    using session_generations[OF st demo_users_wf g] by (auto simp: demo_user_def)
  then show ?thesis using st g by auto
qed

text \<open>The hosts that may send articles with IHAVE are those of the enabled peers: every name an
  enabled peer is known by is in the list, up to case, none is empty, and none stands there twice.\<close>

theorem ihave_hosts_exact:
  "to_lower ` set (peer_ihave_hosts ps)
     = to_lower ` {h. h \<noteq> [] \<and> (\<exists>p \<in> set ps. p_enabled p \<and> h \<in> trim_space ` {p_incoming (normalize_peer p), p_host (normalize_peer p)})}
   \<and> distinct (map to_lower (peer_ihave_hosts ps)) \<and> [] \<notin> set (peer_ihave_hosts ps)"
  (is "_ ` _ = _ ` ?H \<and> _")
proof -
  let ?l = "filter (\<lambda>h. h \<noteq> []) (map trim_space (concat (map (\<lambda>p. let n = normalize_peer p in [p_incoming n, p_host n])
          (filter p_enabled ps))))"
  have "set ?l = ?H" by (auto simp: Let_def)
  moreover have "set (peer_ihave_hosts ps) \<subseteq> set ?l"
    unfolding peer_ihave_hosts_def by (rule dedup_on_subset)
  ultimately show ?thesis
    using dedup_on_keys[of to_lower "[]" ?l] dedup_on_distinct[of to_lower "[]" ?l]
    unfolding peer_ihave_hosts_def by auto
qed

text \<open>A read mark never moves back, is never negative, and is the largest number that was set.\<close>

lemma read_mark_monotone:
  "get_read_state v h (set_read_state u g n s) =
     (if v = u \<and> trim_space h = trim_space g
      then (if map_of (user_map (m_reads s) u) (trim_space g) = None then max n 0
            else max (max n 0) (get_read_state u g s))
      else get_read_state v h s)"
  by (auto simp: get_read_state_def set_read_state_def user_map_def Let_def split: option.splits)

end
