(* ===== verification/GoNet.thy ===== *)
theory GoNet
  imports GoText
begin

text \<open>
  The part of Go's \<open>net\<close> package that the access rules use: \<open>SplitHostPort\<close>, \<open>ParseIP\<close>,
  \<open>ParseCIDR\<close> and \<open>IPNet.Contains\<close>. An address is the list of its 16 bytes, an IPv4 address
  in its mapped form, as in Go. Only asking the resolver is left to the caller.
\<close>

section \<open>Host and port\<close>

definition last_index :: "char \<Rightarrow> string \<Rightarrow> nat option" where
  "last_index c s = map_option (\<lambda>i. length s - 1 - i) (index_of (rev s) [c])"

text \<open>The host part, or \<open>None\<close> where \<open>SplitHostPort\<close> reports an error.\<close>

definition split_host_port :: "string \<Rightarrow> string option" where
  "split_host_port hp =
     (case last_index CHR '':'' hp of
        None \<Rightarrow> None
      | Some i \<Rightarrow>
          if has_prefix hp ''['' then
            (case index_of hp '']'' of
               None \<Rightarrow> None
             | Some e \<Rightarrow>
                 if e + 1 \<noteq> i then None
                 else if CHR ''['' \<in> set (drop 1 hp) \<or> CHR '']'' \<in> set (drop (e + 1) hp) then None
                 else Some (take (e - 1) (drop 1 hp)))
          else if CHR '':'' \<in> set (take i hp) then None
          else if CHR ''['' \<in> set hp \<or> CHR '']'' \<in> set hp then None
          else Some (take i hp))"

definition remote_host :: "string \<Rightarrow> string" where
  "remote_host addr = (case split_host_port addr of Some h \<Rightarrow> h | None \<Rightarrow> addr)"

section \<open>Addresses\<close>

type_synonym ip = "nat list"

definition dec_byte :: "string \<Rightarrow> nat option" where
  "dec_byte s =
     (if s = [] \<or> \<not> list_all is_digit s \<or> (length s > 1 \<and> hd s = CHR ''0'') then None
      else case dec_value 0 s of None \<Rightarrow> None | Some n \<Rightarrow> if n \<le> 255 then Some n else None)"

definition parse_ipv4 :: "string \<Rightarrow> nat list option" where
  "parse_ipv4 s =
     (let ps = split_on DOT s in if length ps = 4 then those (map dec_byte ps) else None)"

definition v4_prefix :: "nat list" where
  "v4_prefix = replicate 10 0 @ [255, 255]"

definition hex_value :: "char \<Rightarrow> nat option" where
  "hex_value c =
     (if is_digit c then Some (byte c - 48)
      else if CHR ''a'' \<le> c \<and> c \<le> CHR ''f'' then Some (byte c - 87)
      else if CHR ''A'' \<le> c \<and> c \<le> CHR ''F'' then Some (byte c - 55)
      else None)"

definition is_hex :: "char \<Rightarrow> bool" where
  "is_hex c \<longleftrightarrow> hex_value c \<noteq> None"

definition hex_number :: "string \<Rightarrow> nat" where
  "hex_number s = foldl (\<lambda>n c. 16 * n + the (hex_value c)) 0 s"

text \<open>The loop of \<open>parseIPv6\<close>: the bytes so far, the place of the ellipsis, the text left.\<close>

function ipv6_loop :: "nat list \<Rightarrow> nat option \<Rightarrow> string \<Rightarrow> (nat list \<times> nat option \<times> string) option" where
  "ipv6_loop bs el s =
     (if length bs \<ge> 16 then Some (bs, el, s)
      else
        let h = takeWhile is_hex s; t = dropWhile is_hex s in
        if h = [] \<or> length h > 4 then None
        else if has_prefix t ''.'' then
          (if (el = None \<and> length bs \<noteq> 12) \<or> length bs + 4 > 16 then None
           else case parse_ipv4 s of None \<Rightarrow> None | Some v \<Rightarrow> Some (bs @ v, el, []))
        else
          let bs' = bs @ [hex_number h div 256, hex_number h mod 256] in
          case t of
            [] \<Rightarrow> Some (bs', el, [])
          | c # u \<Rightarrow>
              if c \<noteq> CHR '':'' then None
              else if u = [] then None
              else if hd u = CHR '':'' then
                (if el \<noteq> None then None
                 else if tl u = [] then Some (bs', Some (length bs'), [])
                 else ipv6_loop bs' (Some (length bs')) (tl u))
              else ipv6_loop bs' el u)"
  by pat_completeness auto
termination
proof (relation "measure (\<lambda>(bs, el, s). length s)", simp, goal_cases)
  case (1 bs el s h t bs' c u)
  then have "length (c # u) \<le> length s" by (metis length_dropWhile_le)
  then show ?case by (cases u) auto
next
  case (2 bs el s h t bs' c u)
  then have "length (c # u) \<le> length s" by (metis length_dropWhile_le)
  then show ?case by auto
qed

declare ipv6_loop.simps [simp del]

definition fill_ellipsis :: "nat list \<Rightarrow> nat option \<Rightarrow> nat list option" where
  "fill_ellipsis bs el =
     (if length bs < 16 then
        (case el of None \<Rightarrow> None
         | Some e \<Rightarrow> Some (take e bs @ replicate (16 - length bs) 0 @ drop e bs))
      else if el \<noteq> None then None else Some bs)"

definition parse_ipv6 :: "string \<Rightarrow> ip option" where
  "parse_ipv6 s =
     (if s = ''::'' then Some (replicate 16 0)
      else
        let (el, s') = (if has_prefix s ''::'' then (Some 0, drop 2 s) else (None, s)) in
        case ipv6_loop [] el s' of
          Some (bs, el', []) \<Rightarrow> fill_ellipsis bs el'
        | _ \<Rightarrow> None)"

text \<open>The first dot, colon or percent sign decides; an address with a zone is none for \<open>ParseIP\<close>.\<close>

definition parse_ip :: "string \<Rightarrow> ip option" where
  "parse_ip s =
     (case find (\<lambda>c. c \<in> {DOT, CHR '':'', CHR ''%''}) s of
        None \<Rightarrow> None
      | Some c \<Rightarrow>
          if c = DOT then map_option (\<lambda>v. v4_prefix @ v) (parse_ipv4 s)
          else if c = CHR '':'' then (if CHR ''%'' \<in> set s then None else parse_ipv6 s)
          else None)"

definition is_v4 :: "ip \<Rightarrow> bool" where
  "is_v4 a \<longleftrightarrow> length a = 16 \<and> take 12 a = v4_prefix"

section \<open>Networks\<close>

text \<open>A byte with all but its first \<open>n\<close> bits cleared.\<close>

definition mask_byte :: "nat \<Rightarrow> nat \<Rightarrow> nat" where
  "mask_byte n b = (if n \<ge> 8 then b else b div 2 ^ (8 - n) * 2 ^ (8 - n))"

fun mask_bytes :: "nat \<Rightarrow> nat list \<Rightarrow> nat list" where
  "mask_bytes n [] = []"
| "mask_bytes n (b # bs) = mask_byte n b # mask_bytes (n - 8) bs"

text \<open>The prefix length: decimal digits only. The network is kept as its masked address, of 4 or 16
  bytes, and the length.\<close>

definition parse_cidr :: "string \<Rightarrow> (nat list \<times> nat) option" where
  "parse_cidr s =
     (case cut s ''/'' of (addr, m, found) \<Rightarrow>
        if \<not> found then None
        else case parse_ip addr of None \<Rightarrow> None
        | Some a \<Rightarrow>
            let v4 = DOT \<in> set addr \<and> CHR '':'' \<notin> set addr; bits = (if v4 then 32 else 128) in
            if m = [] \<or> \<not> list_all is_digit m then None
            else case dec_value 0 m of None \<Rightarrow> None
            | Some n \<Rightarrow>
                if n > bits then None
                else if v4 then Some (mask_bytes n (drop 12 a), n)
                else Some (mask_bytes n a, n))"

definition net_contains :: "nat list \<times> nat \<Rightarrow> ip \<Rightarrow> bool" where
  "net_contains nw a =
     (case nw of (net, n) \<Rightarrow>
        let (net4, n4) = (if is_v4 net then (drop 12 net, n - 96) else (net, n));
            a4 = (if is_v4 a then drop 12 a else a)
        in length a4 = length net4 \<and> mask_bytes n4 a4 = mask_bytes n4 net4)"

lemma mask_bytes_length [simp]: "length (mask_bytes n bs) = length bs"
  by (induction n bs rule: mask_bytes.induct) auto

lemma mask_byte_idem [simp]: "mask_byte n (mask_byte n b) = mask_byte n b"
  by (simp add: mask_byte_def)

lemma mask_bytes_idem [simp]: "mask_bytes n (mask_bytes n bs) = mask_bytes n bs"
  by (induction n bs rule: mask_bytes.induct) auto

end
