(* ===== verification/Inbound.thy ===== *)
theory Inbound
  imports StoreUsers Config GoNet
begin

text \<open>
  Who may send articles: \<open>internal/inbound/allow.go\<close> and \<open>internal/peerauth/peerauth.go\<close>. The
  resolver is the argument \<open>resolve\<close>, what \<open>resolveHost\<close> yields for a name (its cache and the
  DNS are not modelled); \<open>sha256\<close> is the hash of the shared secret.
\<close>

section \<open>Access rules\<close>

definition effective_rules :: "inbound_cfg \<Rightarrow> string list \<Rightarrow> string list" where
  "effective_rules ib hosts =
     dedup_on to_lower [] (filter (\<lambda>r. r \<noteq> []) (map trim_space (ib_allow ib @ hosts)))"

definition inbound_open :: "inbound_cfg \<Rightarrow> bool" where
  "inbound_open ib = (case ib_open ib of Some b \<Rightarrow> b | None \<Rightarrow> ib_allow ib = [])"

definition match_rule :: "(string \<Rightarrow> ip list) \<Rightarrow> string \<Rightarrow> ip option \<Rightarrow> string \<Rightarrow> bool" where
  "match_rule resolve host addr rule0 =
     (let rule = trim_space rule0 in
      if rule = [] then False
      else if equal_fold rule host then True
      else if contains rule ''/'' then
        (case (parse_cidr rule, addr) of (Some nw, Some a) \<Rightarrow> net_contains nw a | _ \<Rightarrow> False)
      else case parse_ip rule of
        Some t \<Rightarrow> addr = Some t
      | None \<Rightarrow> (case addr of None \<Rightarrow> False | Some a \<Rightarrow> a \<in> set (resolve rule)))"

definition inbound_allowed ::
    "(string \<Rightarrow> ip list) \<Rightarrow> inbound_cfg \<Rightarrow> string \<Rightarrow> string list \<Rightarrow> bool" where
  "inbound_allowed resolve ib remote hosts =
     (if inbound_open ib then True
      else if effective_rules ib hosts = [] then False
      else let host = remote_host remote
           in list_ex (match_rule resolve host (parse_ip host)) (effective_rules ib hosts))"

definition match_host :: "(string \<Rightarrow> ip list) \<Rightarrow> string \<Rightarrow> string \<Rightarrow> bool" where
  "match_host resolve remote rule =
     (let host = remote_host remote in match_rule resolve host (parse_ip host) rule)"

section \<open>Passwords of feeders\<close>

definition pair_password :: "(string \<Rightarrow> string) \<Rightarrow> string \<Rightarrow> string \<Rightarrow> string" where
  "pair_password sha256 a0 b0 =
     (let a = trim_space a0; b = trim_space b0 in
      if equal_fold a b then []
      else
        let (x, y) = (if to_lower b < to_lower a then (b, a) else (a, b)) in
        hex_encode (take 8 (sha256 (x @ [CHR 0x00] @ y @ [CHR 0x00] @ ''openusenet-peer''))))"

definition remote_name :: "peer \<Rightarrow> string" where
  "remote_name p =
     (if trim_space (p_path_token p) \<noteq> [] then trim_space (p_path_token p)
      else if trim_space (p_incoming p) \<noteq> [] then trim_space (p_incoming p)
      else trim_space (p_host p))"

definition fill_passwords :: "(string \<Rightarrow> string) \<Rightarrow> string \<Rightarrow> peer \<Rightarrow> peer" where
  "fill_passwords sha256 local p =
     (let remote = remote_name p; secret = pair_password sha256 local remote in
      if remote = [] \<or> parse_ip remote \<noteq> None then p
      else if secret = [] then p
      else
        let q = (if trim_space (p_in_password p) = [] then p\<lparr>p_in_password := secret\<rparr> else p)
        in if trim_space (p_out_password q) = [] then q\<lparr>p_out_password := secret\<rparr> else q)"

definition peer_matches :: "(string \<Rightarrow> ip list) \<Rightarrow> string \<Rightarrow> peer \<Rightarrow> bool" where
  "peer_matches resolve remote p =
     (p_enabled p \<and>
      list_ex (\<lambda>rule. rule \<noteq> [] \<and> (match_host resolve remote rule \<or> equal_fold rule (remote_host remote)))
        [p_incoming (normalize_peer p), p_host (normalize_peer p)])"

definition match_peer :: "(string \<Rightarrow> ip list) \<Rightarrow> peer list \<Rightarrow> string \<Rightarrow> peer option" where
  "match_peer resolve ps remote = find (peer_matches resolve remote) ps"

definition verify_feed_auth :: "peer option \<Rightarrow> string \<Rightarrow> bool \<Rightarrow> bool" where
  "verify_feed_auth p password require =
     (case p of None \<Rightarrow> False
      | Some q \<Rightarrow>
          let want = trim_space (p_in_password q) in
          if want = [] then \<not> require else password = want)"

section \<open>Lemmas\<close>

lemma match_rule_lower:
  "match_rule resolve host addr rule \<Longrightarrow> trim_space rule \<noteq> []"
  by (auto simp: match_rule_def Let_def split: if_splits)

text \<open>A closed server lets in whoever a rule names: no more, and, case aside, no less.\<close>

lemma closed_allows_only_rules:
  assumes "\<not> inbound_open ib" "inbound_allowed resolve ib remote hosts"
  shows "\<exists>r \<in> set (ib_allow ib @ hosts). match_host resolve remote r"
proof -
  obtain r where r: "r \<in> set (effective_rules ib hosts)" "match_host resolve remote r"
    using assms by (auto simp: inbound_allowed_def list_ex_iff match_host_def Let_def split: if_splits)
  then have "r \<in> trim_space ` set (ib_allow ib @ hosts)"
    unfolding effective_rules_def using dedup_on_subset by fastforce
  then obtain q where "q \<in> set (ib_allow ib @ hosts)" "r = trim_space q" by auto
  moreover have "match_host resolve remote (trim_space q) = match_host resolve remote q"
    by (simp add: match_host_def match_rule_def)
  ultimately show ?thesis using r(2) by blast
qed

end
