(* ===== verification/Binary.thy ===== *)
theory Binary
  imports GoText
begin

text \<open>
  The classification of an article as binary, \<open>internal/binary/detect.go\<close>. The media type that the
  code takes from a Content-Type is the part before the first semicolon, trimmed and in lower case,
  whether \<open>mime.ParseMediaType\<close> accepts the parameters or not: in either case that is what the code
  goes on with.
\<close>

definition y_enc :: "string \<Rightarrow> bool" where
  "y_enc b = (let l = to_lower b in contains l ''=ybegin'' \<or> contains l ''=ypart'' \<or> contains l ''=yend'')"

text \<open>The code checks the length in bytes and then every rune; a rune between 0 and 7 is one byte.\<close>

definition is_octal_mode :: "string \<Rightarrow> bool" where
  "is_octal_mode s \<longleftrightarrow> length s \<ge> 3 \<and> length s \<le> 4 \<and> list_all (\<lambda>c. CHR ''0'' \<le> c \<and> c \<le> CHR ''7'') s"

definition uu_begin :: "string \<Rightarrow> bool" where
  "uu_begin l0 =
     (let l = trim_right l0 [CR] in
      has_prefix l ''begin '' \<and>
      (case str_fields (trim_prefix l ''begin '') of a # b # _ \<Rightarrow> is_octal_mode a | _ \<Rightarrow> False))"

definition uuencode :: "string \<Rightarrow> bool" where
  "uuencode b = list_ex uu_begin (split_on LF b)"

fun scan_header :: "string \<Rightarrow> string list \<Rightarrow> string" where
  "scan_header name [] = []"
| "scan_header name (l0 # ls) =
     (let l = trim_right l0 [CR] in
      if l \<noteq> [] \<and> (hd l = SP \<or> hd l = TAB) then scan_header name ls
      else case cut l '':'' of (k, v, ok) \<Rightarrow>
        if ok \<and> equal_fold (trim_space k) name then trim_space v else scan_header name ls)"

definition raw_header_value :: "string \<Rightarrow> string \<Rightarrow> string" where
  "raw_header_value hs name = scan_header name (split_on LF hs)"

definition media_type :: "string \<Rightarrow> string" where
  "media_type ct = to_lower (trim_space (hd (split_on CHR '';'' ct)))"

definition mime_binary :: "string \<Rightarrow> bool" where
  "mime_binary hs =
     (let ct = raw_header_value hs ''Content-Type'' in
      if ct = [] then False
      else
        let m = media_type ct in
        if has_prefix m ''application/'' then
          m \<noteq> ''application/pgp-signature'' \<and> m \<noteq> ''application/pkcs7-signature''
        else has_prefix m ''image/'' \<or> has_prefix m ''audio/'' \<or> has_prefix m ''video/''
          \<or> m = ''message/partial'')"

definition is_pgp_begin :: "string \<Rightarrow> bool" where
  "is_pgp_begin l = has_prefix l ''-----BEGIN PGP ''"

definition is_pgp_end :: "string \<Rightarrow> bool" where
  "is_pgp_end l = has_prefix l ''-----END PGP ''"

definition unicode_space :: "nat \<Rightarrow> bool" where
  "unicode_space r \<longleftrightarrow> 9 \<le> r \<and> r \<le> 13 \<or> r \<in> {32, 133, 160, 5760, 8232, 8233, 8239, 8287, 12288}
     \<or> 8192 \<le> r \<and> r \<le> 8202"

definition base64_rune :: "nat \<Rightarrow> bool" where
  "base64_rune r \<longleftrightarrow> 65 \<le> r \<and> r \<le> 90 \<or> 97 \<le> r \<and> r \<le> 122 \<or> 48 \<le> r \<and> r \<le> 57 \<or> r = 43 \<or> r = 47"

fun base64_runes :: "nat \<Rightarrow> nat list \<Rightarrow> bool" where
  "base64_runes pad [] = True"
| "base64_runes pad (r # rs) =
     (if base64_rune r then base64_runes pad rs
      else if r = 61 then (if pad + 1 > 2 then False else base64_runes (pad + 1) rs)
      else if unicode_space r then base64_runes pad rs
      else False)"

definition is_base64_line :: "string \<Rightarrow> bool" where
  "is_base64_line l0 = (let l = trim_space l0 in length l \<ge> 60 \<and> base64_runes 0 (runes l))"

text \<open>The loop of \<open>bulkBase64\<close>: whether inside an armor, and the length of the current run.\<close>

fun bulk_scan :: "bool \<Rightarrow> nat \<Rightarrow> string list \<Rightarrow> bool" where
  "bulk_scan in_pgp run [] = False"
| "bulk_scan in_pgp run (l0 # ls) =
     (let l = trim_right l0 [CR]; t = trim_space l in
      if is_pgp_begin t then bulk_scan True 0 ls
      else if in_pgp then bulk_scan (\<not> is_pgp_end t) 0 ls
      else if is_base64_line l then (if run + 1 \<ge> 8 then True else bulk_scan False (run + 1) ls)
      else bulk_scan False 0 ls)"

definition bulk_base64 :: "string \<Rightarrow> bool" where
  "bulk_base64 b = bulk_scan False 0 (split_on LF b)"

definition looks_binary :: "string \<Rightarrow> string \<Rightarrow> bool" where
  "looks_binary hs b =
     (y_enc b \<or> uuencode b \<or> (mime_binary hs \<and> length b > 512) \<or> bulk_base64 b)"

section \<open>What the loop over the lines finds\<close>

definition armor_begin :: "string \<Rightarrow> bool" where
  "armor_begin l = is_pgp_begin (trim_space (trim_right l [CR]))"

definition armor_end :: "string \<Rightarrow> bool" where
  "armor_end l = is_pgp_end (trim_space (trim_right l [CR]))"

text \<open>Whether the text after some lines is inside an armor.\<close>

definition armored :: "bool \<Rightarrow> string list \<Rightarrow> bool" where
  "armored p ls = foldl (\<lambda>p l. armor_begin l \<or> (p \<and> \<not> armor_end l)) p ls"

definition bulk_line :: "string \<Rightarrow> bool" where
  "bulk_line l \<longleftrightarrow> is_base64_line (trim_right l [CR]) \<and> \<not> armor_begin l"

definition bulk_run :: "bool \<Rightarrow> string list \<Rightarrow> bool" where
  "bulk_run p ls \<longleftrightarrow> (\<exists>xs ys zs. ls = xs @ ys @ zs \<and> \<not> armored p xs \<and> length ys = 8 \<and> list_all bulk_line ys)"

lemma armored_simps [simp]:
  "armored p [] = p" "armored p (l # ls) = armored (armor_begin l \<or> (p \<and> \<not> armor_end l)) ls"
  by (simp_all add: armored_def)

lemma bulk_run_Nil [simp]: "\<not> bulk_run p []"
  by (auto simp: bulk_run_def)

definition starts_run :: "nat \<Rightarrow> string list \<Rightarrow> bool" where
  "starts_run n ls \<longleftrightarrow> n \<le> length ls \<and> list_all bulk_line (take n ls)"

lemma starts_run_simps [simp]:
  "starts_run 0 ls" "\<not> starts_run (Suc n) []" "starts_run (Suc n) (l # ls) \<longleftrightarrow> bulk_line l \<and> starts_run n ls"
  by (auto simp: starts_run_def)

lemma starts_run_iff: "starts_run n ls \<longleftrightarrow> (\<exists>ys zs. ls = ys @ zs \<and> length ys = n \<and> list_all bulk_line ys)"
  by (auto simp: starts_run_def) (metis append_take_drop_id length_take min_absorb2)

lemma bulk_run_Cons:
  "bulk_run p (l # ls) \<longleftrightarrow>
     (\<not> p \<and> starts_run 8 (l # ls)) \<or> bulk_run (armor_begin l \<or> (p \<and> \<not> armor_end l)) ls"
proof
  assume "bulk_run p (l # ls)"
  then obtain xs ys zs where r: "l # ls = xs @ ys @ zs" "\<not> armored p xs" "length ys = 8" "list_all bulk_line ys"
    by (auto simp: bulk_run_def)
  show "(\<not> p \<and> starts_run 8 (l # ls)) \<or> bulk_run (armor_begin l \<or> (p \<and> \<not> armor_end l)) ls"
  proof (cases xs)
    case Nil
    then show ?thesis using r by (auto simp: starts_run_iff)
  next
    case (Cons x xs')
    then show ?thesis using r unfolding bulk_run_def by auto
  qed
next
  assume a: "(\<not> p \<and> starts_run 8 (l # ls)) \<or> bulk_run (armor_begin l \<or> (p \<and> \<not> armor_end l)) ls"
  show "bulk_run p (l # ls)"
  proof (cases "\<not> p \<and> starts_run 8 (l # ls)")
    case True
    then obtain ys zs where "l # ls = ys @ zs" "length ys = 8" "list_all bulk_line ys"
      by (auto simp: starts_run_iff)
    then show ?thesis using True unfolding bulk_run_def
      by (intro exI[of _ "[]"] exI[of _ ys] exI[of _ zs]) simp
  next
    case False
    then obtain xs ys zs where "ls = xs @ ys @ zs" "\<not> armored (armor_begin l \<or> (p \<and> \<not> armor_end l)) xs"
      "length ys = 8" "list_all bulk_line ys"
      using a by (auto simp: bulk_run_def)
    then show ?thesis unfolding bulk_run_def
      by (intro exI[of _ "l # xs"] exI[of _ ys] exI[of _ zs]) simp
  qed
qed

lemma starts_run_weaken: "m \<le> n \<Longrightarrow> starts_run n ls \<Longrightarrow> starts_run m ls"
  by (auto simp: starts_run_def list_all_iff dest: set_take_subset_set_take[THEN subsetD])

lemma starts_run_bulk: "starts_run 8 ls \<Longrightarrow> bulk_run False ls"
  unfolding starts_run_iff bulk_run_def by (metis append_Nil armored_simps(1))

lemma bulk_scan_iff:
  "run < 8 \<Longrightarrow> bulk_scan p run ls \<longleftrightarrow> (\<not> p \<and> starts_run (8 - run) ls) \<or> bulk_run p ls"
proof (induction p run ls rule: bulk_scan.induct)
  case (1 p run)
  then show ?case by (cases "8 - run") auto
next
  case (2 p run l ls)
  have suc: "8 - run = Suc (7 - run)" using 2(5) by simp
  have 8: "starts_run 8 (l # ls) \<Longrightarrow> starts_run (8 - run) (l # ls)"
    using starts_run_weaken[of "8 - run" 8] by simp
  show ?case
  proof (cases "armor_begin l")
    case True
    then have "\<not> bulk_line l" by (simp add: bulk_line_def)
    then show ?thesis using True 2(1)[OF refl refl] unfolding suc
      by (simp add: armor_begin_def bulk_run_Cons eval_nat_numeral)
  next
    case b: False
    show ?thesis
    proof (cases p)
      case True
      then show ?thesis using b 2(2)[OF refl refl]
        by (auto simp: armor_begin_def armor_end_def bulk_run_Cons Let_def dest: starts_run_bulk)
    next
      case np: False
      show ?thesis
      proof (cases "bulk_line l")
        case True
        then have i: "is_base64_line (trim_right l [CR])" by (simp add: bulk_line_def)
        show ?thesis
        proof (cases "run = 7")
          case True
          then show ?thesis using i b np \<open>bulk_line l\<close> by (simp add: armor_begin_def)
        next
          case False
          then have "bulk_scan False (run + 1) ls \<longleftrightarrow> starts_run (8 - (run + 1)) ls \<or> bulk_run False ls"
            using 2(3)[OF refl refl] b np i 2(5) by (simp add: armor_begin_def)
          moreover have "8 - (run + 1) = 7 - run" by simp
          ultimately show ?thesis using b np i False \<open>bulk_line l\<close> 8 2(5) unfolding suc
            by (auto simp: armor_begin_def bulk_run_Cons)
        qed
      next
        case False
        then have "\<not> is_base64_line (trim_right l [CR])" using b by (simp add: bulk_line_def)
        then show ?thesis using 2(4)[OF refl refl] b np False unfolding suc
          by (auto simp: armor_begin_def bulk_run_Cons dest: starts_run_bulk) (simp add: eval_nat_numeral)
      qed
    qed
  qed
qed

section \<open>Properties\<close>

text \<open>The base64 test finds exactly the bodies with eight consecutive base64 lines that lie
  outside every OpenPGP armor: a signature or an encrypted message alone is never taken for a
  binary, and no shorter run is.\<close>

theorem bulk_base64_correct:
  "bulk_base64 b \<longleftrightarrow>
     (\<exists>xs ys zs. split_on LF b = xs @ ys @ zs \<and> \<not> armored False xs \<and> length ys = 8 \<and> list_all bulk_line ys)"
  using bulk_scan_iff[of 0 False "split_on LF b"]
  by (auto simp: bulk_base64_def bulk_run_def starts_run_iff)
     (metis append_Nil armored_simps(1))

end
