(* ===== verification/Filing.thy ===== *)
theory Filing
  imports StoreTypes
begin

text \<open>
  How the article store keeps its three maps consistent, stated on functions: \<open>A\<close> gives the
  object stored under a Message-ID, \<open>G\<close> the number an object has in a group, \<open>gs\<close> the groups
  and \<open>bn\<close> the object filed under a number of a group. \<open>filed\<close> is the agreement of the four;
  the lemmas say which steps keep it. The store operations are sequences of such steps.
\<close>

section \<open>One group\<close>

definition group_ok :: "mem_group \<Rightarrow> bool" where
  "group_ok mg \<longleftrightarrow>
     sorted_wrt (<) (g_nums mg) \<and> (\<forall>n \<in> set (g_nums mg). 1 \<le> g_low mg \<and> g_low mg \<le> n \<and> n \<le> g_high mg)
     \<and> g_count mg = int (length (g_nums mg)) \<and> 0 \<le> g_low mg \<and> g_low mg \<le> g_high mg"

definition same_numbers :: "mem_group \<Rightarrow> mem_group \<Rightarrow> bool" where
  "same_numbers a b \<longleftrightarrow> g_nums a = g_nums b \<and> g_low a = g_low b \<and> g_high a = g_high b
     \<and> g_count a = g_count b"

lemma group_ok_same: "same_numbers a b \<Longrightarrow> group_ok a \<Longrightarrow> group_ok b"
  by (simp add: same_numbers_def group_ok_def)

lemma sorted_wrt_snoc: "sorted_wrt (<) (xs @ [x :: int]) \<longleftrightarrow> sorted_wrt (<) xs \<and> (\<forall>y \<in> set xs. y < x)"
  by (auto simp: sorted_wrt_append)

lemma sorted_wrt_hd: "sorted_wrt (<) xs \<Longrightarrow> x \<in> set xs \<Longrightarrow> hd xs \<le> (x :: int)"
  by (cases xs) auto

lemma sorted_wrt_last: "sorted_wrt (<) xs \<Longrightarrow> x \<in> set xs \<Longrightarrow> (x :: int) \<le> last xs"
  by (induction xs) (auto split: if_splits intro: less_imp_le)

lemma sorted_wrt_filter_less: "sorted_wrt (<) xs \<Longrightarrow> sorted_wrt (<) (filter P (xs :: int list))"
  by (rule sorted_wrt_filter)

section \<open>Agreement\<close>

definition live :: "(string \<Rightarrow> nat option) \<Rightarrow> nat \<Rightarrow> bool" where
  "live A r \<longleftrightarrow> (\<exists>m. A m = Some r)"

definition filed ::
  "(string \<Rightarrow> nat option) \<Rightarrow> (nat \<Rightarrow> string \<Rightarrow> int option) \<Rightarrow> (string \<Rightarrow> mem_group option)
    \<Rightarrow> (string \<Rightarrow> (int \<Rightarrow> nat option) option) \<Rightarrow> bool" where
  "filed A G gs bn \<longleftrightarrow>
     (\<forall>g. gs g = None \<longleftrightarrow> bn g = None)
     \<and> (\<forall>g mg b. gs g = Some mg \<longrightarrow> bn g = Some b \<longrightarrow>
          group_ok mg \<and> set (g_nums mg) = dom b
          \<and> (\<forall>n r. b n = Some r \<longleftrightarrow> live A r \<and> G r g = Some n))
     \<and> (\<forall>r g. live A r \<longrightarrow> G r g \<noteq> None \<longrightarrow> gs g \<noteq> None)
     \<and> (\<forall>m m' r. A m = Some r \<longrightarrow> A m' = Some r \<longrightarrow> m = m')"

lemma filedD:
  assumes "filed A G gs bn"
  shows filed_dom: "gs g = None \<longleftrightarrow> bn g = None"
    and filed_group_ok: "gs g = Some mg \<Longrightarrow> group_ok mg"
    and filed_nums: "gs g = Some mg \<Longrightarrow> bn g = Some b \<Longrightarrow> set (g_nums mg) = dom b"
    and filed_lookup: "gs g = Some mg \<Longrightarrow> bn g = Some b \<Longrightarrow> b n = Some r \<longleftrightarrow> live A r \<and> G r g = Some n"
    and filed_in_group: "live A r \<Longrightarrow> G r g = Some n \<Longrightarrow> \<exists>mg. gs g = Some mg"
    and filed_inj: "A m = Some r \<Longrightarrow> A m' = Some r \<Longrightarrow> m = m'"
proof -
  note c = assms[unfolded filed_def]
  note c1 = c[THEN conjunct1, rule_format]
    and c2 = c[THEN conjunct2, THEN conjunct1, rule_format]
    and c3 = c[THEN conjunct2, THEN conjunct2, THEN conjunct1, rule_format]
    and c4 = c[THEN conjunct2, THEN conjunct2, THEN conjunct2, rule_format]
  show "gs g = None \<longleftrightarrow> bn g = None" by (rule c1)
  show "group_ok mg" if g: "gs g = Some mg"
  proof (cases "bn g")
    case None
    then show ?thesis using c1[of g] g by simp
  next
    case (Some b)
    then show ?thesis using c2[OF g] by simp
  qed
  show "gs g = Some mg \<Longrightarrow> bn g = Some b \<Longrightarrow> set (g_nums mg) = dom b" using c2 by simp
  show "gs g = Some mg \<Longrightarrow> bn g = Some b \<Longrightarrow> b n = Some r \<longleftrightarrow> live A r \<and> G r g = Some n"
    using c2[of g mg b] by simp
  show "live A r \<Longrightarrow> G r g = Some n \<Longrightarrow> \<exists>mg. gs g = Some mg"
    using c3[of r g] by auto
  show "A m = Some r \<Longrightarrow> A m' = Some r \<Longrightarrow> m = m'" by (rule c4)
qed

lemma filedI:
  assumes "\<And>g. gs g = None \<longleftrightarrow> bn g = None"
    and "\<And>g mg. gs g = Some mg \<Longrightarrow> group_ok mg"
    and "\<And>g mg b. gs g = Some mg \<Longrightarrow> bn g = Some b \<Longrightarrow> set (g_nums mg) = dom b"
    and "\<And>g mg b n r. gs g = Some mg \<Longrightarrow> bn g = Some b \<Longrightarrow> b n = Some r \<longleftrightarrow> live A r \<and> G r g = Some n"
    and "\<And>r g n. live A r \<Longrightarrow> G r g = Some n \<Longrightarrow> gs g \<noteq> None"
    and "\<And>m m' r. A m = Some r \<Longrightarrow> A m' = Some r \<Longrightarrow> m = m'"
  shows "filed A G gs bn"
  unfolding filed_def
proof (intro conjI allI impI)
  show "(gs g = None) = (bn g = None)" for g by (rule assms(1))
  show "group_ok mg" if "gs g = Some mg" for g mg using that by (rule assms(2))
  show "set (g_nums mg) = dom b" if "gs g = Some mg" "bn g = Some b" for g mg b
    using that by (rule assms(3))
  show "(b n = Some r) = (live A r \<and> G r g = Some n)" if "gs g = Some mg" "bn g = Some b" for g mg b n r
    using that by (rule assms(4))
  show "gs g \<noteq> None" if "live A r" "G r g \<noteq> None" for r g using that assms(5) by blast
  show "m = m'" if "A m = Some r" "A m' = Some r" for m m' r using that by (rule assms(6))
qed

text \<open>The number of an object in a group is one of the group's numbers.\<close>

lemma filed_number:
  assumes "filed A G gs bn" "live A r" "G r g = Some n"
  obtains mg b where "gs g = Some mg" "bn g = Some b" "b n = Some r" "n \<in> set (g_nums mg)"
proof -
  obtain mg where mg: "gs g = Some mg" using filed_in_group[OF assms] by blast
  moreover then obtain b where b: "bn g = Some b" using filed_dom[OF assms(1), of g] by auto
  moreover have "b n = Some r" using filed_lookup[OF assms(1) mg b] assms(2,3) by blast
  moreover have "n \<in> set (g_nums mg)" using filed_nums[OF assms(1) mg b] \<open>b n = Some r\<close> by blast
  ultimately show thesis using that by blast
qed

section \<open>Steps that keep the agreement\<close>

lemma filed_meta:
  assumes f: "filed A G gs bn" and g: "gs g = Some mg" "same_numbers mg mg'"
  shows "filed A G (gs(g \<mapsto> mg')) bn"
proof (rule filedI)
  note d = filedD[OF f]
  show "((gs(g \<mapsto> mg')) h = None) = (bn h = None)" for h using d(1)[of h] d(1)[of g] g by auto
  show "group_ok k" if "(gs(g \<mapsto> mg')) h = Some k" for h k
    using that d(2)[of h k] group_ok_same[OF g(2) d(2)[OF g(1)]] by (auto split: if_splits)
  show "set (g_nums k) = dom b" if "(gs(g \<mapsto> mg')) h = Some k" "bn h = Some b" for h k b
    using that d(3)[of h k b] d(3)[OF g(1)] g(2) by (auto simp: same_numbers_def split: if_splits)
  show "(b n = Some r) = (live A r \<and> G r h = Some n)" if "(gs(g \<mapsto> mg')) h = Some k" "bn h = Some b" for h k b n r
    using that d(4)[of h k b] d(4)[OF g(1)] by (auto split: if_splits)
  show "(gs(g \<mapsto> mg')) h \<noteq> None" if "live A r" "G r h = Some n" for r h n
    using d(5)[OF that] by auto
  show "m = m'" if "A m = Some r" "A m' = Some r" for m m' r using d(6) that by blast
qed

lemma filed_new_group:
  assumes f: "filed A G gs bn" and g: "gs g = None" "group_ok mg" "g_nums mg = []"
  shows "filed A G (gs(g \<mapsto> mg)) (bn(g \<mapsto> Map.empty))"
proof (rule filedI)
  note d = filedD[OF f]
  have no: "\<not> (live A r \<and> G r g = Some n)" for r n using d(5)[of r g n] g(1) by auto
  show "((gs(g \<mapsto> mg)) h = None) = ((bn(g \<mapsto> Map.empty)) h = None)" for h using d(1)[of h] by auto
  show "group_ok k" if "(gs(g \<mapsto> mg)) h = Some k" for h k
    using that d(2)[of h k] g by (auto split: if_splits)
  show "set (g_nums k) = dom b" if "(gs(g \<mapsto> mg)) h = Some k" "(bn(g \<mapsto> Map.empty)) h = Some b" for h k b
    using that d(3)[of h k b] g by (auto split: if_splits)
  show "(b n = Some r) = (live A r \<and> G r h = Some n)"
    if "(gs(g \<mapsto> mg)) h = Some k" "(bn(g \<mapsto> Map.empty)) h = Some b" for h k b n r
    using that d(4)[of h k b] no by (auto split: if_splits)
  show "(gs(g \<mapsto> mg)) h \<noteq> None" if "live A r" "G r h = Some n" for r h n
    using d(5)[OF that] by auto
  show "m = m'" if "A m = Some r" "A m' = Some r" for m m' r using d(6) that by blast
qed

lemma filed_drop_group:
  assumes f: "filed A G gs bn"
  shows "filed A (\<lambda>r. (G r)(g := None)) (gs(g := None)) (bn(g := None))"
proof (rule filedI)
  note d = filedD[OF f]
  show "((gs(g := None)) h = None) = ((bn(g := None)) h = None)" for h using d(1)[of h] by auto
  show "group_ok k" if "(gs(g := None)) h = Some k" for h k using that d(2)[of h k] by (auto split: if_splits)
  show "set (g_nums k) = dom b" if "(gs(g := None)) h = Some k" "(bn(g := None)) h = Some b" for h k b
    using that d(3)[of h k b] by (auto split: if_splits)
  show "(b n = Some r) = (live A r \<and> ((G r)(g := None)) h = Some n)"
    if "(gs(g := None)) h = Some k" "(bn(g := None)) h = Some b" for h k b n r
    using that d(4)[of h k b] by (auto split: if_splits)
  show "(gs(g := None)) h \<noteq> None" if "live A r" "((G r)(g := None)) h = Some n" for r h n
    using d(5)[of r h n] that by (auto split: if_splits)
  show "m = m'" if "A m = Some r" "A m' = Some r" for m m' r using d(6) that by blast
qed

lemma filed_alloc:
  assumes f: "filed A G gs bn" and r: "\<not> live A r" "A m = None"
  shows "filed (A(m \<mapsto> r)) (G(r := Map.empty)) gs bn"
proof (rule filedI)
  note d = filedD[OF f]
  have l: "live (A(m \<mapsto> r)) q \<longleftrightarrow> q = r \<or> live A q" for q
    using r(2) by (auto simp: live_def) (metis option.distinct(1))
  show "(gs h = None) = (bn h = None)" for h by (rule d(1))
  show "group_ok k" if "gs h = Some k" for h k using d(2) that .
  show "set (g_nums k) = dom b" if "gs h = Some k" "bn h = Some b" for h k b using d(3) that .
  show "(b n = Some q) = (live (A(m \<mapsto> r)) q \<and> (G(r := Map.empty)) q h = Some n)"
    if "gs h = Some k" "bn h = Some b" for h k b n q
    using d(4)[OF that, of n q] r(1) by (auto simp: l)
  show "gs h \<noteq> None" if "live (A(m \<mapsto> r)) q" "(G(r := Map.empty)) q h = Some n" for q h n
    using d(5)[of q h n] that by (auto simp: l split: if_splits)
  show "k = k'" if "(A(m \<mapsto> r)) k = Some q" "(A(m \<mapsto> r)) k' = Some q" for k k' q
    using d(6) that r(1) by (auto simp: live_def split: if_splits)
qed

lemma filed_shrink:
  assumes f: "filed A G gs bn"
    and sub: "\<And>m r. A' m = Some r \<Longrightarrow> A m = Some r"
    and out: "\<And>m r. A m = Some r \<Longrightarrow> A' m = None \<Longrightarrow> G r = Map.empty"
  shows "filed A' G gs bn"
proof (rule filedI)
  note d = filedD[OF f]
  have l: "live A' q \<Longrightarrow> live A q" for q using sub by (auto simp: live_def)
  have k: "live A q \<Longrightarrow> G q h = Some n \<Longrightarrow> live A' q" for q h n
    using sub out by (auto simp: live_def) (metis option.distinct(1) option.exhaust)
  show "(gs h = None) = (bn h = None)" for h by (rule d(1))
  show "group_ok k" if "gs h = Some k" for h k using d(2) that .
  show "set (g_nums k) = dom b" if "gs h = Some k" "bn h = Some b" for h k b using d(3) that .
  show "(b n = Some q) = (live A' q \<and> G q h = Some n)"
    if "gs h = Some k" "bn h = Some b" for h k b n q
    using d(4)[OF that, of n q] l k by blast
  show "gs h \<noteq> None" if "live A' q" "G q h = Some n" for q h n
    using d(5)[of q h n] that l by auto
  show "k = k'" if "A' k = Some q" "A' k' = Some q" for k k' q
    using d(6) sub that by blast
qed

lemma filed_add:
  assumes f: "filed A G gs bn" and r: "live A r" "gs g = Some mg" "bn g = Some b" "G r g = None"
    and mg': "g_nums mg' = g_nums mg @ [n]" "group_ok mg'"
  shows "filed A (G(r := (G r)(g \<mapsto> n))) (gs(g \<mapsto> mg')) (bn(g \<mapsto> b(n \<mapsto> r)))"
proof (rule filedI)
  note d = filedD[OF f]
  have n: "b n = None"
    using mg' d(3)[OF r(2,3)] by (auto simp: group_ok_def sorted_wrt_snoc domIff)
  show "((gs(g \<mapsto> mg')) h = None) = ((bn(g \<mapsto> b(n \<mapsto> r))) h = None)" for h using d(1)[of h] by auto
  show "group_ok k" if "(gs(g \<mapsto> mg')) h = Some k" for h k
    using that d(2)[of h k] mg' by (auto split: if_splits)
  show "set (g_nums k) = dom c" if "(gs(g \<mapsto> mg')) h = Some k" "(bn(g \<mapsto> b(n \<mapsto> r))) h = Some c" for h k c
    using that d(3)[of h k c] d(3)[OF r(2,3)] mg' by (auto split: if_splits)
  show "(c x = Some q) = (live A q \<and> (G(r := (G r)(g \<mapsto> n))) q h = Some x)"
    if "(gs(g \<mapsto> mg')) h = Some k" "(bn(g \<mapsto> b(n \<mapsto> r))) h = Some c" for h k c x q
  proof (cases "h = g")
    case True
    then have c: "c = b(n \<mapsto> r)" using that by simp
    show ?thesis
    proof (cases "q = r")
      case True
      then show ?thesis using c \<open>h = g\<close> r d(4)[OF r(2,3), of x r] by auto
    next
      case False
      then show ?thesis using c \<open>h = g\<close> n d(4)[OF r(2,3), of x q] by auto
    qed
  next
    case False
    then show ?thesis using that d(4)[of h k c x q] by auto
  qed
  show "(gs(g \<mapsto> mg')) h \<noteq> None" if "live A q" "(G(r := (G r)(g \<mapsto> n))) q h = Some x" for q h x
    using d(5)[of q h x] that by (auto split: if_splits)
  show "k = k'" if "A k = Some q" "A k' = Some q" for k k' q using d(6) that by blast
qed

text \<open>Taking the numbers that satisfy \<open>P\<close> out of one group.\<close>

definition unfile :: "string \<Rightarrow> (int \<Rightarrow> bool) \<Rightarrow> (nat \<Rightarrow> string \<Rightarrow> int option) \<Rightarrow> nat \<Rightarrow> string \<Rightarrow> int option" where
  "unfile g P G r = (case G r g of Some n \<Rightarrow> if P n then (G r)(g := None) else G r | None \<Rightarrow> G r)"

lemma unfile_other: "h \<noteq> g \<Longrightarrow> unfile g P G r h = G r h"
  by (simp add: unfile_def split: option.splits)

lemma unfile_here: "unfile g P G r g = Some n \<longleftrightarrow> G r g = Some n \<and> \<not> P n"
  by (auto simp: unfile_def split: option.splits)

lemma filed_remove:
  assumes f: "filed A G gs bn" and g: "gs g = Some mg" "bn g = Some b"
    and mg': "g_nums mg' = filter (\<lambda>n. \<not> P n) (g_nums mg)" "group_ok mg'"
    and b': "\<And>n. b' n = (if P n then None else b n)"
  shows "filed A (unfile g P G) (gs(g \<mapsto> mg')) (bn(g \<mapsto> b'))"
proof (rule filedI)
  note d = filedD[OF f]
  show "((gs(g \<mapsto> mg')) h = None) = ((bn(g \<mapsto> b')) h = None)" for h using d(1)[of h] by auto
  show "group_ok k" if "(gs(g \<mapsto> mg')) h = Some k" for h k
    using that d(2)[of h k] mg' by (auto split: if_splits)
  show "set (g_nums k) = dom c" if "(gs(g \<mapsto> mg')) h = Some k" "(bn(g \<mapsto> b')) h = Some c" for h k c
    using that d(3)[of h k c] d(3)[OF g] mg' b' by (auto simp: dom_def split: if_splits)
  show "(c x = Some q) = (live A q \<and> unfile g P G q h = Some x)"
    if "(gs(g \<mapsto> mg')) h = Some k" "(bn(g \<mapsto> b')) h = Some c" for h k c x q
  proof (cases "h = g")
    case True
    then show ?thesis using that b' d(4)[OF g, of x q] by (auto simp: unfile_here)
  next
    case False
    then show ?thesis using that d(4)[of h k c x q] by (auto simp: unfile_other)
  qed
  show "(gs(g \<mapsto> mg')) h \<noteq> None" if "live A q" "unfile g P G q h = Some x" for q h x
    using d(5)[of q h x] that by (cases "h = g") (auto simp: unfile_other unfile_here)
  show "k = k'" if "A k = Some q" "A k' = Some q" for k k' q using d(6) that by blast
qed

lemma filed_cong:
  assumes "filed A G gs bn" "\<And>r. live A r \<Longrightarrow> G r = G' r"
  shows "filed A G' gs bn"
proof (rule filedI)
  note d = filedD[OF assms(1)]
  show "(gs h = None) = (bn h = None)" for h by (rule d(1))
  show "group_ok k" if "gs h = Some k" for h k using d(2) that .
  show "set (g_nums k) = dom b" if "gs h = Some k" "bn h = Some b" for h k b using d(3) that .
  show "(b n = Some q) = (live A q \<and> G' q h = Some n)" if "gs h = Some k" "bn h = Some b" for h k b n q
    using d(4)[OF that, of n q] assms(2)[of q] by auto
  show "gs h \<noteq> None" if "live A q" "G' q h = Some n" for q h n
    using d(5)[of q h n] assms(2) that by auto
  show "k = k'" if "A k = Some q" "A k' = Some q" for k k' q using d(6) that by blast
qed

end
