(* ===== verification/StoreArticles.thy ===== *)
theory StoreArticles
  imports Filing Article Wildmat
begin

text \<open>
  Groups and articles of the in-process store, \<open>internal/store/memory.go\<close>: creating groups,
  posting, reading by number and by Message-ID, the history of Message-IDs, cancelling and
  deleting a group. Every operation takes the clock as an argument where the code reads it.
  A lookup that would dereference a nil pointer in Go yields None in the outer option.
\<close>

section \<open>Lookups\<close>

definition grp :: "memory \<Rightarrow> string \<Rightarrow> mem_group option" where
  "grp s g = map_of (m_groups s) g"

definition numbered :: "memory \<Rightarrow> string \<Rightarrow> (int \<Rightarrow> nat option) option" where
  "numbered s g = map_option map_of (map_of (m_by_num s) g)"

definition num_ref :: "memory \<Rightarrow> string \<Rightarrow> int \<Rightarrow> nat option" where
  "num_ref s g n = (case map_of (m_by_num s) g of None \<Rightarrow> None | Some b \<Rightarrow> map_of b n)"

definition art_ref :: "memory \<Rightarrow> string \<Rightarrow> nat option" where
  "art_ref s m = map_of (m_arts s) m"

definition obj :: "memory \<Rightarrow> nat \<Rightarrow> mem_art option" where
  "obj s r = map_of (m_heap s) r"

definition in_history :: "memory \<Rightarrow> string \<Rightarrow> bool" where
  "in_history s m = (map_of (m_history s) m \<noteq> None)"

definition put_group :: "string \<Rightarrow> mem_group \<Rightarrow> memory \<Rightarrow> memory" where
  "put_group g mg s = s\<lparr>m_groups := AList.update g mg (m_groups s)\<rparr>"

definition put_obj :: "nat \<Rightarrow> mem_art \<Rightarrow> memory \<Rightarrow> memory" where
  "put_obj r a s = s\<lparr>m_heap := AList.update r a (m_heap s)\<rparr>"

text \<open>\<open>m.byNum[g][n] = r\<close> and \<open>delete(m.byNum[g], n)\<close>.\<close>

definition set_number :: "string \<Rightarrow> int \<Rightarrow> nat \<Rightarrow> memory \<Rightarrow> memory" where
  "set_number g n r s =
     (case map_of (m_by_num s) g of None \<Rightarrow> s
      | Some b \<Rightarrow> s\<lparr>m_by_num := AList.update g (AList.update n r b) (m_by_num s)\<rparr>)"

definition drop_number :: "string \<Rightarrow> int \<Rightarrow> memory \<Rightarrow> memory" where
  "drop_number g n s =
     (case map_of (m_by_num s) g of None \<Rightarrow> s
      | Some b \<Rightarrow> s\<lparr>m_by_num := AList.update g (AList.delete n b) (m_by_num s)\<rparr>)"

section \<open>Groups\<close>

definition fresh_group :: "string \<Rightarrow> string \<Rightarrow> string \<Rightarrow> string \<Rightarrow> int \<Rightarrow> mem_group" where
  "fresh_group name desc status origin now =
     \<lparr>g_name = name, g_desc = desc, g_status = status, g_low = 0, g_high = 0, g_count = 0,
      g_created = now, g_ret_days = None, g_ret_mode = [], g_origin = origin, g_nums = []\<rparr>"

definition add_group :: "mem_group \<Rightarrow> memory \<Rightarrow> memory" where
  "add_group mg s =
     (put_group (g_name mg) mg s)\<lparr>m_by_num := AList.update (g_name mg) [] (m_by_num s)\<rparr>"

definition default_status :: "string \<Rightarrow> string" where
  "default_status status = (if status = [] then ''y'' else status)"

definition new_desc :: "string \<Rightarrow> mem_group \<Rightarrow> mem_group" where
  "new_desc desc mg = (if desc \<noteq> [] then mg\<lparr>g_desc := desc\<rparr> else mg)"

definition ensure_group :: "int \<Rightarrow> string \<Rightarrow> string \<Rightarrow> string \<Rightarrow> memory \<Rightarrow> memory" where
  "ensure_group now name desc status0 s =
     (let status = default_status status0 in
      case grp s name of
        Some mg \<Rightarrow>
          if g_origin mg = ''control'' then put_group name ((new_desc desc mg)\<lparr>g_status := status\<rparr>) s
          else
            let mg1 = (new_desc desc mg)\<lparr>g_status := status\<rparr> in
            put_group name
              (if g_origin mg = [] \<or> g_origin mg = ''isc'' then mg1\<lparr>g_origin := ''local''\<rparr> else mg1) s
      | None \<Rightarrow> add_group (fresh_group name desc status ''local'' now) s)"

definition ensure_group_isc :: "int \<Rightarrow> group_info \<Rightarrow> memory \<Rightarrow> memory" where
  "ensure_group_isc now gi s =
     (let status = default_status (g_status gi) in
      case grp s (g_name gi) of
        Some mg \<Rightarrow>
          if g_origin mg \<noteq> ''isc'' \<and> g_origin mg \<noteq> [] then s
          else put_group (g_name gi)
                 ((new_desc (g_desc gi) mg)\<lparr>g_status := status, g_origin := ''isc''\<rparr>) s
      | None \<Rightarrow> add_group (fresh_group (g_name gi) (g_desc gi) status ''isc'' now) s)"

definition ensure_groups :: "int \<Rightarrow> group_info list \<Rightarrow> memory \<Rightarrow> memory" where
  "ensure_groups now gis s = fold (ensure_group_isc now) gis s"

definition apply_control_group :: "int \<Rightarrow> string \<Rightarrow> string \<Rightarrow> string \<Rightarrow> memory \<Rightarrow> memory" where
  "apply_control_group now name desc status0 s =
     (let status = default_status status0 in
      case grp s name of
        Some mg \<Rightarrow> put_group name ((new_desc desc mg)\<lparr>g_status := status, g_origin := ''control''\<rparr>) s
      | None \<Rightarrow> add_group (fresh_group name desc status ''control'' now) s)"

definition disable_control_group :: "int \<Rightarrow> string \<Rightarrow> memory \<Rightarrow> memory" where
  "disable_control_group now name s =
     (case grp s name of
        Some mg \<Rightarrow> put_group name (mg\<lparr>g_status := ''n'', g_origin := ''control''\<rparr>) s
      | None \<Rightarrow> add_group (fresh_group name [] ''n'' ''control'' now) s)"

definition count_groups :: "memory \<Rightarrow> nat" where "count_groups s = length (m_groups s)"
definition count_articles :: "memory \<Rightarrow> nat" where "count_articles s = length (m_arts s)"

definition group_values :: "memory \<Rightarrow> group_info list" where
  "group_values s = map (\<lambda>(g, mg). group_info.truncate mg) (m_groups s)"

definition list_groups :: "string \<Rightarrow> memory \<Rightarrow> group_info list" where
  "list_groups wm s =
     sort_key g_name (filter (\<lambda>g. wm = [] \<or> wildmat_match wm (g_name g)) (group_values s))"

definition new_groups :: "int \<Rightarrow> memory \<Rightarrow> group_info list" where
  "new_groups since s = sort_key g_name (filter (\<lambda>g. \<not> g_created g < since) (group_values s))"

definition search_groups :: "string \<Rightarrow> bool \<Rightarrow> int \<Rightarrow> memory \<Rightarrow> group_info list" where
  "search_groups query0 busy limit0 s =
     (let limit = (if limit0 \<le> 0 then 100 else limit0);
          query = to_lower (trim_space query0);
          out = filter (\<lambda>g. \<not> (busy \<and> g_count g = 0)
                  \<and> \<not> (query \<noteq> [] \<and> \<not> contains (to_lower (g_name g)) query)) (group_values s)
      in take (nat limit) (sort_key (\<lambda>g. (- g_count g, g_name g)) out))"

definition get_group :: "string \<Rightarrow> memory \<Rightarrow> group_info option" where
  "get_group name s = map_option group_info.truncate (grp s name)"

section \<open>Reading articles\<close>

definition numbers_in :: "int \<Rightarrow> int \<Rightarrow> mem_group \<Rightarrow> int list" where
  "numbers_in lo hi mg = filter (\<lambda>n. (lo = 0 \<or> lo \<le> n) \<and> (hi = 0 \<or> n \<le> hi)) (g_nums mg)"

definition article_numbers :: "string \<Rightarrow> int \<Rightarrow> int \<Rightarrow> memory \<Rightarrow> int list" where
  "article_numbers g lo hi s = (case grp s g of None \<Rightarrow> [] | Some mg \<Rightarrow> numbers_in lo hi mg)"

text \<open>The object filed under a number, and the copy of its article part.\<close>

definition art_at :: "memory \<Rightarrow> string \<Rightarrow> int \<Rightarrow> mem_art option" where
  "art_at s g n = Option.bind (num_ref s g n) (obj s)"

definition numbered_copy :: "int \<Rightarrow> mem_art \<Rightarrow> stored_article" where
  "numbered_copy n a = (stored_article.truncate a)\<lparr>s_num := n\<rparr>"

definition get_by_number :: "string \<Rightarrow> int \<Rightarrow> memory \<Rightarrow> stored_article option" where
  "get_by_number g n s = map_option (numbered_copy n) (art_at s g n)"

definition get_by_msgid :: "string \<Rightarrow> memory \<Rightarrow> stored_article option" where
  "get_by_msgid m s = map_option (numbered_copy 0) (Option.bind (art_ref s m) (obj s))"

text \<open>\<open>those xs\<close> is None when one element is None: the loop would have panicked there.\<close>

definition overview_of :: "int \<Rightarrow> mem_art \<Rightarrow> overview_row" where
  "overview_of n a = \<lparr>o_num = n, o_subject = s_subject a, o_from = s_from a, o_date = s_date a,
     o_msgid = s_msgid a, o_refs = s_refs a, o_bytes = s_bytes a, o_lines = s_lines a,
     o_xref = s_xref a, o_header = []\<rparr>"

definition overview :: "string \<Rightarrow> int \<Rightarrow> int \<Rightarrow> memory \<Rightarrow> overview_row list option" where
  "overview g lo hi s =
     (case grp s g of None \<Rightarrow> Some []
      | Some mg \<Rightarrow> those (map (\<lambda>n. map_option (overview_of n) (art_at s g n)) (numbers_in lo hi mg)))"

text \<open>\<open>itoa\<close> writes nothing for a negative number (\<open>Bytes\<close> and \<open>Lines\<close> are lengths).\<close>

definition mem_itoa :: "int \<Rightarrow> string" where
  "mem_itoa n = (if n = 0 then ''0'' else if n > 0 then format_int n else [])"

fun header_from_lines :: "string list \<Rightarrow> string \<Rightarrow> string" where
  "header_from_lines [] name = []"
| "header_from_lines (l # ls) name =
     (case cut l '':'' of (k, v, ok) \<Rightarrow>
        if ok \<and> equal_fold k name then trim_space v else header_from_lines ls name)"

definition header_from_raw :: "string \<Rightarrow> string \<Rightarrow> string" where
  "header_from_raw raw name = header_from_lines (split_str CRLF raw) name"

definition header_value :: "string \<Rightarrow> mem_art \<Rightarrow> string" where
  "header_value h a =
     (let k = to_lower h in
      if k = ''subject'' then s_subject a
      else if k = ''from'' then s_from a
      else if k = ''date'' then s_date a
      else if k = ''message-id'' then s_msgid a
      else if k = ''references'' then s_refs a
      else if k = '':bytes'' then mem_itoa (s_bytes a)
      else if k = '':lines'' then mem_itoa (s_lines a)
      else if k = ''xref'' then s_xref a
      else header_from_raw (s_headers a) h)"

definition header_row :: "string \<Rightarrow> int \<Rightarrow> mem_art \<Rightarrow> overview_row" where
  "header_row h n a = \<lparr>o_num = n, o_subject = [], o_from = [], o_date = [], o_msgid = [],
     o_refs = [], o_bytes = 0, o_lines = 0, o_xref = [], o_header = header_value h a\<rparr>"

definition header_rows :: "string \<Rightarrow> int \<Rightarrow> int \<Rightarrow> string \<Rightarrow> memory \<Rightarrow> overview_row list option" where
  "header_rows g lo hi h s =
     (case grp s g of None \<Rightarrow> Some []
      | Some mg \<Rightarrow> those (map (\<lambda>n. map_option (header_row h n) (art_at s g n)) (numbers_in lo hi mg)))"

text \<open>The outer option is a panic, the inner one Go's nil result.\<close>

definition next_article :: "string \<Rightarrow> int \<Rightarrow> memory \<Rightarrow> stored_article option option" where
  "next_article g cur s =
     (case grp s g of None \<Rightarrow> Some None
      | Some mg \<Rightarrow> (case find (\<lambda>n. n > cur) (g_nums mg) of None \<Rightarrow> Some None
          | Some n \<Rightarrow> map_option (\<lambda>a. Some (numbered_copy n a)) (art_at s g n)))"

definition prev_article :: "string \<Rightarrow> int \<Rightarrow> memory \<Rightarrow> stored_article option option" where
  "prev_article g cur s =
     (case grp s g of None \<Rightarrow> Some None
      | Some mg \<Rightarrow>
          (case those (map (\<lambda>n. map_option (numbered_copy n) (art_at s g n))
                  (filter (\<lambda>n. n < cur) (g_nums mg))) of
             None \<Rightarrow> None
           | Some [] \<Rightarrow> Some None
           | Some cs \<Rightarrow> Some (Some (last cs))))"

definition articles_for_group :: "string \<Rightarrow> memory \<Rightarrow> stored_article list option" where
  "articles_for_group g s =
     (case grp s g of None \<Rightarrow> Some []
      | Some mg \<Rightarrow> those (map (\<lambda>n. map_option (numbered_copy n) (art_at s g n)) (g_nums mg)))"

text \<open>The stored objects, in the order of the map \<open>arts\<close>.\<close>

definition stored_objs :: "memory \<Rightarrow> mem_art list" where
  "stored_objs s = List.map_filter (\<lambda>(m, r). obj s r) (m_arts s)"

definition recent_articles :: "int \<Rightarrow> memory \<Rightarrow> stored_article list" where
  "recent_articles limit0 s =
     (let limit = (if limit0 \<le> 0 then 50 else limit0) in
      take (nat limit) (sort_key (\<lambda>a. - s_stored_at a) (map stored_article.truncate (stored_objs s))))"

definition new_news :: "string \<Rightarrow> int \<Rightarrow> memory \<Rightarrow> string list" where
  "new_news wm since s =
     sort (dedup_on (\<lambda>m. m) []
       (map s_msgid (filter (\<lambda>a. \<not> s_stored_at a < since
            \<and> list_ex (\<lambda>(g, n). wm = [] \<or> wildmat_match wm g) (a_groups a)) (stored_objs s))))"

definition has_message_id :: "string \<Rightarrow> memory \<Rightarrow> bool" where
  "has_message_id m s = in_history s m"

section \<open>Posting\<close>

record new_article =
  n_headers :: string
  n_body :: string
  n_msgid :: string
  n_subject :: string
  n_from :: string
  n_date :: string
  n_refs :: string
  n_xref :: string
  n_bytes :: int
  n_lines :: int
  n_groups :: "string list"
  n_binary :: bool

definition usable_groups :: "memory \<Rightarrow> string list \<Rightarrow> string list" where
  "usable_groups s gs =
     filter (\<lambda>g. case grp s g of None \<Rightarrow> False | Some mg \<Rightarrow> g_status mg \<noteq> ''n'') gs"

definition fresh_art :: "int \<Rightarrow> new_article \<Rightarrow> mem_art" where
  "fresh_art now n = \<lparr>s_num = 0, s_msgid = n_msgid n, s_headers = n_headers n, s_body = n_body n,
     s_bytes = n_bytes n, s_lines = n_lines n, s_stored_at = now, s_xref = [],
     s_subject = n_subject n, s_from = n_from n, s_date = n_date n, s_refs = n_refs n,
     a_groups = [], a_binary = n_binary n\<rparr>"

definition take_number :: "mem_group \<Rightarrow> mem_group" where
  "take_number mg =
     (let high = g_high mg + 1 in
      mg\<lparr>g_high := high, g_low := (if g_low mg = 0 then high else g_low mg),
         g_count := g_count mg + 1, g_nums := g_nums mg @ [high]\<rparr>)"

text \<open>One round of the loop over the usable groups: the group gives the next number, the article
  is filed under it. The map of numbers and the Xref parts are collected.\<close>

definition file_in ::
  "nat \<Rightarrow> string \<Rightarrow> memory \<times> (string \<times> int) list \<times> string list
    \<Rightarrow> memory \<times> (string \<times> int) list \<times> string list" where
  "file_in r g st =
     (case st of (s, nums, parts) \<Rightarrow>
       (case (grp s g, obj s r) of
          (Some mg, Some a) \<Rightarrow>
            let mg' = take_number mg; n = g_high mg' in
            (put_obj r (a\<lparr>a_groups := AList.update g n (a_groups a)\<rparr>)
               (set_number g n r (put_group g mg' s)),
             AList.update g n nums, parts @ [g @ '':'' @ format_int n])
        | _ \<Rightarrow> st))"

definition xref_text :: "string \<Rightarrow> string list \<Rightarrow> string" where
  "xref_text prefix parts =
     (if trim_space prefix \<noteq> [] then trim_space prefix @ '' '' @ join '' '' parts else join '' '' parts)"

definition post_article :: "int \<Rightarrow> new_article \<Rightarrow> memory \<Rightarrow> memory \<times> (store_error + post_result)" where
  "post_article now n s =
     (if in_history s (n_msgid n) then (s, Inl Duplicate_ID)
      else
        let used = usable_groups s (n_groups n) in
        if used = [] then (s, Inl No_Group)
        else
          let r = m_next_ref s;
              s1 = put_obj r (fresh_art now n) (s\<lparr>m_next_ref := r + 1\<rparr>);
              (s2, nums, parts) = fold (file_in r) used (s1, [], []);
              xref = xref_text (n_xref n) parts;
              s3 = (case obj s2 r of None \<Rightarrow> s2 | Some a \<Rightarrow> put_obj r (a\<lparr>s_xref := xref\<rparr>) s2)
          in (s3\<lparr>m_arts := AList.update (n_msgid n) r (m_arts s3),
                 m_history := AList.update (n_msgid n) now (m_history s3)\<rparr>,
              Inr \<lparr>pr_msgid = n_msgid n, pr_xref = xref, pr_numbers = nums\<rparr>))"

section \<open>Removing\<close>

definition remember_message_id :: "int \<Rightarrow> string \<Rightarrow> memory \<Rightarrow> memory" where
  "remember_message_id now m s =
     (if in_history s m then s else s\<lparr>m_history := AList.update m now (m_history s)\<rparr>)"

definition without_number :: "int \<Rightarrow> mem_group \<Rightarrow> mem_group" where
  "without_number n mg =
     (let count = (if g_count mg - 1 < 0 then 0 else g_count mg - 1);
          nums = filter (\<lambda>x. x \<noteq> n) (g_nums mg)
      in mg\<lparr>g_count := count, g_nums := nums,
            g_low := (if nums = [] then g_high mg else Min (set nums))\<rparr>)"

text \<open>One round of \<open>deleteArticleLocked\<close>.\<close>

definition unfile_from :: "string \<times> int \<Rightarrow> memory \<Rightarrow> memory" where
  "unfile_from gn s =
     (case gn of (g, n) \<Rightarrow>
        let s1 = drop_number g n s in
        case grp s1 g of None \<Rightarrow> s1 | Some mg \<Rightarrow> put_group g (without_number n mg) s1)"

definition delete_article :: "string \<Rightarrow> memory \<Rightarrow> memory \<times> bool" where
  "delete_article m s =
     (case Option.bind (art_ref s m) (obj s) of
        None \<Rightarrow> (s, False)
      | Some a \<Rightarrow>
          let s1 = fold unfile_from (a_groups a) s in
          (s1\<lparr>m_arts := AList.delete m (m_arts s1),
              m_feed_q := filter (\<lambda>it. fq_msgid it \<noteq> m) (m_feed_q s1)\<rparr>, True))"

definition cancel_message_id :: "int \<Rightarrow> string \<Rightarrow> memory \<Rightarrow> memory \<times> bool" where
  "cancel_message_id now m s = delete_article m (s\<lparr>m_history := AList.update m now (m_history s)\<rparr>)"

text \<open>One round of the loop of \<open>DeleteGroup\<close> over the stored articles.\<close>

definition leave_group :: "string \<Rightarrow> string \<times> nat \<Rightarrow> memory \<Rightarrow> memory" where
  "leave_group name mr s =
     (case mr of (m, r) \<Rightarrow>
       (case obj s r of None \<Rightarrow> s
        | Some a \<Rightarrow>
            if map_of (a_groups a) name = None then s
            else
              let gs = AList.delete name (a_groups a);
                  s1 = put_obj r (a\<lparr>a_groups := gs\<rparr>) s
              in if gs = [] then s1\<lparr>m_arts := AList.delete m (m_arts s1)\<rparr> else s1))"

definition delete_group :: "string \<Rightarrow> memory \<Rightarrow> memory \<times> store_error option" where
  "delete_group name s =
     (case grp s name of None \<Rightarrow> (s, Some No_Group)
      | Some _ \<Rightarrow>
          let s1 = fold (leave_group name) (m_arts s) s in
          (s1\<lparr>m_groups := AList.delete name (m_groups s1),
              m_by_num := AList.delete name (m_by_num s1),
              m_subs := map (\<lambda>(u, t). (u, AList.delete name t)) (m_subs s1),
              m_reads := map (\<lambda>(u, t). (u, AList.delete name t)) (m_reads s1)\<rparr>, None))"

end
