(* ===== verification/StoreInv.thy ===== *)
theory StoreInv
  imports StoreArticles
begin

text \<open>
  The invariant of the article store and its preservation by every operation on groups and
  articles: numbers, objects and Message-IDs agree (\<open>filed\<close>), every stored object carries its
  Message-ID and is filed somewhere, and every stored Message-ID is in the history.
\<close>

section \<open>Views\<close>

lemma put_group_views [views]:
  "grp (put_group g mg s) = (grp s)(g \<mapsto> mg)" "numbered (put_group g mg s) = numbered s"
  "num_ref (put_group g mg s) = num_ref s"
  "art_ref (put_group g mg s) = art_ref s" "obj (put_group g mg s) = obj s"
  "in_history (put_group g mg s) = in_history s" "m_next_ref (put_group g mg s) = m_next_ref s"
  "m_arts (put_group g mg s) = m_arts s" "m_history (put_group g mg s) = m_history s"
  "m_feed_q (put_group g mg s) = m_feed_q s"
  by (auto simp: put_group_def grp_def numbered_def num_ref_def art_ref_def obj_def in_history_def fun_eq_iff)

lemma put_obj_views [views]:
  "grp (put_obj r a s) = grp s" "numbered (put_obj r a s) = numbered s" "num_ref (put_obj r a s) = num_ref s"
  "art_ref (put_obj r a s) = art_ref s" "obj (put_obj r a s) = (obj s)(r \<mapsto> a)"
  "in_history (put_obj r a s) = in_history s" "m_next_ref (put_obj r a s) = m_next_ref s"
  "m_arts (put_obj r a s) = m_arts s" "m_history (put_obj r a s) = m_history s"
  "m_groups (put_obj r a s) = m_groups s" "m_feed_q (put_obj r a s) = m_feed_q s"
  by (auto simp: put_obj_def grp_def numbered_def num_ref_def art_ref_def obj_def in_history_def fun_eq_iff)

lemma set_number_views [views]:
  "grp (set_number g n r s) = grp s" "art_ref (set_number g n r s) = art_ref s"
  "obj (set_number g n r s) = obj s" "in_history (set_number g n r s) = in_history s"
  "m_next_ref (set_number g n r s) = m_next_ref s" "m_arts (set_number g n r s) = m_arts s"
  "m_history (set_number g n r s) = m_history s" "m_groups (set_number g n r s) = m_groups s"
  "m_feed_q (set_number g n r s) = m_feed_q s"
  by (auto simp: set_number_def grp_def art_ref_def obj_def in_history_def fun_eq_iff split: option.splits)

lemma drop_number_views [views]:
  "grp (drop_number g n s) = grp s" "art_ref (drop_number g n s) = art_ref s"
  "obj (drop_number g n s) = obj s" "in_history (drop_number g n s) = in_history s"
  "m_next_ref (drop_number g n s) = m_next_ref s" "m_arts (drop_number g n s) = m_arts s"
  "m_history (drop_number g n s) = m_history s" "m_groups (drop_number g n s) = m_groups s"
  "m_feed_q (drop_number g n s) = m_feed_q s"
  by (auto simp: drop_number_def grp_def art_ref_def obj_def in_history_def fun_eq_iff split: option.splits)

lemma numbered_set: "numbered s g = Some b \<Longrightarrow> numbered (set_number g n r s) = (numbered s)(g \<mapsto> b(n \<mapsto> r))"
  by (auto simp: set_number_def numbered_def fun_eq_iff split: option.splits)

lemma numbered_drop: "numbered s g = Some b \<Longrightarrow> numbered (drop_number g n s) = (numbered s)(g \<mapsto> b(n := None))"
  by (auto simp: drop_number_def numbered_def fun_eq_iff split: option.splits)

lemma num_ref_numbered: "num_ref s g n = Option.bind (numbered s g) (\<lambda>b. b n)"
  by (simp add: num_ref_def numbered_def split: option.splits)

text \<open>Fields the views do not read.\<close>

lemma field_views [views]:
  "grp (s\<lparr>m_arts := x1\<rparr>) = grp s" "numbered (s\<lparr>m_arts := x1\<rparr>) = numbered s" "obj (s\<lparr>m_arts := x1\<rparr>) = obj s"
  "in_history (s\<lparr>m_arts := x1\<rparr>) = in_history s" "art_ref (s\<lparr>m_arts := x1\<rparr>) = map_of x1"
  "grp (s\<lparr>m_history := x2\<rparr>) = grp s" "numbered (s\<lparr>m_history := x2\<rparr>) = numbered s"
  "obj (s\<lparr>m_history := x2\<rparr>) = obj s" "art_ref (s\<lparr>m_history := x2\<rparr>) = art_ref s"
  "grp (s\<lparr>m_feed_q := x3\<rparr>) = grp s" "numbered (s\<lparr>m_feed_q := x3\<rparr>) = numbered s"
  "obj (s\<lparr>m_feed_q := x3\<rparr>) = obj s" "art_ref (s\<lparr>m_feed_q := x3\<rparr>) = art_ref s"
  "in_history (s\<lparr>m_feed_q := x3\<rparr>) = in_history s"
  "grp (s\<lparr>m_next_ref := x4\<rparr>) = grp s" "numbered (s\<lparr>m_next_ref := x4\<rparr>) = numbered s"
  "obj (s\<lparr>m_next_ref := x4\<rparr>) = obj s" "art_ref (s\<lparr>m_next_ref := x4\<rparr>) = art_ref s"
  "in_history (s\<lparr>m_next_ref := x4\<rparr>) = in_history s"
  "in_history (s\<lparr>m_groups := x5\<rparr>) = in_history s" "obj (s\<lparr>m_groups := x5\<rparr>) = obj s"
  "art_ref (s\<lparr>m_groups := x5\<rparr>) = art_ref s" "numbered (s\<lparr>m_groups := x5\<rparr>) = numbered s"
  "grp (s\<lparr>m_groups := x5\<rparr>) = map_of x5"
  "in_history (s\<lparr>m_by_num := x6\<rparr>) = in_history s" "obj (s\<lparr>m_by_num := x6\<rparr>) = obj s"
  "art_ref (s\<lparr>m_by_num := x6\<rparr>) = art_ref s" "grp (s\<lparr>m_by_num := x6\<rparr>) = grp s"
  "numbered (s\<lparr>m_by_num := x6\<rparr>) = (\<lambda>g. map_option map_of (map_of x6 g))"
  "in_history (s\<lparr>m_subs := x7\<rparr>) = in_history s" "obj (s\<lparr>m_subs := x7\<rparr>) = obj s"
  "art_ref (s\<lparr>m_subs := x7\<rparr>) = art_ref s" "grp (s\<lparr>m_subs := x7\<rparr>) = grp s"
  "numbered (s\<lparr>m_subs := x7\<rparr>) = numbered s"
  "in_history (s\<lparr>m_reads := x8\<rparr>) = in_history s" "obj (s\<lparr>m_reads := x8\<rparr>) = obj s"
  "art_ref (s\<lparr>m_reads := x8\<rparr>) = art_ref s" "grp (s\<lparr>m_reads := x8\<rparr>) = grp s"
  "numbered (s\<lparr>m_reads := x8\<rparr>) = numbered s"
  by (auto simp: grp_def numbered_def art_ref_def obj_def in_history_def fun_eq_iff)

lemma in_history_update [views]:
  "in_history (s\<lparr>m_history := AList.update m t (m_history s)\<rparr>) k \<longleftrightarrow> k = m \<or> in_history s k"
  by (simp add: in_history_def)

section \<open>The invariant\<close>

definition groups_of :: "memory \<Rightarrow> nat \<Rightarrow> string \<Rightarrow> int option" where
  "groups_of s r = (case obj s r of None \<Rightarrow> Map.empty | Some a \<Rightarrow> map_of (a_groups a))"

definition filing :: "memory \<Rightarrow> bool" where
  "filing s \<longleftrightarrow> filed (art_ref s) (groups_of s) (grp s) (numbered s)"

text \<open>The object of a stored Message-ID.\<close>

definition art_good :: "string \<Rightarrow> mem_art \<Rightarrow> bool" where
  "art_good m a \<longleftrightarrow> s_msgid a = m \<and> distinct (map fst (a_groups a))"

definition objects_good :: "memory \<Rightarrow> bool" where
  "objects_good s \<longleftrightarrow> (\<forall>m r. art_ref s m = Some r \<longrightarrow> (\<exists>a. obj s r = Some a \<and> art_good m a))"

definition all_filed :: "memory \<Rightarrow> bool" where
  "all_filed s \<longleftrightarrow> (\<forall>m r a. art_ref s m = Some r \<longrightarrow> obj s r = Some a \<longrightarrow> a_groups a \<noteq> [])"

definition refs_fresh :: "memory \<Rightarrow> bool" where
  "refs_fresh s \<longleftrightarrow> (\<forall>r. m_next_ref s \<le> r \<longrightarrow> obj s r = None)"

definition names_good :: "memory \<Rightarrow> bool" where
  "names_good s \<longleftrightarrow> (\<forall>g mg. grp s g = Some mg \<longrightarrow> g_name mg = g)"

definition keys_good :: "memory \<Rightarrow> bool" where
  "keys_good s \<longleftrightarrow> distinct (map fst (m_arts s)) \<and> distinct (map fst (m_groups s))"

definition remembered :: "memory \<Rightarrow> bool" where
  "remembered s \<longleftrightarrow> (\<forall>m. art_ref s m \<noteq> None \<longrightarrow> in_history s m)"

definition store_inv :: "memory \<Rightarrow> bool" where
  "store_inv s \<longleftrightarrow> filing s \<and> objects_good s \<and> all_filed s \<and> refs_fresh s \<and> names_good s
     \<and> keys_good s \<and> remembered s"

lemma store_invI:
  "filing s \<Longrightarrow> objects_good s \<Longrightarrow> all_filed s \<Longrightarrow> refs_fresh s \<Longrightarrow> names_good s \<Longrightarrow>
   keys_good s \<Longrightarrow> remembered s \<Longrightarrow> store_inv s"
  by (simp add: store_inv_def)

lemma store_invD:
  assumes "store_inv s"
  shows "filing s" "objects_good s" "all_filed s" "refs_fresh s" "names_good s" "keys_good s" "remembered s"
  using assms by (simp_all add: store_inv_def)

lemma new_memory_inv: "store_inv new_memory"
proof (intro store_invI)
  have v: "grp new_memory = Map.empty" "numbered new_memory = Map.empty" "art_ref new_memory = Map.empty"
    "obj new_memory = Map.empty"
    by (auto simp: new_memory_def grp_def numbered_def art_ref_def obj_def fun_eq_iff)
  show "filing new_memory" unfolding filing_def v by (rule filedI) (simp_all add: live_def)
  show "objects_good new_memory" "all_filed new_memory" "refs_fresh new_memory" "names_good new_memory"
    "remembered new_memory"
    by (simp_all add: objects_good_def all_filed_def refs_fresh_def names_good_def remembered_def v)
  show "keys_good new_memory" by (simp add: keys_good_def new_memory_def)
qed

text \<open>The invariant only depends on the views.\<close>

lemma store_inv_frame:
  assumes "store_inv s" "grp s' = grp s" "numbered s' = numbered s" "art_ref s' = art_ref s" "obj s' = obj s"
    and "m_next_ref s' = m_next_ref s" "keys_good s'" "\<And>m. in_history s m \<Longrightarrow> in_history s' m"
  shows "store_inv s'"
proof (intro store_invI)
  note d = store_invD[OF assms(1)]
  have "groups_of s' = groups_of s" by (auto simp: groups_of_def assms(5) fun_eq_iff)
  then show "filing s'" using d(1) by (simp add: filing_def assms)
  show "objects_good s'" "all_filed s'" "refs_fresh s'" "names_good s'"
    using d by (simp_all add: objects_good_def all_filed_def refs_fresh_def names_good_def assms)
  show "remembered s'" using d(7) assms(8) by (simp add: remembered_def assms)
qed (rule assms(7))

lemma live_obj:
  "objects_good s \<Longrightarrow> live (art_ref s) r \<Longrightarrow> \<exists>a m. obj s r = Some a \<and> art_ref s m = Some r \<and> art_good m a"
  unfolding objects_good_def live_def by blast

section \<open>Groups\<close>

lemma put_group_inv:
  assumes i: "store_inv s" and g: "grp s g = Some mg" "same_numbers mg mg'" "g_name mg' = g_name mg"
  shows "store_inv (put_group g mg' s)"
proof (intro store_invI)
  note d = store_invD[OF i]
  have o: "groups_of (put_group g mg' s) = groups_of s" by (simp add: groups_of_def views fun_eq_iff)
  show "filing (put_group g mg' s)"
    using filed_meta[OF d(1)[unfolded filing_def] g(1,2)] by (simp add: filing_def views o)
  show "objects_good (put_group g mg' s)" "all_filed (put_group g mg' s)" "refs_fresh (put_group g mg' s)"
    "remembered (put_group g mg' s)"
    using d by (simp_all add: objects_good_def all_filed_def refs_fresh_def remembered_def views)
  show "names_good (put_group g mg' s)" using d(5) g by (auto simp: names_good_def views)
  show "keys_good (put_group g mg' s)"
    using d(6) by (auto simp: keys_good_def views put_group_def intro: distinct_update)
qed

lemma fresh_group_ok: "group_ok (fresh_group name desc status origin now)"
  by (simp add: group_ok_def fresh_group_def)

lemma add_group_views [views]:
  "grp (add_group mg s) = (grp s)(g_name mg \<mapsto> mg)"
  "numbered (add_group mg s) = (numbered s)(g_name mg \<mapsto> Map.empty)"
  "art_ref (add_group mg s) = art_ref s" "obj (add_group mg s) = obj s"
  "in_history (add_group mg s) = in_history s" "m_next_ref (add_group mg s) = m_next_ref s"
  "m_arts (add_group mg s) = m_arts s" "m_history (add_group mg s) = m_history s"
  by (auto simp: add_group_def views numbered_def fun_eq_iff)

lemma add_group_inv:
  assumes i: "store_inv s" and g: "grp s (g_name mg) = None" "group_ok mg" "g_nums mg = []"
  shows "store_inv (add_group mg s)"
proof (intro store_invI)
  note d = store_invD[OF i]
  have o: "groups_of (add_group mg s) = groups_of s" by (simp add: groups_of_def views fun_eq_iff)
  show "filing (add_group mg s)"
    using filed_new_group[OF d(1)[unfolded filing_def] g] by (simp add: filing_def views o)
  show "objects_good (add_group mg s)" "all_filed (add_group mg s)" "refs_fresh (add_group mg s)"
    "remembered (add_group mg s)"
    using d by (simp_all add: objects_good_def all_filed_def refs_fresh_def remembered_def views)
  show "names_good (add_group mg s)" using d(5) by (auto simp: names_good_def views)
  show "keys_good (add_group mg s)"
    using d(6) by (auto simp: keys_good_def views add_group_def put_group_def intro: distinct_update)
qed

lemma same_numbers_updates [simp]:
  "same_numbers mg mg" "same_numbers mg (new_desc desc mg)"
  "same_numbers mg (mg'\<lparr>g_status := x\<rparr>) = same_numbers mg mg'"
  "same_numbers mg (mg'\<lparr>g_origin := x\<rparr>) = same_numbers mg mg'"
  "same_numbers mg (mg'\<lparr>g_ret_days := y\<rparr>) = same_numbers mg mg'"
  "same_numbers mg (mg'\<lparr>g_ret_mode := x\<rparr>) = same_numbers mg mg'"
  by (simp_all add: same_numbers_def new_desc_def)

lemma new_desc_name [simp]: "g_name (new_desc desc mg) = g_name mg"
  by (simp add: new_desc_def)

lemma fresh_group_simps [simp]:
  "g_name (fresh_group name desc status origin now) = name" "g_nums (fresh_group name desc status origin now) = []"
  by (simp_all add: fresh_group_def)

lemmas group_op_rules = put_group_inv add_group_inv fresh_group_ok

lemma ensure_group_inv [wf_rules]: "store_inv s \<Longrightarrow> store_inv (ensure_group now name desc status s)"
  by (auto simp: ensure_group_def Let_def intro!: group_op_rules split: option.split)

lemma ensure_group_isc_inv [wf_rules]: "store_inv s \<Longrightarrow> store_inv (ensure_group_isc now gi s)"
  by (auto simp: ensure_group_isc_def Let_def intro!: group_op_rules split: option.split)

lemma ensure_groups_inv [wf_rules]: "store_inv s \<Longrightarrow> store_inv (ensure_groups now gis s)"
  unfolding ensure_groups_def by (induction gis arbitrary: s) (simp_all add: ensure_group_isc_inv)

lemma apply_control_group_inv [wf_rules]: "store_inv s \<Longrightarrow> store_inv (apply_control_group now name desc status s)"
  by (auto simp: apply_control_group_def Let_def intro!: group_op_rules split: option.split)

lemma disable_control_group_inv [wf_rules]: "store_inv s \<Longrightarrow> store_inv (disable_control_group now name s)"
  by (auto simp: disable_control_group_def Let_def intro!: group_op_rules split: option.split)

section \<open>Posting\<close>

lemma take_number_ok: "group_ok mg \<Longrightarrow> group_ok (take_number mg)"
proof -
  assume g: "group_ok mg"
  have "g_low mg = 0 \<Longrightarrow> g_nums mg = []" using g by (cases "g_nums mg") (auto simp: group_ok_def)
  then show ?thesis using g by (auto simp: group_ok_def take_number_def Let_def sorted_wrt_append)
qed

lemma take_number_simps [simp]:
  "g_nums (take_number mg) = g_nums mg @ [g_high (take_number mg)]"
  "g_name (take_number mg) = g_name mg" "g_status (take_number mg) = g_status mg"
  by (simp_all add: take_number_def Let_def)

lemma fresh_art_simps [simp]: "s_msgid (fresh_art now n) = n_msgid n" "a_groups (fresh_art now n) = []"
  by (simp_all add: fresh_art_def)

lemma truncate_groups [simp]:
  "stored_article.truncate (a\<lparr>a_groups := x\<rparr>) = stored_article.truncate (a :: mem_art)"
  by (simp add: stored_article.truncate_def)

text \<open>What one round of the loop does.\<close>

lemma file_in_step:
  assumes "grp s g = Some mg" "numbered s g = Some b" "obj s r = Some a"
  shows "file_in r g (s, nums, parts) =
     (put_obj r (a\<lparr>a_groups := AList.update g (g_high (take_number mg)) (a_groups a)\<rparr>)
        (set_number g (g_high (take_number mg)) r (put_group g (take_number mg) s)),
      AList.update g (g_high (take_number mg)) nums,
      parts @ [g @ '':'' @ format_int (g_high (take_number mg))])"
  using assms by (simp add: file_in_def Let_def)

text \<open>The state of the loop: the object \<open>r\<close> is filed so far, everything else is as before.\<close>

definition posting :: "memory \<Rightarrow> (string \<Rightarrow> nat option) \<Rightarrow> nat \<Rightarrow> memory \<Rightarrow> bool" where
  "posting s0 A r s \<longleftrightarrow>
     filed A (groups_of s) (grp s) (numbered s)
     \<and> (\<exists>a a0. obj s r = Some a \<and> obj s0 r = Some a0 \<and> s_msgid a = s_msgid a0 \<and> distinct (map fst (a_groups a))
          \<and> stored_article.truncate a = stored_article.truncate a0)
     \<and> (\<forall>q. q \<noteq> r \<longrightarrow> obj s q = obj s0 q)
     \<and> (\<forall>g. grp s g = None \<longleftrightarrow> grp s0 g = None)
     \<and> (\<forall>g mg. grp s g = Some mg \<longrightarrow> (\<exists>k. grp s0 g = Some k \<and> g_name mg = g_name k \<and> g_status mg = g_status k))
     \<and> art_ref s = art_ref s0 \<and> in_history s = in_history s0 \<and> m_next_ref s = m_next_ref s0
     \<and> m_arts s = m_arts s0 \<and> m_history s = m_history s0 \<and> m_feed_q s = m_feed_q s0
     \<and> (keys_good s0 \<longrightarrow> keys_good s)"

lemma file_in_posting:
  assumes p: "posting s0 A r s" and r: "live A r" "grp s0 g \<noteq> None" "groups_of s r g = None"
    and s': "file_in r g (s, nums, parts) = (s', nums', parts')"
  shows "posting s0 A r s' \<and> groups_of s' r = (groups_of s r)(g \<mapsto> g_high (take_number (the (grp s g))))
     \<and> nums' = AList.update g (g_high (take_number (the (grp s g)))) nums
     \<and> (\<forall>h. h \<noteq> g \<longrightarrow> grp s' h = grp s h)"
proof -
  have f: "filed A (groups_of s) (grp s) (numbered s)" using p by (simp add: posting_def)
  have "grp s g \<noteq> None" using p r(2) by (simp add: posting_def)
  then obtain mg where mg: "grp s g = Some mg" by blast
  obtain b where b: "numbered s g = Some b" using filed_dom[OF f, of g] mg by auto
  obtain a where a: "obj s r = Some a" using p by (auto simp: posting_def)
  let ?n = "g_high (take_number mg)"
  have e: "s' = put_obj r (a\<lparr>a_groups := AList.update g ?n (a_groups a)\<rparr>)
        (set_number g ?n r (put_group g (take_number mg) s))" "nums' = AList.update g ?n nums"
    using file_in_step[OF mg b a, of nums parts] s' by simp_all
  have nb: "numbered s' = (numbered s)(g \<mapsto> b(?n \<mapsto> r))"
    using numbered_set[of "put_group g (take_number mg) s" g b ?n r] b by (simp add: e views)
  have gr: "grp s' = (grp s)(g \<mapsto> take_number mg)" by (simp add: e views)
  have gs: "groups_of s' = (groups_of s)(r := (groups_of s r)(g \<mapsto> ?n))"
    using a by (auto simp: groups_of_def e views fun_eq_iff)
  have "filed A (groups_of s') (grp s') (numbered s')"
    unfolding gs gr nb
    using filed_add[OF f r(1) mg b r(3) take_number_simps(1)] take_number_ok[OF filed_group_ok[OF f mg]] by blast
  moreover have "keys_good s \<Longrightarrow> keys_good s'"
    by (auto simp: keys_good_def e views put_group_def intro: distinct_update)
  ultimately have "posting s0 A r s'"
    using p a mg r(2) unfolding posting_def
    by (auto simp: e gr views intro!: distinct_update split: if_splits)
  then show ?thesis using mg gs e(2) gr by simp
qed

lemma fold_file_in:
  assumes "posting s0 A r s" "live A r" "\<forall>g \<in> set gs. grp s0 g \<noteq> None \<and> groups_of s r g = None" "distinct gs"
    and "fold (file_in r) gs (s, nums, parts) = (s', nums', parts')"
  shows "posting s0 A r s' \<and> (\<forall>g. groups_of s' r g \<noteq> None \<longleftrightarrow> g \<in> set gs \<or> groups_of s r g \<noteq> None)
     \<and> (map_of nums = groups_of s r \<longrightarrow> map_of nums' = groups_of s' r)
     \<and> (\<forall>g. g \<notin> set gs \<longrightarrow> grp s' g = grp s g \<and> groups_of s' r g = groups_of s r g)
     \<and> (\<forall>g \<in> set gs. grp s' g = map_option take_number (grp s g)
          \<and> groups_of s' r g = Some (g_high (take_number (the (grp s g)))))"
  using assms
proof (induction gs arbitrary: s nums parts)
  case (Cons g gs)
  obtain s1 nums1 parts1 where 1: "file_in r g (s, nums, parts) = (s1, nums1, parts1)"
    by (metis prod_cases3)
  have step: "posting s0 A r s1" "groups_of s1 r = (groups_of s r)(g \<mapsto> g_high (take_number (the (grp s g))))"
    "nums1 = AList.update g (g_high (take_number (the (grp s g)))) nums" "\<forall>h. h \<noteq> g \<longrightarrow> grp s1 h = grp s h"
    using file_in_posting[OF Cons.prems(1,2) _ _ 1] Cons.prems(3) by auto
  have "grp s g \<noteq> None" using Cons.prems(1,3) by (simp add: posting_def)
  then obtain mg where mg: "grp s g = Some mg" by blast
  have "filed A (groups_of s) (grp s) (numbered s)" using Cons.prems(1) by (simp add: posting_def)
  then obtain b where "numbered s g = Some b" using filed_dom[of A _ _ _ g] mg by (metis not_None_eq)
  moreover obtain a where "obj s r = Some a" using Cons.prems(1) by (auto simp: posting_def)
  ultimately have ba: "numbered s g = Some b" "obj s r = Some a" by simp_all
  have g1: "grp s1 g = Some (take_number mg)"
    using file_in_step[OF mg ba, of nums parts] 1 by (auto simp: views)
  have p3: "\<forall>h \<in> set gs. grp s0 h \<noteq> None \<and> groups_of s1 r h = None"
    using Cons.prems(3,4) step(2) by auto
  have p5: "fold (file_in r) gs (s1, nums1, parts1) = (s', nums', parts')" "distinct gs"
    using Cons.prems(4,5) 1 by simp_all
  note ih = Cons.IH[OF step(1) Cons.prems(2) p3 p5(2,1)]
  show ?case
    using ih step(2-4) Cons.prems(4) g1 mg by (auto simp: fun_eq_iff)
qed auto

text \<open>The state before the loop, the map of Message-IDs after it, and the final state.\<close>

definition post_start :: "int \<Rightarrow> new_article \<Rightarrow> memory \<Rightarrow> memory" where
  "post_start now n s = put_obj (m_next_ref s) (fresh_art now n) (s\<lparr>m_next_ref := Suc (m_next_ref s)\<rparr>)"

definition post_end :: "int \<Rightarrow> new_article \<Rightarrow> nat \<Rightarrow> string list \<Rightarrow> mem_art \<Rightarrow> memory \<Rightarrow> memory" where
  "post_end now n r parts a s =
     (let s3 = put_obj r (a\<lparr>s_xref := xref_text (n_xref n) parts\<rparr>) s
      in s3\<lparr>m_arts := AList.update (n_msgid n) r (m_arts s3),
            m_history := AList.update (n_msgid n) now (m_history s3)\<rparr>)"

lemma post_loop:
  assumes i: "store_inv s" and d: "distinct (n_groups n)"
    and ok: "\<not> in_history s (n_msgid n)" "usable_groups s (n_groups n) \<noteq> []"
  obtains s2 nums parts a where
    "posting (post_start now n s) ((art_ref s)(n_msgid n \<mapsto> m_next_ref s)) (m_next_ref s) s2"
    "\<And>g. groups_of s2 (m_next_ref s) g =
       (if g \<in> set (usable_groups s (n_groups n)) then Some (g_high (take_number (the (grp s g)))) else None)"
    "map_of nums = groups_of s2 (m_next_ref s)"
    "\<And>g. grp s2 g =
       (if g \<in> set (usable_groups s (n_groups n)) then map_option take_number (grp s g) else grp s g)"
    "obj s2 (m_next_ref s) = Some a" "stored_article.truncate a = stored_article.truncate (fresh_art now n)"
    "s_msgid a = n_msgid n" "distinct (map fst (a_groups a))"
    "post_article now n s = (post_end now n (m_next_ref s) parts a s2,
       Inr \<lparr>pr_msgid = n_msgid n, pr_xref = xref_text (n_xref n) parts, pr_numbers = nums\<rparr>)"
proof -
  note iv = store_invD[OF i]
  let ?r = "m_next_ref s" and ?m = "n_msgid n" and ?s1 = "post_start now n s"
  let ?A = "(art_ref s)(?m \<mapsto> ?r)" and ?used = "usable_groups s (n_groups n)"
  have none: "obj s ?r = None" using iv(4) by (simp add: refs_fresh_def)
  have dead: "\<not> live (art_ref s) ?r" using live_obj[OF iv(2)] none by fastforce
  have m: "art_ref s ?m = None" using iv(7) ok by (auto simp: remembered_def)
  have v1: "grp ?s1 = grp s" "numbered ?s1 = numbered s" "art_ref ?s1 = art_ref s"
    "obj ?s1 = (obj s)(?r \<mapsto> fresh_art now n)"
    by (simp_all add: post_start_def views)
  have g1: "groups_of ?s1 = (groups_of s)(?r := Map.empty)"
    by (auto simp: groups_of_def v1 fun_eq_iff)
  have p1: "posting ?s1 ?A ?r ?s1"
    using filed_alloc[OF iv(1)[unfolded filing_def] dead m] by (simp add: posting_def g1 v1)
  have l: "live ?A ?r" by (auto simp: live_def)
  have u: "\<forall>g \<in> set ?used. grp ?s1 g \<noteq> None \<and> groups_of ?s1 ?r g = None" "distinct ?used"
    using d by (auto simp: usable_groups_def v1 g1 split: option.splits)
  obtain s2 nums parts where f: "fold (file_in ?r) ?used (?s1, [], []) = (s2, nums, parts)"
    by (metis prod_cases3)
  note loop = fold_file_in[OF p1 l u f]
  have p2: "posting ?s1 ?A ?r s2" using loop by blast
  obtain a where a: "obj s2 ?r = Some a" "s_msgid a = ?m" "distinct (map fst (a_groups a))"
    "stored_article.truncate a = stored_article.truncate (fresh_art now n)"
    using p2 by (auto simp: posting_def v1)
  have e: "post_article now n s = (post_end now n ?r parts a s2,
       Inr \<lparr>pr_msgid = n_msgid n, pr_xref = xref_text (n_xref n) parts, pr_numbers = nums\<rparr>)"
    using ok f a(1) by (simp add: post_article_def post_end_def post_start_def Let_def)
  show thesis
    by (rule that[OF p2 _ _ _ a(1,4,2,3) e]) (use loop in \<open>simp_all add: g1 v1\<close>)
qed

lemma post_end_views:
  assumes "posting (post_start now n s) A (m_next_ref s) s2" "obj s2 (m_next_ref s) = Some a"
  shows "art_ref (post_end now n (m_next_ref s) parts a s2) = (art_ref s)(n_msgid n \<mapsto> m_next_ref s)"
    and "grp (post_end now n (m_next_ref s) parts a s2) = grp s2"
    and "numbered (post_end now n (m_next_ref s) parts a s2) = numbered s2"
    and "obj (post_end now n (m_next_ref s) parts a s2) =
      (obj s2)(m_next_ref s \<mapsto> a\<lparr>s_xref := xref_text (n_xref n) parts\<rparr>)"
    and "m_next_ref (post_end now n (m_next_ref s) parts a s2) = Suc (m_next_ref s)"
    and "in_history (post_end now n (m_next_ref s) parts a s2) k \<longleftrightarrow> k = n_msgid n \<or> in_history s k"
    and "groups_of (post_end now n (m_next_ref s) parts a s2) = groups_of s2"
    and "keys_good s \<Longrightarrow> keys_good (post_end now n (m_next_ref s) parts a s2)"
    and "m_feed_q (post_end now n (m_next_ref s) parts a s2) = m_feed_q s"
proof -
  let ?e = "post_end now n (m_next_ref s) parts a s2"
  have p: "m_arts s2 = m_arts s" "m_history s2 = m_history s" "m_next_ref s2 = Suc (m_next_ref s)"
    "m_feed_q s2 = m_feed_q s" "keys_good (post_start now n s) \<longrightarrow> keys_good s2"
    using assms(1) by (simp_all add: posting_def post_start_def views)
  show "art_ref ?e = (art_ref s)(n_msgid n \<mapsto> m_next_ref s)" "grp ?e = grp s2" "numbered ?e = numbered s2"
    "obj ?e = (obj s2)(m_next_ref s \<mapsto> a\<lparr>s_xref := xref_text (n_xref n) parts\<rparr>)"
    "m_next_ref ?e = Suc (m_next_ref s)" "in_history ?e k \<longleftrightarrow> k = n_msgid n \<or> in_history s k"
    "m_feed_q ?e = m_feed_q s"
    by (auto simp: post_end_def Let_def views p art_ref_def in_history_def fun_eq_iff)
  then show "groups_of ?e = groups_of s2" using assms(2) by (auto simp: groups_of_def fun_eq_iff)
  assume "keys_good s"
  then have "keys_good s2" using p(5) by (simp add: keys_good_def post_start_def views)
  then show "keys_good ?e"
    by (auto simp: keys_good_def post_end_def Let_def views intro: distinct_update)
qed

lemma post_article_inv [wf_rules]:
  assumes i: "store_inv s" and d: "distinct (n_groups n)"
  shows "store_inv (fst (post_article now n s))"
proof (cases "in_history s (n_msgid n) \<or> usable_groups s (n_groups n) = []")
  case True
  then show ?thesis using i by (auto simp: post_article_def Let_def)
next
  case False
  note iv = store_invD[OF i]
  let ?r = "m_next_ref s" and ?m = "n_msgid n" and ?used = "usable_groups s (n_groups n)"
  obtain s2 nums parts a where p: "posting (post_start now n s) ((art_ref s)(?m \<mapsto> ?r)) ?r s2"
    "\<And>g. groups_of s2 ?r g = (if g \<in> set ?used then Some (g_high (take_number (the (grp s g)))) else None)"
    and a: "obj s2 ?r = Some a" "s_msgid a = ?m" "distinct (map fst (a_groups a))"
    and e: "post_article now n s = (post_end now n ?r parts a s2,
       Inr \<lparr>pr_msgid = n_msgid n, pr_xref = xref_text (n_xref n) parts, pr_numbers = nums\<rparr>)"
    using post_loop[OF i d] False by metis
  let ?s4 = "post_end now n ?r parts a s2"
  note v4 = post_end_views[OF p(1) a(1), of parts]
  have none: "obj s ?r = None" using iv(4) by (simp add: refs_fresh_def)
  have not_r: "\<And>k. art_ref s k \<noteq> Some ?r" using iv(2) none unfolding objects_good_def by fastforce
  have o2: "\<And>q. q \<noteq> ?r \<Longrightarrow> obj s2 q = obj s q" using p(1) by (auto simp: posting_def post_start_def views)
  have ne: "a_groups a \<noteq> []"
  proof -
    obtain g where "g \<in> set ?used" using False by (meson list.set_sel(1))
    then have "map_of (a_groups a) g \<noteq> None" using p(2)[of g] a(1) by (simp add: groups_of_def)
    then show ?thesis by auto
  qed
  show ?thesis unfolding e fst_conv
  proof (intro store_invI)
    show "filing ?s4" using p(1) by (simp add: filing_def posting_def v4)
    show "objects_good ?s4" "all_filed ?s4"
      using iv(2,3) a ne o2 not_r unfolding objects_good_def all_filed_def v4
      by (auto simp: art_good_def split: if_splits)
    show "refs_fresh ?s4" using iv(4) o2 unfolding refs_fresh_def v4 by simp
    show "names_good ?s4"
      using iv(5) p(1) unfolding names_good_def v4 posting_def by (fastforce simp: post_start_def views)
    show "keys_good ?s4" using iv(6) by (rule v4(8))
    show "remembered ?s4" using iv(7) unfolding remembered_def v4 by simp
  qed
qed

section \<open>Cancelling\<close>

lemma without_number_ok: "group_ok mg \<Longrightarrow> n \<in> set (g_nums mg) \<Longrightarrow> group_ok (without_number n mg)"
proof -
  assume g: "group_ok mg" and n: "n \<in> set (g_nums mg)"
  let ?ns = "filter (\<lambda>x. x \<noteq> n) (g_nums mg)"
  have "distinct (g_nums mg)" using g by (auto simp: group_ok_def strict_sorted_iff)
  then have "length ?ns + 1 = length (g_nums mg)"
    using n sum_length_filter_compl[of "\<lambda>x. x = n" "g_nums mg"]
      distinct_length_filter[of "g_nums mg" "\<lambda>x. x = n"] by (simp add: Int_absorb2 Collect_conv_if)
  then have len: "length (g_nums mg) = Suc (length ?ns)" by simp
  show ?thesis
  proof (cases "?ns = []")
    case True
    then show ?thesis using g len by (auto simp: group_ok_def without_number_def Let_def)
  next
    case False
    then have m: "Min (set ?ns) \<in> set ?ns" by (metis Min_in finite_set set_empty)
    then have "1 \<le> g_low mg" "g_low mg \<le> Min (set ?ns)" "Min (set ?ns) \<le> g_high mg"
      using g by (auto simp: group_ok_def)
    moreover have "\<forall>x \<in> set ?ns. Min (set ?ns) \<le> x \<and> x \<le> g_high mg" using g by (simp add: group_ok_def)
    moreover have "sorted_wrt (<) ?ns" using g by (simp add: group_ok_def sorted_wrt_filter)
    moreover have "without_number n mg = mg\<lparr>g_count := int (length ?ns), g_nums := ?ns, g_low := Min (set ?ns)\<rparr>"
      using g len False by (simp add: without_number_def Let_def group_ok_def)
    ultimately show ?thesis unfolding group_ok_def by simp
  qed
qed

lemma without_number_simps [simp]:
  "g_nums (without_number n mg) = filter (\<lambda>x. x \<noteq> n) (g_nums mg)" "g_name (without_number n mg) = g_name mg"
  by (simp_all add: without_number_def Let_def)

text \<open>What the loop over the groups of a doomed object keeps.\<close>

definition same_articles :: "memory \<Rightarrow> memory \<Rightarrow> bool" where
  "same_articles s0 s \<longleftrightarrow>
     art_ref s = art_ref s0 \<and> obj s = obj s0 \<and> in_history s = in_history s0
     \<and> m_next_ref s = m_next_ref s0 \<and> m_arts s = m_arts s0 \<and> m_history s = m_history s0
     \<and> m_feed_q s = m_feed_q s0 \<and> (names_good s0 \<longrightarrow> names_good s) \<and> (keys_good s0 \<longrightarrow> keys_good s)"

lemma same_articles_refl [simp]: "same_articles s s"
  by (simp add: same_articles_def)

lemma same_articles_trans: "same_articles a b \<Longrightarrow> same_articles b c \<Longrightarrow> same_articles a c"
  by (simp add: same_articles_def)

lemma same_articles_put_group:
  "grp s g = Some mg \<Longrightarrow> g_name mg' = g_name mg \<Longrightarrow> same_articles s (put_group g mg' s)"
proof -
  assume g: "grp s g = Some mg" "g_name mg' = g_name mg"
  have "names_good s \<Longrightarrow> names_good (put_group g mg' s)" using g by (auto simp: names_good_def views)
  moreover have "keys_good s \<Longrightarrow> keys_good (put_group g mg' s)"
    by (auto simp: keys_good_def put_group_def intro: distinct_update)
  ultimately show ?thesis by (simp add: same_articles_def views)
qed

lemma same_articles_drop_number: "same_articles s (drop_number g n s)"
  by (auto simp: same_articles_def views names_good_def keys_good_def)

lemma unfile_from_step:
  assumes f: "filed A G (grp s) (numbered s)" and r: "live A r" "G r g = Some n"
  shows "filed A (G(r := (G r)(g := None))) (grp (unfile_from (g, n) s)) (numbered (unfile_from (g, n) s))
     \<and> same_articles s (unfile_from (g, n) s)"
proof -
  obtain mg b where mg: "grp s g = Some mg" "numbered s g = Some b" "b n = Some r" "n \<in> set (g_nums mg)"
    using filed_number[OF f r] by blast
  have e: "unfile_from (g, n) s = put_group g (without_number n mg) (drop_number g n s)"
    using mg(1) by (simp add: unfile_from_def Let_def views)
  have "filed A (unfile g (\<lambda>x. x = n) G) ((grp s)(g \<mapsto> without_number n mg)) ((numbered s)(g \<mapsto> b(n := None)))"
    using without_number_ok[OF filed_group_ok[OF f mg(1)] mg(4)]
    by (intro filed_remove[OF f mg(1,2)]) auto
  moreover have "unfile g (\<lambda>x. x = n) G q = (G(r := (G r)(g := None))) q" if "live A q" for q
  proof (cases "q = r")
    case True
    then show ?thesis using r(2) by (simp add: unfile_def)
  next
    case False
    have "G q g \<noteq> Some n" using filed_lookup[OF f mg(1,2), of n q] that False mg(3) by auto
    then show ?thesis using False by (auto simp: unfile_def split: option.splits)
  qed
  ultimately have "filed A (G(r := (G r)(g := None))) ((grp s)(g \<mapsto> without_number n mg))
      ((numbered s)(g \<mapsto> b(n := None)))"
    by (rule filed_cong)
  moreover have "same_articles s (unfile_from (g, n) s)"
    unfolding e using mg(1) same_articles_drop_number[of s g n]
      same_articles_put_group[of "drop_number g n s" g mg "without_number n mg"]
    by (auto simp: views intro: same_articles_trans)
  ultimately show ?thesis using mg(2) by (simp add: e views numbered_drop)
qed

lemma fold_unfile_from:
  assumes "filed A G (grp s) (numbered s)" "live A r" "\<forall>(g, n) \<in> set gns. G r g = Some n"
    and "distinct (map fst gns)"
  shows "filed A (G(r := (G r) |` (- fst ` set gns))) (grp (fold unfile_from gns s)) (numbered (fold unfile_from gns s))
     \<and> same_articles s (fold unfile_from gns s)"
  using assms
proof (induction gns arbitrary: s G)
  case Nil
  then show ?case by simp
next
  case (Cons gn gns)
  obtain g n where gn: "gn = (g, n)" by force
  let ?s = "unfile_from (g, n) s" and ?G = "G(r := (G r)(g := None))"
  have f: "filed A ?G (grp ?s) (numbered ?s)" "same_articles s ?s"
    using unfile_from_step[OF Cons.prems(1,2)] Cons.prems(3) gn by auto
  have "\<forall>(h, k) \<in> set gns. ?G r h = Some k" using Cons.prems(3,4) gn by force
  then have ih: "filed A (?G(r := (?G r) |` (- fst ` set gns))) (grp (fold unfile_from gns ?s))
      (numbered (fold unfile_from gns ?s)) \<and> same_articles ?s (fold unfile_from gns ?s)"
    by (rule Cons.IH[OF f(1) Cons.prems(2)]) (use Cons.prems(4) in simp)
  have g: "?G(r := (?G r) |` (- fst ` set gns)) = G(r := (G r) |` (- fst ` set (gn # gns)))"
    using gn by (auto simp: restrict_map_def fun_eq_iff)
  have c: "fold unfile_from (gn # gns) s = fold unfile_from gns ?s" using gn by simp
  show ?case unfolding c using ih[unfolded g] same_articles_trans[OF f(2)] by blast
qed

lemma delete_article_none: "art_ref s m = None \<Longrightarrow> delete_article m s = (s, False)"
  by (simp add: delete_article_def)

lemma delete_article_some:
  assumes i: "store_inv s" and m: "art_ref s m = Some r"
  shows "store_inv (fst (delete_article m s)) \<and> snd (delete_article m s)
     \<and> art_ref (fst (delete_article m s)) = (art_ref s)(m := None)
     \<and> in_history (fst (delete_article m s)) = in_history s \<and> obj (fst (delete_article m s)) = obj s
     \<and> m_feed_q (fst (delete_article m s)) = filter (\<lambda>it. fq_msgid it \<noteq> m) (m_feed_q s)"
proof -
  note d = store_invD[OF i]
  obtain a where a: "obj s r = Some a" "art_good m a" using d(2) m by (auto simp: objects_good_def)
  let ?s1 = "fold unfile_from (a_groups a) s"
  let ?s2 = "?s1\<lparr>m_arts := AList.delete m (m_arts ?s1), m_feed_q := filter (\<lambda>it. fq_msgid it \<noteq> m) (m_feed_q ?s1)\<rparr>"
  let ?G = "(groups_of s)(r := Map.empty)"
  have e: "delete_article m s = (?s2, True)" using m a(1) by (simp add: delete_article_def Let_def)
  have "live (art_ref s) r" using m by (auto simp: live_def)
  moreover have "\<forall>(g, n) \<in> set (a_groups a). groups_of s r g = Some n"
    using a by (auto simp: groups_of_def art_good_def)
  moreover have "(groups_of s r) |` (- fst ` set (a_groups a)) = Map.empty"
    using a by (auto simp: groups_of_def restrict_map_def fun_eq_iff map_of_eq_None_iff)
  ultimately have f: "filed (art_ref s) ?G (grp ?s1) (numbered ?s1)" and sa: "same_articles s ?s1"
    using fold_unfile_from[of "art_ref s" "groups_of s" s r "a_groups a"] d(1) a
    by (auto simp: filing_def art_good_def)
  have v: "art_ref ?s2 = (art_ref s)(m := None)" "obj ?s2 = obj s" "in_history ?s2 = in_history s"
    "grp ?s2 = grp ?s1" "numbered ?s2 = numbered ?s1" "m_next_ref ?s2 = m_next_ref s"
    using sa by (auto simp: same_articles_def views art_ref_def)
  have "filed ((art_ref s)(m := None)) ?G (grp ?s1) (numbered ?s1)"
    using filed_inj[OF f] m by (intro filed_shrink[OF f]) (auto split: if_splits)
  moreover have "?G q = groups_of ?s2 q" if q: "live ((art_ref s)(m := None)) q" for q
  proof -
    obtain k where "k \<noteq> m" "art_ref s k = Some q" using q by (auto simp: live_def split: if_splits)
    then have "q \<noteq> r" using filed_inj[OF f, of k r m] m by auto
    then show ?thesis by (simp add: groups_of_def v(2))
  qed
  ultimately have fl: "filing ?s2" unfolding filing_def v by (rule filed_cong)
  have "names_good ?s1" "keys_good ?s1" using sa d(5,6) by (simp_all add: same_articles_def)
  then have "names_good ?s2" "keys_good ?s2"
    by (auto simp: names_good_def keys_good_def views intro: distinct_delete)
  then have "store_inv ?s2"
    using fl d(2,3,4,7) unfolding store_inv_def
    by (auto simp: objects_good_def all_filed_def refs_fresh_def remembered_def v split: if_splits)
  then show ?thesis using e v sa by (simp add: same_articles_def)
qed

lemma delete_article_inv [wf_rules]: "store_inv s \<Longrightarrow> store_inv (fst (delete_article m s))"
  using delete_article_some delete_article_none by (cases "art_ref s m") auto

lemma history_update_inv:
  "store_inv s \<Longrightarrow> store_inv (s\<lparr>m_history := AList.update m t (m_history s)\<rparr>)"
  by (rule store_inv_frame[of s]) (auto simp: views store_inv_def keys_good_def)

lemma cancel_message_id_inv [wf_rules]: "store_inv s \<Longrightarrow> store_inv (fst (cancel_message_id now m s))"
  unfolding cancel_message_id_def by (intro delete_article_inv history_update_inv)

lemma remember_message_id_inv [wf_rules]: "store_inv s \<Longrightarrow> store_inv (remember_message_id now m s)"
  by (simp add: remember_message_id_def history_update_inv)

section \<open>Deleting a group\<close>

definition left :: "string \<Rightarrow> mem_art \<Rightarrow> mem_art" where
  "left name a = a\<lparr>a_groups := AList.delete name (a_groups a)\<rparr>"

lemma leave_group_step:
  assumes "obj s r = Some a"
  shows "obj (leave_group name (m, r) s) = (obj s)(r \<mapsto> left name a)"
    and "art_ref (leave_group name (m, r) s) =
      (if map_of (a_groups a) name \<noteq> None \<and> AList.delete name (a_groups a) = []
       then (art_ref s)(m := None) else art_ref s)"
proof -
  have "map_of (a_groups a) name = None \<Longrightarrow> left name a = a"
    by (simp add: left_def delete_id map_of_eq_None_iff)
  then show "obj (leave_group name (m, r) s) = (obj s)(r \<mapsto> left name a)"
    using assms by (auto simp: leave_group_def Let_def views left_def fun_eq_iff)
  show "art_ref (leave_group name (m, r) s) =
      (if map_of (a_groups a) name \<noteq> None \<and> AList.delete name (a_groups a) = []
       then (art_ref s)(m := None) else art_ref s)"
    using assms by (auto simp: leave_group_def Let_def views art_ref_def fun_eq_iff)
qed

definition same_numbering :: "memory \<Rightarrow> memory \<Rightarrow> bool" where
  "same_numbering s0 s \<longleftrightarrow> grp s = grp s0 \<and> numbered s = numbered s0 \<and> in_history s = in_history s0
     \<and> m_next_ref s = m_next_ref s0 \<and> m_groups s = m_groups s0 \<and> m_feed_q s = m_feed_q s0
     \<and> (distinct (map fst (m_arts s0)) \<longrightarrow> distinct (map fst (m_arts s)))"

lemma leave_group_frame: "same_numbering s (leave_group name mr s)"
  by (auto simp: same_numbering_def leave_group_def Let_def views split: option.split prod.split
      intro: distinct_delete)

lemma same_numbering_trans: "same_numbering a b \<Longrightarrow> same_numbering b c \<Longrightarrow> same_numbering a c"
  by (simp add: same_numbering_def)

text \<open>The whole loop: every stored object leaves the group, and who is filed nowhere is dropped.\<close>

lemma fold_leave_group:
  assumes "distinct (map fst ms)" "distinct (map snd ms)" "\<forall>(m, r) \<in> set ms. obj s r \<noteq> None"
  shows "same_numbering s (fold (leave_group name) ms s)
     \<and> (\<forall>r. obj (fold (leave_group name) ms s) r =
          (if r \<in> snd ` set ms then map_option (left name) (obj s r) else obj s r))
     \<and> (\<forall>m. art_ref (fold (leave_group name) ms s) m =
          (case map_of ms m of None \<Rightarrow> art_ref s m
           | Some r \<Rightarrow> (case obj s r of None \<Rightarrow> art_ref s m
               | Some a \<Rightarrow> if map_of (a_groups a) name \<noteq> None \<and> AList.delete name (a_groups a) = []
                          then None else art_ref s m)))"
  using assms
proof (induction ms arbitrary: s)
  case Nil
  then show ?case by (simp add: same_numbering_def)
next
  case (Cons mr ms)
  obtain m r where mr: "mr = (m, r)" by force
  obtain a where a: "obj s r = Some a" using Cons.prems(3) mr by auto
  let ?s = "leave_group name mr s"
  have r: "r \<notin> snd ` set ms" "m \<notin> fst ` set ms" using Cons.prems(1,2) mr by auto
  note st = leave_group_step[OF a, of name m, folded mr]
  have o: "\<And>k q. (k, q) \<in> set ms \<Longrightarrow> obj ?s q = obj s q" using st(1) r(1) by force
  have 3: "\<forall>(k, q) \<in> set ms. obj ?s q \<noteq> None" using Cons.prems(3) o by fastforce
  have d: "distinct (map fst ms)" "distinct (map snd ms)" using Cons.prems(1,2) by simp_all
  note ih = Cons.IH[OF d 3]
  have c: "fold (leave_group name) (mr # ms) s = fold (leave_group name) ms ?s" by simp
  show ?case unfolding c
  proof (intro conjI allI)
    show "same_numbering s (fold (leave_group name) ms ?s)"
      using ih same_numbering_trans[OF leave_group_frame] by blast
    show "obj (fold (leave_group name) ms ?s) q =
        (if q \<in> snd ` set (mr # ms) then map_option (left name) (obj s q) else obj s q)" for q
      using ih st(1) r(1) mr a by auto
    show "art_ref (fold (leave_group name) ms ?s) k =
        (case map_of (mr # ms) k of None \<Rightarrow> art_ref s k
           | Some q \<Rightarrow> (case obj s q of None \<Rightarrow> art_ref s k
               | Some a \<Rightarrow> if map_of (a_groups a) name \<noteq> None \<and> AList.delete name (a_groups a) = []
                          then None else art_ref s k))" for k
    proof (cases "k = m")
      case True
      then have "map_of ms k = None" using r(2) by (simp add: map_of_eq_None_iff)
      then show ?thesis using ih st(2) mr a True by simp
    next
      case False
      then have k: "map_of (mr # ms) k = map_of ms k" "art_ref ?s k = art_ref s k"
        using mr st(2) by auto
      have q: "map_of ms k = Some q \<Longrightarrow> obj ?s q = obj s q" for q
        using o by (auto dest: map_of_SomeD)
      have "art_ref (fold (leave_group name) ms ?s) k =
        (case map_of ms k of None \<Rightarrow> art_ref ?s k
           | Some q \<Rightarrow> (case obj ?s q of None \<Rightarrow> art_ref ?s k
               | Some a \<Rightarrow> if map_of (a_groups a) name \<noteq> None \<and> AList.delete name (a_groups a) = []
                          then None else art_ref ?s k))"
        using ih by blast
      then show ?thesis unfolding k using q by (cases "map_of ms k") simp_all
    qed
  qed
qed

lemma refs_distinct:
  assumes "distinct (map fst (m_arts s))" "\<And>m m' r. art_ref s m = Some r \<Longrightarrow> art_ref s m' = Some r \<Longrightarrow> m = m'"
  shows "distinct (map snd (m_arts s))"
proof -
  have "inj_on snd (set (m_arts s))"
    using assms unfolding inj_on_def art_ref_def
    by (metis (no_types, lifting) map_of_eq_Some_iff prod.collapse)
  moreover have "distinct (m_arts s)" using assms(1) by (simp add: distinct_map)
  ultimately show ?thesis by (simp add: distinct_map)
qed

lemma delete_group_some:
  assumes i: "store_inv s" and g: "grp s name = Some mg"
  shows "store_inv (fst (delete_group name s))"
    and "snd (delete_group name s) = None"
    and "grp (fst (delete_group name s)) = (grp s)(name := None)"
    and "in_history (fst (delete_group name s)) = in_history s"
    and "art_ref (fst (delete_group name s)) m =
      (case Option.bind (art_ref s m) (obj s) of
         None \<Rightarrow> None | Some a \<Rightarrow> if set (map fst (a_groups a)) \<subseteq> {name} then None else art_ref s m)"
proof -
  note d = store_invD[OF i]
  let ?s1 = "fold (leave_group name) (m_arts s) s"
  let ?s2 = "?s1\<lparr>m_groups := AList.delete name (m_groups ?s1), m_by_num := AList.delete name (m_by_num ?s1),
      m_subs := map (\<lambda>(u, t). (u, AList.delete name t)) (m_subs ?s1),
      m_reads := map (\<lambda>(u, t). (u, AList.delete name t)) (m_reads ?s1)\<rparr>"
  have e: "delete_group name s = (?s2, None)" using g by (simp add: delete_group_def Let_def)
  note f = d(1)[unfolded filing_def]
  have dk: "distinct (map fst (m_arts s))" using d(6) by (simp add: keys_good_def)
  have ds: "distinct (map snd (m_arts s))" by (rule refs_distinct[OF dk filed_inj[OF f]])
  have ex: "\<forall>(m, r) \<in> set (m_arts s). obj s r \<noteq> None"
    using d(2) dk by (fastforce simp: objects_good_def art_ref_def)
  note loop = fold_leave_group[OF dk ds ex, of name]
  have sn: "same_numbering s ?s1" using loop by blast
  have ar: "art_ref ?s1 k = (case Option.bind (art_ref s k) (obj s) of None \<Rightarrow> None
      | Some a \<Rightarrow> if map_of (a_groups a) name \<noteq> None \<and> AList.delete name (a_groups a) = [] then None else art_ref s k)" for k
  proof -
    have l: "art_ref ?s1 k =
        (case art_ref s k of None \<Rightarrow> art_ref s k
         | Some r \<Rightarrow> (case obj s r of None \<Rightarrow> art_ref s k
             | Some a \<Rightarrow> if map_of (a_groups a) name \<noteq> None \<and> AList.delete name (a_groups a) = []
                        then None else art_ref s k))"
      using loop unfolding art_ref_def[of s] by blast
    have "obj s r \<noteq> None" if "art_ref s k = Some r" for r using d(2) that by (auto simp: objects_good_def)
    then show ?thesis unfolding l by (auto split: option.split)
  qed
  have ob: "obj ?s1 r = map_option (left name) (obj s r)" if "live (art_ref s) r" for r
  proof -
    have "r \<in> snd ` set (m_arts s)" using that by (force simp: live_def art_ref_def dest: map_of_SomeD)
    then show ?thesis using loop by simp
  qed
  have v: "grp ?s2 = (grp s)(name := None)" "numbered ?s2 = (numbered s)(name := None)"
    "art_ref ?s2 = art_ref ?s1" "obj ?s2 = obj ?s1" "in_history ?s2 = in_history s" "m_next_ref ?s2 = m_next_ref s"
    using sn by (auto simp: same_numbering_def views grp_def numbered_def fun_eq_iff)
  have sub: "art_ref ?s1 k = Some r \<Longrightarrow> art_ref s k = Some r" for k r
    by (auto simp: ar split: option.splits if_splits)
  have good: "\<exists>a. obj s r = Some a \<and> art_good k a \<and> a_groups a \<noteq> []" if "art_ref s k = Some r" for k r
    using that d(2,3) unfolding objects_good_def all_filed_def by blast
  have nil: "AList.delete name (a_groups a) = [] \<longleftrightarrow> set (map fst (a_groups a)) \<subseteq> {name}" for a :: mem_art
    by (auto simp: AList.delete_eq filter_empty_conv)
  have fd: "filed (art_ref s) (\<lambda>r. (groups_of s r)(name := None)) (grp ?s2) (numbered ?s2)"
    unfolding v by (rule filed_drop_group[OF f])
  have "filed (art_ref ?s1) (\<lambda>r. (groups_of s r)(name := None)) (grp ?s2) (numbered ?s2)"
  proof (rule filed_shrink[OF fd sub])
    fix k r assume k: "art_ref s k = Some r" "art_ref ?s1 k = None"
    then obtain a where a: "obj s r = Some a" "AList.delete name (a_groups a) = []"
      using good[OF k(1)] by (auto simp: ar split: if_splits)
    have "(map_of (a_groups a))(name := None) = map_of (AList.delete name (a_groups a))" by simp
    then show "(groups_of s r)(name := None) = Map.empty" using a by (simp add: groups_of_def)
  qed
  moreover have "(groups_of s r)(name := None) = groups_of ?s2 r" if l: "live (art_ref ?s1) r" for r
  proof -
    obtain k where k: "art_ref s k = Some r" using l sub by (auto simp: live_def)
    then obtain a where a: "obj s r = Some a" using good by blast
    have "live (art_ref s) r" using k by (auto simp: live_def)
    then show ?thesis using ob[of r] a by (simp add: groups_of_def v(4) left_def)
  qed
  ultimately have fl: "filing ?s2" unfolding filing_def v(3) by (rule filed_cong)
  have og: "\<exists>a. obj ?s2 r = Some a \<and> art_good k a \<and> a_groups a \<noteq> []" if k: "art_ref ?s2 k = Some r" for k r
  proof -
    have s: "art_ref s k = Some r" using sub k v(3) by simp
    then obtain a where a: "obj s r = Some a" "art_good k a" "a_groups a \<noteq> []" using good by blast
    have "live (art_ref s) r" using s by (auto simp: live_def)
    then have o: "obj ?s2 r = Some (left name a)" using ob a v(4) by simp
    moreover have "AList.delete name (a_groups a) \<noteq> []"
    proof
      assume n: "AList.delete name (a_groups a) = []"
      then have "map_of (a_groups a) name \<noteq> None"
        using a(3) by (metis delete_id map_of_eq_None_iff set_map)
      then show False using k v(3) ar[of k] s a n by simp
    qed
    ultimately show ?thesis using a by (auto simp: left_def art_good_def intro: distinct_delete)
  qed
  show "store_inv (fst (delete_group name s))" unfolding e fst_conv
  proof (intro store_invI)
    show "filing ?s2" by (rule fl)
    show "objects_good ?s2" "all_filed ?s2"
      using og unfolding objects_good_def all_filed_def by fastforce+
    have "obj s r = None \<Longrightarrow> obj ?s2 r = None" for r using loop v(4) by simp
    then show "refs_fresh ?s2" using d(4) unfolding refs_fresh_def v(6) by simp
    show "names_good ?s2" using d(5) unfolding names_good_def v by auto
    show "keys_good ?s2" using d(6) sn by (auto simp: keys_good_def same_numbering_def intro: distinct_delete)
    show "remembered ?s2" using d(7) sub unfolding remembered_def v by (metis not_None_eq)
  qed
  show "snd (delete_group name s) = None" "grp (fst (delete_group name s)) = (grp s)(name := None)"
    "in_history (fst (delete_group name s)) = in_history s"
    unfolding e using v by simp_all
  have "art_ref s m = Some r \<Longrightarrow> obj s r = Some a \<Longrightarrow> set (map fst (a_groups a)) \<subseteq> {name} \<Longrightarrow>
      map_of (a_groups a) name \<noteq> None" for r a
    using good[of m r] by (cases "a_groups a") (auto split: if_splits)
  then show "art_ref (fst (delete_group name s)) m =
      (case Option.bind (art_ref s m) (obj s) of
         None \<Rightarrow> None | Some a \<Rightarrow> if set (map fst (a_groups a)) \<subseteq> {name} then None else art_ref s m)"
    unfolding e fst_conv v(3) ar nil by (cases "art_ref s m") (auto split: option.split)
qed

lemma delete_group_inv [wf_rules]: "store_inv s \<Longrightarrow> store_inv (fst (delete_group name s))"
  using delete_group_some(1) by (cases "grp s name") (auto simp: delete_group_def)

end
