(* ===== verification/GoScan.thy ===== *)
theory GoScan
  imports GoText
begin

text \<open>
  \<open>bufio.Scanner\<close> over the lines of a text, with the limit on the length of a line that makes it stop, and
  \<open>strconv.Atoi\<close> where the source ignores its error. Words that \<open>strings.Fields\<close> keeps whole, and spaces next to
  trimmed strings.
\<close>

text \<open>The limit of a scanner that was given no buffer (\<open>bufio.MaxScanTokenSize\<close>).\<close>

definition scan_limit :: nat where
  "scan_limit = 65536"

text \<open>The limit of the scanners that are given a buffer of one MiB.\<close>

definition wide_limit :: nat where
  "wide_limit = 1048576"

definition drop_cr :: "string \<Rightarrow> string" where
  "drop_cr l = (if l \<noteq> [] \<and> last l = CR then butlast l else l)"

text \<open>
  The lines a scanner returns, and whether it stops with \<open>ErrTooLong\<close>: a line and its newline must fit the
  buffer. What follows the last newline is a line unless it is empty.
\<close>

fun scan_pieces :: "nat \<Rightarrow> string list \<Rightarrow> string list \<times> bool" where
  "scan_pieces lim [] = ([], False)"
| "scan_pieces lim (l # ls) =
     (if lim \<le> length l then ([], True)
      else if l = [] \<and> ls = [] then ([], False)
      else case scan_pieces lim ls of (ts, e) \<Rightarrow> (drop_cr l # ts, e))"

definition scan_lines :: "nat \<Rightarrow> string \<Rightarrow> string list \<times> bool" where
  "scan_lines lim s = scan_pieces lim (split_on LF s)"

text \<open>The value of \<open>strconv.Atoi\<close>, which with a range error is the nearest number and otherwise 0.\<close>

definition atoi_value :: "string \<Rightarrow> int" where
  "atoi_value s =
     (case parse_int s of
        Some n \<Rightarrow> n
      | None \<Rightarrow>
          (let (neg, t) = (case s of
               [] \<Rightarrow> (False, [])
             | c # r \<Rightarrow> if c = CHR ''-'' then (True, r) else if c = CHR ''+'' then (False, r) else (False, s))
           in if t = [] \<or> dec_value 0 t = None then 0 else if neg then - (2 ^ 63) else 2 ^ 63 - 1))"

lemma atoi_value_format_int:
  "- (2 ^ 63) \<le> n \<Longrightarrow> n < 2 ^ 63 \<Longrightarrow> atoi_value (format_int n) = n"
  by (simp add: atoi_value_def parse_int_format_int)

lemma scan_lines_append:
  "LF \<notin> set l \<Longrightarrow> length l < lim \<Longrightarrow>
   scan_lines lim (l @ LF # s) = (drop_cr l # fst (scan_lines lim s), snd (scan_lines lim s))"
  by (simp add: scan_lines_def split_on_append split: prod.splits)

lemma scan_lines_Nil [simp]: "0 < lim \<Longrightarrow> scan_lines lim [] = ([], False)"
  by (simp add: scan_lines_def)

lemma scan_lines_too_long:
  "LF \<notin> set l \<Longrightarrow> lim \<le> length l \<Longrightarrow> scan_lines lim (l @ LF # s) = ([], True)"
  by (simp add: scan_lines_def split_on_append)

lemma drop_cr_id: "l = [] \<or> last l \<noteq> CR \<Longrightarrow> drop_cr l = l"
  by (auto simp: drop_cr_def)

text \<open>Lines a scanner returns as they were written.\<close>

definition clean_line :: "nat \<Rightarrow> string \<Rightarrow> bool" where
  "clean_line lim l \<longleftrightarrow> (l = [] \<or> last l \<noteq> CR) \<and> LF \<notin> set l \<and> length l < lim"

lemma scan_clean_lines:
  "0 < lim \<Longrightarrow> \<forall>l \<in> set ls. clean_line lim l \<Longrightarrow> scan_lines lim (concat (map (\<lambda>l. l @ [LF]) ls)) = (ls, False)"
proof (induction ls)
  case (Cons l ls)
  then show ?case by (auto simp: scan_lines_append drop_cr_id clean_line_def)
qed simp

text \<open>A word is a string \<open>strings.Fields\<close> keeps whole.\<close>

definition is_word :: "string \<Rightarrow> bool" where
  "is_word w \<longleftrightarrow> w \<noteq> [] \<and> list_all (\<lambda>c. ascii c \<and> \<not> ascii_space c) w"

lemma word_trim [simp]: "is_word w \<Longrightarrow> trim_space w = w"
  by (rule trim_space_id) (auto simp: is_word_def list_all_iff)

lemma word_format_int [simp]: "is_word (format_int n)"
  by (auto simp: is_word_def list_all_iff ascii_def ascii_space_def is_digit_def dest!: format_int_chars)

lemma word_chars: "is_word w \<Longrightarrow> c \<in> set w \<Longrightarrow> ascii c \<and> \<not> ascii_space c"
  by (auto simp: is_word_def list_all_iff)

lemma word_last_not_CR: "is_word w \<Longrightarrow> last w \<noteq> CR"
  using word_chars[of w "last w"] by (auto simp: is_word_def)

lemma fields_join_words: "\<forall>w \<in> set ws. is_word w \<Longrightarrow> str_fields (join [SP] ws) = ws"
proof (induction ws rule: induct_list012)
  case 1 then show ?case by (simp add: str_fields_def)
next
  case (2 x) then show ?case by (simp add: is_word_def fields_word)
next
  case (3 x y zs)
  then show ?case using fields_word_space[of x "join [SP] (y # zs)"] by (simp add: is_word_def)
qed

lemma join_words_edges:
  "ws \<noteq> [] \<Longrightarrow> \<forall>w \<in> set ws. is_word w \<Longrightarrow>
   join [SP] ws \<noteq> [] \<and> hd (join [SP] ws) = hd (hd ws) \<and> last (join [SP] ws) = last (last ws)"
  by (induction ws rule: induct_list012) (auto simp: is_word_def hd_append)

lemma trim_join_words: "\<forall>w \<in> set ws. is_word w \<Longrightarrow> trim_space (join [SP] ws) = join [SP] ws"
proof (cases "ws = []")
  case False
  assume w: "\<forall>w \<in> set ws. is_word w"
  have "ascii (hd (hd ws)) \<and> \<not> ascii_space (hd (hd ws))" "ascii (last (last ws)) \<and> \<not> ascii_space (last (last ws))"
    using w False word_chars[of "hd ws" "hd (hd ws)"] word_chars[of "last ws" "last (last ws)"]
    by (auto simp: is_word_def)
  then show ?thesis using join_words_edges[OF False w] by (intro trim_space_id) auto
qed simp

lemma join_words_no_LF: "\<forall>w \<in> set ws. is_word w \<Longrightarrow> LF \<notin> set (join [SP] ws)"
  by (induction ws rule: induct_list012) (auto dest: word_chars)

section \<open>A space after a trimmed string\<close>

lemma wide_spaces_ascii: "w \<in> set wide_spaces \<Longrightarrow> c \<in> set w \<Longrightarrow> \<not> ascii c"
  by (auto simp: wide_spaces_def ascii_def)

lemma take_before_space: "SP \<notin> set (take n (a @ SP # t)) \<Longrightarrow> take n (a @ SP # t) = take n a"
proof (cases "n \<le> length a")
  case False
  then obtain k where "n = length a + Suc k" by (metis less_natE not_le add_Suc_right)
  then have "SP \<in> set (take n (a @ SP # t))" by simp
  then show "SP \<notin> set (take n (a @ SP # t)) \<Longrightarrow> ?thesis" by blast
qed simp

lemma take_past_space: "take n (a @ SP # t) \<in> set wide_spaces \<Longrightarrow> take n (a @ SP # t) = take n a"
  using wide_spaces_ascii[of "take n (a @ SP # t)" SP] by (intro take_before_space) auto

lemma space_len_0: "space_len (c # r) = 0 \<longleftrightarrow> \<not> ascii_space c
    \<and> (ascii c \<or> take 2 (c # r) \<notin> set wide_spaces \<and> take 3 (c # r) \<notin> set wide_spaces)"
  by (auto simp only: space_len.simps split: if_splits)

lemma space_len_rev_0: "space_len_rev (c # r) = 0 \<longleftrightarrow> \<not> ascii_space c
    \<and> (ascii c \<or> rev (take 2 (c # r)) \<notin> set wide_spaces \<and> rev (take 3 (c # r)) \<notin> set wide_spaces)"
  by (auto simp only: space_len_rev.simps split: if_splits)

lemma space_len_word_end: "space_len a = 0 \<Longrightarrow> a \<noteq> [] \<Longrightarrow> space_len (a @ SP # t) = 0"
proof -
  assume a: "space_len a = 0" "a \<noteq> []"
  then obtain c r where c: "a = c # r" by (cases a) auto
  have "take n (a @ SP # t) \<notin> set wide_spaces" if "take n a \<notin> set wide_spaces" for n
    using take_past_space[of n a t] that by metis
  then show ?thesis using a(1) unfolding c append_Cons space_len_0 by metis
qed

lemma rev_take_past_space: "rev (take n (a @ SP # t)) \<in> set wide_spaces \<Longrightarrow> take n (a @ SP # t) = take n a"
  using wide_spaces_ascii[of "rev (take n (a @ SP # t))" SP] by (intro take_before_space) auto

lemma space_len_rev_word_end: "space_len_rev a = 0 \<Longrightarrow> a \<noteq> [] \<Longrightarrow> space_len_rev (a @ SP # t) = 0"
proof -
  assume a: "space_len_rev a = 0" "a \<noteq> []"
  then obtain c r where c: "a = c # r" by (cases a) auto
  have "rev (take n (a @ SP # t)) \<notin> set wide_spaces" if "rev (take n a) \<notin> set wide_spaces" for n
    using rev_take_past_space[of n a t] that by metis
  then show ?thesis using a(1) unfolding c append_Cons space_len_rev_0 by metis
qed

lemma trimmed_end: "trim_space s = s \<Longrightarrow> space_len_rev (rev s) = 0"
proof (cases "s = []")
  case False
  assume t: "trim_space s = s"
  have "trim_by space_len_rev (rev (trim_left_space s)) = rev s"
    using t by (simp add: trim_space_def trim_right_space_def) (metis rev_rev_ident)
  then show ?thesis using trim_by_done[of space_len_rev "rev (trim_left_space s)"] False by simp
qed simp

lemma trim_two_words:
  "trim_space a = a \<Longrightarrow> a \<noteq> [] \<Longrightarrow> trim_space b = b \<Longrightarrow> b \<noteq> [] \<Longrightarrow> trim_space (a @ SP # b) = a @ SP # b"
proof -
  assume h: "trim_space a = a" "a \<noteq> []" "trim_space b = b" "b \<noteq> []"
  have "trim_left_space (a @ SP # b) = a @ SP # b"
    using space_len_trim_space[of a] h space_len_word_end[of a b] by (simp add: trim_left_space_def trim_by_fixed)
  moreover have "trim_right_space (a @ SP # b) = a @ SP # b"
    using space_len_rev_word_end[of "rev b" "rev a"] trimmed_end[OF h(3)] h(4)
    by (simp add: trim_right_space_def trim_by_fixed)
  ultimately show ?thesis by (simp add: trim_space_def)
qed

lemma trim_space_before: "trim_space a = a \<Longrightarrow> a \<noteq> [] \<Longrightarrow> trim_space (a @ [SP]) = a"
proof -
  assume h: "trim_space a = a" "a \<noteq> []"
  have "trim_left_space (a @ [SP]) = a @ [SP]"
    using space_len_trim_space[of a] h space_len_word_end[of a "[]"] by (simp add: trim_left_space_def trim_by_fixed)
  moreover have "trim_by space_len_rev (SP # rev a) = rev a"
    using trimmed_end[OF h(1)] by (subst trim_by.simps) (simp add: trim_by_fixed)
  ultimately show ?thesis by (simp add: trim_space_def trim_right_space_def)
qed

end
