(* ===== verification/Control.thy ===== *)
theory Control
  imports StoreInv Article GoScan
begin

text \<open>
  Hierarchy control messages, \<open>internal/control/control.go\<close>: parsing a message, the policy that
  decides whether its sender may apply it, and its effect on the list of groups. The store is the
  in-process one, whose operations do not fail here.
\<close>

section \<open>Messages\<close>

datatype control_kind = Newgroup | Rmgroup | Checkgroups

record control_message =
  cm_kind :: control_kind
  cm_group :: string
  cm_moderated :: bool
  cm_desc :: string
  cm_hierarchy :: "string list"
  cm_entries :: "group_info list"

definition control_entry :: "string \<Rightarrow> string \<Rightarrow> string \<Rightarrow> group_info" where
  "control_entry name desc status = \<lparr>g_name = name, g_desc = desc, g_status = status, g_low = 0, g_high = 0,
     g_count = 0, g_created = zero_time, g_ret_days = None, g_ret_mode = [], g_origin = ''control''\<rparr>"

definition split_group_desc :: "string \<Rightarrow> (string \<times> string) option" where
  "split_group_desc line =
     (case index_of line [TAB] of
        Some i \<Rightarrow>
          (let name = trim_space (take i line) in
           if name = [] then None else Some (name, trim_space (drop (i + 1) line)))
      | None \<Rightarrow>
          (case str_fields line of
             name # _ # _ \<Rightarrow> Some (name, trim_space (drop (length name) line))
           | _ \<Rightarrow> None))"

definition parse_newsgroups_line :: "string \<Rightarrow> string \<Rightarrow> string" where
  "parse_newsgroups_line line0 expect =
     (let line = trim_right line0 [CR] in
      case split_group_desc line of
        None \<Rightarrow> []
      | Some (name, desc) \<Rightarrow>
          if expect \<noteq> [] \<and> \<not> equal_fold name expect \<and> \<not> has_prefix (to_lower line) (to_lower expect) then []
          else desc)"

fun description_in :: "string list \<Rightarrow> string \<Rightarrow> string" where
  "description_in (l # ls) g =
     (if trim_right l [CR] = ''For your newsgroups file:'' then
        (case ls of [] \<Rightarrow> [] | l' # _ \<Rightarrow> parse_newsgroups_line l' g)
      else description_in ls g)"
| "description_in [] g = []"

definition description_from_body :: "string \<Rightarrow> string \<Rightarrow> string" where
  "description_from_body b g = description_in (fst (scan_lines scan_limit b)) g"

definition checkgroups_entry :: "string \<Rightarrow> group_info option" where
  "checkgroups_entry l0 =
     (let line = trim_right l0 [CR] in
      if line = [] \<or> has_prefix line ''#'' then None
      else if has_prefix line ''--'' \<or> has_prefix line ''Content-'' then None
      else case split_group_desc line of
        None \<Rightarrow> None
      | Some (name, desc) \<Rightarrow>
          if \<not> valid_group_name name then None
          else if has_suffix desc '' (Moderated)''
          then Some (control_entry name (trim_suffix desc '' (Moderated)'') ''m'')
          else Some (control_entry name desc ''y''))"

definition parse_checkgroups_body :: "string \<Rightarrow> group_info list" where
  "parse_checkgroups_body b = List.map_filter checkgroups_entry (fst (scan_lines wide_limit b))"

definition hierarchy_args :: "string list \<Rightarrow> string list" where
  "hierarchy_args as = filter (\<lambda>a. \<not> has_prefix a ''!'') (takeWhile (\<lambda>a. \<not> has_prefix a ''#'') as)"

definition parse_control :: "article \<Rightarrow> control_message option" where
  "parse_control a =
     (case str_fields (trim_space (get_header a ''Control'')) of
        [] \<Rightarrow> None
      | verb # args \<Rightarrow>
          let v = to_lower verb; name = (case args of [] \<Rightarrow> [] | g # _ \<Rightarrow> g) in
          if v = ''newgroup'' then
            (if args = [] \<or> \<not> valid_group_name name then None
             else Some \<lparr>cm_kind = Newgroup, cm_group = name,
               cm_moderated = (case tl args of [] \<Rightarrow> False | w # _ \<Rightarrow> equal_fold w ''moderated''),
               cm_desc = description_from_body (body a) name, cm_hierarchy = [], cm_entries = []\<rparr>)
          else if v = ''rmgroup'' then
            (if args = [] \<or> \<not> valid_group_name name then None
             else Some \<lparr>cm_kind = Rmgroup, cm_group = name, cm_moderated = False, cm_desc = [],
               cm_hierarchy = [], cm_entries = []\<rparr>)
          else if v = ''checkgroups'' then
            Some \<lparr>cm_kind = Checkgroups, cm_group = [], cm_moderated = False, cm_desc = [],
              cm_hierarchy = hierarchy_args args, cm_entries = parse_checkgroups_body (body a)\<rparr>
          else None)"

section \<open>Policy\<close>

record control_policy =
  cp_accept_all :: bool
  cp_allow_from :: "string list"

definition default_policy :: control_policy where
  "default_policy = \<lparr>cp_accept_all = True, cp_allow_from = []\<rparr>"

definition control_allowed :: "control_policy \<Rightarrow> article \<Rightarrow> bool" where
  "control_allowed p a =
     (if cp_accept_all p then True
      else
        let from = to_lower (trim_space (get_header a ''From'')) in
        from \<noteq> [] \<and>
        list_ex (\<lambda>x. let y = to_lower (trim_space x) in y \<noteq> [] \<and> (y = ''*'' \<or> contains from y)) (cp_allow_from p))"

section \<open>Application\<close>

record control_result =
  cr_applied :: bool
  cr_kind :: control_kind
  cr_detail :: string
  cr_created :: int
  cr_updated :: int
  cr_disabled :: int

definition infer_hierarchy :: "group_info list \<Rightarrow> string list" where
  "infer_hierarchy es =
     remdups (List.map_filter (\<lambda>g. case index_of (g_name g) ''.'' of
        Some i \<Rightarrow> if i > 0 then Some (take i (g_name g) @ ''.*'') else None | None \<Rightarrow> None) es)"

definition in_pattern :: "string \<Rightarrow> string \<Rightarrow> bool" where
  "in_pattern name p0 =
     (let p = trim_space p0 in
      if p = [] then False
      else if has_suffix p ''.*'' then
        (let q = trim_suffix p ''.*'' in name = q \<or> has_prefix name (q @ ''.''))
      else if has_suffix p ''*'' then has_prefix name (trim_suffix p ''*'')
      else name = p \<or> has_prefix name (p @ ''.''))"

definition in_hierarchy :: "string \<Rightarrow> string list \<Rightarrow> bool" where
  "in_hierarchy name ps = list_ex (in_pattern name) ps"

text \<open>One entry of the list; the accumulator counts created and updated groups.\<close>

definition apply_entry :: "int \<Rightarrow> group_info \<Rightarrow> memory \<times> int \<times> int \<Rightarrow> memory \<times> int \<times> int" where
  "apply_entry now g st =
     (case st of (s, created, updated) \<Rightarrow>
        let s' = apply_control_group now (g_name g) (g_desc g) (g_status g) s in
        if get_group (g_name g) s = None then (s', created + 1, updated) else (s', created, updated + 1))"

definition may_disable :: "string list \<Rightarrow> string list \<Rightarrow> group_info \<Rightarrow> bool" where
  "may_disable want hier g \<longleftrightarrow>
     g_name g \<notin> set want
     \<and> (g_origin g = ''isc'' \<or> g_origin g = ''control'' \<or> g_origin g = [])
     \<and> in_hierarchy (g_name g) hier \<and> g_status g \<noteq> ''n''"

definition apply_checkgroups :: "int \<Rightarrow> control_message \<Rightarrow> memory \<Rightarrow> memory \<times> int \<times> int \<times> int" where
  "apply_checkgroups now msg s =
     (case fold (apply_entry now) (cm_entries msg) (s, 0, 0) of (s1, created, updated) \<Rightarrow>
        let want = map g_name (cm_entries msg);
            hier = (if cm_hierarchy msg = [] \<and> cm_entries msg \<noteq> [] then infer_hierarchy (cm_entries msg)
                    else cm_hierarchy msg)
        in if hier = [] \<or> want = [] then (s1, created, updated, 0)
           else
             let out = filter (may_disable want hier) (list_groups [] s1)
             in (fold (\<lambda>g. disable_control_group now (g_name g)) out s1, created, updated, int (length out)))"

definition apply_control :: "int \<Rightarrow> control_message \<Rightarrow> memory \<Rightarrow> memory \<times> control_result" where
  "apply_control now msg s =
     (let res = \<lparr>cr_applied = True, cr_kind = cm_kind msg, cr_detail = cm_group msg, cr_created = 0,
                 cr_updated = 0, cr_disabled = 0\<rparr> in
      case cm_kind msg of
        Newgroup \<Rightarrow>
          (apply_control_group now (cm_group msg) (cm_desc msg) (if cm_moderated msg then ''m'' else ''y'') s,
           res\<lparr>cr_created := 1\<rparr>)
      | Rmgroup \<Rightarrow> (disable_control_group now (cm_group msg) s, res\<lparr>cr_disabled := 1\<rparr>)
      | Checkgroups \<Rightarrow>
          (case apply_checkgroups now msg s of (s', c, u, d) \<Rightarrow>
             (s', res\<lparr>cr_detail := ''checkgroups'', cr_created := c, cr_updated := u, cr_disabled := d\<rparr>)))"

definition builtin_groups :: "(string \<times> string) list" where
  "builtin_groups =
     [(''control'', ''Control messages (general)''), (''control.cancel'', ''Cancel control messages''),
      (''control.newgroup'', ''Newgroup control messages''), (''control.rmgroup'', ''Rmgroup control messages''),
      (''control.checkgroups'', ''Checkgroups control messages'')]"

definition seed_builtin_groups :: "int \<Rightarrow> memory \<Rightarrow> memory" where
  "seed_builtin_groups now s =
     fold (\<lambda>(name, desc) s. if get_group name s \<noteq> None then s else ensure_group now name desc ''y'' s)
       builtin_groups s"

section \<open>What a message does to the groups\<close>

definition group_state :: "memory \<Rightarrow> string \<Rightarrow> (string \<times> string) option" where
  "group_state s g = map_option (\<lambda>mg. (g_status mg, g_origin mg)) (grp s g)"

lemma apply_control_group_state [views]:
  "group_state (apply_control_group now n desc st s) h =
     (if h = n then Some (default_status st, ''control'') else group_state s h)"
  by (auto simp: group_state_def apply_control_group_def Let_def fresh_group_def views split: option.split)

lemma disable_control_group_state [views]:
  "group_state (disable_control_group now n s) h = (if h = n then Some (''n'', ''control'') else group_state s h)"
  by (auto simp: group_state_def disable_control_group_def fresh_group_def views split: option.split)

definition listed :: "group_info list \<Rightarrow> string \<Rightarrow> string option" where
  "listed es h = map_of (rev (map (\<lambda>e. (g_name e, g_status e)) es)) h"

lemma listed_simps: "listed [] h = None"
  "listed (e # es) h = (case listed es h of None \<Rightarrow> if h = g_name e then Some (g_status e) else None | Some st \<Rightarrow> Some st)"
  by (auto simp: listed_def map_add_def split: option.split)

lemma listed_None: "listed es h = None \<longleftrightarrow> h \<notin> set (map g_name es)"
  by (auto simp: listed_def map_of_eq_None_iff image_image)

lemma apply_entries_state [views]:
  "group_state (fst (fold (apply_entry now) es (s, c, u))) h =
     (case listed es h of Some st \<Rightarrow> Some (default_status st, ''control'') | None \<Rightarrow> group_state s h)"
proof (induction es arbitrary: s c u)
  case (Cons e es)
  obtain c' u' where e: "apply_entry now e (s, c, u)
      = (apply_control_group now (g_name e) (g_desc e) (g_status e) s, c', u')"
    by (cases "get_group (g_name e) s") (auto simp: apply_entry_def Let_def)
  show ?case by (simp add: e Cons.IH listed_simps views split: option.split)
qed (simp add: listed_simps)

lemma disable_groups_state:
  "group_state (fold (\<lambda>g. disable_control_group now (g_name g)) gs s) h =
     (if h \<in> g_name ` set gs then Some (''n'', ''control'') else group_state s h)"
  by (induction gs arbitrary: s) (auto simp: views)

lemma apply_entries_inv: "store_inv s \<Longrightarrow> store_inv (fst (fold (apply_entry now) es (s, c, u)))"
proof (induction es arbitrary: s c u)
  case (Cons e es)
  have "\<exists>c' u'. apply_entry now e (s, c, u) = (apply_control_group now (g_name e) (g_desc e) (g_status e) s, c', u')"
    by (auto simp: apply_entry_def Let_def)
  then show ?case using Cons by (auto simp: apply_control_group_inv)
qed simp

lemma disable_groups_inv: "store_inv s \<Longrightarrow> store_inv (fold (\<lambda>g. disable_control_group now (g_name g)) gs s)"
  by (induction gs arbitrary: s) (simp_all add: disable_control_group_inv)

lemma apply_control_inv [wf_rules]: "store_inv s \<Longrightarrow> store_inv (fst (apply_control now msg s))"
  using apply_entries_inv[of s now "cm_entries msg" 0 0] disable_groups_inv
  by (auto simp: apply_control_def apply_checkgroups_def Let_def apply_control_group_inv disable_control_group_inv
      split: control_kind.split prod.split)

lemma values_of_groups:
  assumes "store_inv s"
  shows "g \<in> set (list_groups [] s) \<longleftrightarrow> (\<exists>mg. grp s (g_name g) = Some mg \<and> g = group_info.truncate mg)"
proof -
  have k: "distinct (map fst (m_groups s))" "\<And>k mg. grp s k = Some mg \<Longrightarrow> g_name mg = k"
    using store_invD(5,6)[OF assms] by (auto simp: names_good_def keys_good_def)
  have "g \<in> set (list_groups [] s) \<longleftrightarrow> (\<exists>k mg. (k, mg) \<in> set (m_groups s) \<and> g = group_info.truncate mg)"
    by (force simp: list_groups_def group_values_def)
  also have "\<dots> \<longleftrightarrow> (\<exists>k mg. grp s k = Some mg \<and> g = group_info.truncate mg)"
    using k(1) by (simp add: grp_def map_of_Some_in)
  also have "\<dots> \<longleftrightarrow> (\<exists>mg. grp s (g_name g) = Some mg \<and> g = group_info.truncate mg)"
    using k(2) by (auto simp: group_info.truncate_def)
  finally show ?thesis .
qed

definition disabled_by :: "string list \<Rightarrow> string list \<Rightarrow> (string \<times> string) option \<Rightarrow> string \<Rightarrow> bool" where
  "disabled_by want hier st h \<longleftrightarrow> want \<noteq> [] \<and> h \<notin> set want \<and> in_hierarchy h hier
     \<and> (case st of None \<Rightarrow> False | Some (status, origin) \<Rightarrow> status \<noteq> ''n'' \<and> origin \<in> {''isc'', ''control'', []})"

lemma may_disable_names:
  assumes "store_inv s"
  shows "h \<in> g_name ` set (filter (may_disable want hier) (list_groups [] s))
     \<longleftrightarrow> h \<notin> set want \<and> in_hierarchy h hier
       \<and> (case group_state s h of None \<Rightarrow> False | Some (status, origin) \<Rightarrow> status \<noteq> ''n'' \<and> origin \<in> {''isc'', ''control'', []})"
  (is "?l \<longleftrightarrow> ?r")
proof
  assume ?l
  then obtain g mg where g: "h = g_name g" "may_disable want hier g" "grp s (g_name g) = Some mg" "g = group_info.truncate mg"
    using values_of_groups[OF assms] by auto
  then show ?r by (auto simp: may_disable_def group_state_def group_info.truncate_def)
next
  assume r: ?r
  then obtain mg where mg: "grp s h = Some mg" "g_status mg \<noteq> ''n''" "g_origin mg \<in> {''isc'', ''control'', []}"
    by (auto simp: group_state_def split: option.splits)
  then have n: "g_name mg = h" using store_invD(5)[OF assms] by (auto simp: names_good_def)
  then have "group_info.truncate mg \<in> set (list_groups [] s)"
    using values_of_groups[OF assms, of "group_info.truncate mg"] mg(1) by (simp add: group_info.truncate_def)
  moreover have "may_disable want hier (group_info.truncate mg)" "h = g_name (group_info.truncate mg)"
    using r mg n by (auto simp: may_disable_def group_info.truncate_def)
  ultimately show ?l by auto
qed

definition affected_hierarchy :: "control_message \<Rightarrow> string list" where
  "affected_hierarchy msg =
     (if cm_hierarchy msg = [] then infer_hierarchy (cm_entries msg) else cm_hierarchy msg)"

section \<open>Properties\<close>

text \<open>C12: a checkgroups message makes the list of groups agree with it and touches nothing else: a
  listed group exists with the listed status (the last line for it counts) and belongs to the
  control messages; an unlisted group is closed exactly when the message lists anything, the group
  lies in its hierarchy, is open, and came from the ISC list or an earlier message, so a group of
  the local administrator is left alone; and the store stays well formed.\<close>

theorem checkgroups_exact:
  assumes "store_inv s" and "apply_checkgroups now msg s = (s', counts)"
  shows "store_inv s' \<and> group_state s' h =
     (case listed (cm_entries msg) h of
        Some st \<Rightarrow> Some (default_status st, ''control'')
      | None \<Rightarrow>
          if disabled_by (map g_name (cm_entries msg)) (affected_hierarchy msg) (group_state s h) h
          then Some (''n'', ''control'') else group_state s h)"
proof -
  let ?want = "map g_name (cm_entries msg)" and ?hier = "affected_hierarchy msg"
  obtain s1 c u where s1: "fold (apply_entry now) (cm_entries msg) (s, 0, 0) = (s1, c, u)" by (cases rule: prod_cases3)
  have inv1: "store_inv s1" using apply_entries_inv[OF assms(1), of now "cm_entries msg" 0 0] s1 by simp
  have st1: "group_state s1 k = (case listed (cm_entries msg) k of Some st \<Rightarrow> Some (default_status st, ''control'')
      | None \<Rightarrow> group_state s k)" for k
    using apply_entries_state[of now "cm_entries msg" s 0 0 k] s1 by simp
  have hier: "(if cm_hierarchy msg = [] \<and> cm_entries msg \<noteq> [] then infer_hierarchy (cm_entries msg) else cm_hierarchy msg)
      = ?hier"
    by (auto simp: affected_hierarchy_def infer_hierarchy_def)
  have in_h: "in_hierarchy k hs \<Longrightarrow> hs \<noteq> []" for k hs by (auto simp: in_hierarchy_def)
  show ?thesis
  proof (cases "?hier = [] \<or> ?want = []")
    case True
    then have "s' = s1" using assms(2) s1 unfolding apply_checkgroups_def hier by (simp add: hier)
    then show ?thesis using inv1 st1 True in_h by (auto simp: disabled_by_def in_hierarchy_def split: option.split)
  next
    case False
    let ?out = "filter (may_disable ?want ?hier) (list_groups [] s1)"
    have s': "s' = fold (\<lambda>g. disable_control_group now (g_name g)) ?out s1"
      using assms(2) s1 False unfolding apply_checkgroups_def by (simp add: hier Let_def)
    have "h \<in> g_name ` set ?out \<longleftrightarrow> listed (cm_entries msg) h = None \<and> disabled_by ?want ?hier (group_state s h) h"
      using False listed_None[of "cm_entries msg" h] unfolding may_disable_names[OF inv1] disabled_by_def st1
      by (cases "listed (cm_entries msg) h") (simp_all del: set_map)
    then show ?thesis
      unfolding s' disable_groups_state st1 using disable_groups_inv[OF inv1] by (auto split: option.split)
  qed
qed

theorem checkgroups_exact_witness:
  "group_state (fst (apply_checkgroups 5 \<lparr>cm_kind = Checkgroups, cm_group = [], cm_moderated = False, cm_desc = [],
     cm_hierarchy = [''a''], cm_entries = [control_entry ''a.b'' [] ''m'']\<rparr> new_memory)) ''a.b'' = Some (''m'', ''control'')"
proof -
  let ?m = "\<lparr>cm_kind = Checkgroups, cm_group = [], cm_moderated = False, cm_desc = [],
     cm_hierarchy = [''a''], cm_entries = [control_entry ''a.b'' [] ''m'']\<rparr>"
  obtain s' c where r: "apply_checkgroups 5 ?m new_memory = (s', c)" by (cases "apply_checkgroups 5 ?m new_memory")
  then show ?thesis
    using checkgroups_exact[OF new_memory_inv r, of "''a.b''"]
    by (simp add: listed_def control_entry_def default_status_def)
qed

text \<open>The protection of local groups does not last: a message that lists a local group makes it a
  control group, and the next message of that hierarchy that leaves it out closes it.\<close>

theorem local_group_closed_by_two_messages:
  assumes "store_inv s" and "apply_checkgroups now msg s = (s1, c)" and "apply_checkgroups later msg2 s1 = (s2, d)"
    and "listed (cm_entries msg) h = Some ''y''" and "listed (cm_entries msg2) h = None" and "cm_entries msg2 \<noteq> []"
    and "in_hierarchy h (affected_hierarchy msg2)"
  shows "group_state s2 h = Some (''n'', ''control'')"
proof -
  have 1: "store_inv s1" "group_state s1 h = Some (''y'', ''control'')"
    using checkgroups_exact[OF assms(1,2), of h] assms(4) by (simp_all add: default_status_def)
  have "h \<notin> set (map g_name (cm_entries msg2))" using assms(5) unfolding listed_None .
  then show ?thesis
    using checkgroups_exact[OF 1(1) assms(3), of h] assms(5-7) 1(2) by (simp add: disabled_by_def)
qed

definition demo_checkgroups :: "string \<Rightarrow> control_message" where
  "demo_checkgroups g = \<lparr>cm_kind = Checkgroups, cm_group = [], cm_moderated = False, cm_desc = [],
     cm_hierarchy = [''l''], cm_entries = [control_entry g [] ''y'']\<rparr>"

theorem local_group_closed_by_two_messages_witness:
  "group_state (fst (apply_checkgroups 6 (demo_checkgroups ''l.u'')
     (fst (apply_checkgroups 5 (demo_checkgroups ''l.t'') (ensure_group 0 ''l.t'' [] ''y'' new_memory))))) ''l.t''
   = Some (''n'', ''control'')"
proof -
  let ?s = "ensure_group 0 ''l.t'' [] ''y'' new_memory"
  obtain s1 c where 1: "apply_checkgroups 5 (demo_checkgroups ''l.t'') ?s = (s1, c)"
    by (cases "apply_checkgroups 5 (demo_checkgroups ''l.t'') ?s")
  obtain s2 d where 2: "apply_checkgroups 6 (demo_checkgroups ''l.u'') s1 = (s2, d)"
    by (cases "apply_checkgroups 6 (demo_checkgroups ''l.u'') s1")
  have "trim_space ''l'' = ''l''" by code_simp
  then have h: "in_hierarchy ''l.t'' (affected_hierarchy (demo_checkgroups ''l.u''))"
    by (simp add: in_hierarchy_def affected_hierarchy_def demo_checkgroups_def in_pattern_def Let_def has_suffix_def)
  have "store_inv ?s" by (intro ensure_group_inv new_memory_inv)
  from local_group_closed_by_two_messages[OF this 1 2 _ _ _ h]
  show ?thesis using 1 2 by (simp add: listed_def demo_checkgroups_def control_entry_def)
qed

end
