(* ===== verification/StoreLaws.thy ===== *)
theory StoreLaws
  imports StoreInv
begin

text \<open>
  What the article store promises its clients: the permanence of the history of Message-IDs (as
  an interface, which the transfer paths of the session use), what posting returns, and what the
  readers see. The last section holds the numbering behaviour that readers would not expect.
\<close>

section \<open>The history of Message-IDs\<close>

text \<open>
  The contract of a store with a history: a Message-ID that was accepted, remembered or
  cancelled is refused from then on.
\<close>

locale message_history =
  fixes has :: "'s \<Rightarrow> string \<Rightarrow> bool"
    and id_of :: "'a \<Rightarrow> string"
    and post :: "'a \<Rightarrow> 's \<Rightarrow> 's \<times> (store_error + 'r)"
    and remember :: "string \<Rightarrow> 's \<Rightarrow> 's"
    and cancel :: "string \<Rightarrow> 's \<Rightarrow> 's \<times> bool"
  assumes post_known: "has s (id_of a) \<Longrightarrow> post a s = (s, Inl Duplicate_ID)"
    and post_has: "post a s = (s', Inr r) \<Longrightarrow> has s' m \<longleftrightarrow> m = id_of a \<or> has s m"
    and post_refused: "post a s = (s', Inl e) \<Longrightarrow> s' = s"
    and remember_has: "has (remember m s) k \<longleftrightarrow> k = m \<or> has s k"
    and cancel_has: "has (fst (cancel m s)) k \<longleftrightarrow> k = m \<or> has s k"
begin

lemma post_mono: "has s m \<Longrightarrow> has (fst (post a s)) m"
  by (cases "post a s"; cases "snd (post a s)") (auto simp: post_has dest: post_refused)

lemma post_twice: "post a s = (s', Inr r) \<Longrightarrow> id_of b = id_of a \<Longrightarrow> post b s' = (s', Inl Duplicate_ID)"
  using post_has[of a s s' r] by (intro post_known) simp

lemma cancel_blocks: "id_of a = m \<Longrightarrow> post a (fst (cancel m s)) = (fst (cancel m s), Inl Duplicate_ID)"
  by (intro post_known) (simp add: cancel_has)

lemma remember_blocks: "id_of a = m \<Longrightarrow> post a (remember m s) = (remember m s, Inl Duplicate_ID)"
  by (intro post_known) (simp add: remember_has)

lemma refused_stays_refused: "has s (id_of a) \<Longrightarrow> snd (post a (fst (post b s))) = Inl Duplicate_ID"
  using post_mono[of s "id_of a" b] by (simp add: post_known)

end

lemma usable_groups_empty: "usable_groups s [] = []"
  by (simp add: usable_groups_def)

lemma file_in_history: "in_history (fst (file_in r g st)) = in_history (fst st)"
  by (cases st) (auto simp: file_in_def Let_def views split: option.split)

lemma fold_file_in_history: "in_history (fst (fold (file_in r) gs st)) = in_history (fst st)"
  by (induction gs arbitrary: st) (simp_all add: file_in_history)

lemma file_in_history_alist: "m_history (fst (file_in r g st)) = m_history (fst st)"
  by (cases st) (auto simp: file_in_def Let_def views split: option.split)

lemma fold_file_in_history_alist: "m_history (fst (fold (file_in r) gs st)) = m_history (fst st)"
  by (induction gs arbitrary: st) (simp_all add: file_in_history_alist)

lemma post_article_cases:
  obtains (dup) "in_history s (n_msgid n)" "post_article now n s = (s, Inl Duplicate_ID)"
  | (none) "\<not> in_history s (n_msgid n)" "usable_groups s (n_groups n) = []"
      "post_article now n s = (s, Inl No_Group)"
  | (ok) r s' where "\<not> in_history s (n_msgid n)" "usable_groups s (n_groups n) \<noteq> []"
      "post_article now n s = (s', Inr r)"
proof -
  have "\<exists>r s'. post_article now n s = (s', Inr r)"
    if "\<not> in_history s (n_msgid n)" "usable_groups s (n_groups n) \<noteq> []"
    using that by (simp add: post_article_def Let_def case_prod_beta)
  moreover have "post_article now n s = (s, Inl Duplicate_ID)" if "in_history s (n_msgid n)"
    using that by (simp add: post_article_def)
  moreover have "post_article now n s = (s, Inl No_Group)"
    if "\<not> in_history s (n_msgid n)" "usable_groups s (n_groups n) = []"
    using that by (simp add: post_article_def)
  ultimately show thesis using dup none ok by blast
qed

lemma post_article_history:
  assumes "post_article now n s = (s', Inr r)"
  shows "in_history s' m \<longleftrightarrow> m = n_msgid n \<or> in_history s m"
proof -
  let ?s1 = "put_obj (m_next_ref s) (fresh_art now n) (s\<lparr>m_next_ref := m_next_ref s + 1\<rparr>)"
  obtain s2 nums parts where f:
    "fold (file_in (m_next_ref s)) (usable_groups s (n_groups n)) (?s1, [], []) = (s2, nums, parts)"
    by (metis prod_cases3)
  have h: "m_history s2 = m_history s"
    using fold_file_in_history_alist[of "m_next_ref s" "usable_groups s (n_groups n)" "(?s1, [], [])"] f
    by (simp add: views)
  have "m_history s' = AList.update (n_msgid n) now (m_history s)"
    using assms f h
    by (auto simp: post_article_def Let_def views split: if_splits option.splits)
  then show ?thesis by (simp add: in_history_def)
qed

lemma delete_article_history: "m_history (fst (delete_article m s)) = m_history s"
proof -
  have "m_history (fold unfile_from gns s) = m_history s" for gns
    by (induction gns arbitrary: s) (auto simp: unfile_from_def Let_def views split: option.split prod.split)
  then show ?thesis by (simp add: delete_article_def Let_def split: option.split)
qed

interpretation hist: message_history in_history n_msgid "post_article now" "remember_message_id now"
  "cancel_message_id now" for now
proof unfold_locales
  show "in_history s (n_msgid a) \<Longrightarrow> post_article now a s = (s, Inl Duplicate_ID)" for s a
    by (simp add: post_article_def)
  show "post_article now a s = (s', Inr r) \<Longrightarrow> in_history s' m \<longleftrightarrow> m = n_msgid a \<or> in_history s m" for a s s' r m
    by (rule post_article_history)
  show "post_article now a s = (s', Inl e) \<Longrightarrow> s' = s" for a s s' e
    by (rule post_article_cases[of s a now]) auto
  show "in_history (remember_message_id now m s) k \<longleftrightarrow> k = m \<or> in_history s k" for m s k
    by (auto simp: remember_message_id_def views)
  show "in_history (fst (cancel_message_id now m s)) k \<longleftrightarrow> k = m \<or> in_history s k" for m s k
    by (auto simp: cancel_message_id_def delete_article_history in_history_def)
qed

section \<open>Reading\<close>

lemma those_map_Some: "(\<forall>x \<in> set xs. f x \<noteq> None) \<Longrightarrow> those (map f xs) = Some (map (the \<circ> f) xs)"
  by (induction xs) auto

lemma art_at_some:
  assumes "store_inv s" "grp s g = Some mg" "n \<in> set (g_nums mg)"
  obtains a m where "art_at s g n = Some a" "art_ref s m \<noteq> None" "art_good m a" "map_of (a_groups a) g = Some n"
proof -
  note d = store_invD[OF assms(1)]
  note f = d(1)[unfolded filing_def]
  obtain b where b: "numbered s g = Some b" using filed_dom[OF f, of g] assms(2) by (metis not_None_eq)
  obtain r where r: "b n = Some r" using filed_nums[OF f assms(2) b] assms(3) by (metis domIff not_None_eq)
  then have l: "live (art_ref s) r" "groups_of s r g = Some n" using filed_lookup[OF f assms(2) b] by blast+
  obtain a m where a: "obj s r = Some a" "art_ref s m = Some r" "art_good m a" using live_obj[OF d(2) l(1)] by blast
  have "art_at s g n = Some a" using b r a by (simp add: art_at_def num_ref_numbered)
  moreover have "map_of (a_groups a) g = Some n" using l(2) a(1) by (simp add: groups_of_def)
  ultimately show thesis using that[of a m] a by simp
qed

lemma art_at_not_None: "store_inv s \<Longrightarrow> grp s g = Some mg \<Longrightarrow> n \<in> set (g_nums mg) \<Longrightarrow> art_at s g n \<noteq> None"
  by (metis art_at_some option.distinct(1))

lemma overview_some:
  assumes "store_inv s" "grp s g = Some mg"
  shows "\<exists>rows. overview g lo hi s = Some rows \<and> map o_num rows = numbers_in lo hi mg"
proof -
  let ?f = "\<lambda>n. map_option (overview_of n) (art_at s g n)"
  have "\<forall>n \<in> set (numbers_in lo hi mg). art_at s g n \<noteq> None"
    using art_at_not_None[OF assms] by (simp add: numbers_in_def)
  then have t: "those (map ?f (numbers_in lo hi mg)) = Some (map (the \<circ> ?f) (numbers_in lo hi mg))"
    by (intro those_map_Some) auto
  moreover have "map o_num (map (the \<circ> ?f) (numbers_in lo hi mg)) = numbers_in lo hi mg"
    unfolding map_map using \<open>\<forall>n \<in> _. _\<close> by (intro map_idI) (auto simp: overview_of_def)
  ultimately show ?thesis using assms(2) by (simp add: overview_def)
qed

lemma header_rows_some:
  assumes "store_inv s" "grp s g = Some mg"
  shows "header_rows g lo hi h s \<noteq> None"
proof -
  have "\<forall>n \<in> set (numbers_in lo hi mg). map_option (header_row h n) (art_at s g n) \<noteq> None"
    using art_at_not_None[OF assms] by (simp add: numbers_in_def)
  from those_map_Some[OF this] show ?thesis using assms(2) by (simp add: header_rows_def)
qed

lemma articles_for_group_some:
  assumes "store_inv s" shows "articles_for_group g s \<noteq> None"
proof (cases "grp s g")
  case (Some mg)
  have "\<forall>n \<in> set (g_nums mg). map_option (numbered_copy n) (art_at s g n) \<noteq> None"
    using art_at_not_None[OF assms Some] by simp
  from those_map_Some[OF this] show ?thesis using Some by (simp add: articles_for_group_def)
qed (simp add: articles_for_group_def)

lemma numbered_copy_num [simp]: "s_num (numbered_copy n a) = n"
  by (simp add: numbered_copy_def)

text \<open>\<open>Next\<close> and \<open>Prev\<close> give the neighbouring number.\<close>

definition next_number :: "int list \<Rightarrow> int \<Rightarrow> int option" where
  "next_number ns cur = (if filter (\<lambda>n. n > cur) ns = [] then None else Some (Min {n \<in> set ns. n > cur}))"

definition prev_number :: "int list \<Rightarrow> int \<Rightarrow> int option" where
  "prev_number ns cur = (if filter (\<lambda>n. n < cur) ns = [] then None else Some (Max {n \<in> set ns. n < cur}))"

lemma find_next_number: "sorted_wrt (<) ns \<Longrightarrow> find (\<lambda>n. n > cur) ns = next_number ns cur"
proof (induction ns)
  case (Cons n ns)
  show ?case
  proof (cases "n > cur")
    case True
    then have "{k \<in> set (n # ns). k > cur} = set (n # ns)" using Cons.prems by auto
    moreover have "Min (set (n # ns)) = n" using Cons.prems by (intro Min_eqI) auto
    ultimately show ?thesis using True by (simp add: next_number_def)
  next
    case False
    then have "{k \<in> set (n # ns). k > cur} = {k \<in> set ns. k > cur}" by auto
    then show ?thesis using Cons False by (simp add: next_number_def)
  qed
qed (simp add: next_number_def)

lemma last_prev_number:
  assumes "sorted_wrt (<) ns" "filter (\<lambda>n. n < cur) ns \<noteq> []"
  shows "prev_number ns cur = Some (last (filter (\<lambda>n. n < cur) ns))"
proof -
  have "sorted_wrt (<) (filter (\<lambda>n. n < cur) ns)" using assms(1) by (rule sorted_wrt_filter)
  then have "Max (set (filter (\<lambda>n. n < cur) ns)) = last (filter (\<lambda>n. n < cur) ns)"
    using assms(2) sorted_wrt_last last_in_set by (intro Max_eqI) blast+
  then show ?thesis using assms(2) by (simp add: prev_number_def)
qed

lemma next_article_some:
  assumes "store_inv s" "grp s g = Some mg"
  shows "map_option (map_option s_num) (next_article g cur s) = Some (next_number (g_nums mg) cur)"
proof -
  have f: "find (\<lambda>n. n > cur) (g_nums mg) = next_number (g_nums mg) cur"
    using filed_group_ok[OF store_invD(1)[OF assms(1), unfolded filing_def] assms(2)]
    by (intro find_next_number) (simp add: group_ok_def)
  show ?thesis
  proof (cases "next_number (g_nums mg) cur")
    case (Some n)
    then have "n \<in> set (g_nums mg)" using find_Some_in[OF f[unfolded Some]] by simp
    then obtain a where "art_at s g n = Some a" using art_at_not_None[OF assms] by blast
    then show ?thesis using assms(2) Some f by (simp add: next_article_def)
  qed (use f assms(2) in \<open>simp add: next_article_def\<close>)
qed

lemma prev_article_some:
  assumes "store_inv s" "grp s g = Some mg"
  shows "map_option (map_option s_num) (prev_article g cur s) = Some (prev_number (g_nums mg) cur)"
proof -
  let ?ns = "filter (\<lambda>n. n < cur) (g_nums mg)" and ?f = "\<lambda>n. map_option (numbered_copy n) (art_at s g n)"
  have a: "\<forall>n \<in> set ?ns. art_at s g n \<noteq> None" using art_at_not_None[OF assms] by simp
  then have t: "those (map ?f ?ns) = Some (map (the \<circ> ?f) ?ns)" by (intro those_map_Some) auto
  have st: "sorted_wrt (<) (g_nums mg)"
    using filed_group_ok[OF store_invD(1)[OF assms(1), unfolded filing_def] assms(2)] by (simp add: group_ok_def)
  show ?thesis
  proof (cases "?ns = []")
    case True
    then have "prev_number (g_nums mg) cur = None" by (simp add: prev_number_def)
    then show ?thesis using t True assms(2) by (simp add: prev_article_def)
  next
    case False
    then obtain c cs where c: "map (the \<circ> ?f) ?ns = c # cs" by (cases ?ns) auto
    have "s_num (last (c # cs)) = last ?ns"
      using False a last_in_set[OF False] by (auto simp flip: c simp: last_map)
    then show ?thesis
      using t c assms(2) last_prev_number[OF st False] by (simp add: prev_article_def)
  qed
qed

section \<open>Properties\<close>

text \<open>C8: a successful post is filed, under the next number, in exactly the usable groups: the
  numbers returned are those of the groups, each number reads back the posted article, other
  groups are untouched, and the article is stored under its Message-ID.\<close>

theorem post_files_article:
  assumes "store_inv s" "distinct (n_groups n)" "post_article now n s = (s', Inr r)"
  shows "get_by_msgid (n_msgid n) s' \<noteq> None \<and> in_history s' (n_msgid n) \<and> pr_msgid r = n_msgid n
    \<and> (\<forall>g. if g \<in> set (usable_groups s (n_groups n))
        then map_of (pr_numbers r) g = Some (g_high (the (grp s g)) + 1)
          \<and> grp s' g = map_option take_number (grp s g)
          \<and> map_option s_body (get_by_number g (g_high (the (grp s g)) + 1) s') = Some (n_body n)
          \<and> map_option s_msgid (get_by_number g (g_high (the (grp s g)) + 1) s') = Some (n_msgid n)
        else map_of (pr_numbers r) g = None \<and> grp s' g = grp s g)"
proof -
  have ok: "\<not> in_history s (n_msgid n)" "usable_groups s (n_groups n) \<noteq> []"
    using assms(3) by (auto simp: post_article_def Let_def split: if_splits)
  obtain s2 nums parts a where p: "posting (post_start now n s) ((art_ref s)(n_msgid n \<mapsto> m_next_ref s)) (m_next_ref s) s2"
    "\<And>g. groups_of s2 (m_next_ref s) g =
       (if g \<in> set (usable_groups s (n_groups n)) then Some (g_high (take_number (the (grp s g)))) else None)"
    "map_of nums = groups_of s2 (m_next_ref s)"
    "\<And>g. grp s2 g =
       (if g \<in> set (usable_groups s (n_groups n)) then map_option take_number (grp s g) else grp s g)"
    "obj s2 (m_next_ref s) = Some a" "stored_article.truncate a = stored_article.truncate (fresh_art now n)"
    "s_msgid a = n_msgid n" "distinct (map fst (a_groups a))"
    "post_article now n s = (post_end now n (m_next_ref s) parts a s2,
       Inr \<lparr>pr_msgid = n_msgid n, pr_xref = xref_text (n_xref n) parts, pr_numbers = nums\<rparr>)"
    by (rule post_loop[OF assms(1,2) ok, of now]) (rule that; assumption)
  let ?r = "m_next_ref s" and ?a = "a\<lparr>s_xref := xref_text (n_xref n) parts\<rparr>"
  note v = post_end_views[OF p(1,5), of parts]
  have e: "s' = post_end now n ?r parts a s2" "pr_numbers r = nums" "pr_msgid r = n_msgid n"
    using p(9) assms(3) by auto
  have o: "obj s' ?r = Some ?a" by (simp add: e v)
  have b: "s_body ?a = n_body n"
    using arg_cong[OF p(6), of s_body] by (simp add: stored_article.truncate_def fresh_art_def)
  have filed: "num_ref s' g k = Some ?r" if g: "groups_of s2 ?r g = Some k" for g k
  proof -
    have f: "filed (art_ref s') (groups_of s') (grp s') (numbered s')"
      using p(1) by (simp add: e v posting_def)
    have l: "live (art_ref s') ?r" "groups_of s' ?r g = Some k" using g by (auto simp: live_def e v)
    obtain b where "numbered s' g = Some b" "b k = Some ?r" using filed_number[OF f l] by blast
    then show ?thesis by (simp add: num_ref_numbered)
  qed
  have "if g \<in> set (usable_groups s (n_groups n))
        then map_of (pr_numbers r) g = Some (g_high (the (grp s g)) + 1)
          \<and> grp s' g = map_option take_number (grp s g)
          \<and> map_option s_body (get_by_number g (g_high (the (grp s g)) + 1) s') = Some (n_body n)
          \<and> map_option s_msgid (get_by_number g (g_high (the (grp s g)) + 1) s') = Some (n_msgid n)
        else map_of (pr_numbers r) g = None \<and> grp s' g = grp s g" for g
  proof (cases "g \<in> set (usable_groups s (n_groups n))")
    case True
    have h: "g_high (take_number (the (grp s g))) = g_high (the (grp s g)) + 1"
      by (simp add: take_number_def Let_def)
    then have "groups_of s2 ?r g = Some (g_high (the (grp s g)) + 1)" using p(2)[of g] True by simp
    then have "art_at s' g (g_high (the (grp s g)) + 1) = Some ?a" using filed o by (simp add: art_at_def)
    then show ?thesis
      using True p(2)[of g] p(3,7) p(4)[of g] b h
      by (simp add: e v get_by_number_def numbered_copy_def stored_article.truncate_def)
  next
    case False
    then show ?thesis using p(2)[of g] p(3) p(4)[of g] by (simp add: e v)
  qed
  moreover have "get_by_msgid (n_msgid n) s' \<noteq> None" using o by (simp add: get_by_msgid_def e v)
  moreover have "in_history s' (n_msgid n)" by (simp add: e v)
  ultimately show ?thesis using e by blast
qed

definition demo_group_store :: memory where
  "demo_group_store = ensure_group 0 ''a'' ''A'' ''y'' (ensure_group 0 ''b'' [] ''n'' new_memory)"

definition demo_article :: "string \<Rightarrow> string list \<Rightarrow> new_article" where
  "demo_article m gs = \<lparr>n_headers = [], n_body = ''x'', n_msgid = m, n_subject = ''s'', n_from = ''f'',
     n_date = ''d'', n_refs = [], n_xref = ''h'', n_bytes = 1, n_lines = 1, n_groups = gs, n_binary = False\<rparr>"

lemma demo_group_store_inv: "store_inv demo_group_store"
  unfolding demo_group_store_def by (intro ensure_group_inv new_memory_inv)

theorem post_files_article_witness:
  "\<exists>s' r. post_article 5 (demo_article ''<1@x>'' [''a'', ''b'', ''c'']) demo_group_store = (s', Inr r)
     \<and> map_of (pr_numbers r) ''a'' = Some 1 \<and> map_of (pr_numbers r) ''b'' = None
     \<and> get_by_msgid ''<1@x>'' s' \<noteq> None"
proof -
  let ?n = "demo_article ''<1@x>'' [''a'', ''b'', ''c'']"
  have u: "usable_groups demo_group_store (n_groups ?n) = [''a'']" "g_high (the (grp demo_group_store ''a'')) = 0"
    "\<not> in_history demo_group_store ''<1@x>''" "distinct (n_groups ?n)"
    by code_simp+
  obtain s' r where "post_article 5 ?n demo_group_store = (s', Inr r)"
    using u by (cases rule: post_article_cases[of demo_group_store ?n 5]) (auto simp: demo_article_def)
  then show ?thesis
    using post_files_article[OF demo_group_store_inv u(4), of 5 s' r] u(1,2)
    by (auto simp: demo_article_def)
qed

text \<open>Once a Message-ID has been accepted, remembered or cancelled, every later post of it is
  refused as a duplicate and leaves the store as it is.\<close>

theorem known_message_refused:
  assumes "in_history s m
    \<or> s = remember_message_id t m s0 \<or> s = fst (cancel_message_id t m s0)
    \<or> s = fst (post_article t a0 s0) \<and> snd (post_article t a0 s0) = Inr r \<and> n_msgid a0 = m"
    and "n_msgid a = m"
  shows "post_article now a s = (s, Inl Duplicate_ID)"
proof -
  have "in_history s m"
    using assms(1)
  proof (elim disjE)
    assume "s = remember_message_id t m s0" then show ?thesis by (simp add: hist.remember_has)
  next
    assume "s = fst (cancel_message_id t m s0)" then show ?thesis by (simp add: hist.cancel_has)
  next
    assume "s = fst (post_article t a0 s0) \<and> snd (post_article t a0 s0) = Inr r \<and> n_msgid a0 = m"
    then show ?thesis using hist.post_has[of t a0 s0 s r m] by (metis prod.collapse)
  qed
  then show ?thesis using assms(2) hist.post_known by blast
qed

theorem known_message_refused_witness:
  "post_article 9 (demo_article ''<1@x>'' [''a'']) (fst (cancel_message_id 3 ''<1@x>'' demo_group_store))
     = (fst (cancel_message_id 3 ''<1@x>'' demo_group_store), Inl Duplicate_ID)"
  by (rule known_message_refused[where m = "''<1@x>''" and t = 3 and ?s0.0 = demo_group_store])
     (simp_all add: demo_article_def)

text \<open>C33: in a consistent store no reader dereferences a missing article: overview, header and
  listing calls return a row for every number in range, in order, and NEXT and LAST give the
  nearest greater and nearest smaller number, or none when there is none.\<close>

theorem readers_complete:
  assumes "store_inv s" "grp s g = Some mg"
  shows "map_option (map o_num) (overview g lo hi s) = Some (numbers_in lo hi mg)
    \<and> header_rows g lo hi h s \<noteq> None \<and> articles_for_group g s \<noteq> None
    \<and> map_option (map_option s_num) (next_article g cur s) = Some (next_number (g_nums mg) cur)
    \<and> map_option (map_option s_num) (prev_article g cur s) = Some (prev_number (g_nums mg) cur)"
  using overview_some[OF assms, of lo hi] header_rows_some[OF assms] articles_for_group_some[OF assms(1)]
    next_article_some[OF assms] prev_article_some[OF assms] by auto

theorem readers_complete_witness:
  "next_number [2, 5] 2 = Some (5 :: int)
   \<and> map_option (map o_num) (overview ''a'' 0 0 demo_group_store) = Some []"
proof -
  have "grp demo_group_store ''a'' = Some (the (grp demo_group_store ''a''))"
    "numbers_in 0 0 (the (grp demo_group_store ''a'')) = []" by code_simp+
  moreover have "{n \<in> set [2, 5 :: int]. 2 < n} = {5}" by auto
  ultimately show ?thesis
    using readers_complete[OF demo_group_store_inv, of "''a''" "the (grp demo_group_store ''a'')" 0 0]
    by (simp add: next_number_def)
qed

text \<open>Naming a group twice in Newsgroups files the article twice and remembers only the second
  number, so cancelling the article leaves a copy that can still be read by its first number.\<close>

theorem duplicate_group_survives_cancel:
  "let s1 = fst (post_article 5 (demo_article ''<1@x>'' [''a'', ''a'']) demo_group_store);
       s2 = fst (cancel_message_id 6 ''<1@x>'' s1)
   in map_option g_nums (grp s1 ''a'') = Some [1, 2] \<and> get_by_msgid ''<1@x>'' s2 = None
      \<and> map_option g_nums (grp s2 ''a'') = Some [1]
      \<and> map_option s_body (get_by_number ''a'' 1 s2) = Some ''x''"
  by code_simp

text \<open>When the only article of a group is cancelled, the low mark becomes the high mark and the
  next post does not raise it: the group then names a first article that does not exist.\<close>

theorem low_mark_without_article:
  "let s1 = fst (post_article 5 (demo_article ''<1@x>'' [''a'']) demo_group_store);
       s2 = fst (cancel_message_id 6 ''<1@x>'' s1);
       s3 = fst (post_article 7 (demo_article ''<2@x>'' [''a'']) s2)
   in map_option g_low (grp s3 ''a'') = Some 1 \<and> map_option g_high (grp s3 ''a'') = Some 2
      \<and> map_option g_count (grp s3 ''a'') = Some 1 \<and> get_by_number ''a'' 1 s3 = None"
  by code_simp

end
