(* ===== verification/StoreRetention.thy ===== *)
theory StoreRetention
  imports StoreLaws
begin

text \<open>
  Retention in the in-process store: \<open>memory_retention.go\<close>, \<open>memory_purge.go\<close>,
  \<open>unwanted.go\<close> and the list of ignored groups in \<open>memory.go\<close>. Binary floods shorten the
  retention of a group and open an alert, administrators resolve alerts, expiry removes old
  articles and old history, purging removes what is filed in ignored or blocked groups. The
  comparison of the float ratio is done in exact fractions; the text of a flood alert, which
  prints a duration and a float, is made by the argument \<open>flood_text\<close>.
\<close>

section \<open>Ignored and blocked groups\<close>

definition group_matches :: "string list \<Rightarrow> string list \<Rightarrow> bool" where
  "group_matches patterns gs =
     list_ex (\<lambda>p. trim_space p \<noteq> [] \<and> list_ex (wildmat_match (trim_space p)) gs) patterns"

definition list_group_bans :: "memory \<Rightarrow> string list" where
  "list_group_bans s = sort (m_bans s)"

definition add_group_ban :: "string \<Rightarrow> memory \<Rightarrow> memory \<times> store_error option" where
  "add_group_ban pattern0 s =
     (let pattern = trim_space pattern0 in
      if pattern = [] \<or> contains_any pattern ('' '' @ [TAB, CR, LF]) then (s, Some Invalid_Pattern)
      else if pattern \<in> set (m_bans s) then (s, None)
      else (s\<lparr>m_bans := m_bans s @ [pattern]\<rparr>, None))"

definition delete_group_ban :: "string \<Rightarrow> memory \<Rightarrow> memory \<times> store_error option" where
  "delete_group_ban pattern0 s =
     (let pattern = trim_space pattern0 in
      if pattern \<in> set (m_bans s) then (s\<lparr>m_bans := remove1 pattern (m_bans s)\<rparr>, None)
      else (s, Some Ban_Not_Found))"

definition groups_unwanted :: "string list \<Rightarrow> memory \<Rightarrow> bool" where
  "groups_unwanted gs s =
     (if gs = [] then False
      else if group_matches (list_group_bans s) gs then True
      else list_ex (\<lambda>g. case get_group g s of None \<Rightarrow> False | Some gi \<Rightarrow> g_ret_mode gi = ''blocked'') gs)"

section \<open>Alerts\<close>

definition ensure_retention_maps :: "memory \<Rightarrow> memory" where
  "ensure_retention_maps s = (if m_next_aid s = 0 then s\<lparr>m_next_aid := 1\<rparr> else s)"

definition open_flood :: "string \<Rightarrow> group_alert \<Rightarrow> bool" where
  "open_flood g al \<longleftrightarrow> al_group al = g \<and> al_kind al = ''binary_flood'' \<and> al_status al = ''open''"

fun update_first :: "('a \<Rightarrow> bool) \<Rightarrow> ('a \<Rightarrow> 'a) \<Rightarrow> 'a list \<Rightarrow> 'a list" where
  "update_first P f [] = []"
| "update_first P f (x # xs) = (if P x then f x # xs else x # update_first P f xs)"

definition ensure_open_alert :: "int \<Rightarrow> string \<Rightarrow> string \<Rightarrow> memory \<Rightarrow> memory" where
  "ensure_open_alert now g detail s =
     (if list_ex (open_flood g) (m_alerts s)
      then s\<lparr>m_alerts := update_first (open_flood g) (\<lambda>al. al\<lparr>al_detail := detail\<rparr>) (m_alerts s)\<rparr>
      else s\<lparr>m_alerts := m_alerts s @ [\<lparr>al_id = m_next_aid s, al_group = g, al_kind = ''binary_flood'',
               al_detail = detail, al_status = ''open'', al_created = now\<rparr>],
             m_next_aid := m_next_aid s + 1\<rparr>)"

definition list_group_alerts :: "string \<Rightarrow> memory \<Rightarrow> group_alert list" where
  "list_group_alerts status s =
     filter (\<lambda>al. \<not> (status \<noteq> [] \<and> status \<noteq> ''all'' \<and> al_status al \<noteq> status)) (m_alerts s)"

definition set_retention :: "string \<Rightarrow> int option \<Rightarrow> string \<Rightarrow> memory \<Rightarrow> memory" where
  "set_retention g days mode s =
     (case grp s g of None \<Rightarrow> s | Some mg \<Rightarrow> put_group g (mg\<lparr>g_ret_days := days, g_ret_mode := mode\<rparr>) s)"

definition block_group :: "string \<Rightarrow> memory \<Rightarrow> memory" where
  "block_group g s =
     (case grp s g of None \<Rightarrow> s
      | Some mg \<Rightarrow> put_group g (mg\<lparr>g_status := ''n'', g_ret_days := None, g_ret_mode := ''blocked''\<rparr>) s)"

definition close_alert :: "int \<Rightarrow> string \<Rightarrow> memory \<Rightarrow> memory" where
  "close_alert k status s =
     s\<lparr>m_alerts := update_first (\<lambda>al. al_id al = k) (\<lambda>al. al\<lparr>al_status := status\<rparr>) (m_alerts s)\<rparr>"

definition resolve_group_alert :: "int \<Rightarrow> string \<Rightarrow> memory \<Rightarrow> memory \<times> store_error option" where
  "resolve_group_alert k action s0 =
     (let s = ensure_retention_maps s0 in
      case find (\<lambda>al. al_id al = k) (m_alerts s) of
        None \<Rightarrow> (s, Some Alert_Not_Found)
      | Some al \<Rightarrow>
          let g = al_group al; act = to_lower (trim_space action) in
          if act = ''block'' then (close_alert k ''blocked'' (block_group g s), None)
          else if act = ''whitelist'' then
            (close_alert k ''whitelisted'' (set_retention g None ''whitelist'' s), None)
          else if act = ''dismiss'' then (close_alert k ''dismissed'' s, None)
          else if act = ''reset'' then (close_alert k ''dismissed'' (set_retention g None [] s), None)
          else (s, Some (Unknown_Action action)))"

definition set_group_retention :: "string \<Rightarrow> int option \<Rightarrow> string \<Rightarrow> memory \<Rightarrow> memory \<times> store_error option" where
  "set_group_retention g days mode s =
     (case grp s g of None \<Rightarrow> (s, Some Group_Not_Found) | Some _ \<Rightarrow> (set_retention g days mode s, None))"

section \<open>Floods\<close>

definition accept_list :: "memory \<Rightarrow> string \<Rightarrow> mem_accept list" where
  "accept_list s g = (case map_of (m_accepts s) g of None \<Rightarrow> [] | Some xs \<Rightarrow> xs)"

definition note_one ::
  "(int \<Rightarrow> int \<Rightarrow> int \<Rightarrow> string) \<Rightarrow> int \<Rightarrow> bool \<Rightarrow> flood_params \<Rightarrow> string
    \<Rightarrow> memory \<times> string list \<Rightarrow> memory \<times> string list" where
  "note_one flood_text now binary fl name0 st =
     (let (s, flooded) = st; name = trim_space name0 in
      case grp s name of None \<Rightarrow> st
      | Some mg \<Rightarrow>
        let s1 = s\<lparr>m_accepts := AList.update name (accept_list s name @ [\<lparr>ac_binary = binary, ac_at = now\<rparr>])
                    (m_accepts s)\<rparr> in
        if g_ret_mode mg = ''whitelist'' then (s1, flooded)
        else
          let (s2, flooded2) =
                (if g_ret_days mg = None \<and> fl_seed fl \<noteq> [] \<and> wildmat_match (fl_seed fl) name
                 then (ensure_open_alert now name (''seed wildmat match ('' @ fl_seed fl @ '')'')
                         (set_retention name (Some (fl_days fl)) ''auto'' s1), flooded @ [name])
                 else (s1, flooded)) in
          if \<not> binary then (s2, flooded2)
          else
            let recent = filter (\<lambda>e. \<not> ac_at e < now + wrap64 (- fl_window fl)) (accept_list s2 name);
                total = int (length recent);
                bins = int (length (filter ac_binary recent)) in
            if total = 0 \<or> bins < fl_min_binary fl then (s2, flooded2)
            else if bins * snd (fl_min_ratio fl) < fst (fl_min_ratio fl) * total then (s2, flooded2)
            else (ensure_open_alert now name (flood_text bins total (fl_window fl))
                    (set_retention name (Some (fl_days fl)) ''auto'' s2), flooded2 @ [name]))"

definition note_accept ::
  "(int \<Rightarrow> int \<Rightarrow> int \<Rightarrow> string) \<Rightarrow> int \<Rightarrow> string list \<Rightarrow> bool \<Rightarrow> flood_params \<Rightarrow> memory
    \<Rightarrow> memory \<times> string list" where
  "note_accept flood_text now gs binary fl0 s =
     (let fl1 = (if fl_window fl0 \<le> 0 then fl0\<lparr>fl_window := 24 * hour\<rparr> else fl0);
          fl = (if fl_days fl1 \<le> 0 then fl1\<lparr>fl_days := 7\<rparr> else fl1)
      in fold (note_one flood_text now binary fl) gs (ensure_retention_maps s, []))"

section \<open>Quota\<close>

definition quota_key :: "int \<Rightarrow> int \<Rightarrow> string" where
  "quota_key now uid = format_int uid @ ''|'' @ format_day now"

definition quota_count :: "string \<Rightarrow> memory \<Rightarrow> int" where
  "quota_count k s = (case map_of (m_bin_quota s) k of None \<Rightarrow> 0 | Some n \<Rightarrow> n)"

definition consume_binary_quota :: "int \<Rightarrow> int \<Rightarrow> int \<Rightarrow> memory \<Rightarrow> memory \<times> int \<times> store_error option" where
  "consume_binary_quota now uid limit s0 =
     (let s = ensure_retention_maps s0 in
      if limit \<le> 0 then (s, 0, None)
      else
        let k = quota_key now uid; c = quota_count k s in
        if c \<ge> limit then (s, c, Some Quota_Exceeded)
        else (s\<lparr>m_bin_quota := AList.update k (c + 1) (m_bin_quota s)\<rparr>, c + 1, None))"

definition binary_quota_used :: "int \<Rightarrow> int \<Rightarrow> memory \<Rightarrow> int" where
  "binary_quota_used now uid s = quota_count (quota_key now uid) s"

section \<open>Expiry\<close>

text \<open>One number of a group; the accumulator holds the store, the kept numbers and the count.\<close>

definition expire_number ::
  "int \<Rightarrow> string \<Rightarrow> int \<Rightarrow> memory \<times> int list \<times> int \<Rightarrow> memory \<times> int list \<times> int" where
  "expire_number cutoff g n st =
     (case st of (s, keep, removed) \<Rightarrow>
       (case num_ref s g n of None \<Rightarrow> st
        | Some r \<Rightarrow>
          (case obj s r of None \<Rightarrow> st
           | Some a \<Rightarrow>
               if s_stored_at a < cutoff
               then (drop_number g n (put_obj r (a\<lparr>a_groups := AList.delete g (a_groups a)\<rparr>) s), keep, removed + 1)
               else (s, keep @ [n], removed))))"

definition renumber :: "int list \<Rightarrow> mem_group \<Rightarrow> mem_group" where
  "renumber keep mg =
     (if keep = [] then mg\<lparr>g_nums := keep, g_low := 0, g_high := 0, g_count := 0\<rparr>
      else mg\<lparr>g_nums := keep, g_low := hd keep, g_high := last keep, g_count := int (length keep)\<rparr>)"

definition retention_cutoff :: "int \<Rightarrow> int \<Rightarrow> int" where
  "retention_cutoff now days = now + wrap64 (- days * 24 * hour)"

definition expire_group :: "int \<Rightarrow> string \<Rightarrow> memory \<times> int \<Rightarrow> memory \<times> int" where
  "expire_group now g st =
     (case st of (s, removed) \<Rightarrow>
       (case grp s g of None \<Rightarrow> st
        | Some mg \<Rightarrow>
          (case g_ret_days mg of None \<Rightarrow> st
           | Some days \<Rightarrow>
               if days \<le> 0 then st
               else
                 let (s1, keep, removed1) =
                       fold (expire_number (retention_cutoff now days) g) (g_nums mg) (s, [], removed)
                 in (put_group g (renumber keep mg) s1, removed1))))"

definition groupless :: "memory \<Rightarrow> string \<times> nat \<Rightarrow> bool" where
  "groupless s mr = (case obj s (snd mr) of None \<Rightarrow> False | Some a \<Rightarrow> a_groups a = [])"

definition expire :: "int \<Rightarrow> int \<Rightarrow> memory \<Rightarrow> memory \<times> expire_result" where
  "expire now history_days s =
     (let (s1, overviews) = fold (expire_group now) (map fst (m_groups s)) (s, 0);
          gone = filter (groupless s1) (m_arts s1);
          s2 = s1\<lparr>m_arts := filter (\<lambda>mr. \<not> groupless s1 mr) (m_arts s1)\<rparr>;
          old = (\<lambda>(m, t). t < retention_cutoff now history_days \<and> art_ref s2 m = None);
          dropped = (if history_days > 0 then filter old (m_history s2) else []);
          s3 = (if history_days > 0
                then s2\<lparr>m_history := filter (\<lambda>h. \<not> old h) (m_history s2)\<rparr> else s2)
      in (s3, \<lparr>ex_overview = overviews, ex_articles = int (length gone), ex_history = int (length dropped)\<rparr>))"

section \<open>Purging\<close>

definition blocked_by_alert :: "memory \<Rightarrow> string list" where
  "blocked_by_alert s = map al_group (filter (\<lambda>al. al_status al = ''blocked'') (m_alerts s))"

definition blocked_names :: "memory \<Rightarrow> string list" where
  "blocked_names s =
     map fst (filter (\<lambda>(g, mg). g_ret_mode mg = ''blocked'' \<or> list_ex (\<lambda>p. group_matches [p] [g]) (m_bans s))
       (m_groups s))"

definition in_any :: "string list \<Rightarrow> mem_art \<Rightarrow> bool" where
  "in_any names a = list_ex (\<lambda>(g, n). g \<in> set names) (a_groups a)"

definition doomed_ids :: "string list \<Rightarrow> memory \<Rightarrow> string list" where
  "doomed_ids names s =
     sort (map fst (filter (\<lambda>(m, r). case obj s r of None \<Rightarrow> False | Some a \<Rightarrow> in_any names a) (m_arts s)))"

definition cross_groups :: "string list \<Rightarrow> memory \<Rightarrow> string list" where
  "cross_groups names s =
     sort (dedup_on (\<lambda>g. g) names
       (concat (map (\<lambda>(m, r). case obj s r of None \<Rightarrow> []
          | Some a \<Rightarrow> if in_any names a then map fst (a_groups a) else []) (m_arts s))))"

fun delete_all :: "string list \<Rightarrow> memory \<Rightarrow> memory \<times> string list" where
  "delete_all [] s = (s, [])"
| "delete_all (m # ms) s =
     (let (s1, ok) = delete_article m s; (s2, del) = delete_all ms s1
      in (s2, if ok then m # del else del))"

definition purge_unwanted :: "memory \<Rightarrow> memory \<times> purge_result" where
  "purge_unwanted s0 =
     (let s = ensure_retention_maps s0;
          alerted = blocked_by_alert s;
          s1 = fold block_group alerted s;
          names = dedup_on (\<lambda>g. g) [] (alerted @ blocked_names s1) in
      if names = [] then (s1, \<lparr>pu_articles = 0, pu_groups = [], pu_cross = [], pu_msgids = []\<rparr>)
      else
        let doomed = doomed_ids names s1; cross = cross_groups names s1;
            (s2, del) = delete_all doomed s1
        in (s2, \<lparr>pu_articles = int (length del), pu_groups = sort names, pu_cross = cross, pu_msgids = del\<rparr>))"

section \<open>Preservation of the invariant\<close>

lemma more_field_views [views]:
  "grp (s\<lparr>m_alerts := x\<rparr>) = grp s" "numbered (s\<lparr>m_alerts := x\<rparr>) = numbered s"
  "obj (s\<lparr>m_alerts := x\<rparr>) = obj s" "art_ref (s\<lparr>m_alerts := x\<rparr>) = art_ref s"
  "in_history (s\<lparr>m_alerts := x\<rparr>) = in_history s"
  "grp (s\<lparr>m_next_aid := y\<rparr>) = grp s" "numbered (s\<lparr>m_next_aid := y\<rparr>) = numbered s"
  "obj (s\<lparr>m_next_aid := y\<rparr>) = obj s" "art_ref (s\<lparr>m_next_aid := y\<rparr>) = art_ref s"
  "in_history (s\<lparr>m_next_aid := y\<rparr>) = in_history s"
  "grp (s\<lparr>m_accepts := z\<rparr>) = grp s" "numbered (s\<lparr>m_accepts := z\<rparr>) = numbered s"
  "obj (s\<lparr>m_accepts := z\<rparr>) = obj s" "art_ref (s\<lparr>m_accepts := z\<rparr>) = art_ref s"
  "in_history (s\<lparr>m_accepts := z\<rparr>) = in_history s"
  "grp (s\<lparr>m_bin_quota := w\<rparr>) = grp s" "numbered (s\<lparr>m_bin_quota := w\<rparr>) = numbered s"
  "obj (s\<lparr>m_bin_quota := w\<rparr>) = obj s" "art_ref (s\<lparr>m_bin_quota := w\<rparr>) = art_ref s"
  "in_history (s\<lparr>m_bin_quota := w\<rparr>) = in_history s"
  by (auto simp: grp_def numbered_def art_ref_def obj_def in_history_def fun_eq_iff)

lemma field_inv [simp]:
  "store_inv (s\<lparr>m_alerts := x\<rparr>) = store_inv s" "store_inv (s\<lparr>m_next_aid := y\<rparr>) = store_inv s"
  "store_inv (s\<lparr>m_accepts := z\<rparr>) = store_inv s" "store_inv (s\<lparr>m_bin_quota := w\<rparr>) = store_inv s"
proof -
  have k: "keys_good t \<longleftrightarrow> distinct (map fst (m_arts t)) \<and> distinct (map fst (m_groups t))" for t
    by (simp add: keys_good_def)
  have g: "groups_of (s\<lparr>m_alerts := x\<rparr>) = groups_of s" "groups_of (s\<lparr>m_next_aid := y\<rparr>) = groups_of s"
    "groups_of (s\<lparr>m_accepts := z\<rparr>) = groups_of s" "groups_of (s\<lparr>m_bin_quota := w\<rparr>) = groups_of s"
    by (auto simp: groups_of_def views fun_eq_iff)
  show "store_inv (s\<lparr>m_alerts := x\<rparr>) = store_inv s" "store_inv (s\<lparr>m_next_aid := y\<rparr>) = store_inv s"
    "store_inv (s\<lparr>m_accepts := z\<rparr>) = store_inv s" "store_inv (s\<lparr>m_bin_quota := w\<rparr>) = store_inv s"
    by (simp_all add: store_inv_def filing_def objects_good_def all_filed_def refs_fresh_def names_good_def
        remembered_def k views g)
qed

lemma set_retention_inv [wf_rules]: "store_inv s \<Longrightarrow> store_inv (set_retention g days mode s)"
  by (auto simp: set_retention_def intro!: put_group_inv split: option.split)

lemma block_group_inv [wf_rules]: "store_inv s \<Longrightarrow> store_inv (block_group g s)"
  by (auto simp: block_group_def intro!: put_group_inv split: option.split)

lemma ensure_open_alert_inv [wf_rules]: "store_inv s \<Longrightarrow> store_inv (ensure_open_alert now g detail s)"
  by (auto simp: ensure_open_alert_def)

lemma ensure_retention_maps_inv [wf_rules]: "store_inv s \<Longrightarrow> store_inv (ensure_retention_maps s)"
  by (auto simp: ensure_retention_maps_def)

lemma close_alert_inv [wf_rules]: "store_inv s \<Longrightarrow> store_inv (close_alert k status s)"
  by (simp add: close_alert_def)

lemma resolve_group_alert_inv [wf_rules]: "store_inv s \<Longrightarrow> store_inv (fst (resolve_group_alert k action s))"
  by (simp add: resolve_group_alert_def Let_def ensure_retention_maps_inv close_alert_inv block_group_inv
      set_retention_inv split: option.split)

lemma set_group_retention_inv [wf_rules]:
  "store_inv s \<Longrightarrow> store_inv (fst (set_group_retention g days mode s))"
  by (auto simp: set_group_retention_def intro!: wf_rules split: option.split)

lemma note_one_inv: "store_inv (fst st) \<Longrightarrow> store_inv (fst (note_one ft now binary fl g st))"
  by (cases st) (simp add: note_one_def Let_def ensure_open_alert_inv set_retention_inv split: option.split)

lemma note_accept_inv [wf_rules]:
  "store_inv s \<Longrightarrow> store_inv (fst (note_accept ft now gs binary fl s))"
proof -
  have "store_inv (fst st) \<Longrightarrow> store_inv (fst (fold (note_one ft now binary f) hs st))" for hs st f
    by (induction hs arbitrary: st) (simp_all add: note_one_inv)
  then show "store_inv s \<Longrightarrow> ?thesis" by (simp add: note_accept_def Let_def ensure_retention_maps_inv)
qed

lemma consume_binary_quota_inv [wf_rules]:
  "store_inv s \<Longrightarrow> store_inv (fst (consume_binary_quota now uid limit s))"
  by (auto simp: consume_binary_quota_def Let_def intro!: wf_rules)

lemma delete_all_inv [wf_rules]: "store_inv s \<Longrightarrow> store_inv (fst (delete_all ms s))"
  by (induction ms arbitrary: s) (auto simp: Let_def case_prod_beta delete_article_inv)

lemma purge_unwanted_inv [wf_rules]: "store_inv s \<Longrightarrow> store_inv (fst (purge_unwanted s))"
proof -
  have "store_inv t \<Longrightarrow> store_inv (fold block_group gs t)" for gs t
    by (induction gs arbitrary: t) (simp_all add: block_group_inv)
  then show "store_inv s \<Longrightarrow> ?thesis"
    by (simp add: purge_unwanted_def Let_def case_prod_beta ensure_retention_maps_inv delete_all_inv)
qed

section \<open>Expiry keeps the invariant\<close>

definition expired :: "memory \<Rightarrow> int \<Rightarrow> string \<Rightarrow> int \<Rightarrow> bool" where
  "expired s cutoff g n = (case art_at s g n of None \<Rightarrow> False | Some a \<Rightarrow> s_stored_at a < cutoff)"

lemma left_simps [simp]: "s_stored_at (left g a) = s_stored_at a" "left g (left g a) = left g a"
  "s_msgid (left g a) = s_msgid a"
  by (simp_all add: left_def delete_idem)

definition same_index :: "memory \<Rightarrow> memory \<Rightarrow> bool" where
  "same_index s0 s \<longleftrightarrow> grp s = grp s0 \<and> art_ref s = art_ref s0 \<and> in_history s = in_history s0
     \<and> m_next_ref s = m_next_ref s0 \<and> m_arts s = m_arts s0 \<and> m_groups s = m_groups s0 \<and> m_history s = m_history s0"

lemma expire_number_step:
  assumes "numbered s g = Some b" "art_at s g n = Some a"
  shows "\<exists>r. b n = Some r \<and> obj s r = Some a \<and> expire_number cutoff g n (s, keep, removed) =
      (if s_stored_at a < cutoff then (drop_number g n (put_obj r (left g a) s), keep, removed + 1)
       else (s, keep @ [n], removed))"
  using assms by (auto simp: art_at_def num_ref_numbered expire_number_def left_def split: Option.bind_split_asm)

lemma fold_expire_number:
  assumes "numbered s g = Some b" "\<forall>n \<in> set ns. art_at s g n \<noteq> None" "distinct ns"
    and "fold (expire_number cutoff g) ns (s, keep, removed) = (s', keep', removed')"
  shows "same_index s s' \<and> keep' = keep @ filter (\<lambda>n. \<not> expired s cutoff g n) ns
     \<and> numbered s' = (numbered s)(g \<mapsto> (\<lambda>n. if n \<in> set ns \<and> expired s cutoff g n then None else b n))
     \<and> (\<forall>r. obj s' r = (if \<exists>n \<in> set ns. b n = Some r \<and> expired s cutoff g n
                       then map_option (left g) (obj s r) else obj s r))"
  using assms
proof (induction ns arbitrary: s b keep removed)
  case Nil
  then show ?case by (auto simp: same_index_def fun_eq_iff)
next
  case (Cons n ns)
  obtain a where a: "art_at s g n = Some a" using Cons.prems(2) by auto
  obtain r where r: "b n = Some r" "obj s r = Some a" and st: "expire_number cutoff g n (s, keep, removed) =
      (if s_stored_at a < cutoff then (drop_number g n (put_obj r (left g a) s), keep, removed + 1)
       else (s, keep @ [n], removed))"
    using expire_number_step[OF Cons.prems(1) a] by metis
  have e: "expired s cutoff g n \<longleftrightarrow> s_stored_at a < cutoff" using a by (simp add: expired_def)
  show ?case
  proof (cases "s_stored_at a < cutoff")
    case False
    then have f: "fold (expire_number cutoff g) ns (s, keep @ [n], removed) = (s', keep', removed')"
      using Cons.prems(4) st by simp
    have ih: "same_index s s' \<and> keep' = (keep @ [n]) @ filter (\<lambda>n. \<not> expired s cutoff g n) ns
       \<and> numbered s' = (numbered s)(g \<mapsto> (\<lambda>k. if k \<in> set ns \<and> expired s cutoff g k then None else b k))
       \<and> (\<forall>q. obj s' q = (if \<exists>k \<in> set ns. b k = Some q \<and> expired s cutoff g k
                       then map_option (left g) (obj s q) else obj s q))"
      by (rule Cons.IH[OF Cons.prems(1) _ _ f]) (use Cons.prems(2,3) in simp_all)
    moreover have "(\<lambda>k. if k \<in> set ns \<and> expired s cutoff g k then None else b k)
        = (\<lambda>k. if k \<in> set (n # ns) \<and> expired s cutoff g k then None else b k)"
      using e False by auto
    ultimately show ?thesis using e False by simp
  next
    case True
    let ?s = "drop_number g n (put_obj r (left g a) s)" and ?b = "b(n := None)"
    have f: "fold (expire_number cutoff g) ns (?s, keep, removed + 1) = (s', keep', removed')"
      using Cons.prems(4) st True by simp
    have nb: "numbered ?s = (numbered s)(g \<mapsto> ?b)"
      using numbered_drop[of "put_obj r (left g a) s" g b n] Cons.prems(1) by (simp add: views)
    have ob: "obj ?s = (obj s)(r \<mapsto> left g a)" by (simp add: views)
    have at: "art_at ?s g k = (if k = n then None else Option.bind (b k) (\<lambda>q. if q = r then Some (left g a) else obj s q))" for k
      by (auto simp: art_at_def num_ref_numbered nb ob split: Option.bind_split)
    have at0: "art_at s g k = Option.bind (b k) (obj s)" for k
      using Cons.prems(1) by (simp add: art_at_def num_ref_numbered)
    have ex: "expired ?s cutoff g k = expired s cutoff g k" if "k \<noteq> n" for k
      using that r(2) by (auto simp: expired_def at at0 split: Option.bind_split option.splits)
    have n: "n \<notin> set ns" "distinct ns" using Cons.prems(3) by simp_all
    have exn: "expired ?s cutoff g k = expired s cutoff g k" if "k \<in> set ns" for k
      using that n ex[of k] by blast
    have 2: "\<forall>k \<in> set ns. art_at ?s g k \<noteq> None"
      using Cons.prems(2) n r(2) by (auto simp: at at0 split: Option.bind_splits)
    have nb': "numbered ?s g = Some ?b" by (simp add: nb)
    have ih: "same_index ?s s' \<and> keep' = keep @ filter (\<lambda>n. \<not> expired ?s cutoff g n) ns
       \<and> numbered s' = (numbered ?s)(g \<mapsto> (\<lambda>k. if k \<in> set ns \<and> expired ?s cutoff g k then None else ?b k))
       \<and> (\<forall>q. obj s' q = (if \<exists>k \<in> set ns. ?b k = Some q \<and> expired ?s cutoff g k
                       then map_option (left g) (obj ?s q) else obj ?s q))"
      using Cons.IH[OF nb' 2 n(2) f] .
    have "same_index s s'" using ih by (simp add: same_index_def views)
    moreover have "filter (\<lambda>k. \<not> expired ?s cutoff g k) ns = filter (\<lambda>k. \<not> expired s cutoff g k) (n # ns)"
      using exn e True by (simp cong: filter_cong)
    moreover have "numbered s' = (numbered s)(g \<mapsto> (\<lambda>k. if k \<in> set (n # ns) \<and> expired s cutoff g k then None else b k))"
    proof -
      have "(\<lambda>k. if k \<in> set ns \<and> expired ?s cutoff g k then None else ?b k)
          = (\<lambda>k. if k \<in> set (n # ns) \<and> expired s cutoff g k then None else b k)"
        using exn n e True by (auto simp: fun_eq_iff)
      then show ?thesis using ih nb by simp
    qed
    moreover have "obj s' q = (if \<exists>k \<in> set (n # ns). b k = Some q \<and> expired s cutoff g k
                       then map_option (left g) (obj s q) else obj s q)" for q
    proof -
      have "(\<exists>k \<in> set ns. ?b k = Some q \<and> expired ?s cutoff g k) \<longleftrightarrow> (\<exists>k \<in> set ns. b k = Some q \<and> expired s cutoff g k)"
        using exn n by (metis fun_upd_apply)
      then show ?thesis using ih ob r e True by auto
    qed
    ultimately show ?thesis using ih by simp
  qed
qed

lemma renumber_ok:
  assumes "group_ok mg" shows "group_ok (renumber (filter P (g_nums mg)) mg)"
proof (cases "filter P (g_nums mg) = []")
  case True
  then show ?thesis by (simp add: renumber_def group_ok_def)
next
  case False
  let ?k = "filter P (g_nums mg)"
  have s: "sorted_wrt (<) ?k" using assms by (simp add: group_ok_def sorted_wrt_filter)
  have "hd ?k \<in> set (g_nums mg)" using False hd_in_set[of ?k] by auto
  then have "1 \<le> hd ?k" using assms by (auto simp: group_ok_def)
  moreover have "\<forall>n \<in> set ?k. hd ?k \<le> n \<and> n \<le> last ?k" using s sorted_wrt_hd sorted_wrt_last by blast
  moreover have "hd ?k \<le> last ?k" using calculation False last_in_set by blast
  ultimately show ?thesis using s False by (auto simp: group_ok_def renumber_def)
qed

lemma renumber_simps [simp]: "g_nums (renumber keep mg) = keep" "g_name (renumber keep mg) = g_name mg"
  "g_ret_days (renumber keep mg) = g_ret_days mg"
  by (auto simp: renumber_def)

text \<open>The invariant without the requirement that every stored object is filed somewhere.\<close>

definition weak_inv :: "memory \<Rightarrow> bool" where
  "weak_inv s \<longleftrightarrow> filing s \<and> objects_good s \<and> refs_fresh s \<and> names_good s \<and> keys_good s \<and> remembered s"

lemma store_inv_weak: "store_inv s \<longleftrightarrow> weak_inv s \<and> all_filed s"
  by (auto simp: store_inv_def weak_inv_def)

lemma weak_numbered:
  assumes "weak_inv s" "grp s g = Some mg"
  obtains b where "numbered s g = Some b" "set (g_nums mg) = dom b"
    "\<And>n r. b n = Some r \<longleftrightarrow> live (art_ref s) r \<and> groups_of s r g = Some n"
    "\<forall>n \<in> set (g_nums mg). art_at s g n \<noteq> None" "distinct (g_nums mg)"
proof -
  have f: "filed (art_ref s) (groups_of s) (grp s) (numbered s)" and o: "objects_good s"
    using assms(1) by (simp_all add: weak_inv_def filing_def)
  obtain b where b: "numbered s g = Some b" using filed_dom[OF f, of g] assms(2) by (metis not_None_eq)
  have e: "\<forall>n \<in> set (g_nums mg). art_at s g n \<noteq> None"
  proof
    fix n assume n: "n \<in> set (g_nums mg)"
    then obtain r where r: "b n = Some r" using filed_nums[OF f assms(2) b] by blast
    then have "live (art_ref s) r" using filed_lookup[OF f assms(2) b] by blast
    then obtain a where "obj s r = Some a" using live_obj[OF o] by blast
    then show "art_at s g n \<noteq> None" using r b by (simp add: art_at_def num_ref_numbered)
  qed
  have "distinct (g_nums mg)"
    using filed_group_ok[OF f assms(2)] by (auto simp: group_ok_def strict_sorted_iff)
  from that[OF b filed_nums[OF f assms(2) b] filed_lookup[OF f assms(2) b] e this] show thesis .
qed

lemma expire_group_step:
  assumes w: "weak_inv s" and g: "grp s g = Some mg" "g_ret_days mg = Some days" "0 < days"
    and e: "expire_group now g (s, k) = (s', k')"
  shows "weak_inv s' \<and> grp s' = (grp s)(g \<mapsto> renumber (filter (\<lambda>n. \<not> expired s (retention_cutoff now days) g n) (g_nums mg)) mg)
     \<and> (\<forall>h n. art_at s' h n = (if h = g \<and> expired s (retention_cutoff now days) g n then None
           else map_option (\<lambda>a. if \<exists>n. map_of (a_groups a) g = Some n \<and> expired s (retention_cutoff now days) g n
                               then left g a else a) (art_at s h n)))
     \<and> m_groups s' = AList.update g (renumber (filter (\<lambda>n. \<not> expired s (retention_cutoff now days) g n) (g_nums mg)) mg) (m_groups s)"
proof -
  let ?c = "retention_cutoff now days" and ?P = "expired s (retention_cutoff now days) g"
  obtain b where b: "numbered s g = Some b" "set (g_nums mg) = dom b"
    "\<And>n r. b n = Some r \<longleftrightarrow> live (art_ref s) r \<and> groups_of s r g = Some n"
    "\<forall>n \<in> set (g_nums mg). art_at s g n \<noteq> None" "distinct (g_nums mg)"
    using weak_numbered[OF w g(1)] by blast
  have f: "filed (art_ref s) (groups_of s) (grp s) (numbered s)" using w by (simp add: weak_inv_def filing_def)
  obtain s1 keep k1 where l: "fold (expire_number ?c g) (g_nums mg) (s, [], k) = (s1, keep, k1)"
    by (metis prod_cases3)
  note loop = fold_expire_number[OF b(1,4,5) l]
  let ?mg = "renumber (filter (\<lambda>n. \<not> ?P n) (g_nums mg)) mg"
  have s': "s' = put_group g ?mg s1"
    using e l loop g by (simp add: expire_group_def)
  have idx: "same_index s s1" using loop by blast
  have nb: "numbered s' = (numbered s)(g \<mapsto> (\<lambda>n. if ?P n then None else b n))"
  proof -
    have "(\<lambda>n. if n \<in> set (g_nums mg) \<and> ?P n then None else b n) = (\<lambda>n. if ?P n then None else b n)"
      using b(2) by (auto simp: fun_eq_iff domIff)
    then show ?thesis using loop by (simp add: s' views)
  qed
  have v: "grp s' = (grp s)(g \<mapsto> ?mg)" "art_ref s' = art_ref s" "in_history s' = in_history s"
    "m_next_ref s' = m_next_ref s" "m_arts s' = m_arts s"
    using idx by (simp_all add: s' views same_index_def)
  have ob: "obj s' r = (if \<exists>n. b n = Some r \<and> ?P n then map_option (left g) (obj s r) else obj s r)" for r
  proof -
    have "(\<exists>n \<in> set (g_nums mg). b n = Some r \<and> ?P n) \<longleftrightarrow> (\<exists>n. b n = Some r \<and> ?P n)" using b(2) by auto
    then show ?thesis using loop by (simp add: s' views)
  qed
  have gl: "groups_of s' r = unfile g ?P (groups_of s) r" if "live (art_ref s) r" for r
  proof (cases "\<exists>n. b n = Some r \<and> ?P n")
    case True
    then obtain n where n: "b n = Some r" "?P n" by blast
    then have "groups_of s r g = Some n" using b(3) by blast
    moreover have "groups_of s' r = (groups_of s r)(g := None)"
      using ob[of r] True by (auto simp: groups_of_def left_def split: option.split)
    ultimately show ?thesis using n by (simp add: unfile_def)
  next
    case False
    have "obj s' r = obj s r" using ob[of r] unfolding if_not_P[OF False] .
    then have "groups_of s' r = groups_of s r" by (simp add: groups_of_def)
    moreover have "groups_of s r g = Some n \<Longrightarrow> \<not> ?P n" for n using False b(3) that by blast
    ultimately show ?thesis by (auto simp: unfile_def split: option.split)
  qed
  have "filed (art_ref s) (unfile g ?P (groups_of s)) (grp s') (numbered s')"
    unfolding v nb using renumber_ok[OF filed_group_ok[OF f g(1)]]
    by (intro filed_remove[OF f g(1) b(1)]) simp_all
  then have "filing s'" unfolding filing_def v(2) using gl by (auto elim: filed_cong)
  moreover have "objects_good s'"
    unfolding objects_good_def v
  proof (intro allI impI)
    fix m r assume "art_ref s m = Some r"
    then obtain a where "obj s r = Some a" "art_good m a"
      using w unfolding weak_inv_def objects_good_def by blast
    then show "\<exists>a. obj s' r = Some a \<and> art_good m a"
      by (auto simp: ob art_good_def left_def intro: distinct_delete)
  qed
  moreover have "refs_fresh s'" using w unfolding weak_inv_def refs_fresh_def v by (simp add: ob)
  moreover have "names_good s'" using w g(1) unfolding weak_inv_def names_good_def v by auto
  moreover have mgs: "m_groups s' = AList.update g ?mg (m_groups s)"
    using idx by (simp add: s' put_group_def same_index_def)
  moreover have "keys_good s'"
    using w by (auto simp: weak_inv_def keys_good_def v mgs intro: distinct_update)
  moreover have "remembered s'" using w unfolding weak_inv_def remembered_def v by simp
  moreover have "art_at s' h n = (if h = g \<and> ?P n then None
           else map_option (\<lambda>a. if \<exists>n. map_of (a_groups a) g = Some n \<and> ?P n then left g a else a) (art_at s h n))" for h n
  proof (cases "h = g \<and> ?P n")
    case True
    then show ?thesis by (simp add: art_at_def num_ref_numbered nb)
  next
    case False
    then have nr: "num_ref s' h n = num_ref s h n" using b(1) by (auto simp: num_ref_numbered nb)
    have "map_option (\<lambda>a. if \<exists>n. map_of (a_groups a) g = Some n \<and> ?P n then left g a else a) (obj s r) = obj s' r"
      if r: "num_ref s h n = Some r" for r
    proof -
      obtain bh where bh: "numbered s h = Some bh" "bh n = Some r" using r by (auto simp: num_ref_numbered bind_eq_Some_conv)
      obtain mh where "grp s h = Some mh" using filed_dom[OF f, of h] bh(1) by (metis not_None_eq)
      then have "live (art_ref s) r" using filed_lookup[OF f _ bh(1)] bh(2) by blast
      then have "(\<exists>n. b n = Some r \<and> ?P n) \<longleftrightarrow> (\<exists>n. groups_of s r g = Some n \<and> ?P n)" using b(3) by blast
      then show ?thesis by (cases "obj s r") (auto simp: ob groups_of_def)
    qed
    then show ?thesis using False nr by (cases "num_ref s h n") (auto simp: art_at_def)
  qed
  ultimately show ?thesis using v(1) by (simp add: weak_inv_def)
qed

lemma expire_group_idle:
  "grp s g = None \<or> (\<exists>mg. grp s g = Some mg \<and> (g_ret_days mg = None \<or> (\<exists>d. g_ret_days mg = Some d \<and> d \<le> 0))) \<Longrightarrow>
   expire_group now g (s, k) = (s, k)"
  by (auto simp: expire_group_def split: option.split)

lemma expire_group_weak: "weak_inv (fst st) \<Longrightarrow> weak_inv (fst (expire_group now g st))"
proof -
  assume w: "weak_inv (fst st)"
  obtain s k where st: "st = (s, k)" by force
  show ?thesis
  proof (cases "\<exists>mg d. grp s g = Some mg \<and> g_ret_days mg = Some d \<and> 0 < d")
    case True
    then show ?thesis using expire_group_step[of s g _ _ now k] w st by (metis fst_conv prod.collapse)
  next
    case False
    then have "expire_group now g (s, k) = (s, k)"
      by (intro expire_group_idle) (metis not_None_eq linorder_not_le)
    then show ?thesis using w st by simp
  qed
qed

lemma fold_expire_group_weak: "weak_inv (fst st) \<Longrightarrow> weak_inv (fst (fold (expire_group now) gs st))"
  by (induction gs arbitrary: st) (simp_all add: expire_group_weak)

lemma drop_groupless_inv:
  assumes w: "weak_inv s"
  shows "store_inv (s\<lparr>m_arts := filter (\<lambda>mr. \<not> groupless s mr) (m_arts s)\<rparr>)" (is "store_inv ?s")
proof -
  have d: "distinct (map fst (m_arts s))" using w by (simp add: weak_inv_def keys_good_def)
  have ar: "art_ref ?s m = Option.bind (art_ref s m) (\<lambda>r. if groupless s (m, r) then None else Some r)" for m
    by (simp add: art_ref_def map_of_filter_distinct[OF d]) (auto split: Option.bind_splits)
  have sub: "art_ref ?s m = Some r \<Longrightarrow> art_ref s m = Some r \<and> \<not> groupless s (m, r)" for m r
    by (auto simp: ar split: Option.bind_split_asm if_splits)
  have g: "groups_of ?s = groups_of s" by (simp add: groups_of_def views fun_eq_iff)
  have f: "filed (art_ref s) (groups_of s) (grp s) (numbered s)" using w by (simp add: weak_inv_def filing_def)
  have "filed (art_ref ?s) (groups_of s) (grp s) (numbered s)"
  proof (rule filed_shrink[OF f])
    show "art_ref ?s m = Some r \<Longrightarrow> art_ref s m = Some r" for m r using sub by blast
    show "groups_of s r = Map.empty" if "art_ref s m = Some r" "art_ref ?s m = None" for m r
    proof -
      have "groupless s (m, r)" using that ar[of m] by (simp split: if_splits)
      then show ?thesis by (simp add: groupless_def groups_of_def split: option.splits)
    qed
  qed
  then have "filing ?s" by (simp add: filing_def views g)
  moreover have "objects_good ?s"
    using w sub unfolding weak_inv_def objects_good_def views by blast
  moreover have "all_filed ?s"
    unfolding all_filed_def views
  proof (intro allI impI)
    fix m r a assume "map_of (filter (\<lambda>mr. \<not> groupless s mr) (m_arts s)) m = Some r" "obj s r = Some a"
    then show "a_groups a \<noteq> []" using sub[of m r] by (simp add: groupless_def views)
  qed
  moreover have "keys_good ?s" using w by (auto simp: weak_inv_def keys_good_def intro: distinct_filter_key)
  moreover have "remembered ?s" using w sub unfolding weak_inv_def remembered_def by (auto simp: views)
  ultimately show ?thesis
    using w by (simp add: store_inv_def weak_inv_def refs_fresh_def names_good_def views)
qed

lemma drop_history_inv:
  assumes i: "store_inv s" and p: "\<And>m t. art_ref s m \<noteq> None \<Longrightarrow> P (m, t)"
  shows "store_inv (s\<lparr>m_history := filter P (m_history s)\<rparr>)" (is "store_inv ?s")
proof -
  note d = store_invD[OF i]
  have g: "groups_of ?s = groups_of s" by (simp add: groups_of_def views fun_eq_iff)
  have "in_history ?s m" if "art_ref s m \<noteq> None" for m
  proof -
    have "map_of (m_history s) m \<noteq> None" using d(7) that by (simp add: remembered_def in_history_def)
    then obtain t where "map_of (m_history s) m = Some t" by blast
    then have "(m, t) \<in> set (m_history s)" by (rule map_of_SomeD)
    then have "m \<in> fst ` set (m_history ?s)" using p[OF that] by force
    then show ?thesis by (simp add: in_history_def map_of_eq_None_iff)
  qed
  then have "remembered ?s" by (simp add: remembered_def views)
  then show ?thesis
    using d by (simp add: store_inv_def filing_def objects_good_def all_filed_def refs_fresh_def names_good_def
        keys_good_def views g)
qed

lemma expire_inv [wf_rules]: "store_inv s \<Longrightarrow> store_inv (fst (expire now history_days s))"
proof -
  assume "store_inv s"
  then have "weak_inv (fst (fold (expire_group now) (map fst (m_groups s)) (s, 0)))"
    by (intro fold_expire_group_weak) (simp add: store_inv_weak)
  from drop_groupless_inv[OF this] show ?thesis
    unfolding expire_def Let_def
    by (auto simp: case_prod_beta intro!: drop_history_inv[of "s\<lparr>m_arts := as\<rparr>" for s as, simplified])
qed

lemma store_inv_bans [simp]: "store_inv (s\<lparr>m_bans := b\<rparr>) = store_inv s"
proof -
  have v: "grp (s\<lparr>m_bans := b\<rparr>) = grp s" "numbered (s\<lparr>m_bans := b\<rparr>) = numbered s"
    "art_ref (s\<lparr>m_bans := b\<rparr>) = art_ref s" "obj (s\<lparr>m_bans := b\<rparr>) = obj s"
    "in_history (s\<lparr>m_bans := b\<rparr>) = in_history s"
    by (auto simp: grp_def numbered_def art_ref_def obj_def in_history_def fun_eq_iff)
  then have "groups_of (s\<lparr>m_bans := b\<rparr>) = groups_of s" by (simp add: groups_of_def fun_eq_iff)
  then show ?thesis
    by (simp add: store_inv_def filing_def objects_good_def all_filed_def refs_fresh_def names_good_def
        remembered_def keys_good_def v)
qed

lemma add_group_ban_inv [wf_rules]: "store_inv s \<Longrightarrow> store_inv (fst (add_group_ban p s))"
  by (simp add: add_group_ban_def Let_def)

lemma delete_group_ban_inv [wf_rules]: "store_inv s \<Longrightarrow> store_inv (fst (delete_group_ban p s))"
  by (simp add: delete_group_ban_def Let_def)

section \<open>What expiry removes\<close>

definition stored_time :: "memory \<Rightarrow> string \<Rightarrow> int \<Rightarrow> int option" where
  "stored_time s g n = map_option s_stored_at (art_at s g n)"

definition retained :: "int \<Rightarrow> mem_group option \<Rightarrow> int option \<Rightarrow> int option" where
  "retained now mg t =
     (case Option.bind mg g_ret_days of None \<Rightarrow> t
      | Some d \<Rightarrow> if d > 0 then Option.bind t (\<lambda>x. if x < retention_cutoff now d then None else Some x) else t)"

lemma expired_time: "expired s c g n \<longleftrightarrow> (\<exists>t. stored_time s g n = Some t \<and> t < c)"
  by (auto simp: expired_def stored_time_def split: option.splits)

lemma expire_group_time:
  assumes "weak_inv s"
  shows "stored_time (fst (expire_group now g (s, k))) h n
       = (if h = g then retained now (grp s g) (stored_time s g n) else stored_time s h n)"
    and "map_option g_ret_days (grp (fst (expire_group now g (s, k))) h) = map_option g_ret_days (grp s h)"
proof -
  have "stored_time (fst (expire_group now g (s, k))) h n
       = (if h = g then retained now (grp s g) (stored_time s g n) else stored_time s h n)
     \<and> map_option g_ret_days (grp (fst (expire_group now g (s, k))) h) = map_option g_ret_days (grp s h)"
  proof (cases "\<exists>mg d. grp s g = Some mg \<and> g_ret_days mg = Some d \<and> 0 < d")
    case True
    then obtain mg d where g: "grp s g = Some mg" "g_ret_days mg = Some d" "0 < d" by blast
    obtain s' k' where e: "expire_group now g (s, k) = (s', k')" by force
    note st = expire_group_step[OF assms g e]
    have "stored_time s' h n = (if h = g \<and> expired s (retention_cutoff now d) g n then None else stored_time s h n)"
    proof -
      have "map_option s_stored_at (map_option (\<lambda>a. if Q a then left g a else a) x) = map_option s_stored_at x"
        for Q x by (cases x) auto
      then show ?thesis using st by (simp add: stored_time_def)
    qed
    moreover have "map_option g_ret_days (grp s' h) = map_option g_ret_days (grp s h)" using st g(1) by simp
    ultimately show ?thesis
      using e g by (cases "stored_time s g n") (auto simp: retained_def expired_time)
  next
    case False
    then have "expire_group now g (s, k) = (s, k)"
      by (intro expire_group_idle) (metis not_None_eq linorder_not_le)
    moreover have "retained now (grp s g) t = t" for t
      using False by (cases "grp s g") (auto simp: retained_def split: option.split)
    ultimately show ?thesis by simp
  qed
  then show "stored_time (fst (expire_group now g (s, k))) h n
       = (if h = g then retained now (grp s g) (stored_time s g n) else stored_time s h n)"
    "map_option g_ret_days (grp (fst (expire_group now g (s, k))) h) = map_option g_ret_days (grp s h)"
    by blast+
qed

lemma retained_cong: "map_option g_ret_days a = map_option g_ret_days b \<Longrightarrow> retained now a t = retained now b t"
  by (cases a; cases b) (auto simp: retained_def)

lemma fold_expire_time:
  "weak_inv s \<Longrightarrow> distinct gs \<Longrightarrow>
   stored_time (fst (fold (expire_group now) gs (s, k))) h n
     = (if h \<in> set gs then retained now (grp s h) (stored_time s h n) else stored_time s h n)"
proof (induction gs arbitrary: s k)
  case (Cons g gs)
  obtain s1 k1 where e: "expire_group now g (s, k) = (s1, k1)" by force
  have w: "weak_inv s1" using expire_group_weak[of "(s, k)" now g] Cons.prems(1) e by simp
  note t = expire_group_time[OF Cons.prems(1), of now g k, unfolded e fst_conv]
  have "stored_time (fst (fold (expire_group now) gs (s1, k1))) h n
      = (if h \<in> set gs then retained now (grp s1 h) (stored_time s1 h n) else stored_time s1 h n)"
    using Cons.IH[OF w] Cons.prems(2) by simp
  then show ?case
    using e t(1)[of h n] retained_cong[OF t(2)[of h]] Cons.prems(2) by auto
qed simp

lemma expire_time:
  assumes "store_inv s"
  shows "stored_time (fst (expire now history_days s)) h n = retained now (grp s h) (stored_time s h n)"
proof -
  let ?s1 = "fst (fold (expire_group now) (map fst (m_groups s)) (s, 0))"
  have "art_at (x\<lparr>m_arts := as\<rparr>) = art_at x" "art_at (x\<lparr>m_history := hs\<rparr>) = art_at x" for x as hs
    by (auto simp: art_at_def num_ref_def views fun_eq_iff)
  then have "stored_time (fst (expire now history_days s)) h n = stored_time ?s1 h n"
    unfolding expire_def Let_def stored_time_def by (auto simp: case_prod_beta)
  also have "\<dots> = (if h \<in> set (map fst (m_groups s)) then retained now (grp s h) (stored_time s h n)
      else stored_time s h n)"
    using assms by (intro fold_expire_time) (simp_all add: store_inv_weak keys_good_def weak_inv_def)
  also have "\<dots> = retained now (grp s h) (stored_time s h n)"
    by (auto simp: retained_def grp_def map_of_eq_None_iff[THEN iffD2])
  finally show ?thesis .
qed

section \<open>What a purge removes\<close>

lemma delete_all_refs:
  "store_inv s \<Longrightarrow> art_ref (fst (delete_all ms s)) = (art_ref s) |` (- set ms)
     \<and> obj (fst (delete_all ms s)) = obj s \<and> in_history (fst (delete_all ms s)) = in_history s"
proof (induction ms arbitrary: s)
  case (Cons m ms)
  obtain s1 ok where d: "delete_article m s = (s1, ok)" by force
  have i: "store_inv s1" using delete_article_inv[OF Cons.prems, of m] d by simp
  have "art_ref s1 = (art_ref s)(m := None) \<and> obj s1 = obj s \<and> in_history s1 = in_history s"
  proof (cases "art_ref s m")
    case None
    then show ?thesis using delete_article_none[OF None] d by (auto simp: fun_eq_iff)
  next
    case (Some r)
    then show ?thesis using delete_article_some[OF Cons.prems Some] d by simp
  qed
  then show ?case
    using Cons.IH[OF i] d by (auto simp: Let_def case_prod_beta restrict_map_def fun_eq_iff)
qed (simp add: restrict_map_def)

lemma fold_block_group_inv: "store_inv s \<Longrightarrow> store_inv (fold block_group gs s)"
  by (induction gs arbitrary: s) (simp_all add: block_group_inv)

lemma purge_unwanted_refs:
  assumes "store_inv s" "purge_unwanted s = (s', res)"
  shows "art_ref s' m = Some r \<Longrightarrow> obj s' r = Some a \<Longrightarrow> map_of (a_groups a) g \<noteq> None \<Longrightarrow> g \<notin> set (pu_groups res)"
proof -
  assume a: "art_ref s' m = Some r" "obj s' r = Some a" "map_of (a_groups a) g \<noteq> None"
  let ?s = "ensure_retention_maps s"
  let ?s1 = "fold block_group (blocked_by_alert ?s) ?s"
  let ?names = "dedup_on (\<lambda>g. g) [] (blocked_by_alert ?s @ blocked_names ?s1)"
  let ?d = "doomed_ids ?names ?s1"
  have i: "store_inv ?s1" using assms(1) by (intro fold_block_group_inv ensure_retention_maps_inv)
  show ?thesis
  proof (cases "?names = []")
    case True
    then show ?thesis using assms(2) by (auto simp: purge_unwanted_def Let_def)
  next
    case False
    then have e: "s' = fst (delete_all ?d ?s1)" "set (pu_groups res) = set ?names"
      using assms(2) unfolding purge_unwanted_def Let_def by (auto simp: case_prod_beta)
    have k: "art_ref ?s1 m = Some r" "m \<notin> set ?d" "obj ?s1 r = Some a"
      using a(1,2) delete_all_refs[OF i, of ?d] by (auto simp: e(1) restrict_map_def split: if_splits)
    have "(m, r) \<in> set (m_arts ?s1)" using k(1) by (simp add: art_ref_def map_of_SomeD)
    then have n: "\<not> in_any ?names a" using k(2,3) by (force simp: doomed_ids_def)
    obtain v where "map_of (a_groups a) g = Some v" using a(3) by blast
    then have "(g, v) \<in> set (a_groups a)" by (rule map_of_SomeD)
    then show ?thesis using n unfolding e(2) by (auto simp: in_any_def list_ex_iff)
  qed
qed

lemma purge_unwanted_names:
  assumes "purge_unwanted s = (s', res)"
  shows "set (pu_groups res) =
    set (blocked_by_alert s) \<union> set (blocked_names (fold block_group (blocked_by_alert s) (ensure_retention_maps s)))"
proof -
  have b: "blocked_by_alert (ensure_retention_maps s) = blocked_by_alert s"
    by (simp add: ensure_retention_maps_def blocked_by_alert_def)
  have n: "set (dedup_on (\<lambda>g. g) [] xs) = set xs" for xs :: "string list"
    using dedup_on_keys[of "\<lambda>g. g" "[]" xs] by simp
  show ?thesis
    using assms n[of "blocked_by_alert s @ blocked_names (fold block_group (blocked_by_alert s) (ensure_retention_maps s))"]
    unfolding purge_unwanted_def Let_def b by (auto simp: case_prod_beta split: if_splits)
qed

section \<open>Properties\<close>

text \<open>C7: expiry removes from each group exactly the articles older than the group's retention:
  under every number of every group the stored time afterwards is the one before, or nothing if
  the group has a positive retention and the article is older than it. The store stays
  consistent, and no Message-ID of a stored article leaves the history.\<close>

theorem expire_exact:
  assumes "store_inv s"
  shows "store_inv (fst (expire now history_days s))
    \<and> stored_time (fst (expire now history_days s)) g n = retained now (grp s g) (stored_time s g n)"
  using expire_inv[OF assms] expire_time[OF assms] by blast

theorem expire_exact_witness:
  "stored_time (fst (expire (10 * 24 * hour) 0 demo_group_store)) ''a'' 1
     = retained (10 * 24 * hour) (grp demo_group_store ''a'') (stored_time demo_group_store ''a'' 1)"
  using expire_exact[OF demo_group_store_inv] by blast

text \<open>After a purge no stored article is filed in a purged group, not even as a crosspost, and
  the purged groups are those named by a blocked alert, those whose retention mode is blocked
  and those an ignore pattern matches.\<close>

theorem purge_complete:
  assumes "store_inv s" "purge_unwanted s = (s', res)"
  shows "store_inv s'
    \<and> (\<forall>m r a g. \<not> (art_ref s' m = Some r \<and> obj s' r = Some a \<and> map_of (a_groups a) g \<noteq> None
          \<and> g \<in> set (pu_groups res)))
    \<and> set (pu_groups res) = set (blocked_by_alert s)
        \<union> set (blocked_names (fold block_group (blocked_by_alert s) (ensure_retention_maps s)))"
proof (intro conjI)
  show "store_inv s'" using purge_unwanted_inv[OF assms(1)] assms(2) by simp
  show "\<forall>m r a g. \<not> (art_ref s' m = Some r \<and> obj s' r = Some a \<and> map_of (a_groups a) g \<noteq> None
          \<and> g \<in> set (pu_groups res))"
  proof (intro allI notI)
    fix m r a g
    assume c: "art_ref s' m = Some r \<and> obj s' r = Some a \<and> map_of (a_groups a) g \<noteq> None \<and> g \<in> set (pu_groups res)"
    have "g \<notin> set (pu_groups res)"
      by (rule purge_unwanted_refs[OF assms c[THEN conjunct1] c[THEN conjunct2, THEN conjunct1]
            c[THEN conjunct2, THEN conjunct2, THEN conjunct1]])
    then show False using c by simp
  qed
  show "set (pu_groups res) = set (blocked_by_alert s)
        \<union> set (blocked_names (fold block_group (blocked_by_alert s) (ensure_retention_maps s)))"
    by (rule purge_unwanted_names[OF assms(2)])
qed

definition banned_demo :: memory where
  "banned_demo = fst (add_group_ban ''a*'' (fst (post_article 5 (demo_article ''<1@x>'' [''a'']) demo_group_store)))"

theorem purge_complete_witness:
  "store_inv (fst (purge_unwanted banned_demo)) \<and> set (pu_groups (snd (purge_unwanted banned_demo))) = {''a''}"
proof -
  have i: "store_inv banned_demo"
    using post_article_inv[OF demo_group_store_inv, of "demo_article ''<1@x>'' [''a'']" 5]
    by (simp add: banned_demo_def add_group_ban_inv demo_article_def)
  obtain s' res where p: "purge_unwanted banned_demo = (s', res)" by force
  have "set (blocked_by_alert banned_demo) = {}"
    "set (blocked_names (fold block_group (blocked_by_alert banned_demo) (ensure_retention_maps banned_demo))) = {''a''}"
    by code_simp+
  then show ?thesis using purge_complete[OF i p] unfolding p by simp
qed

text \<open>The binary quota of a user and day is exact: a post is counted and allowed while the
  count is below the limit and refused without being counted from then on, so the count never
  passes the limit; other users and days are not touched.\<close>

theorem binary_quota_exact:
  assumes "0 < limit"
  shows "(case consume_binary_quota now uid limit s of (s', used, e) \<Rightarrow>
      used = quota_count (quota_key now uid) s'
      \<and> (if quota_count (quota_key now uid) s < limit
         then e = None \<and> used = quota_count (quota_key now uid) s + 1 \<and> used \<le> limit
         else e = Some Quota_Exceeded \<and> used = quota_count (quota_key now uid) s)
      \<and> list_all (\<lambda>k. k = quota_key now uid \<or> quota_count k s' = quota_count k s) ks)"
  using assms
  by (auto simp: consume_binary_quota_def quota_count_def ensure_retention_maps_def Let_def list_all_iff)

theorem binary_quota_exact_witness:
  "(case consume_binary_quota 0 7 1 new_memory of (s', used, e) \<Rightarrow>
      used = quota_count (quota_key 0 7) s'
      \<and> (if quota_count (quota_key 0 7) new_memory < 1
         then e = None \<and> used = quota_count (quota_key 0 7) new_memory + 1 \<and> used \<le> 1
         else e = Some Quota_Exceeded \<and> used = quota_count (quota_key 0 7) new_memory)
      \<and> list_all (\<lambda>k. k = quota_key 0 7 \<or> quota_count k s' = quota_count k new_memory) [''x''])"
  by (rule binary_quota_exact) simp

text \<open>Expiring all articles of a group resets its high mark, so the next article gets a number
  that was already used for another article.\<close>

theorem expired_number_reused:
  "let s0 = fst (set_group_retention ''a'' (Some 1) ''auto'' demo_group_store);
       s1 = fst (post_article 0 (demo_article ''<1@x>'' [''a'']) s0);
       s2 = fst (expire (3 * 24 * hour) 0 s1);
       s3 = fst (post_article (3 * 24 * hour) (demo_article ''<2@x>'' [''a'']) s2)
   in map_option s_msgid (get_by_number ''a'' 1 s1) = Some ''<1@x>''
      \<and> map_option s_msgid (get_by_number ''a'' 1 s3) = Some ''<2@x>''"
  by code_simp

end
