(* ===== verification/StoreStats.thy ===== *)
theory StoreStats
  imports StoreRetention
begin

text \<open>
  Counting what passes through the in-process store and searching it: \<open>RecordContentStats\<close>,
  \<open>ContentStats\<close>, \<open>RefreshContentStats\<close> and \<open>SearchArticles\<close> of \<open>internal/store/memory.go\<close>, with
  the helpers they take from \<open>postgres_stats.go\<close>.
\<close>

section \<open>Recording\<close>

definition normalize_from_key :: "string \<Rightarrow> string" where
  "normalize_from_key f = to_lower (trim_space f)"

definition path_stat_sites :: "string \<Rightarrow> string list \<Rightarrow> string list" where
  "path_stat_sites path exclude =
     (let ex = filter (\<lambda>e. e \<noteq> []) (map (\<lambda>e. to_lower (trim_space e)) exclude) @ [''not-for-mail'']
      in dedup_on to_lower [] (filter (\<lambda>h. h \<noteq> [] \<and> to_lower h \<notin> set ex)
           (map trim_space (split_on CHR ''!'' path))))"

definition path_from_headers :: "string \<Rightarrow> string" where
  "path_from_headers hs =
     (case find (\<lambda>l. length l \<ge> 5 \<and> equal_fold (take 5 l) ''Path:'')
             (map (\<lambda>l. trim_right l [CR]) (split_on LF hs)) of
        None \<Rightarrow> [] | Some l \<Rightarrow> trim_space (drop 5 l))"

record stats_event =
  se_groups :: "string list"
  se_from :: string
  se_path :: string
  se_binary :: bool
  se_exclude :: "string list"
  se_day :: int

definition stat_at :: "(string \<times> stat_gb) list \<Rightarrow> string \<Rightarrow> stat_gb" where
  "stat_at m g = (case map_of m g of None \<Rightarrow> \<lparr>text_n = 0, bin_n = 0\<rparr> | Some c \<Rightarrow> c)"

definition add_stat :: "bool \<Rightarrow> stat_gb \<Rightarrow> stat_gb" where
  "add_stat binary c = (if binary then c\<lparr>bin_n := bin_n c + 1\<rparr> else c\<lparr>text_n := text_n c + 1\<rparr>)"

definition count_group :: "bool \<Rightarrow> string \<Rightarrow> (string \<times> stat_gb) list \<Rightarrow> (string \<times> stat_gb) list" where
  "count_group binary g m = AList.update g (add_stat binary (stat_at m g)) m"

definition count_key :: "string \<Rightarrow> (string \<times> int) list \<Rightarrow> (string \<times> int) list" where
  "count_key k m = AList.update k ((case map_of m k of None \<Rightarrow> 0 | Some n \<Rightarrow> n) + 1) m"

text \<open>A map of maps; \<open>m[d] == nil\<close> makes an empty one.\<close>

definition day_map :: "(string \<times> (string \<times> 'a) list) list \<Rightarrow> string \<Rightarrow> (string \<times> 'a) list" where
  "day_map m d = (case map_of m d of None \<Rightarrow> [] | Some x \<Rightarrow> x)"

definition record_at ::
    "string \<Rightarrow> bool \<Rightarrow> string list \<Rightarrow> string \<Rightarrow> string list \<Rightarrow> memory \<Rightarrow> memory" where
  "record_at d binary gs from sites s =
     (let s1 = s\<lparr>m_stat_group_day := AList.update d (fold (count_group binary) gs (day_map (m_stat_group_day s) d))
                  (m_stat_group_day s),
                m_stat_group_total := fold (count_group binary) gs (m_stat_group_total s)\<rparr>;
          fk = normalize_from_key from;
          s2 = (if fk \<noteq> [] then s1\<lparr>m_stat_from_day :=
                  AList.update d (count_key fk (day_map (m_stat_from_day s1) d)) (m_stat_from_day s1)\<rparr> else s1)
      in s2\<lparr>m_stat_path_day := AList.update d (fold count_key sites (day_map (m_stat_path_day s2) d))
             (m_stat_path_day s2)\<rparr>)"

definition record_content_stats :: "int \<Rightarrow> stats_event \<Rightarrow> memory \<Rightarrow> memory" where
  "record_content_stats now ev s =
     record_at (format_day (if se_day ev = zero_time then now else se_day ev)) (se_binary ev)
       (filter (\<lambda>g. g \<noteq> []) (map trim_space (se_groups ev))) (se_from ev)
       (path_stat_sites (se_path ev) (se_exclude ev)) s"

definition refresh_one :: "string list \<Rightarrow> mem_art \<Rightarrow> memory \<Rightarrow> memory" where
  "refresh_one exclude a s =
     record_at (format_day (s_stored_at a)) (a_binary a) (map fst (a_groups a)) (s_from a)
       (path_stat_sites (path_from_headers (s_headers a)) exclude) s"

definition refresh_content_stats :: "string list \<Rightarrow> memory \<Rightarrow> memory" where
  "refresh_content_stats exclude s =
     fold (refresh_one exclude) (stored_objs s)
       (s\<lparr>m_stat_group_day := [], m_stat_group_total := [], m_stat_from_day := [], m_stat_path_day := []\<rparr>)"

section \<open>Ranking\<close>

text \<open>The larger count first, then the name; at most \<open>limit\<close> entries.\<close>

definition rank :: "nat \<Rightarrow> (string \<times> int) list \<Rightarrow> (string \<times> int) list" where
  "rank limit m = take limit (sort_key (\<lambda>(k, n). (- n, k)) m)"

definition add_counts :: "(string \<times> int) list \<Rightarrow> (string \<times> int) list \<Rightarrow> (string \<times> int) list" where
  "add_counts m acc =
     fold (\<lambda>(k, n) acc. AList.update k ((case map_of acc k of None \<Rightarrow> 0 | Some x \<Rightarrow> x) + n) acc) m acc"

definition rank_all :: "nat \<Rightarrow> (string \<times> (string \<times> int) list) list \<Rightarrow> (string \<times> int) list" where
  "rank_all limit days = rank limit (fold (\<lambda>(d, m). add_counts m) days [])"

definition rank_eligible :: "memory \<Rightarrow> string \<Rightarrow> bool" where
  "rank_eligible s name =
     (case grp s name of None \<Rightarrow> False
      | Some g \<Rightarrow> g_count g > 0 \<and> g_ret_mode g \<noteq> ''blocked'' \<and> \<not> group_matches (m_bans s) [name])"

definition rank_groups :: "string \<Rightarrow> memory \<Rightarrow> (string \<times> int) list" where
  "rank_groups day s =
     (let src = (if day = [] then m_stat_group_total s else day_map (m_stat_group_day s) day)
      in rank 100 (map (\<lambda>(g, c). (g, text_n c)) (filter (\<lambda>(g, c). text_n c > 0 \<and> rank_eligible s g) src)))"

definition slice_tops :: "(string \<times> int) list \<Rightarrow> (string \<times> (string \<times> int) list) list" where
  "slice_tops xs = map (\<lambda>n. (format_int (int n), take n xs)) [10, 25, 100]"

record shame_entry =
  sh_kind :: string
  sh_name :: string
  sh_detail :: string

definition hall_of_shame :: "memory \<Rightarrow> shame_entry list" where
  "hall_of_shame s =
     (let blocked = filter (\<lambda>al. al_status al = ''blocked'') (m_alerts s);
          seen = map al_group blocked;
          out = map (\<lambda>al. \<lparr>sh_kind = ''blocked'', sh_name = al_group al, sh_detail = al_detail al\<rparr>) blocked
            @ map (\<lambda>(g, mg). \<lparr>sh_kind = ''blocked'', sh_name = g, sh_detail = []\<rparr>)
                (filter (\<lambda>(g, mg). g_ret_mode mg = ''blocked'' \<and> g \<notin> set seen) (m_groups s))
            @ map (\<lambda>p. \<lparr>sh_kind = ''ignored'', sh_name = p, sh_detail = []\<rparr>) (m_bans s)
      in sort_key (\<lambda>e. (sh_kind e, sh_name e)) out)"

record content_stats =
  cs_populated :: int
  cs_groups_today :: "(string \<times> (string \<times> int) list) list"
  cs_groups_total :: "(string \<times> (string \<times> int) list) list"
  cs_posters_today :: "(string \<times> int) list"
  cs_posters_total :: "(string \<times> int) list"
  cs_providers_today :: "(string \<times> int) list"
  cs_providers_total :: "(string \<times> int) list"
  cs_shame :: "shame_entry list"

text \<open>\<open>hallOfShameLocked\<close> also makes the retention maps, which touches only the next alert number.\<close>

definition content_stats :: "int \<Rightarrow> memory \<Rightarrow> memory \<times> content_stats" where
  "content_stats now s =
     (let d = format_day now in
      (ensure_retention_maps s,
       \<lparr>cs_populated = int (length (filter (\<lambda>(g, mg). g_count mg > 1) (m_groups s))),
        cs_groups_today = slice_tops (rank_groups d s), cs_groups_total = slice_tops (rank_groups [] s),
        cs_posters_today = rank 10 (day_map (m_stat_from_day s) d), cs_posters_total = rank_all 10 (m_stat_from_day s),
        cs_providers_today = rank 10 (day_map (m_stat_path_day s) d), cs_providers_total = rank_all 10 (m_stat_path_day s),
        cs_shame = hall_of_shame s\<rparr>))"

section \<open>Search\<close>

record search_hit =
  hit_msgid :: string
  hit_subject :: string
  hit_from :: string
  hit_date :: string
  hit_stored :: string
  hit_xref :: string
  hit_groups :: "string list"
  hit_group :: string
  hit_num :: int
  hit_snippet :: string

definition token_matches :: "string \<Rightarrow> string \<Rightarrow> bool" where
  "token_matches blob tok0 =
     (let tok = trim_cutset tok0 [CHR 0x22, CHR 0x27] in
      if tok = [] then True
      else if has_prefix tok ''-'' then \<not> contains blob (trim_prefix tok ''-'')
      else contains blob tok)"

definition search_snippet :: "string \<Rightarrow> string" where
  "search_snippet b = (if length b > 160 then take 160 b @ [CHR 0xE2, CHR 0x80, CHR 0xA6] else b)"

definition search_hit_of :: "string \<Rightarrow> mem_art \<Rightarrow> search_hit option" where
  "search_hit_of gname a =
     (let gs = sort (map fst (a_groups a));
          primary = (if gname \<noteq> [] \<and> gname \<in> set gs then gname else if gs \<noteq> [] then hd gs else []);
          num = (case map_of (a_groups a) primary of None \<Rightarrow> 0 | Some n \<Rightarrow> n)
      in if gname \<noteq> [] \<and> primary \<noteq> gname then None
         else Some \<lparr>hit_msgid = s_msgid a, hit_subject = s_subject a, hit_from = s_from a, hit_date = s_date a,
           hit_stored = format_rfc3339 (s_stored_at a), hit_xref = s_xref a, hit_groups = gs,
           hit_group = primary, hit_num = num, hit_snippet = search_snippet (s_body a)\<rparr>)"

definition search_articles :: "string \<Rightarrow> string \<Rightarrow> int \<Rightarrow> int \<Rightarrow> memory \<Rightarrow> search_hit list" where
  "search_articles query0 group0 limit0 offset0 s =
     (let query = trim_space query0;
          limit = (if limit0 \<le> 0 \<or> limit0 > 100 then 50 else limit0);
          offset = max 0 offset0; gname = trim_space group0;
          tokens = str_fields (to_lower query)
      in if query = [] \<or> tokens = [] then []
         else
           let blob = (\<lambda>a. to_lower (s_subject a @ '' '' @ s_from a @ '' '' @ s_body a));
               hits = List.map_filter (search_hit_of gname)
                 (filter (\<lambda>a. list_all (token_matches (blob a)) tokens) (stored_objs s))
           in take (nat limit) (drop (nat offset) (rev (sort_key hit_stored hits))))"

section \<open>Lemmas\<close>

text \<open>The invariant reads six fields only.\<close>

definition core :: "memory \<Rightarrow> (string \<times> mem_group) list \<times> (string \<times> nat) list
    \<times> (string \<times> (int \<times> nat) list) list \<times> (nat \<times> mem_art) list \<times> nat \<times> (string \<times> int) list" where
  "core s = (m_groups s, m_arts s, m_by_num s, m_heap s, m_next_ref s, m_history s)"

lemma store_inv_core: "core s = core t \<Longrightarrow> store_inv s = store_inv t"
proof -
  assume c: "core s = core t"
  then have v: "grp s = grp t" "numbered s = numbered t" "art_ref s = art_ref t" "obj s = obj t"
    "in_history s = in_history t" "m_next_ref s = m_next_ref t" "keys_good s = keys_good t"
    by (auto simp: core_def grp_def numbered_def art_ref_def obj_def in_history_def keys_good_def fun_eq_iff)
  moreover have "groups_of s = groups_of t" unfolding groups_of_def v ..
  ultimately show ?thesis
    unfolding store_inv_def filing_def objects_good_def all_filed_def refs_fresh_def names_good_def remembered_def
    by simp
qed

lemma record_at_core [simp]: "core (record_at d b gs f ss s) = core s"
  by (simp add: record_at_def Let_def core_def)

lemma record_content_stats_inv [wf_rules]: "store_inv (record_content_stats now ev s) = store_inv s"
  by (rule store_inv_core) (simp add: record_content_stats_def)

lemma refresh_content_stats_inv [wf_rules]: "store_inv (refresh_content_stats ex s) = store_inv s"
proof -
  have "core (fold (refresh_one ex) as t) = core t" for as t
    by (induction as arbitrary: t) (simp_all add: refresh_one_def)
  then show ?thesis by (intro store_inv_core) (simp add: refresh_content_stats_def core_def)
qed

text \<open>How often a name was counted, as text and as binary.\<close>

lemma count_group_stat:
  "stat_at (fold (count_group b) gs m) g =
     (let n = int (length (filter (\<lambda>x. x = g) gs)); c = stat_at m g in
      if b then c\<lparr>bin_n := bin_n c + n\<rparr> else c\<lparr>text_n := text_n c + n\<rparr>)"
  by (induction gs arbitrary: m) (auto simp: count_group_def add_stat_def stat_at_def Let_def)

definition total_of :: "(string \<times> int) list \<Rightarrow> string \<Rightarrow> int" where
  "total_of m k = (case map_of m k of None \<Rightarrow> 0 | Some n \<Rightarrow> n)"

lemma add_counts_total:
  "distinct (map fst m) \<Longrightarrow> total_of (add_counts m acc) k = total_of acc k + total_of m k"
proof (induction m arbitrary: acc)
  case (Cons x m)
  obtain a n where x: "x = (a, n)" by (cases x)
  have "total_of (AList.update a ((case map_of acc a of None \<Rightarrow> 0 | Some x \<Rightarrow> x) + n) acc) k
      = total_of acc k + (if k = a then n else 0)" by (simp add: total_of_def)
  moreover have "add_counts (x # m) acc
      = add_counts m (AList.update a ((case map_of acc a of None \<Rightarrow> 0 | Some x \<Rightarrow> x) + n) acc)"
    by (simp add: add_counts_def x)
  moreover have "map_of m a = None" using Cons.prems by (simp add: x map_of_eq_None_iff)
  then have "k = a \<Longrightarrow> total_of m k = 0" by (simp add: total_of_def)
  ultimately show ?case using Cons by (auto simp: total_of_def x)
qed (simp add: total_of_def add_counts_def)

lemma rank_all_total:
  "list_all (\<lambda>(d, m). distinct (map fst m)) days \<Longrightarrow>
   total_of (fold (\<lambda>(d, m). add_counts m) days acc) k = total_of acc k + (\<Sum>(d, m) \<leftarrow> days. total_of m k)"
  by (induction days arbitrary: acc) (auto simp: add_counts_total)

text \<open>The head of a sorted list is its smallest part.\<close>

lemma take_sort_key_least:
  assumes "x \<in> set (take n (sort_key f xs))" "y \<in> set (drop n (sort_key f xs))"
  shows "f x \<le> f y"
proof -
  have "sorted (map f (take n (sort_key f xs) @ drop n (sort_key f xs)))" by simp
  then show ?thesis using assms by (simp only: map_append sorted_append) auto
qed

lemma rank_least:
  "x \<in> set (rank limit m) \<Longrightarrow> y \<in> set m \<Longrightarrow> y \<notin> set (rank limit m) \<Longrightarrow> snd y \<le> snd x"
proof -
  assume a: "x \<in> set (rank limit m)" "y \<in> set m" "y \<notin> set (rank limit m)"
  let ?s = "sort_key (\<lambda>(k, n). (- n, k)) m"
  have "y \<in> set ?s" using a(2) by simp
  then have "y \<in> set (drop limit ?s)"
    using a(3) unfolding rank_def by (metis Un_iff append_take_drop_id set_append)
  then have "(\<lambda>(k, n). (- n, k)) x \<le> (\<lambda>(k, n). (- n, k)) y"
    using a(1) take_sort_key_least unfolding rank_def by metis
  then show ?thesis by (cases x; cases y) (auto simp: less_eq_prod_def)
qed


lemma add_counts_distinct: "distinct (map fst acc) \<Longrightarrow> distinct (map fst (add_counts m acc))"
  unfolding add_counts_def by (induction m arbitrary: acc) (auto simp: distinct_update)

lemma days_distinct: "distinct (map fst acc) \<Longrightarrow> distinct (map fst (fold (\<lambda>(d, m). add_counts m) days acc))"
  by (induction days arbitrary: acc) (auto simp: add_counts_distinct)

section \<open>Properties\<close>

text \<open>The list of the ten most active posters is right: each entry carries the sum of the poster's
  daily counts, the list is as long as it can be up to ten, and nobody who is missing has a larger
  sum than somebody in it.\<close>

theorem top_posters_correct:
  assumes "list_all (\<lambda>(d, m). distinct (map fst m)) (m_stat_from_day s)"
    and "best = cs_posters_total (snd (content_stats now s))" and "(k, n) \<in> set best"
  shows "n = (\<Sum>(d, m) \<leftarrow> m_stat_from_day s. total_of m k) \<and> length best \<le> 10 \<and> distinct (map fst best)
    \<and> (p \<notin> set (map fst best) \<longrightarrow> total_of (fold (\<lambda>(d, m). add_counts m) (m_stat_from_day s) []) p \<le> n
         \<or> total_of (fold (\<lambda>(d, m). add_counts m) (m_stat_from_day s) []) p = 0)"
proof -
  let ?m = "fold (\<lambda>(d, m). add_counts m) (m_stat_from_day s) []"
  have best: "best = rank 10 ?m" using assms(2) by (simp add: content_stats_def Let_def rank_all_def)
  have d: "distinct (map fst ?m)" by (rule days_distinct) simp
  have sub: "set best \<subseteq> set ?m" unfolding best rank_def by (metis set_sort set_take_subset)
  have total: "(a, x) \<in> set ?m \<Longrightarrow> total_of ?m a = x" for a x using d by (simp add: total_of_def)
  have "n = total_of ?m k" using sub assms(3) total by auto
  also have "\<dots> = (\<Sum>(d, m) \<leftarrow> m_stat_from_day s. total_of m k)"
    using rank_all_total[OF assms(1), of "[]" k] by (simp add: total_of_def)
  finally have "n = (\<Sum>(d, m) \<leftarrow> m_stat_from_day s. total_of m k)" .
  moreover have "length best \<le> 10" unfolding best rank_def by simp
  moreover have "distinct (map fst best)"
    unfolding best rank_def using d by (simp add: take_map[symmetric] distinct_map inj_on_def)
  moreover have "p \<notin> set (map fst best) \<Longrightarrow> total_of ?m p \<le> n \<or> total_of ?m p = 0"
  proof (cases "map_of ?m p")
    case (Some x)
    then have in_m: "(p, x) \<in> set ?m" by (rule map_of_SomeD)
    assume "p \<notin> set (map fst best)"
    then have "(p, x) \<notin> set best" by force
    then show ?thesis using rank_least[of "(k, n)" 10 ?m "(p, x)"] assms(3) in_m total unfolding best by auto
  qed (simp add: total_of_def)
  ultimately show ?thesis by blast
qed

definition demo_stats :: memory where
  "demo_stats = new_memory\<lparr>m_stat_from_day := [(''d1'', [(''a'', 2), (''b'', 1)]), (''d2'', [(''b'', 4)])]\<rparr>"

theorem top_posters_correct_witness:
  "(5 :: int) = (\<Sum>(d, m) \<leftarrow> m_stat_from_day demo_stats. total_of m ''b'')"
proof -
  have d: "list_all (\<lambda>(d, m). distinct (map fst m)) (m_stat_from_day demo_stats)" by (simp add: demo_stats_def)
  have "(''b'', 5) \<in> set (cs_posters_total (snd (content_stats 0 demo_stats)))"
    by (simp add: content_stats_def Let_def rank_all_def rank_def demo_stats_def add_counts_def)
  from top_posters_correct[OF d refl this] show ?thesis by blast
qed

end
