(* ===== verification/Cleanfeed.thy ===== *)
theory Cleanfeed
  imports Config
begin

text \<open>
  The external spam filter, \<open>internal/cleanfeed/filter.go\<close>. What the machine answers is an argument:
  \<open>getenv\<close>, \<open>look_path\<close> (is the command found), \<open>file_exists\<close>, and \<open>run\<close>, the verdict of running a
  command on an article: \<open>None\<close> when it exits with success, otherwise its standard error or the text
  that \<open>runExternal\<close> makes of the failure.
\<close>

record verdict =
  vd_reject :: bool
  vd_audit :: bool
  vd_reason :: string

definition no_verdict :: verdict where
  "no_verdict = \<lparr>vd_reject = False, vd_audit = False, vd_reason = []\<rparr>"

definition default_commands :: "string list" where
  "default_commands = [''perl /usr/local/lib/openusenet/cleanfeed-filter.pl'',
     ''perl /usr/lib/openusenet/cleanfeed-filter.pl'', ''scripts/cleanfeed-filter.pl'']"

definition command_found :: "(string \<Rightarrow> bool) \<Rightarrow> (string \<Rightarrow> bool) \<Rightarrow> string \<Rightarrow> bool" where
  "command_found look_path file_exists cand =
     (case str_fields cand of
        [] \<Rightarrow> False
      | [p] \<Rightarrow> look_path p
      | p # q # _ \<Rightarrow> look_path p \<and> file_exists q)"

definition resolve_command ::
    "(string \<Rightarrow> string) \<Rightarrow> (string \<Rightarrow> bool) \<Rightarrow> (string \<Rightarrow> bool) \<Rightarrow> cleanfeed_cfg \<Rightarrow> string" where
  "resolve_command getenv look_path file_exists c =
     (let v = trim_space (getenv ''OPENUSENET_CLEANFEED_COMMAND'') in
      if v \<noteq> [] then v
      else if trim_space (cl_command c) \<noteq> [] then trim_space (cl_command c)
      else case find (command_found look_path file_exists) default_commands of
        Some cand \<Rightarrow> cand | None \<Rightarrow> [])"

definition apply_filter_mode :: "cleanfeed_cfg \<Rightarrow> verdict \<Rightarrow> verdict" where
  "apply_filter_mode c r =
     (if cleanfeed_reject c then r\<lparr>vd_reject := True, vd_audit := False\<rparr>
      else if cleanfeed_audit c \<or> (cl_enabled c \<and> vd_reason r \<noteq> []) then r\<lparr>vd_audit := True, vd_reject := False\<rparr>
      else r)"

definition run_external :: "(string \<Rightarrow> string \<Rightarrow> string option) \<Rightarrow> string \<Rightarrow> string \<Rightarrow> verdict" where
  "run_external run command raw =
     (if str_fields command = [] then no_verdict
      else case run command raw of
        None \<Rightarrow> no_verdict
      | Some reason \<Rightarrow> \<lparr>vd_reject = True, vd_audit = False, vd_reason = reason\<rparr>)"

definition cleanfeed_check ::
    "(string \<Rightarrow> string \<Rightarrow> string option) \<Rightarrow> string \<Rightarrow> cleanfeed_cfg \<Rightarrow> string \<Rightarrow> verdict" where
  "cleanfeed_check run command c raw =
     (if \<not> cl_enabled c then no_verdict
      else if command = [] then
        apply_filter_mode c \<lparr>vd_reject = False, vd_audit = False,
          vd_reason = ''CF-NOFILTER cleanfeed enabled but command not configured''\<rparr>
      else
        let r = run_external run command raw in
        if vd_reason r \<noteq> [] \<or> vd_reject r then apply_filter_mode c r else no_verdict)"

text \<open>Only reject mode rejects: in any other mode a verdict is at most noted.\<close>

lemma cleanfeed_rejects_iff:
  "vd_reject (cleanfeed_check run command c raw) \<longleftrightarrow>
     cleanfeed_reject c \<and> (command = [] \<or> str_fields command \<noteq> [] \<and> run command raw \<noteq> None)"
  if "\<forall>r. run command raw = Some r \<longrightarrow> r \<noteq> []"
  using that
  by (auto simp: cleanfeed_check_def apply_filter_mode_def run_external_def no_verdict_def Let_def
      cleanfeed_reject_def split: option.splits)

end
