(* ===== verification/Session.thy ===== *)
theory Session
  imports Wire Ops Inbound Binary Control StoreStats Cleanfeed
begin

text \<open>
  The state of one NNTP connection, \<open>Session\<close> in \<open>internal/nntp/session.go\<close>, and the commands of a
  reader. A handler takes the session and yields the session after it and the error it returns. The
  replies are kept as they are sent, \<open>render\<close> writes them. A write to the connection succeeds: a
  connection that no longer takes replies ends the session and is not modelled.

  The store and the runtime gates are part of the session's state, since the handlers read and
  change them; other connections may change both between two commands.
\<close>

section \<open>Replies\<close>

datatype reply =
    Status nat string
  | Status_Args nat "string list" string
  | Block nat "string list" string string

fun reply_number :: "reply \<Rightarrow> nat" where
  "reply_number (Status c t) = c"
| "reply_number (Status_Args c as t) = c"
| "reply_number (Block c as t b) = c"

fun render :: "reply \<Rightarrow> string" where
  "render (Status c t) = reply_text c t"
| "render (Status_Args c as t) = reply_args_text c as t"
| "render (Block c as t b) = block_text c as t b"

section \<open>The session\<close>

text \<open>What a handler returns besides nil: \<open>errReplied\<close>, a read error, a store error; \<open>Panic\<close> stands for
  a nil dereference.\<close>

datatype fault = Replied | Read_Error io_error | Store_Failed store_error | Panic

record session =
  x_store :: memory
  x_in :: string
  x_out :: "reply list"
  x_group :: "group_info option"
  x_cur :: int
  x_closed :: bool
  x_ops :: "controller option"
  x_user :: string
  x_user_id :: int
  x_auth :: bool
  x_feed_auth :: bool
  x_feed_peer :: int
  x_pending :: string
  x_mbox :: "(string \<times> article) list option"
  x_paths :: "string list option"
  x_offers :: "(string \<times> string \<times> string list \<times> string) list option"
  x_mails :: "delivery list"

text \<open>What stays fixed during a session: the configuration, the address of the client, the command of
  the external filter, and the answers of what is not modelled: the resolver, bcrypt, the filter,
  the date parser, the mail server, the random bytes of a Message-ID, the wording of an alert.\<close>

record session_env =
  e_cfg :: config
  e_remote :: string
  e_resolve :: "string \<Rightarrow> ip list"
  e_password :: "string \<Rightarrow> string \<Rightarrow> bool"
  e_filter_command :: string
  e_filter :: "string \<Rightarrow> string \<Rightarrow> string option"
  e_parse_date :: "string \<Rightarrow> int option"
  e_smtp :: "delivery \<Rightarrow> string option"
  e_random :: "int \<Rightarrow> string"
  e_flood_text :: "int \<Rightarrow> int \<Rightarrow> int \<Rightarrow> string"

type_synonym handled = "session \<times> fault option"

definition send :: "reply \<Rightarrow> session \<Rightarrow> session" where
  "send r x = x\<lparr>x_out := x_out x @ [r]\<rparr>"

text \<open>\<open>return s.conn.Reply(...)\<close>: the write succeeds, so the handler returns nil.\<close>

definition answer :: "reply \<Rightarrow> session \<Rightarrow> handled" where
  "answer r x = (send r x, None)"

definition with_store :: "(memory \<Rightarrow> memory) \<Rightarrow> session \<Rightarrow> session" where
  "with_store f x = x\<lparr>x_store := f (x_store x)\<rparr>"

definition crlf_lines :: "string list \<Rightarrow> string" where
  "crlf_lines ls = concat (map (\<lambda>l. l @ CRLF) ls)"

section \<open>Simple commands\<close>

definition software :: string where "software = ''OpenUsenetServer''"
definition version :: string where "version = ''0.8.0''"
definition max_art_num :: int where "max_art_num = 2147483647"

definition cmd_slave :: "session \<Rightarrow> handled" where
  "cmd_slave x = answer (Status 500 ''SLAVE was removed in RFC 3977'') x"

definition capability_lines :: "string list" where
  "capability_lines =
     [''VERSION 2'', ''READER'', ''POST'', ''NEWNEWS'', ''HDR'', ''OVER MSGID'', ''IHAVE'', ''STREAMING'',
      ''AUTHINFO USER'', ''LIST ACTIVE NEWSGROUPS ACTIVE.TIMES OVERVIEW.FMT HEADERS'',
      ''IMPLEMENTATION '' @ software @ '' '' @ version]"

definition cmd_capabilities :: "session \<Rightarrow> handled" where
  "cmd_capabilities x = answer (Block 101 [] ''Capability list:'' (crlf_lines capability_lines)) x"

definition help_lines :: "string list" where
  "help_lines =
     [''  ARTICLE [number|<message-id>]'', ''  BODY [number|<message-id>]'', ''  CAPABILITIES [keyword]'',
      ''  DATE'', ''  GROUP newsgroup'', ''  HDR header [range|<message-id>]'',
      ''  HEAD [number|<message-id>]'', ''  HELP'', ''  AUTHINFO USER name'', ''  AUTHINFO PASS password'',
      ''  CHECK <message-id>'', ''  IHAVE <message-id>'', ''  LAST'',
      ''  LIST [ACTIVE [wildmat]|NEWSGROUPS [wildmat]|ACTIVE.TIMES [wildmat]|OVERVIEW.FMT|HEADERS]'',
      ''  LISTGROUP [newsgroup [range]]'', ''  MODE READER|STREAM'', ''  NEWGROUPS [yy]yymmdd hhmmss [GMT]'',
      ''  NEWNEWS wildmat [yy]yymmdd hhmmss [GMT]'', ''  NEXT'', ''  OVER [range]'', ''  POST'', ''  QUIT'',
      ''  STAT [number|<message-id>]'', ''  TAKETHIS <message-id>'']"

definition cmd_help :: "session \<Rightarrow> handled" where
  "cmd_help x = answer (Block 100 [] ''help text follows'' (crlf_lines help_lines)) x"

definition cmd_quit :: "session \<Rightarrow> handled" where
  "cmd_quit x = answer (Status 205 ''NNTP Service exits normally'') (x\<lparr>x_closed := True\<rparr>)"

definition cmd_date :: "int \<Rightarrow> session \<Rightarrow> handled" where
  "cmd_date now x = answer (Status_Args 111 [format_compact now] ''server date and time'') x"

definition cmd_mode :: "string list \<Rightarrow> session \<Rightarrow> handled" where
  "cmd_mode args x =
     (let m = to_upper (args ! 1) in
      if m = ''READER'' then answer (Status 200 ''Reader mode, posting permitted'') x
      else if m = ''STREAM'' then answer (Status 203 ''Streaming mode OK'') x
      else answer (Status 501 ''unknown MODE option'') x)"

section \<open>Groups\<close>

definition first_num :: "group_info \<Rightarrow> int" where
  "first_num g = (if g_low g > 0 then g_low g else 0)"

definition group_args :: "group_info \<Rightarrow> string list" where
  "group_args g = [format_int (g_count g), format_int (g_low g), format_int (g_high g), g_name g]"

definition select_group :: "group_info \<Rightarrow> session \<Rightarrow> session" where
  "select_group g x = x\<lparr>x_group := Some g, x_cur := first_num g\<rparr>"

definition cmd_group :: "string list \<Rightarrow> session \<Rightarrow> handled" where
  "cmd_group args x =
     (case get_group (args ! 1) (x_store x) of
        None \<Rightarrow> answer (Status 411 ''no such newsgroup'') x
      | Some g \<Rightarrow> answer (Status_Args 211 (group_args g) ''group selected'') (select_group g x))"

definition parse_range :: "string \<Rightarrow> (int \<times> int) option" where
  "parse_range spec =
     (if spec = [] then Some (0, 0)
      else if contains spec ''-'' then
        (case cut spec ''-'' of (a, b, _) \<Rightarrow>
           (case parse_int a of
              None \<Rightarrow> None
            | Some lo \<Rightarrow>
                if lo < 1 then None
                else if b = [] then Some (lo, max_art_num)
                else (case parse_int b of None \<Rightarrow> None | Some hi \<Rightarrow> Some (lo, hi))))
      else case parse_int spec of
        None \<Rightarrow> None
      | Some n \<Rightarrow> if n < 1 then None else Some (n, n))"

definition arg_at :: "string list \<Rightarrow> nat \<Rightarrow> string" where
  "arg_at args i = (if i < length args then args ! i else [])"

definition cmd_listgroup :: "string list \<Rightarrow> session \<Rightarrow> handled" where
  "cmd_listgroup args x =
     (let name0 = arg_at args 1 in
      if name0 = [] \<and> x_group x = None then answer (Status 412 ''no newsgroup selected'') x
      else
        let name = (if name0 = [] then (case x_group x of Some g \<Rightarrow> g_name g | None \<Rightarrow> []) else name0) in
        case get_group name (x_store x) of
          None \<Rightarrow> answer (Status 411 ''no such newsgroup'') x
        | Some g \<Rightarrow>
            let x' = select_group g x in
            case parse_range (arg_at args 2) of
              None \<Rightarrow> answer (Status 501 ''syntax error'') x'
            | Some (lo, hi) \<Rightarrow>
                answer (Block 211 (group_args g) ''article numbers follow''
                  (crlf_lines (map format_int (article_numbers name lo hi (x_store x))))) x')"

text \<open>\<open>time.Unix\<close>: seconds, rounded down.\<close>

definition active_line :: "group_info \<Rightarrow> string" where
  "active_line g = g_name g @ '' '' @ format_int (g_high g) @ '' '' @ format_int (g_low g) @ '' '' @ g_status g"

definition cmd_list :: "string list \<Rightarrow> session \<Rightarrow> handled" where
  "cmd_list args x =
     (let keyword = (if length args \<ge> 2 then to_upper (args ! 1) else ''ACTIVE'');
          wild = arg_at args 2; gs = list_groups wild (x_store x);
          list = (\<lambda>line. answer (Block 215 [] ''list of newsgroups follows'' (crlf_lines (map line gs))) x)
      in if length args \<ge> 3 \<and> \<not> valid_wildmat wild then answer (Status 501 ''syntax error'') x
         else if keyword = ''ACTIVE'' then list active_line
         else if keyword = ''NEWSGROUPS'' then list (\<lambda>g. g_name g @ [TAB] @ g_desc g)
         else if keyword = ''ACTIVE.TIMES'' then
           list (\<lambda>g. g_name g @ '' '' @ format_int (g_created g div second) @ '' openusenet'')
         else if keyword = ''OVERVIEW.FMT'' then
           answer (Block 215 [] ''Overview format:'' (crlf_lines [''Subject:'', ''From:'', ''Date:'',
             ''Message-ID:'', ''References:'', '':bytes'', '':lines'', ''Xref:full''])) x
         else if keyword = ''HEADERS'' then
           answer (Block 215 [] ''Headers list follows'' (crlf_lines ['':'', '':bytes'', '':lines''])) x
         else answer (Status 501 ''unknown LIST keyword'') x)"

section \<open>Articles\<close>

text \<open>\<open>Inl\<close> when \<open>lookup\<close> has already replied; otherwise the article and whether it was asked for by
  Message-ID.\<close>

definition lookup :: "string list \<Rightarrow> session \<Rightarrow> session \<times> (stored_article \<times> bool) option" where
  "lookup args x =
     (if length args = 1 then
        (case x_group x of
           None \<Rightarrow> (send (Status 412 ''no newsgroup selected'') x, None)
         | Some g \<Rightarrow>
             if x_cur x \<le> 0 then (send (Status 420 ''current article number is invalid'') x, None)
             else case get_by_number (g_name g) (x_cur x) (x_store x) of
               None \<Rightarrow> (send (Status 423 ''no article with that number'') x, None)
             | Some a \<Rightarrow> (x, Some (a, False)))
      else if has_prefix (args ! 1) ''<'' then
        (if \<not> valid_message_id (args ! 1) then (send (Status 501 ''syntax error'') x, None)
         else case get_by_msgid (args ! 1) (x_store x) of
           None \<Rightarrow> (send (Status 430 ''no article with that message-id'') x, None)
         | Some a \<Rightarrow> (x, Some (a, True)))
      else
        (case x_group x of
           None \<Rightarrow> (send (Status 412 ''no newsgroup selected'') x, None)
         | Some g \<Rightarrow>
             (case parse_int (args ! 1) of
                None \<Rightarrow> (send (Status 501 ''syntax error'') x, None)
              | Some n \<Rightarrow>
                  if n < 1 then (send (Status 501 ''syntax error'') x, None)
                  else case get_by_number (g_name g) n (x_store x) of
                    None \<Rightarrow> (send (Status 423 ''no article with that number'') x, None)
                  | Some a \<Rightarrow> (x\<lparr>x_cur := n\<rparr>, Some (a, False)))))"

definition fetch_text :: "nat \<Rightarrow> string" where
  "fetch_text code =
     (if code = 221 then ''headers follow'' else if code = 222 then ''body follows''
      else if code = 223 then ''article exists'' else ''article follows'')"

definition fetch_payload :: "bool \<Rightarrow> bool \<Rightarrow> stored_article \<Rightarrow> string" where
  "fetch_payload head bdy a =
     (if head \<and> bdy then s_headers a @ CRLF @ CRLF @ s_body a
      else if head then s_headers a @ CRLF else s_body a)"

definition fetch :: "string list \<Rightarrow> nat \<Rightarrow> bool \<Rightarrow> bool \<Rightarrow> session \<Rightarrow> handled" where
  "fetch args code head bdy x =
     (case lookup args x of
        (x', None) \<Rightarrow> (x', None)
      | (x', Some (a, by_id)) \<Rightarrow>
          let as = [if by_id then ''0'' else format_int (s_num a), s_msgid a] in
          if code = 223 then answer (Status_Args code as (fetch_text code)) x'
          else answer (Block code as (fetch_text code) (fetch_payload head bdy a)) x')"

definition cmd_article :: "string list \<Rightarrow> session \<Rightarrow> handled" where "cmd_article args = fetch args 220 True True"
definition cmd_head :: "string list \<Rightarrow> session \<Rightarrow> handled" where "cmd_head args = fetch args 221 True False"
definition cmd_body :: "string list \<Rightarrow> session \<Rightarrow> handled" where "cmd_body args = fetch args 222 False True"
definition cmd_stat :: "string list \<Rightarrow> session \<Rightarrow> handled" where "cmd_stat args = fetch args 223 False False"

text \<open>NEXT and LAST differ in the lookup of the store and the reply when there is none.\<close>

definition step_to ::
    "(string \<Rightarrow> int \<Rightarrow> memory \<Rightarrow> stored_article option option) \<Rightarrow> reply \<Rightarrow> session \<Rightarrow> handled" where
  "step_to neighbour none x =
     (case x_group x of
        None \<Rightarrow> answer (Status 412 ''no newsgroup selected'') x
      | Some g \<Rightarrow>
          if x_cur x \<le> 0 then answer (Status 420 ''current article number is invalid'') x
          else case neighbour (g_name g) (x_cur x) (x_store x) of
            None \<Rightarrow> (x, Some Panic)
          | Some None \<Rightarrow> answer none x
          | Some (Some a) \<Rightarrow>
              answer (Status_Args 223 [format_int (s_num a), s_msgid a] ''article retrieved'') (x\<lparr>x_cur := s_num a\<rparr>))"

definition cmd_next :: "session \<Rightarrow> handled" where
  "cmd_next = step_to next_article (Status 421 ''no next article in this group'')"

definition cmd_last :: "session \<Rightarrow> handled" where
  "cmd_last = step_to prev_article (Status 422 ''no previous article in this group'')"

definition overview_row_line :: "overview_row \<Rightarrow> string" where
  "overview_row_line r =
     join [TAB] [format_int (o_num r), o_subject r, o_from r, o_date r, o_msgid r, o_refs r,
       format_int (o_bytes r), format_int (o_lines r), ''Xref: '' @ o_xref r]"

definition stored_header_article :: "stored_article \<Rightarrow> article" where
  "stored_header_article a =
     \<lparr>raw_headers = [], body = s_body a,
      headers = [(''Subject'', [s_subject a]), (''From'', [s_from a]), (''Date'', [s_date a]),
        (''Message-ID'', [s_msgid a]), (''References'', [s_refs a])]\<rparr>"

text \<open>The range of OVER and HDR: the current article without an argument.\<close>

definition cmd_over :: "string list \<Rightarrow> session \<Rightarrow> handled" where
  "cmd_over args x =
     (let by_id = length args = 2 \<and> has_prefix (args ! 1) ''<'' in
      if x_group x = None \<and> (length args < 2 \<or> \<not> has_prefix (args ! 1) ''<'') then
        answer (Status 412 ''no newsgroup selected'') x
      else if by_id then
        (case get_by_msgid (args ! 1) (x_store x) of
           None \<Rightarrow> answer (Status 430 ''no article with that message-id'') x
         | Some a \<Rightarrow>
             answer (Block 224 [] ''Overview information follows''
               (overview_line 0 (stored_header_article a) (s_xref a) @ CRLF)) x)
      else
        case (if length args = 2 then parse_range (args ! 1) else Some (x_cur x, x_cur x)) of
          None \<Rightarrow> answer (Status 501 ''syntax error'') x
        | Some r \<Rightarrow>
            let (lo, hi) = (if length args = 2 \<and> r = (0, 0) then (x_cur x, x_cur x) else r) in
            if lo \<le> 0 then answer (Status 420 ''current article number is invalid'') x
            else case x_group x of
              None \<Rightarrow> (x, Some Panic)
            | Some g \<Rightarrow>
                (case overview (g_name g) lo hi (x_store x) of
                   None \<Rightarrow> (x, Some Panic)
                 | Some [] \<Rightarrow> answer (Status 423 ''no articles in that range'') x
                 | Some rows \<Rightarrow>
                     answer (Block 224 [] ''Overview information follows'' (crlf_lines (map overview_row_line rows))) x))"

definition hdr_from_stored :: "string \<Rightarrow> stored_article \<Rightarrow> string" where
  "hdr_from_stored h a =
     (let k = to_lower h in
      if k = ''subject'' then s_subject a
      else if k = ''from'' then s_from a
      else if k = ''date'' then s_date a
      else if k = ''message-id'' then s_msgid a
      else if k = ''references'' then s_refs a
      else if k = '':bytes'' then format_int (s_bytes a)
      else if k = '':lines'' then format_int (s_lines a)
      else if k = ''xref'' then s_xref a
      else header_from_lines (split_str CRLF (s_headers a)) h)"

definition cmd_hdr :: "string list \<Rightarrow> session \<Rightarrow> handled" where
  "cmd_hdr args x =
     (let h = args ! 1 in
      if x_group x = None \<and> (length args < 3 \<or> \<not> has_prefix (args ! 2) ''<'') then
        answer (Status 412 ''no newsgroup selected'') x
      else if length args = 3 \<and> has_prefix (args ! 2) ''<'' then
        (case get_by_msgid (args ! 2) (x_store x) of
           None \<Rightarrow> answer (Status 430 ''no article with that message-id'') x
         | Some a \<Rightarrow> answer (Block 225 [] ''headers follow'' (''0 '' @ hdr_from_stored h a @ CRLF)) x)
      else
        case (if length args = 3 then parse_range (args ! 2) else Some (x_cur x, x_cur x)) of
          None \<Rightarrow> answer (Status 501 ''syntax error'') x
        | Some (lo, hi) \<Rightarrow>
            (case x_group x of
               None \<Rightarrow> answer (Status 412 ''no newsgroup selected'') x
             | Some g \<Rightarrow>
                 (case header_rows (g_name g) lo hi h (x_store x) of
                    None \<Rightarrow> (x, Some Panic)
                  | Some [] \<Rightarrow> answer (Status 423 ''no articles in that range'') x
                  | Some rows \<Rightarrow>
                      answer (Block 225 [] ''headers follow''
                        (crlf_lines (map (\<lambda>r. format_int (o_num r) @ '' '' @ o_header r) rows))) x)))"

section \<open>News since\<close>

text \<open>\<open>time.Parse\<close> with the layouts \<open>060102150405\<close> and \<open>20060102150405\<close> on digits: a two-digit year
  from 69 on lies in the last century. The result is in UTC.\<close>

definition digits_value :: "string \<Rightarrow> int" where
  "digits_value s = (case dec_value 0 s of None \<Rightarrow> 0 | Some n \<Rightarrow> int n)"

definition parse_clock :: "string \<Rightarrow> string \<Rightarrow> int option" where
  "parse_clock date tod =
     (let yd = length date - 4;
          yy = digits_value (take yd date);
          y = (if yd = 2 then (if yy \<ge> 69 then 1900 + yy else 2000 + yy) else yy);
          mo = digits_value (take 2 (drop yd date)); d = digits_value (drop (yd + 2) date);
          h = digits_value (take 2 tod); mi = digits_value (take 2 (drop 2 tod)); sec = digits_value (drop 4 tod)
      in if mo < 1 \<or> mo > 12 \<or> d < 1 \<or> d > days_in y mo \<or> h > 23 \<or> mi > 59 \<or> sec > 59 then None
         else Some (day_number y mo d * 24 * hour + h * hour + mi * minute + sec * second))"

text \<open>The scan over the arguments: the first string of six or eight digits is the date, the last one
  of six digits after it the time of day.\<close>

definition scan_time :: "string \<times> string \<Rightarrow> string \<Rightarrow> string \<times> string" where
  "scan_time st a =
     (case st of (date, tod) \<Rightarrow>
        if equal_fold a ''GMT'' then st
        else if (length a = 6 \<or> length a = 8) \<and> date = [] \<and> list_all is_digit a then (a, tod)
        else if length a = 6 \<and> list_all is_digit a \<and> date \<noteq> [] then (date, a)
        else st)"

definition parse_nntp_time :: "string list \<Rightarrow> int option" where
  "parse_nntp_time args =
     (case foldl scan_time ([], []) (tl args) of (date, tod) \<Rightarrow>
        if date = [] \<or> tod = [] then None else parse_clock date tod)"

definition cmd_newnews :: "string list \<Rightarrow> session \<Rightarrow> handled" where
  "cmd_newnews args x =
     (let wild = args ! 1 in
      if \<not> valid_wildmat wild then answer (Status 501 ''syntax error'') x
      else case parse_nntp_time args of
        None \<Rightarrow> answer (Status 501 ''syntax error'') x
      | Some t \<Rightarrow> answer (Block 230 [] ''list of new articles follows'' (crlf_lines (new_news wild t (x_store x)))) x)"

definition cmd_newgroups :: "string list \<Rightarrow> session \<Rightarrow> handled" where
  "cmd_newgroups args x =
     (case parse_nntp_time args of
        None \<Rightarrow> answer (Status 501 ''syntax error'') x
      | Some t \<Rightarrow>
          answer (Block 231 [] ''list of new newsgroups follows'' (crlf_lines (map active_line (new_groups t (x_store x))))) x)"

end
