(* ===== verification/Handlers.thy ===== *)
theory Handlers
  imports Session
begin

text \<open>
  Authentication, posting and transfer of articles: the rest of the commands of
  \<open>internal/nntp/session.go\<close>. A helper of the code that returns an error yields the fault option a
  caller looks at. \<open>return s.conn.Reply(...)\<close> returns nil when the reply was written, so such a
  helper lets its caller go on: \<open>answer\<close> yields no fault, \<open>answer_final\<close> is the code's \<open>replied\<close>.
\<close>

section \<open>Error texts\<close>

definition mail_error_text :: "mail_error \<Rightarrow> string" where
  "mail_error_text e = (case e of
     Bad_Security \<Rightarrow> ''security must be auto, starttls, plain, or tls''
   | Bad_Port \<Rightarrow> ''port must be 1-65535''
   | Bad_Host \<Rightarrow> ''host must be a hostname or address, without a scheme''
   | Bad_Username \<Rightarrow> ''username must be a single line''
   | From_Required \<Rightarrow> ''from address is required''
   | From_Not_One_Line \<Rightarrow> ''from address must be a single line''
   | From_No_At \<Rightarrow> ''from address must contain @''
   | Not_Configured \<Rightarrow> ''mail server is not configured''
   | No_Recipients \<Rightarrow> ''no recipients''
   | Subject_Required \<Rightarrow> ''subject is required''
   | Subject_Not_One_Line \<Rightarrow> ''subject must be a single line''
   | Empty_Message \<Rightarrow> ''empty message'')"

definition moderate_error_text :: "moderate_error \<Rightarrow> string" where
  "moderate_error_text e = (case e of
     Group_Name_Required \<Rightarrow> ''moderated group name is required''
   | Address_Required \<Rightarrow> ''submission address is required''
   | Bad_Percent \<Rightarrow> ''submission address may contain only %s or %%''
   | Second_Group \<Rightarrow> ''submission address may contain only one %s''
   | Not_An_Address \<Rightarrow> ''submission address must be an email address''
   | Not_Single_Wildmat \<Rightarrow> ''pattern must be a single wildmat''
   | Mail_Failed m \<Rightarrow> mail_error_text m)"

definition answer_final :: "reply \<Rightarrow> session \<Rightarrow> handled" where
  "answer_final r x = (send r x, Some Replied)"

section \<open>AUTHINFO\<close>

definition try_feed_auth :: "session_env \<Rightarrow> string \<Rightarrow> session \<Rightarrow> int option" where
  "try_feed_auth e password x =
     (case match_peer (e_resolve e) (list_enabled_peers (x_store x)) (e_remote e) of
        None \<Rightarrow> None
      | Some p \<Rightarrow>
          let require = peer_auth_required (cf_inbound (e_cfg e)) \<or> trim_space (p_in_password p) \<noteq> [] in
          if verify_feed_auth (Some p) password require then Some (p_id p) else None)"

definition login_ok :: "session_env \<Rightarrow> user \<Rightarrow> string \<Rightarrow> bool" where
  "login_ok e u pass \<longleftrightarrow> \<not> u_disabled u \<and> e_password e (u_hash u) pass"

definition cmd_authinfo :: "session_env \<Rightarrow> string list \<Rightarrow> session \<Rightarrow> handled" where
  "cmd_authinfo e args x =
     (let verb = to_upper (args ! 1) in
      if verb = ''USER'' then
        (if length args \<noteq> 3 then answer (Status 501 ''syntax error'') x
         else answer (Status 381 ''PASSWORD required'')
                (x\<lparr>x_pending := args ! 2, x_auth := False, x_user := [], x_user_id := 0\<rparr>))
      else if verb = ''PASS'' then
        (if length args \<noteq> 3 then answer (Status 501 ''syntax error'') x
         else if x_pending x = [] then answer (Status 501 ''AUTHINFO USER required first'') x
         else
           let pass = args ! 2 in
           case get_user (x_pending x) (x_store x) of
             Some u \<Rightarrow>
               if login_ok e u pass then
                 answer (Status 281 ''Authentication accepted'')
                   (x\<lparr>x_user := u_name u, x_user_id := u_id u, x_auth := True, x_pending := []\<rparr>)
               else (case try_feed_auth e pass x of
                   Some k \<Rightarrow> answer (Status 281 ''Authentication accepted'')
                     (x\<lparr>x_feed_auth := True, x_feed_peer := k, x_pending := []\<rparr>)
                 | None \<Rightarrow> answer (Status 480 ''Authentication failed'') (x\<lparr>x_pending := []\<rparr>))
           | None \<Rightarrow>
               (case try_feed_auth e pass x of
                  Some k \<Rightarrow> answer (Status 281 ''Authentication accepted'')
                    (x\<lparr>x_feed_auth := True, x_feed_peer := k, x_pending := []\<rparr>)
                | None \<Rightarrow> answer (Status 480 ''Authentication failed'') (x\<lparr>x_pending := []\<rparr>)))
      else answer (Status 500 ''unsupported AUTHINFO'') x)"

definition require_post_auth :: "session \<Rightarrow> handled" where
  "require_post_auth x =
     (if count_users (x_store x) = 0 then (x, None)
      else if \<not> x_auth x then answer (Status 480 ''Authentication required for POST'') x
      else case get_user (x_user x) (x_store x) of
        None \<Rightarrow> answer (Status 440 ''posting not permitted'') x
      | Some u \<Rightarrow> if may_post u then (x, None) else answer (Status 440 ''posting not permitted'') x)"

definition require_feed_auth :: "session_env \<Rightarrow> session \<Rightarrow> handled" where
  "require_feed_auth e x =
     (let must = peer_auth_required (cf_inbound (e_cfg e)) in
      case match_peer (e_resolve e) (list_enabled_peers (x_store x)) (e_remote e) of
        None \<Rightarrow> if must then answer_final (Status 502 ''IHAVE not permitted from your address'') x else (x, None)
      | Some p \<Rightarrow>
          if trim_space (p_in_password p) = [] \<and> \<not> must then (x, None)
          else if \<not> x_feed_auth x \<or> x_feed_peer x \<noteq> p_id p
          then answer_final (Status 480 ''Authentication required for IHAVE'') x
          else (x, None))"

section \<open>Checks\<close>

definition remember_reject :: "session_env \<Rightarrow> int \<Rightarrow> string \<Rightarrow> session \<Rightarrow> session" where
  "remember_reject e now m x =
     (if \<not> lm_remember (cf_limits (e_cfg e)) \<or> m = [] \<or> \<not> valid_message_id m then x
      else with_store (remember_message_id now m) x)"

definition filter_verdict :: "session_env \<Rightarrow> string \<Rightarrow> verdict" where
  "filter_verdict e w = cleanfeed_check (e_filter e) (e_filter_command e) (cf_cleanfeed (e_cfg e)) w"

definition filter_article :: "session_env \<Rightarrow> int \<Rightarrow> string \<Rightarrow> nat \<Rightarrow> string \<Rightarrow> session \<Rightarrow> handled" where
  "filter_article e now w code m x =
     (let r = filter_verdict e w in
      if vd_reject r then answer (Status code (vd_reason r)) (remember_reject e now m x) else (x, None))"

definition refuse_accept :: "bool \<Rightarrow> session \<Rightarrow> handled" where
  "refuse_accept post x =
     (case x_ops x of
        None \<Rightarrow> (x, None)
      | Some c \<Rightarrow>
          (case accept_articles c of
             None \<Rightarrow> (x, None)
           | Some reason0 \<Rightarrow>
               let reason = (if reason0 = [] then ''server paused'' else reason0) in
               if post then answer (Status 441 reason) x else answer (Status 436 reason) x))"

definition article_too_old :: "session_env \<Rightarrow> int \<Rightarrow> article \<Rightarrow> bool" where
  "article_too_old e now a =
     too_old (e_parse_date e) (get_header a ''Date'') (lm_cutoff (cf_limits (e_cfg e))) zero_time now"

definition check_cutoff :: "session_env \<Rightarrow> int \<Rightarrow> article \<Rightarrow> nat \<Rightarrow> session \<Rightarrow> handled" where
  "check_cutoff e now a code x =
     (if \<not> article_too_old e now a then (x, None)
      else answer (Status code ''article too old'') (remember_reject e now (get_header a ''Message-ID'') x))"

definition mail_from_config :: "config \<Rightarrow> mail_settings" where
  "mail_from_config c = normalize_mail (cf_mail c)"

definition load_mail :: "memory \<Rightarrow> config \<Rightarrow> mail_settings" where
  "load_mail s c = (case get_mail_settings s of (saved, ok) \<Rightarrow> prefer_saved saved ok (mail_from_config c))"

definition group_status_of :: "memory \<Rightarrow> string \<Rightarrow> unit + string option" where
  "group_status_of s g = Inr (map_option g_status (get_group g s))"

definition approved :: "article \<Rightarrow> bool" where
  "approved a \<longleftrightarrow> trim_space (get_header a ''Approved'') \<noteq> []"

definition submission_group :: "article \<Rightarrow> memory \<Rightarrow> string" where
  "submission_group a s =
     (case moderated_target (newsgroups a) (approved a) (group_status_of s) of Inr g \<Rightarrow> g | Inl _ \<Rightarrow> [])"

definition rules_of :: "memory \<Rightarrow> mod_rule list" where
  "rules_of s = map (\<lambda>r. \<lparr>rule_pattern = mr_pattern r, rule_address = mr_address r\<rparr>) (list_moderator_rules s)"

text \<open>A nil return means that the article is not a moderated submission.\<close>

definition submit_to_moderator :: "session_env \<Rightarrow> article \<Rightarrow> session \<Rightarrow> handled" where
  "submit_to_moderator e a x =
     (let s = x_store x; g = submission_group a s in
      if g = [] then (x, None)
      else if has_message_id (get_header a ''Message-ID'') s
      then answer_final (Status 441 ''duplicate Message-ID'') x
      else case submit_moderated (load_mail s (e_cfg e)) g (rules_of s) (wire a) of
        Inl err \<Rightarrow> answer_final (Status 441 (moderate_error_text err)) x
      | Inr (addr, d) \<Rightarrow>
          (case e_smtp e d of
             Some err \<Rightarrow> answer_final (Status 441 err) x
           | None \<Rightarrow> answer_final (Status 240 (''mailed to moderator for '' @ g)) (x\<lparr>x_mails := x_mails x @ [d]\<rparr>)))"

text \<open>\<open>handleControl\<close>: whether the article is a cancel, which is not stored; the in-process store does
  not fail here.\<close>

definition session_policy :: "config \<Rightarrow> control_policy" where
  "session_policy c =
     \<lparr>cp_accept_all = (case ct_accept_all (cf_control c) of None \<Rightarrow> True | Some b \<Rightarrow> b),
      cp_allow_from = ct_allow_from (cf_control c)\<rparr>"

definition cancel_of :: "article \<Rightarrow> string" where
  "cancel_of a = (if cancel_target a = [] then supersedes_target a else cancel_target a)"

definition handle_control :: "session_env \<Rightarrow> int \<Rightarrow> article \<Rightarrow> session \<Rightarrow> session \<times> bool" where
  "handle_control e now a x =
     (if cancel_of a \<noteq> [] then
        (with_store (\<lambda>s. remember_message_id now (get_header a ''Message-ID'')
           (fst (cancel_message_id now (cancel_of a) s))) x, True)
      else case parse_control a of
        None \<Rightarrow> (x, False)
      | Some msg \<Rightarrow>
          if \<not> control_enabled (cf_control (e_cfg e)) then (x, False)
          else if \<not> control_allowed (session_policy (e_cfg e)) a then (x, False)
          else (with_store (\<lambda>s. fst (apply_control now msg s)) x, False))"

definition match_inbound_peer :: "session_env \<Rightarrow> session \<Rightarrow> peer option" where
  "match_inbound_peer e x =
     (let ps = list_peers (x_store x);
          authed = (if x_feed_auth x \<and> x_feed_peer x > 0 then find (\<lambda>p. p_id p = x_feed_peer x) ps else None) in
      case authed of
        Some p \<Rightarrow> Some p
      | None \<Rightarrow>
          let host0 = (case split_host_port (e_remote e) of Some h \<Rightarrow> h | None \<Rightarrow> []);
              host = (if host0 = [] then e_remote e else host0)
          in find (\<lambda>p. p_enabled p \<and> list_ex (\<lambda>h. h \<noteq> [] \<and> equal_fold h host) [p_incoming p, p_host p, p_name p]) ps)"

definition peer_subscribes :: "peer option \<Rightarrow> string list \<Rightarrow> bool" where
  "peer_subscribes p gs =
     (case p of None \<Rightarrow> True
      | Some q \<Rightarrow>
          let pat = trim_space (p_patterns q) in match_any (if pat = [] then ''*'' else pat) gs)"

section \<open>Storing and offering\<close>

definition new_article_of :: "session_env \<Rightarrow> article \<Rightarrow> string \<Rightarrow> bool \<Rightarrow> new_article" where
  "new_article_of e a w bin =
     (case cut w (CRLF @ CRLF) of (hdr, bdy, _) \<Rightarrow>
        \<lparr>n_headers = hdr, n_body = bdy, n_msgid = get_header a ''Message-ID'',
         n_subject = get_header a ''Subject'', n_from = get_header a ''From'', n_date = get_header a ''Date'',
         n_refs = get_header a ''References'', n_xref = sv_hostname (cf_server (e_cfg e)),
         n_bytes = int (article_bytes a), n_lines = int (article_lines a), n_groups = newsgroups a,
         n_binary = bin\<rparr>)"

definition stats_event_of :: "session_env \<Rightarrow> article \<Rightarrow> bool \<Rightarrow> stats_event" where
  "stats_event_of e a bin =
     \<lparr>se_groups = newsgroups a, se_from = get_header a ''From'', se_path = get_header a ''Path'', se_binary = bin,
      se_exclude = [sv_pathhost (cf_server (e_cfg e)), sv_hostname (cf_server (e_cfg e))], se_day = zero_time\<rparr>"

definition store_article ::
    "session_env \<Rightarrow> int \<Rightarrow> article \<Rightarrow> string \<Rightarrow> bool \<Rightarrow> session \<Rightarrow> session \<times> article \<times> store_error option" where
  "store_article e now a w bin x =
     (case post_article now (new_article_of e a w bin) (x_store x) of
        (s, Inl err) \<Rightarrow> (x\<lparr>x_store := s\<rparr>, a, Some err)
      | (s, Inr res) \<Rightarrow>
          let x1 = x\<lparr>x_store := record_content_stats now (stats_event_of e a bin) s\<rparr>;
              a' = (if x_mbox x = None then a else set_header ''Xref'' (pr_xref res) a);
              x2 = x1\<lparr>x_mbox := map_option (\<lambda>l. l @ map (\<lambda>(g, n). (g, a')) (pr_numbers res)) (x_mbox x1)\<rparr>;
              x3 = x2\<lparr>x_paths := map_option (\<lambda>l. l @ [get_header a' ''Path'']) (x_paths x2)\<rparr>
          in (x3, a', None))"

definition note_accepted :: "session_env \<Rightarrow> int \<Rightarrow> article \<Rightarrow> bool \<Rightarrow> session \<Rightarrow> session" where
  "note_accepted e now a bin x =
     with_store (\<lambda>s. fst (note_accept (e_flood_text e) now (newsgroups a) bin (flood_from_config (e_cfg e)) s)) x"

definition offer :: "article \<Rightarrow> string \<Rightarrow> session \<Rightarrow> session" where
  "offer a w x =
     x\<lparr>x_offers := map_option
        (\<lambda>l. l @ [(get_header a ''Message-ID'', get_header a ''Path'', newsgroups a, w)]) (x_offers x)\<rparr>"

definition read_block :: "session_env \<Rightarrow> session \<Rightarrow> session \<times> (io_error + string)" where
  "read_block e x =
     (case read_article (nat (lm_max_art (cf_limits (e_cfg e)))) (x_in x) of (r, inp) \<Rightarrow> (x\<lparr>x_in := inp\<rparr>, r))"

section \<open>POST\<close>

definition post_opts :: "session_env \<Rightarrow> inject_opts" where
  "post_opts e = \<lparr>pathhost = sv_pathhost (cf_server (e_cfg e)), hostname = sv_hostname (cf_server (e_cfg e)),
     organization = sv_organization (cf_server (e_cfg e)), io_now = zero_time\<rparr>"

text \<open>From the quota on.\<close>

definition post_quota :: "session_env \<Rightarrow> int \<Rightarrow> bool \<Rightarrow> session \<Rightarrow> session \<times> store_error option" where
  "post_quota e now bin x =
     (let limit = rt_user_binary (cf_retention (e_cfg e)) in
      if bin \<and> x_auth x \<and> x_user_id x > 0 \<and> limit > 0 then
        (case consume_binary_quota now (x_user_id x) limit (x_store x) of (s, _, err) \<Rightarrow> (x\<lparr>x_store := s\<rparr>, err))
      else (x, None))"

definition post_store :: "session_env \<Rightarrow> int \<Rightarrow> article \<Rightarrow> string \<Rightarrow> session \<Rightarrow> handled" where
  "post_store e now a w x0 =
     (let bin = looks_binary (raw_headers a) (body a); m = get_header a ''Message-ID'' in
      case post_quota e now bin x0 of
        (x, Some err) \<Rightarrow>
          if err = Quota_Exceeded
          then answer (Status 441 (''binary post quota exceeded ('' @ format_int (rt_user_binary (cf_retention (e_cfg e))) @ ''/day)'')) x
          else (x, Some (Store_Failed err))
      | (x, None) \<Rightarrow>
          if has_message_id m (x_store x) then answer (Status 441 ''duplicate Message-ID'') x
          else case store_article e now a w bin x of
            (x1, a1, Some No_Group) \<Rightarrow> answer (Status 441 ''newsgroup does not exist'') x1
          | (x1, a1, Some Duplicate_ID) \<Rightarrow> answer (Status 441 ''duplicate Message-ID'') x1
          | (x1, a1, Some err) \<Rightarrow> (x1, Some (Store_Failed err))
          | (x1, a1, None) \<Rightarrow>
              (offer a1 w (send (Status 240 (''article received '' @ m)) (note_accepted e now a1 bin x1)), None))"

text \<open>From the injected article on.\<close>

definition post_injected :: "session_env \<Rightarrow> int \<Rightarrow> article \<Rightarrow> session \<Rightarrow> handled" where
  "post_injected e now a x0 =
     (let w = wire a; m = get_header a ''Message-ID'' in
      case filter_article e now w 441 m x0 of
        (x, Some f) \<Rightarrow> (x, Some f)
      | (x1, None) \<Rightarrow>
      case check_cutoff e now a 441 x1 of
        (x, Some f) \<Rightarrow> (x, Some f)
      | (x2, None) \<Rightarrow>
          if groups_unwanted (newsgroups a) (x_store x2)
          then answer (Status 441 ''newsgroups not accepted'') (with_store (remember_message_id now m) x2)
          else case handle_control e now a x2 of
            (x3, True) \<Rightarrow> answer (Status 240 (''cancel received '' @ m)) x3
          | (x3, False) \<Rightarrow>
              (case submit_to_moderator e a x3 of
                 (x, Some f) \<Rightarrow> (x, Some f)
               | (x4, None) \<Rightarrow> post_store e now a w x4))"

text \<open>From the request for the article on.\<close>

definition post_receive :: "session_env \<Rightarrow> int \<Rightarrow> session \<Rightarrow> handled" where
  "post_receive e now x0 =
     (case read_block e (send (Status 340 ''send article to be posted'') x0) of
        (x, Inl err) \<Rightarrow>
          if err = Too_Long then answer (Status 441 ''article too large'') x else (x, Some (Read_Error err))
      | (x, Inr raw) \<Rightarrow>
          (case parse_article raw of
             Inl err \<Rightarrow> answer (Status 441 (article_error_text err)) x
           | Inr a0 \<Rightarrow>
               (case inject_for_post (post_opts e) now (e_random e now) a0 of
                  Inl err \<Rightarrow> answer (Status 441 (article_error_text err)) x
                | Inr a \<Rightarrow> post_injected e now a x)))"

definition cmd_post :: "session_env \<Rightarrow> int \<Rightarrow> session \<Rightarrow> handled" where
  "cmd_post e now x0 =
     (case require_post_auth x0 of
        (x, Some f) \<Rightarrow> (x, Some f)
      | (x1, None) \<Rightarrow>
          (case Option.bind (x_ops x1) accept_readers of
             Some msg \<Rightarrow> answer (Status 440 msg) x1
           | None \<Rightarrow>
               (case refuse_accept True x1 of
                  (x, Some f) \<Rightarrow> (x, Some f)
                | (x2, None) \<Rightarrow> post_receive e now x2)))"

section \<open>Transfer from peers\<close>

text \<open>\<open>None\<close> for the Message-ID is the empty string IHAVE passes. Only some codes carry it.\<close>

definition gate_reply :: "nat \<Rightarrow> string \<Rightarrow> string \<Rightarrow> reply" where
  "gate_reply code m text =
     (if m \<noteq> [] \<and> code \<in> {439, 438, 431, 238} then Status_Args code [m] text else Status code text)"

definition begin_transfer :: "session_env \<Rightarrow> nat \<Rightarrow> nat \<Rightarrow> string \<Rightarrow> session \<Rightarrow> handled" where
  "begin_transfer e defer_code access_code m x =
     (case Option.bind (x_ops x) accept_peers of
        Some msg \<Rightarrow> answer_final (gate_reply defer_code m msg) x
      | None \<Rightarrow>
      case Option.bind (x_ops x) accept_articles of
        Some reason \<Rightarrow> answer_final (gate_reply defer_code m (if reason = [] then ''server paused'' else reason)) x
      | None \<Rightarrow>
          if \<not> inbound_allowed (e_resolve e) (cf_inbound (e_cfg e)) (e_remote e) (peer_ihave_hosts (list_peers (x_store x)))
          then answer_final (gate_reply access_code m ''transfer not permitted from your address'') x
          else require_feed_auth e x)"

definition transfer_reply :: "bool \<Rightarrow> nat \<Rightarrow> string \<Rightarrow> string \<Rightarrow> reply" where
  "transfer_reply with_id code m text = (if with_id then Status_Args code [m] text else Status code text)"

definition transfer_store ::
    "session_env \<Rightarrow> int \<Rightarrow> string \<Rightarrow> article \<Rightarrow> nat \<Rightarrow> nat \<Rightarrow> nat \<Rightarrow> bool \<Rightarrow> session \<Rightarrow> handled" where
  "transfer_store e now m a reject_code defer_code ok_code with_id x =
     (let say = transfer_reply with_id; w = wire a; bin = looks_binary (raw_headers a) (body a) in
      if has_message_id m (x_store x) then answer (say reject_code m ''duplicate Message-ID'') x
      else case store_article e now a w bin x of
        (x1, a1, Some No_Group) \<Rightarrow>
          answer (say reject_code m ''newsgroup does not exist'') (remember_reject e now m x1)
      | (x1, a1, Some Duplicate_ID) \<Rightarrow> answer (say reject_code m ''duplicate Message-ID'') x1
      | (x1, a1, Some err) \<Rightarrow> answer (say defer_code m ''try again later'') x1
      | (x1, a1, None) \<Rightarrow>
          (offer a1 w (send (say ok_code m (''article transferred '' @ m)) (note_accepted e now a1 bin x1)), None))"

text \<open>The first reason to refuse an injected article, in the order of the checks.\<close>

definition transfer_refusal :: "session_env \<Rightarrow> int \<Rightarrow> string \<Rightarrow> article \<Rightarrow> session \<Rightarrow> string option" where
  "transfer_refusal e now m a x =
     (let r = filter_verdict e (wire a) in
      if vd_reject r then Some (vd_reason r)
      else if \<not> equal_fold (get_header a ''Message-ID'') m then Some ''Message-ID does not match''
      else if article_too_old e now a then Some ''article too old''
      else if \<not> peer_subscribes (match_inbound_peer e x) (newsgroups a)
      then Some ''newsgroups not wanted by peer subscription''
      else None)"

definition accept_peer_article ::
    "session_env \<Rightarrow> int \<Rightarrow> string \<Rightarrow> string \<Rightarrow> nat \<Rightarrow> nat \<Rightarrow> nat \<Rightarrow> bool \<Rightarrow> session \<Rightarrow> handled" where
  "accept_peer_article e now m raw reject_code defer_code ok_code with_id x =
     (let say = transfer_reply with_id;
          refuse = (\<lambda>text. answer (say reject_code m text) (remember_reject e now m x)) in
      case parse_article raw of
        Inl err \<Rightarrow> refuse (article_error_text err)
      | Inr a0 \<Rightarrow>
          (case inject_for_ihave ((post_opts e)\<lparr>organization := []\<rparr>) a0 of
             (a, Some err) \<Rightarrow> refuse (article_error_text err)
           | (a, None) \<Rightarrow>
               (case transfer_refusal e now m a x of
                  Some text \<Rightarrow> refuse text
                | None \<Rightarrow>
                    if groups_unwanted (newsgroups a) (x_store x)
                    then answer (say reject_code m ''article not wanted'') (with_store (remember_message_id now m) x)
                    else case handle_control e now a x of
                      (x1, True) \<Rightarrow> answer (say ok_code m (''cancel transferred '' @ m)) x1
                    | (x1, False) \<Rightarrow> transfer_store e now m a reject_code defer_code ok_code with_id x1)))"

definition cmd_ihave :: "session_env \<Rightarrow> int \<Rightarrow> string list \<Rightarrow> session \<Rightarrow> handled" where
  "cmd_ihave e now args x0 =
     (case begin_transfer e 436 502 [] x0 of
        (x, Some f) \<Rightarrow> (x, Some f)
      | (x1, None) \<Rightarrow>
          let m = args ! 1 in
          if \<not> valid_message_id m then answer (Status 501 ''syntax error'') x1
          else if has_message_id m (x_store x1) then answer (Status 435 ''article not wanted'') x1
          else case read_block e (send (Status 335 ''send article to be transferred'') x1) of
            (x, Inl err) \<Rightarrow>
              if err = Too_Long then answer (Status 437 ''article too large'') (remember_reject e now m x)
              else (x, Some (Read_Error err))
          | (x, Inr raw) \<Rightarrow> accept_peer_article e now m raw 437 436 235 False x)"

definition cmd_check :: "session_env \<Rightarrow> string list \<Rightarrow> session \<Rightarrow> handled" where
  "cmd_check e args x0 =
     (let m = args ! 1 in
      case begin_transfer e 431 438 m x0 of
        (x, Some f) \<Rightarrow> (x, Some f)
      | (x1, None) \<Rightarrow>
          if \<not> valid_message_id m then answer (Status 501 ''syntax error'') x1
          else if has_message_id m (x_store x1) then answer (Status_Args 438 [m] ''article not wanted'') x1
          else answer (Status_Args 238 [m] ''send article via TAKETHIS'') x1)"

definition cmd_takethis :: "session_env \<Rightarrow> int \<Rightarrow> string list \<Rightarrow> session \<Rightarrow> handled" where
  "cmd_takethis e now args x0 =
     (let m = args ! 1 in
      case read_block e x0 of
        (x, Inl err) \<Rightarrow>
          if err = Too_Long then answer (Status_Args 439 [m] ''article too large'') (remember_reject e now m x)
          else (x, Some (Read_Error err))
      | (x, Inr raw) \<Rightarrow>
          if \<not> valid_message_id m then answer (Status_Args 439 [m] ''syntax error'') x
          else case begin_transfer e 439 439 m x of
            (x', Some f) \<Rightarrow> (x', Some f)
          | (x1, None) \<Rightarrow> accept_peer_article e now m raw 439 439 239 True x1)"

section \<open>Dispatch and the loop\<close>

definition commands :: "(string \<times> int \<times> int) list" where
  "commands =
     [(''CAPABILITIES'', 1, 2), (''HELP'', 1, 1), (''QUIT'', 1, 1), (''DATE'', 1, 1), (''MODE'', 2, 2),
      (''GROUP'', 2, 2), (''LISTGROUP'', 1, 3), (''LIST'', 1, 3), (''ARTICLE'', 1, 2), (''HEAD'', 1, 2),
      (''BODY'', 1, 2), (''STAT'', 1, 2), (''NEXT'', 1, 1), (''LAST'', 1, 1), (''OVER'', 1, 2),
      (''XOVER'', 1, 2), (''HDR'', 2, 3), (''XHDR'', 2, 3), (''POST'', 1, 1), (''IHAVE'', 2, 2),
      (''CHECK'', 2, 2), (''TAKETHIS'', 2, 2), (''AUTHINFO'', 2, 3), (''NEWNEWS'', 4, 5),
      (''NEWGROUPS'', 3, 4), (''SLAVE'', 1, 1)]"

definition run_command :: "session_env \<Rightarrow> int \<Rightarrow> string \<Rightarrow> string list \<Rightarrow> session \<Rightarrow> handled" where
  "run_command e now name args x =
     (if name = ''CAPABILITIES'' then cmd_capabilities x
      else if name = ''HELP'' then cmd_help x
      else if name = ''QUIT'' then cmd_quit x
      else if name = ''DATE'' then cmd_date now x
      else if name = ''MODE'' then cmd_mode args x
      else if name = ''GROUP'' then cmd_group args x
      else if name = ''LISTGROUP'' then cmd_listgroup args x
      else if name = ''LIST'' then cmd_list args x
      else if name = ''ARTICLE'' then cmd_article args x
      else if name = ''HEAD'' then cmd_head args x
      else if name = ''BODY'' then cmd_body args x
      else if name = ''STAT'' then cmd_stat args x
      else if name = ''NEXT'' then cmd_next x
      else if name = ''LAST'' then cmd_last x
      else if name = ''OVER'' \<or> name = ''XOVER'' then cmd_over args x
      else if name = ''HDR'' \<or> name = ''XHDR'' then cmd_hdr args x
      else if name = ''POST'' then cmd_post e now x
      else if name = ''IHAVE'' then cmd_ihave e now args x
      else if name = ''CHECK'' then cmd_check e args x
      else if name = ''TAKETHIS'' then cmd_takethis e now args x
      else if name = ''AUTHINFO'' then cmd_authinfo e args x
      else if name = ''NEWNEWS'' then cmd_newnews args x
      else if name = ''NEWGROUPS'' then cmd_newgroups args x
      else cmd_slave x)"

definition dispatch :: "session_env \<Rightarrow> int \<Rightarrow> string \<Rightarrow> session \<Rightarrow> handled" where
  "dispatch e now line x =
     (case split_args line of
        [] \<Rightarrow> answer (Status 501 ''empty command'') x
      | verb # rest \<Rightarrow>
          let args = verb # rest; name = to_upper verb; n = int (length args) in
          case map_of commands name of
            None \<Rightarrow> answer (Status 500 ''unknown command'') x
          | Some (lo, hi) \<Rightarrow>
              if n < lo \<or> (hi \<ge> 0 \<and> n > hi) then answer (Status 501 ''syntax error'') x
              else run_command e now name args x)"

text \<open>What the loop does with the error a command returned; \<open>True\<close> when it goes on.\<close>

definition after_command :: "handled \<Rightarrow> session \<times> bool" where
  "after_command r =
     (case r of
        (x, None) \<Rightarrow> (x, True)
      | (x, Some Replied) \<Rightarrow> (x, True)
      | (x, Some (Read_Error EOF)) \<Rightarrow> (x, False)
      | (x, Some Panic) \<Rightarrow> (x, False)
      | (x, Some _) \<Rightarrow> (send (Status 403 ''internal error'') x, True))"

end
