(* ===== verification/Readable.thy ===== *)
theory Readable
  imports StoreStats
begin

text \<open>
  Reading never fails in the in-process store: \<open>readable\<close> says that every number a group lists opens
  a stored object. It is weaker than \<open>store_inv\<close>, which a Newsgroups header that names a group twice
  breaks (\<open>duplicate_group_survives_cancel\<close>), and is kept by every operation whatever is posted.
\<close>

section \<open>The invariant\<close>

definition readable :: "memory \<Rightarrow> bool" where
  "readable s \<longleftrightarrow> (\<forall>g. grp s g \<noteq> None \<longrightarrow> numbered s g \<noteq> None)
     \<and> (\<forall>g mg n. grp s g = Some mg \<longrightarrow> n \<in> set (g_nums mg) \<longrightarrow> art_at s g n \<noteq> None)"

lemma readableI:
  "(\<And>g mg. grp s g = Some mg \<Longrightarrow> numbered s g \<noteq> None) \<Longrightarrow>
   (\<And>g mg n. grp s g = Some mg \<Longrightarrow> n \<in> set (g_nums mg) \<Longrightarrow> art_at s g n \<noteq> None) \<Longrightarrow> readable s"
  unfolding readable_def by blast

lemma readableD:
  assumes "readable s" "grp s g = Some mg"
  shows "\<exists>b. numbered s g = Some b" "n \<in> set (g_nums mg) \<Longrightarrow> \<exists>a. art_at s g n = Some a"
  using assms unfolding readable_def by auto

lemma store_inv_readable: "store_inv s \<Longrightarrow> readable s"
proof (rule readableI)
  assume i: "store_inv s"
  note f = store_invD(1)[OF i, unfolded filing_def] and o = store_invD(2)[OF i]
  show "numbered s g \<noteq> None" if "grp s g = Some mg" for g mg
    using filed_dom[OF f, of g] that by auto
  show "art_at s g n \<noteq> None" if g: "grp s g = Some mg" "n \<in> set (g_nums mg)" for g mg n
  proof -
    obtain b where b: "numbered s g = Some b" using filed_dom[OF f, of g] g by auto
    then obtain r where r: "b n = Some r" using filed_nums[OF f g(1) b] g(2) by blast
    then have "live (art_ref s) r" using filed_lookup[OF f g(1) b] by blast
    then show ?thesis using live_obj[OF o] b r by (auto simp: art_at_def num_ref_numbered)
  qed
qed

section \<open>Steps\<close>

lemma art_at_views:
  "art_at s g n = Option.bind (Option.bind (numbered s g) (\<lambda>b. b n)) (obj s)"
  by (simp add: art_at_def num_ref_numbered)

text \<open>Objects are added and changed, never removed.\<close>

definition heap_grows :: "memory \<Rightarrow> memory \<Rightarrow> bool" where
  "heap_grows s t \<longleftrightarrow> (\<forall>r. obj s r \<noteq> None \<longrightarrow> obj t r \<noteq> None)"

lemma readable_grow:
  assumes "readable s" "grp t = grp s" "numbered t = numbered s" "heap_grows s t"
  shows "readable t"
proof (rule readableI)
  show "numbered t g \<noteq> None" if "grp t g = Some mg" for g mg
    using readableD(1)[OF assms(1), of g mg] that assms(2,3) by auto
  show "art_at t g n \<noteq> None" if "grp t g = Some mg" "n \<in> set (g_nums mg)" for g mg n
    using readableD(2)[OF assms(1), of g mg n] that assms(2-4)
    by (fastforce simp: art_at_views heap_grows_def bind_eq_Some_conv)
qed

lemma readable_core: "core s = core t \<Longrightarrow> readable s = readable t"
proof -
  assume c: "core s = core t"
  then have "grp s = grp t" "numbered s = numbered t" "obj s = obj t"
    by (auto simp: core_def grp_def numbered_def obj_def fun_eq_iff)
  then show ?thesis by (auto simp: readable_def art_at_views)
qed

lemma readable_put_obj: "readable s \<Longrightarrow> readable (put_obj r a s)"
  by (rule readable_grow) (auto simp: views heap_grows_def)

lemma readable_fields [simp]:
  "readable (s\<lparr>m_arts := x1\<rparr>) = readable s" "readable (s\<lparr>m_history := x2\<rparr>) = readable s"
  "readable (s\<lparr>m_feed_q := x3\<rparr>) = readable s" "readable (s\<lparr>m_next_ref := x4\<rparr>) = readable s"
  by (simp_all add: readable_def art_at_views views)

lemma readable_put_group:
  assumes "readable s" "numbered s g \<noteq> None" "\<forall>n \<in> set (g_nums mg). art_at s g n \<noteq> None"
  shows "readable (put_group g mg s)"
proof (rule readableI)
  show "numbered (put_group g mg s) h \<noteq> None" if "grp (put_group g mg s) h = Some k" for h k
    using readableD(1)[OF assms(1), of h k] that assms(2) by (auto simp: views split: if_splits)
  show "art_at (put_group g mg s) h n \<noteq> None"
    if "grp (put_group g mg s) h = Some k" "n \<in> set (g_nums k)" for h k n
    using readableD(2)[OF assms(1), of h k n] that assms(3) by (auto simp: views art_at_views split: if_splits)
qed

lemma readable_same_numbers:
  "readable s \<Longrightarrow> grp s g = Some mg \<Longrightarrow> g_nums mg' = g_nums mg \<Longrightarrow> readable (put_group g mg' s)"
  by (rule readable_put_group) (use readableD[of s g mg] in auto)

lemma readable_add_group:
  assumes "readable s" "g_nums mg = []"
  shows "readable (add_group mg s)"
proof (rule readableI)
  show "numbered (add_group mg s) h \<noteq> None" if "grp (add_group mg s) h = Some k" for h k
    using readableD(1)[OF assms(1), of h k] that by (auto simp: views split: if_splits)
  show "art_at (add_group mg s) h n \<noteq> None"
    if "grp (add_group mg s) h = Some k" "n \<in> set (g_nums k)" for h k n
    using readableD(2)[OF assms(1), of h k n] that assms(2) by (auto simp: views art_at_views split: if_splits)
qed

text \<open>A round of the loop of \<open>Post\<close>.\<close>

lemma readable_file_in:
  assumes "readable s" "obj s r \<noteq> None"
  shows "readable (fst (file_in r g (s, nums, parts))) \<and> obj (fst (file_in r g (s, nums, parts))) r \<noteq> None"
proof (cases "grp s g")
  case None
  then show ?thesis using assms by (simp add: file_in_def)
next
  case (Some mg)
  obtain b where b: "numbered s g = Some b" using readableD(1)[OF assms(1) Some] by blast
  obtain a where a: "obj s r = Some a" using assms(2) by blast
  let ?n = "g_high (take_number mg)"
  have n: "numbered (set_number g ?n r (put_group g (take_number mg) s)) = (numbered s)(g \<mapsto> b(?n \<mapsto> r))"
    by (subst numbered_set[of _ _ b]) (simp_all add: views b)
  let ?t = "set_number g ?n r (put_group g (take_number mg) s)"
  have "art_at ?t h k = (if h = g \<and> k = ?n then Some a else art_at s h k)" for h k
    using n a b by (simp add: art_at_views views)
  then have "readable ?t"
    using readableD[OF assms(1)] readableD[OF assms(1) Some] b n
    by (intro readableI) (auto simp: views split: if_splits)
  then show ?thesis unfolding file_in_step[OF Some b a] fst_conv by (simp add: readable_put_obj views)
qed

lemma readable_fold_file_in:
  "readable s \<Longrightarrow> obj s r \<noteq> None \<Longrightarrow>
   readable (fst (fold (file_in r) gs (s, nums, parts))) \<and> obj (fst (fold (file_in r) gs (s, nums, parts))) r \<noteq> None"
proof (induction gs arbitrary: s nums parts)
  case (Cons g gs)
  obtain s' nums' parts' where e: "file_in r g (s, nums, parts) = (s', nums', parts')" by (cases "file_in r g (s, nums, parts)")
  then show ?case using readable_file_in[OF Cons.prems, of g nums parts] Cons.IH[of s' nums' parts'] by simp
qed simp

lemma readable_post_article: "readable s \<Longrightarrow> readable (fst (post_article now n s))"
proof -
  assume r: "readable s"
  let ?r = "m_next_ref s" and ?used = "usable_groups s (n_groups n)"
  let ?s1 = "put_obj ?r (fresh_art now n) (s\<lparr>m_next_ref := ?r + 1\<rparr>)"
  have "readable ?s1" using r by (intro readable_put_obj) simp
  then have "readable (fst (fold (file_in ?r) ?used (?s1, [], [])))"
    using readable_fold_file_in[of ?s1 ?r] by (simp add: views)
  then show ?thesis using r
    by (cases "fold (file_in ?r) ?used (?s1, [], [])")
      (auto simp: post_article_def Let_def intro!: readable_put_obj split: option.split)
qed

section \<open>Removing\<close>

lemma art_at_drop_number:
  "numbered s g \<noteq> None \<Longrightarrow>
   art_at (drop_number g n s) h k = (if h = g \<and> k = n then None else art_at s h k)"
  by (auto simp: art_at_views views numbered_drop)

lemma readable_drop:
  assumes "readable s" "grp s g = Some mg" "g_nums mg' = filter (\<lambda>x. x \<noteq> n) (g_nums mg)"
  shows "readable (put_group g mg' (drop_number g n s))"
proof -
  obtain b where b: "numbered s g = Some b" using readableD(1)[OF assms(1,2)] by blast
  show ?thesis
  proof (rule readableI)
    show "numbered (put_group g mg' (drop_number g n s)) h \<noteq> None"
      if "grp (put_group g mg' (drop_number g n s)) h = Some k" for h k
      using readableD(1)[OF assms(1), of h k] that b by (auto simp: views numbered_drop split: if_splits)
    show "art_at (put_group g mg' (drop_number g n s)) h x \<noteq> None"
      if "grp (put_group g mg' (drop_number g n s)) h = Some k" "x \<in> set (g_nums k)" for h k x
    proof -
      have "art_at (put_group g mg' (drop_number g n s)) h x = art_at (drop_number g n s) h x"
        by (simp add: art_at_views views)
      then show ?thesis
        using readableD(2)[OF assms(1), of h k x] readableD(2)[OF assms(1,2), of x] that b assms(3)
        by (auto simp: views art_at_drop_number split: if_splits)
    qed
  qed
qed

lemma readable_unfile_from: "readable s \<Longrightarrow> readable (unfile_from gn s)"
proof -
  assume r: "readable s"
  obtain g n where gn: "gn = (g, n)" by force
  show ?thesis
  proof (cases "grp s g")
    case None
    have "numbered (drop_number g n s) h \<noteq> None" if "numbered s h \<noteq> None" for h
      using that by (auto simp: drop_number_def numbered_def split: option.splits)
    moreover have "art_at (drop_number g n s) h k = art_at s h k" if "h \<noteq> g" for h k
      using that by (auto simp: art_at_def num_ref_def drop_number_def views split: option.splits)
    ultimately have "readable (drop_number g n s)"
      using readableD[OF r] None by (intro readableI) (auto simp: views, metis option.distinct(1))
    then show ?thesis using None by (simp add: gn unfile_from_def views)
  next
    case (Some mg)
    then show ?thesis using readable_drop[OF r Some] unfolding gn by (simp add: unfile_from_def views)
  qed
qed

lemma readable_delete_article: "readable s \<Longrightarrow> readable (fst (delete_article m s))"
proof -
  have "readable (fold unfile_from gns t)" if "readable t" for gns t
    using that by (induction gns arbitrary: t) (simp_all add: readable_unfile_from)
  then show "readable s \<Longrightarrow> ?thesis" by (simp add: delete_article_def Let_def split: option.split)
qed

lemma readable_cancel: "readable s \<Longrightarrow> readable (fst (cancel_message_id now m s))"
  by (simp add: cancel_message_id_def readable_delete_article)

lemma readable_remember: "readable s \<Longrightarrow> readable (remember_message_id now m s)"
  by (simp add: remember_message_id_def)

section \<open>Groups and statistics\<close>

lemma new_desc_nums [simp]: "g_nums (new_desc d mg) = g_nums mg"
  by (simp add: new_desc_def)

lemma readable_apply_control_group: "readable s \<Longrightarrow> readable (apply_control_group now g d st s)"
  by (auto simp: apply_control_group_def Let_def intro!: readable_same_numbers readable_add_group
      split: option.split)

lemma readable_disable: "readable s \<Longrightarrow> readable (disable_control_group now g s)"
  by (auto simp: disable_control_group_def intro!: readable_same_numbers readable_add_group split: option.split)

lemma readable_ensure_group: "readable s \<Longrightarrow> readable (ensure_group now g d st s)"
  by (auto simp: ensure_group_def Let_def intro!: readable_same_numbers readable_add_group split: option.split)

lemma readable_stats: "readable s \<Longrightarrow> readable (record_content_stats now ev s)"
  using readable_core[of "record_content_stats now ev s" s] by (simp add: record_content_stats_def)

lemma core_fields [simp]:
  "core (s\<lparr>m_accepts := y1\<rparr>) = core s" "core (s\<lparr>m_alerts := y2\<rparr>) = core s"
  "core (s\<lparr>m_next_aid := y3\<rparr>) = core s" "core (s\<lparr>m_bin_quota := y4\<rparr>) = core s"
  by (simp_all add: core_def)

lemma readable_set_retention: "readable s \<Longrightarrow> readable (set_retention g d m s)"
  by (auto simp: set_retention_def intro!: readable_same_numbers split: option.split)

lemma readable_open_alert: "readable (ensure_open_alert now g d s) = readable s"
  by (rule readable_core) (simp add: ensure_open_alert_def)

lemma readable_maps: "readable (ensure_retention_maps s) = readable s"
  by (rule readable_core) (simp add: ensure_retention_maps_def)

lemma readable_note_one: "readable (fst st) \<Longrightarrow> readable (fst (note_one ft now b fl g st))"
proof -
  obtain s fs where st: "st = (s, fs)" by force
  have "readable (s\<lparr>m_accepts := x\<rparr>) = readable s" for x by (rule readable_core) simp
  then show "readable (fst st) \<Longrightarrow> ?thesis" unfolding st
    by (auto simp: note_one_def Let_def readable_open_alert readable_set_retention split: option.split)
qed

lemma readable_note_accept: "readable s \<Longrightarrow> readable (fst (note_accept ft now gs b fl s))"
proof -
  have "readable (fst (fold (note_one ft now b f) hs st))" if "readable (fst st)" for f hs st
    using that by (induction hs arbitrary: st) (simp_all add: readable_note_one)
  then show "readable s \<Longrightarrow> ?thesis" by (simp add: note_accept_def Let_def readable_maps)
qed

lemma readable_quota: "readable s \<Longrightarrow> readable (fst (consume_binary_quota now uid limit s))"
proof -
  have "readable (t\<lparr>m_bin_quota := x\<rparr>) = readable t" for t x by (rule readable_core) simp
  then show "readable s \<Longrightarrow> ?thesis"
    by (auto simp: consume_binary_quota_def Let_def readable_maps)
qed

lemma readable_new_memory: "readable new_memory"
  by (rule store_inv_readable[OF new_memory_inv])

section \<open>No reader meets a missing article\<close>

lemma those_some: "(\<forall>x \<in> set xs. f x \<noteq> None) \<Longrightarrow> those (map f xs) \<noteq> None"
  by (induction xs) auto

lemma readable_overview: "readable s \<Longrightarrow> overview g lo hi s \<noteq> None"
  using readableD(2)[of s g] unfolding overview_def numbers_in_def
  by (auto split: option.split intro!: those_some simp del: not_None_eq)

lemma readable_headers: "readable s \<Longrightarrow> header_rows g lo hi h s \<noteq> None"
  using readableD(2)[of s g] unfolding header_rows_def numbers_in_def
  by (auto split: option.split intro!: those_some simp del: not_None_eq)

lemma readable_next: "readable s \<Longrightarrow> next_article g cur s \<noteq> None"
proof -
  assume r: "readable s"
  have "art_at s g n \<noteq> None" if "grp s g = Some mg" "find (\<lambda>n. n > cur) (g_nums mg) = Some n" for mg n
    using readableD(2)[OF r that(1), of n] that(2) by (auto simp: find_Some_iff)
  then show ?thesis by (auto simp: next_article_def split: option.split)
qed

lemma readable_prev: "readable s \<Longrightarrow> prev_article g cur s \<noteq> None"
proof -
  assume r: "readable s"
  have "those (map (\<lambda>n. map_option (numbered_copy n) (art_at s g n)) (filter (\<lambda>n. n < cur) (g_nums mg))) \<noteq> None"
    if "grp s g = Some mg" for mg
    using readableD(2)[OF r that] by (intro those_some) auto
  then show ?thesis by (auto simp: prev_article_def split: option.split list.split)
qed

end
