(* ===== verification/Contract.thy ===== *)
theory Contract
  imports Handlers Readable
begin

text \<open>
  What holds of every command of a connection. \<open>handler_law\<close> states a relation between the session
  before and after as a contract over the few ways in which the handlers change a session; its
  lemma carries it over every command. Each interpretation of it is one fact about all of them:
  input is only consumed (\<open>input\<close>), replies are only added (\<open>said\<close>), the store stays readable
  (\<open>reads\<close>), and logins are earned (\<open>logins\<close>).
\<close>

section \<open>Input is only consumed\<close>

lemma read_line_len: "length (snd (read_line m s)) \<le> length s"
proof (cases "s = []")
  case False
  then show ?thesis
    using read_line_from_shorter[of m "[]" s] by (cases "read_line m s") (fastforce simp: read_line_def)
qed (simp add: read_line_def)

lemma read_line_end: "read_line m s = (Inl EOF, t) \<Longrightarrow> t = []"
proof -
  have "read_line_from m buf s = (Inl EOF, t) \<Longrightarrow> t = []" for buf
    by (induction m buf s rule: read_line_from.induct) (auto split: if_splits)
  then show "read_line m s = (Inl EOF, t) \<Longrightarrow> t = []" by (simp add: read_line_def)
qed

lemma read_line_error: "read_line m s = (Inl err, t) \<Longrightarrow> err = EOF \<or> err = Too_Long"
proof -
  have "read_line_from m buf s = (Inl err, t) \<Longrightarrow> err = EOF \<or> err = Too_Long" for buf
    by (induction m buf s rule: read_line_from.induct) (auto split: if_splits)
  then show "read_line m s = (Inl err, t) \<Longrightarrow> ?thesis" by (simp add: read_line_def)
qed

lemma drain_block_rest:
  "length (snd (drain_block s)) \<le> length s \<and> (fst (drain_block s) = EOF \<and> snd (drain_block s) = [] \<or> fst (drain_block s) = Too_Long)"
proof (induction s rule: drain_block.induct)
  case (1 s)
  show ?case
  proof (cases "read_line max_line_bytes s")
    case (Pair r t)
    then show ?thesis
      using 1[of r t] Pair read_line_len[of max_line_bytes s] read_line_end[of max_line_bytes s t]
        read_line_error[of max_line_bytes s _ t]
      by (cases r) (fastforce simp: drain_block.simps[of s])+
  qed
qed

lemma read_article_rest:
  "length (snd (read_article_from m acc s)) \<le> length s
   \<and> (\<forall>err. fst (read_article_from m acc s) = Inl err \<longrightarrow>
        err = Too_Long \<or> err = EOF \<and> snd (read_article_from m acc s) = [])"
proof (induction m acc s rule: read_article_from.induct)
  case (1 m acc s)
  show ?case
  proof (cases "read_line max_line_bytes s")
    case (Pair r t)
    have t: "length t \<le> length s" using read_line_len[of max_line_bytes s] Pair by simp
    show ?thesis
    proof (cases r)
      case (Inl err)
      then show ?thesis
        using Pair t read_line_end[of max_line_bytes s t] read_line_error[of max_line_bytes s err t]
        by (auto simp: read_article_from.simps[of m acc s])
    next
      case (Inr l)
      let ?acc = "acc @ trim_prefix l ''.'' @ CRLF"
      have d: "length (snd (drain_block t)) \<le> length t"
        "fst (drain_block t) = EOF \<and> snd (drain_block t) = [] \<or> fst (drain_block t) = Too_Long"
        using drain_block_rest[of t] by auto
      show ?thesis
      proof (cases "l = ''.''")
        case False
        show ?thesis
        proof (cases "m > 0 \<and> length ?acc > m")
          case True
          then show ?thesis using Pair Inr False t d
            by (cases "drain_block t") (auto simp: read_article_from.simps[of m acc s] Let_def)
        next
          case nl: False
          then have "read_article_from m acc s = read_article_from m ?acc t"
            using Pair Inr False by (auto simp: read_article_from.simps[of m acc s] Let_def)
          then show ?thesis using 1[OF Pair[symmetric] Inr False refl nl] t by simp
        qed
      qed (use Pair Inr t in \<open>simp add: read_article_from.simps[of m acc s]\<close>)
    qed
  qed
qed

lemma read_block_rest:
  assumes "read_block e x = (y, r)"
  shows "length (x_in y) \<le> length (x_in x) \<and> (\<forall>err. r = Inl err \<longrightarrow> err = Too_Long \<or> err = EOF \<and> x_in y = [])"
proof -
  obtain i where "read_article_from (nat (lm_max_art (cf_limits (e_cfg e)))) [] (x_in x) = (r, i)" "y = x\<lparr>x_in := i\<rparr>"
    using assms by (auto simp: read_block_def read_article_def split: prod.splits)
  then show ?thesis using read_article_rest[of "nat (lm_max_art (cf_limits (e_cfg e)))" "[]" "x_in x"] by simp
qed

section \<open>What the steps of the handlers leave alone\<close>

lemma session_steps [simp]:
  "x_in (send r x) = x_in x" "x_store (send r x) = x_store x" "x_auth (send r x) = x_auth x"
  "x_user (send r x) = x_user x" "x_user_id (send r x) = x_user_id x" "x_closed (send r x) = x_closed x"
  "x_feed_auth (send r x) = x_feed_auth x" "x_feed_peer (send r x) = x_feed_peer x" "x_ops (send r x) = x_ops x"
  "x_out (send r x) = x_out x @ [r]" "x_pending (send r x) = x_pending x"
  "x_in (with_store f x) = x_in x" "x_store (with_store f x) = f (x_store x)" "x_auth (with_store f x) = x_auth x"
  "x_user (with_store f x) = x_user x" "x_user_id (with_store f x) = x_user_id x" "x_closed (with_store f x) = x_closed x"
  "x_feed_auth (with_store f x) = x_feed_auth x" "x_feed_peer (with_store f x) = x_feed_peer x" "x_ops (with_store f x) = x_ops x"
  "x_out (with_store f x) = x_out x" "x_pending (with_store f x) = x_pending x"
  "x_in (offer a w x) = x_in x" "x_store (offer a w x) = x_store x" "x_auth (offer a w x) = x_auth x"
  "x_user (offer a w x) = x_user x" "x_user_id (offer a w x) = x_user_id x" "x_closed (offer a w x) = x_closed x"
  "x_feed_auth (offer a w x) = x_feed_auth x" "x_feed_peer (offer a w x) = x_feed_peer x" "x_ops (offer a w x) = x_ops x"
  "x_out (offer a w x) = x_out x" "x_pending (offer a w x) = x_pending x"
  by (simp_all add: send_def with_store_def offer_def)

lemma note_accepted_is: "note_accepted e now a b x = with_store
    (\<lambda>s. fst (note_accept (e_flood_text e) now (newsgroups a) b (flood_from_config (e_cfg e)) s)) x"
  by (simp add: note_accepted_def)

text \<open>Storing changes the store, the mbox and the path log.\<close>

lemma store_article_fields:
  "store_article e now a w b x = (y, a', err) \<Longrightarrow>
   x_in y = x_in x \<and> x_out y = x_out x \<and> x_auth y = x_auth x \<and> x_user y = x_user x \<and> x_user_id y = x_user_id x
   \<and> x_closed y = x_closed x \<and> x_feed_auth y = x_feed_auth x \<and> x_feed_peer y = x_feed_peer x \<and> x_ops y = x_ops x
   \<and> x_pending y = x_pending x
   \<and> (x_store y = fst (post_article now (new_article_of e a w b) (x_store x))
      \<or> x_store y = record_content_stats now (stats_event_of e a b)
          (fst (post_article now (new_article_of e a w b) (x_store x))))"
  by (auto simp: store_article_def Let_def split: prod.splits sum.splits)

section \<open>A contract for all commands\<close>

locale handler_law =
  fixes P :: "session_env \<Rightarrow> session \<Rightarrow> session \<Rightarrow> bool"
  assumes refl: "P e x x"
    and trans: "P e x y \<Longrightarrow> P e y z \<Longrightarrow> P e x z"
    and sent: "P e x (send r x)"
    and closed: "P e x (x\<lparr>x_closed := True\<rparr>)"
    and moved: "P e x (x\<lparr>x_cur := n\<rparr>)"
    and selected: "P e x (x\<lparr>x_group := Some g, x_cur := n\<rparr>)"
    and named: "P e x (x\<lparr>x_pending := m, x_auth := False, x_user := [], x_user_id := 0\<rparr>)"
    and forgot: "P e x (x\<lparr>x_pending := []\<rparr>)"
    and logged_in: "get_user (x_pending x) (x_store x) = Some u \<Longrightarrow> login_ok e u pass \<Longrightarrow>
      P e x (x\<lparr>x_user := u_name u, x_user_id := u_id u, x_auth := True, x_pending := []\<rparr>)"
    and fed: "try_feed_auth e pass x = Some k \<Longrightarrow>
      P e x (x\<lparr>x_feed_auth := True, x_feed_peer := k, x_pending := []\<rparr>)"
    and consumed: "length inp \<le> length (x_in x) \<Longrightarrow> P e x (x\<lparr>x_in := inp\<rparr>)"
    and remembered: "P e x (with_store (remember_message_id now m) x)"
    and cancelled: "P e x (with_store (\<lambda>s. fst (cancel_message_id now m s)) x)"
    and controlled: "P e x (with_store (\<lambda>s. fst (apply_control now msg s)) x)"
    and charged: "consume_binary_quota now uid limit (x_store x) = (s, c, err) \<Longrightarrow> P e x (x\<lparr>x_store := s\<rparr>)"
    and stored: "store_article e now a w bin x = (x', a', err) \<Longrightarrow> P e x x'"
    and noted: "P e x (note_accepted e now a bin x)"
    and offered: "P e x (offer a w x)"
    and mailed: "P e x (x\<lparr>x_mails := ds\<rparr>)"
begin

lemma step: "P e x y \<Longrightarrow> P e x (send r y)"
  by (rule trans[OF _ sent])

lemmas basic = refl sent closed moved selected named forgot remembered controlled noted offered mailed

lemma answered: "P e x y \<Longrightarrow> P e x (fst (answer r y))"
  by (simp add: answer_def step)

lemma answered_final: "P e x y \<Longrightarrow> P e x (fst (answer_final r y))"
  by (simp add: answer_final_def step)

lemma rejected: "P e x y \<Longrightarrow> P e x (remember_reject e now m y)"
  by (auto simp: remember_reject_def intro: trans[OF _ remembered])

lemma simple_commands:
  "P e x (fst (cmd_slave x))" "P e x (fst (cmd_capabilities x))" "P e x (fst (cmd_help x))"
  "P e x (fst (cmd_quit x))" "P e x (fst (cmd_date now x))" "P e x (fst (cmd_mode args x))"
  "P e x (fst (cmd_list args x))" "P e x (fst (cmd_newnews args x))" "P e x (fst (cmd_newgroups args x))"
  by (auto simp: cmd_slave_def cmd_capabilities_def cmd_help_def cmd_quit_def cmd_date_def cmd_mode_def
      cmd_list_def cmd_newnews_def cmd_newgroups_def Let_def intro!: answered basic split: option.split)

lemma group_commands: "P e x (fst (cmd_group args x))" "P e x (fst (cmd_listgroup args x))"
  by (auto simp: cmd_group_def cmd_listgroup_def select_group_def Let_def intro!: answered basic
      split: option.split)

lemma looked_up: "P e x (fst (lookup args x))"
  by (auto simp: lookup_def intro!: basic split: option.split)

lemma fetched: "P e x (fst (fetch args c h b x))"
  using looked_up[of e x args]
  by (auto simp: fetch_def Let_def intro!: answered split: prod.split option.split)

lemma article_commands:
  "P e x (fst (cmd_article args x))" "P e x (fst (cmd_head args x))" "P e x (fst (cmd_body args x))"
  "P e x (fst (cmd_stat args x))"
  by (simp_all add: cmd_article_def cmd_head_def cmd_body_def cmd_stat_def fetched)

lemma step_commands: "P e x (fst (cmd_next x))" "P e x (fst (cmd_last x))"
  by (auto simp: cmd_next_def cmd_last_def step_to_def intro!: answered basic split: option.split)

lemma row_commands: "P e x (fst (cmd_over args x))" "P e x (fst (cmd_hdr args x))"
  by (auto simp: cmd_over_def cmd_hdr_def Let_def intro!: answered basic split: option.split list.split)

lemma authinfo: "P e x (fst (cmd_authinfo e args x))"
  by (auto simp: cmd_authinfo_def Let_def intro!: answered basic intro: logged_in fed split: option.split)

text \<open>A gate that lets its caller go on or ends the command.\<close>

lemma chain:
  assumes "P e x (fst h)" "\<And>y. P e y (fst (k y))"
  shows "P e x (fst (case h of (y, None) \<Rightarrow> k y | (y, Some f) \<Rightarrow> (y, Some f)))"
  using assms by (cases h) (auto intro: trans split: option.split)

lemma post_gates:
  "P e x (fst (require_post_auth x))" "P e x (fst (refuse_accept b x))"
  "P e x (fst (filter_article e now w c m x))" "P e x (fst (check_cutoff e now a c x))"
  "P e x (fst (submit_to_moderator e a x))"
  by (auto simp: require_post_auth_def refuse_accept_def filter_article_def check_cutoff_def
      submit_to_moderator_def Let_def intro!: answered answered_final rejected basic split: option.split sum.split)

lemma transfer_gates: "P e x (fst (require_feed_auth e x))" "P e x (fst (begin_transfer e d c m x))"
proof -
  show f: "P e x (fst (require_feed_auth e x))"
    by (auto simp: require_feed_auth_def Let_def intro!: answered_final basic split: option.split)
  show "P e x (fst (begin_transfer e d c m x))"
    using f by (auto simp: begin_transfer_def intro!: answered_final basic split: option.split)
qed

lemma control_handled: "P e x (fst (handle_control e now a x))"
proof -
  have "with_store (\<lambda>s. remember_message_id now m (fst (cancel_message_id now k s))) x
      = with_store (remember_message_id now m) (with_store (\<lambda>s. fst (cancel_message_id now k s)) x)" for m k
    by (simp add: with_store_def)
  then show ?thesis
    by (auto simp: handle_control_def intro!: basic intro: trans[OF cancelled remembered] split: option.split)
qed

lemma quota_charged: "P e x (fst (post_quota e now bin x))"
  by (auto simp: post_quota_def Let_def intro!: basic intro: charged split: prod.split)

lemma accepted: "P e x y \<Longrightarrow> P e x (offer a w (send r (note_accepted e now b bin y)))"
  by (meson trans sent noted offered)

lemma post_storing: "P e x (fst (post_store e now a w x))"
proof -
  have "P e x x2" if "post_quota e now bin x = (x1, o1)" "store_article e now a w bin x1 = (x2, a2, r)" for bin x1 o1 x2 a2 r
    using quota_charged[of e x now bin] stored[OF that(2)] that(1) trans by fastforce
  moreover have "P e x x1" if "post_quota e now bin x = (x1, o1)" for bin x1 o1
    using quota_charged[of e x now bin] that by simp
  ultimately show ?thesis
    by (fastforce simp: post_store_def Let_def intro!: answered accepted split: prod.split option.split store_error.split)
qed

lemma post_from_injection: "P e x (fst (post_injected e now a x))"
proof -
  have c: "P e y (fst (case handle_control e now a y of
      (z, True) \<Rightarrow> answer r z
    | (z, False) \<Rightarrow> (case submit_to_moderator e a z of
        (u, None) \<Rightarrow> post_store e now a (wire a) u | (u, Some f) \<Rightarrow> (u, Some f))))" for y r
    using control_handled[of e y now a]
    by (cases "handle_control e now a y")
      (auto intro: answered trans[OF _ chain[OF post_gates(5) post_storing]] split: bool.split)
  show ?thesis
    unfolding post_injected_def Let_def
    by (intro chain post_gates) (auto intro!: answered remembered c)
qed

lemma reading: "read_block e x = (x', r) \<Longrightarrow> P e x x'"
  using read_block_rest[of e x x' r] consumed[of "x_in x'" x e] by (auto simp: read_block_def split: prod.splits)

lemma post_from_request: "P e x (fst (post_receive e now x))"
  unfolding post_receive_def
  by (auto intro!: answered intro: trans[OF sent] trans[OF trans[OF sent reading] post_from_injection] trans[OF sent reading]
      split: prod.split sum.split)

lemma posting: "P e x (fst (cmd_post e now x))"
  unfolding cmd_post_def
  by (intro chain post_gates) (auto intro!: answered refl chain post_gates post_from_request split: option.split)

lemma transfer_storing: "P e x (fst (transfer_store e now m a rc dc oc w x))"
  by (auto simp: transfer_store_def Let_def intro!: answered accepted rejected refl dest: stored
      split: prod.split option.split store_error.split)

lemma transfer_accepting: "P e x (fst (accept_peer_article e now m raw rc dc oc w x))"
proof -
  have "P e x (fst (case b of True \<Rightarrow> answer r y | False \<Rightarrow> transfer_store e now m a rc dc oc w y))"
    if "handle_control e now a x = (y, b)" for a r y b
    using control_handled[of e x now a] that
    by (auto intro: answered trans[OF _ transfer_storing] split: bool.split)
  then show ?thesis
    by (auto simp: accept_peer_article_def Let_def intro!: answered rejected basic
        split: prod.split option.split sum.split)
qed

lemma transfer_commands:
  "P e x (fst (cmd_ihave e now args x))" "P e x (fst (cmd_check e args x))" "P e x (fst (cmd_takethis e now args x))"
proof -
  note r = reading trans[OF sent reading]
  show "P e x (fst (cmd_ihave e now args x))"
    unfolding cmd_ihave_def Let_def
    by (intro chain transfer_gates)
      (auto intro!: answered rejected refl intro: r trans[OF r(2) transfer_accepting] split: prod.split sum.split)
  show "P e x (fst (cmd_check e args x))"
    unfolding cmd_check_def Let_def by (intro chain transfer_gates) (auto intro!: answered refl)
  have "P e x (fst (case g of None \<Rightarrow> accept_peer_article e now m raw 439 439 239 True z | Some f \<Rightarrow> (z, Some f)))"
    if "read_block e x = (y, b)" "begin_transfer e 439 439 m y = (z, g)" for y b z g m raw
  proof -
    have "P e x (fst (case begin_transfer e 439 439 m y of
        (z, None) \<Rightarrow> accept_peer_article e now m raw 439 439 239 True z | (z, Some f) \<Rightarrow> (z, Some f)))"
      by (rule trans[OF r(1)[OF that(1)]], rule chain[OF transfer_gates(2) transfer_accepting])
    then show ?thesis by (simp add: that(2))
  qed
  then show "P e x (fst (cmd_takethis e now args x))"
    unfolding cmd_takethis_def Let_def
    by (auto intro!: answered rejected intro: r split: prod.split sum.split)
qed

lemma commands_law: "P e x (fst (run_command e now name args x))"
  by (simp add: run_command_def simple_commands group_commands article_commands step_commands row_commands
      authinfo posting transfer_commands)

lemma dispatch_law: "P e x (fst (dispatch e now line x))"
  by (auto simp: dispatch_def Let_def intro!: answered refl commands_law split: list.split option.split)

end

section \<open>Instances\<close>

interpretation input: handler_law "\<lambda>e x y. length (x_in y) \<le> length (x_in x)"
  by unfold_locales
    (auto simp: note_accepted_is dest: store_article_fields intro: read_block_rest[OF prod.collapse[symmetric], THEN conjunct1])

interpretation said: handler_law "\<lambda>e x y. \<exists>rs. x_out y = x_out x @ rs"
  by unfold_locales
    (auto simp: note_accepted_is read_block_def dest: store_article_fields split: prod.splits)

section \<open>The store stays readable\<close>

lemma readable_entries: "readable (fst st) \<Longrightarrow> readable (fst (fold (apply_entry now) es st))"
proof (induction es arbitrary: st)
  case (Cons e es)
  have "readable (fst (apply_entry now e st))"
    using Cons.prems by (cases st) (auto simp: apply_entry_def Let_def readable_apply_control_group)
  then show ?case using Cons.IH by simp
qed simp

lemma readable_disabled: "readable s \<Longrightarrow> readable (fold (\<lambda>g. disable_control_group now (g_name g)) gs s)"
  by (induction gs arbitrary: s) (simp_all add: readable_disable)

lemma readable_checkgroups: "readable s \<Longrightarrow> readable (fst (apply_checkgroups now msg s))"
  using readable_entries[of "(s, 0, 0)" now "cm_entries msg"]
  by (auto simp: apply_checkgroups_def Let_def intro!: readable_disabled split: prod.split)

lemma readable_control: "readable s \<Longrightarrow> readable (fst (apply_control now msg s))"
  using readable_checkgroups[of s now msg]
  by (auto simp: apply_control_def Let_def readable_apply_control_group readable_disable
      split: control_kind.split prod.split)

lemma readable_charged: "consume_binary_quota now uid limit s = (t, c, err) \<Longrightarrow> readable s \<Longrightarrow> readable t"
  using readable_quota[of s now uid limit] by simp

interpretation reads: handler_law "\<lambda>e x y. readable (x_store x) \<longrightarrow> readable (x_store y)"
  by unfold_locales
    (auto simp: note_accepted_is read_block_def readable_stats readable_post_article readable_remember readable_cancel
      readable_control readable_note_accept
      dest!: store_article_fields intro: readable_charged split: prod.splits)

section \<open>Logins\<close>

text \<open>What belongs to the administrator: no command of a client changes it.\<close>

definition admin_part :: "memory \<Rightarrow> ((string \<times> user) list \<times> (int \<times> peer) list \<times> int \<times> int)
    \<times> (string \<times> string) list \<times> string list \<times> moderator_rule list \<times> bool \<times> mail_settings" where
  "admin_part s = ((m_users s, m_peers s, m_next_uid s, m_next_pid s),
     m_secrets s, m_bans s, m_mod_rules s, m_mail_saved s, m_mail s)"

lemma admin_fields [simp]:
  "admin_part (s\<lparr>m_arts := a1\<rparr>) = admin_part s" "admin_part (s\<lparr>m_history := a2\<rparr>) = admin_part s"
  "admin_part (s\<lparr>m_feed_q := a3\<rparr>) = admin_part s" "admin_part (s\<lparr>m_next_ref := a4\<rparr>) = admin_part s"
  "admin_part (s\<lparr>m_by_num := a5\<rparr>) = admin_part s" "admin_part (s\<lparr>m_accepts := a6\<rparr>) = admin_part s"
  "admin_part (s\<lparr>m_alerts := a7\<rparr>) = admin_part s" "admin_part (s\<lparr>m_next_aid := a8\<rparr>) = admin_part s"
  "admin_part (s\<lparr>m_bin_quota := a9\<rparr>) = admin_part s" "admin_part (put_group g mg s) = admin_part s"
  "admin_part (put_obj r a s) = admin_part s" "admin_part (add_group mg s) = admin_part s"
  by (simp_all add: admin_part_def put_group_def put_obj_def add_group_def)

lemma admin_numbers [simp]:
  "admin_part (set_number g n r s) = admin_part s" "admin_part (drop_number g n s) = admin_part s"
  by (auto simp: set_number_def drop_number_def split: option.split)

lemma admin_file_in: "admin_part (fst (fold (file_in r) gs (s, nums, parts))) = admin_part s"
proof (induction gs arbitrary: s nums parts)
  case (Cons g gs)
  obtain s' n' p' where e: "file_in r g (s, nums, parts) = (s', n', p')" by (cases "file_in r g (s, nums, parts)")
  then have "admin_part s' = admin_part s" by (auto simp: file_in_def Let_def split: option.splits)
  then show ?case using Cons.IH[of s' n' p'] e by simp
qed simp

lemma admin_post [simp]: "admin_part (fst (post_article now n s)) = admin_part s"
proof -
  let ?r = "m_next_ref s"
  let ?s1 = "put_obj ?r (fresh_art now n) (s\<lparr>m_next_ref := ?r + 1\<rparr>)"
  have "admin_part (fst (fold (file_in ?r) (usable_groups s (n_groups n)) (?s1, [], []))) = admin_part s"
    by (simp add: admin_file_in)
  then show ?thesis
    by (cases "fold (file_in ?r) (usable_groups s (n_groups n)) (?s1, [], [])")
      (auto simp: post_article_def Let_def split: option.split)
qed

lemma admin_unfile: "admin_part (fold unfile_from gns s) = admin_part s"
  by (induction gns arbitrary: s) (auto simp: unfile_from_def Let_def split: option.split)

lemma admin_cancel [simp]: "admin_part (fst (cancel_message_id now m s)) = admin_part s"
  by (auto simp: cancel_message_id_def delete_article_def Let_def admin_unfile split: option.split)

lemma admin_remember [simp]: "admin_part (remember_message_id now m s) = admin_part s"
  by (simp add: remember_message_id_def)

lemma admin_groups [simp]:
  "admin_part (apply_control_group now g d st s) = admin_part s"
  "admin_part (disable_control_group now g s) = admin_part s"
  by (auto simp: apply_control_group_def disable_control_group_def Let_def split: option.split)

lemma admin_control [simp]: "admin_part (fst (apply_control now msg s)) = admin_part s"
proof -
  have d: "admin_part (fold (\<lambda>g. disable_control_group now (g_name g)) gs t) = admin_part t" for gs t
    by (induction gs arbitrary: t) simp_all
  have "admin_part (fst (fold (apply_entry now) es st)) = admin_part (fst st)" for es st
    by (induction es arbitrary: st) (auto simp: apply_entry_def Let_def)
  from this[of "cm_entries msg" "(s, 0, 0)"] show ?thesis
    by (auto simp: apply_control_def apply_checkgroups_def Let_def d split: control_kind.split prod.split)
qed

lemma admin_stats [simp]: "admin_part (record_content_stats now ev s) = admin_part s"
  by (simp add: record_content_stats_def record_at_def Let_def admin_part_def)

lemma admin_quota: "consume_binary_quota now uid limit s = (t, c, err) \<Longrightarrow> admin_part t = admin_part s"
  by (auto simp: consume_binary_quota_def Let_def ensure_retention_maps_def split: if_splits)

lemma admin_alerts: "admin_part (ensure_open_alert now g d s) = admin_part s"
  "admin_part (set_retention g ds m s) = admin_part s"
  by (auto simp: ensure_open_alert_def set_retention_def split: option.split)

lemma admin_note [simp]: "admin_part (fst (note_accept ft now gs b fl s)) = admin_part s"
proof -
  have "admin_part (fst (note_one ft now b f g st)) = admin_part (fst st)" for f g st
    by (cases st) (auto simp: note_one_def Let_def admin_alerts split: option.split)
  then have "admin_part (fst (fold (note_one ft now b f) hs st)) = admin_part (fst st)" for f hs st
    by (induction hs arbitrary: st) simp_all
  then show ?thesis by (simp add: note_accept_def Let_def ensure_retention_maps_def)
qed

lemma admin_lookup:
  assumes "admin_part s = admin_part t"
  shows "get_user n s = get_user n t" "list_enabled_peers s = list_enabled_peers t" "list_peers s = list_peers t"
    "count_users s = count_users t" "m_bans s = m_bans t" "list_moderator_rules s = list_moderator_rules t"
  using assms by (simp_all add: admin_part_def get_user_def list_enabled_peers_def list_peers_def count_users_def
      list_moderator_rules_def)

text \<open>A login is the state of an enabled account whose password the client gave.\<close>

definition earned_login :: "session_env \<Rightarrow> memory \<Rightarrow> string \<Rightarrow> int \<Rightarrow> bool" where
  "earned_login e s name uid \<longleftrightarrow> (\<exists>n u pass. get_user n s = Some u \<and> \<not> u_disabled u \<and> e_password e (u_hash u) pass
     \<and> name = u_name u \<and> uid = u_id u)"

definition earned_feed :: "session_env \<Rightarrow> memory \<Rightarrow> int \<Rightarrow> bool" where
  "earned_feed e s k \<longleftrightarrow> (\<exists>p pass. match_peer (e_resolve e) (list_enabled_peers s) (e_remote e) = Some p
     \<and> k = p_id p
     \<and> verify_feed_auth (Some p) pass (peer_auth_required (cf_inbound (e_cfg e)) \<or> trim_space (p_in_password p) \<noteq> []))"

lemma try_feed_auth_earned: "try_feed_auth e pass x = Some k \<Longrightarrow> earned_feed e (x_store x) k"
  by (auto simp: try_feed_auth_def earned_feed_def Let_def split: option.splits if_splits)

definition login_step :: "session_env \<Rightarrow> session \<Rightarrow> session \<Rightarrow> bool" where
  "login_step e x y \<longleftrightarrow> admin_part (x_store y) = admin_part (x_store x)
     \<and> (x_auth y \<longrightarrow> x_auth x \<and> x_user y = x_user x \<and> x_user_id y = x_user_id x
          \<or> earned_login e (x_store x) (x_user y) (x_user_id y))
     \<and> (x_feed_auth y \<longrightarrow> x_feed_auth x \<and> x_feed_peer y = x_feed_peer x \<or> earned_feed e (x_store x) (x_feed_peer y))"

lemma earned_cong:
  assumes "admin_part s = admin_part t"
  shows "earned_login e s = earned_login e t" "earned_feed e s = earned_feed e t"
  by (simp_all add: earned_login_def earned_feed_def fun_eq_iff admin_lookup[OF assms])

interpretation logins: handler_law login_step
proof unfold_locales
  show "login_step e x z" if "login_step e x y" "login_step e y z" for e x y z
  proof -
    have a: "admin_part (x_store y) = admin_part (x_store x)" using that by (simp add: login_step_def)
    have b: "earned_login e (x_store y) = earned_login e (x_store x)" "earned_feed e (x_store y) = earned_feed e (x_store x)"
      using earned_cong[OF a] by simp_all
    show ?thesis unfolding login_step_def
    proof (intro conjI impI)
      show "admin_part (x_store z) = admin_part (x_store x)" using that a by (simp add: login_step_def)
      assume "x_auth z"
      then show "x_auth x \<and> x_user z = x_user x \<and> x_user_id z = x_user_id x
          \<or> earned_login e (x_store x) (x_user z) (x_user_id z)"
        using that b by (cases "earned_login e (x_store x) (x_user z) (x_user_id z)") (auto simp: login_step_def)
    next
      assume "x_feed_auth z"
      then show "x_feed_auth x \<and> x_feed_peer z = x_feed_peer x \<or> earned_feed e (x_store x) (x_feed_peer z)"
        using that b by (cases "earned_feed e (x_store x) (x_feed_peer z)") (auto simp: login_step_def)
    qed
  qed
  show "login_step e x (x\<lparr>x_user := u_name u, x_user_id := u_id u, x_auth := True, x_pending := []\<rparr>)"
    if "get_user (x_pending x) (x_store x) = Some u" "login_ok e u pass" for e x u pass
    using that by (auto simp: login_step_def earned_login_def login_ok_def)
  show "login_step e x (x\<lparr>x_feed_auth := True, x_feed_peer := k, x_pending := []\<rparr>)"
    if "try_feed_auth e pass x = Some k" for e pass x k
    using try_feed_auth_earned[OF that] by (simp add: login_step_def)
  show "login_step e x x'" if "store_article e now a w bin x = (x', a', err)" for e now a w bin x x' a' err
    using store_article_fields[OF that] by (auto simp: login_step_def)
qed (auto simp: login_step_def note_accepted_is admin_quota)

end
