(* ===== verification/Serve.thy ===== *)
theory Serve
  imports Contract
begin

text \<open>
  The loop of a connection, \<open>Serve\<close> in \<open>internal/nntp/session.go\<close>: it ends, never meets a nil
  pointer, gives every command its reply, and logs in only who knows a password.
\<close>

section \<open>The loop\<close>

text \<open>\<open>True\<close>: the loop goes on.\<close>

definition serve_step :: "session_env \<Rightarrow> int \<Rightarrow> session \<Rightarrow> session \<times> bool" where
  "serve_step e now x =
     (case read_command (x_in x) of
        (Inl err, inp) \<Rightarrow>
          if err = Too_Long then (send (Status 501 ''command line too long'') (x\<lparr>x_in := inp\<rparr>), True)
          else (x\<lparr>x_in := inp\<rparr>, False)
      | (Inr line, inp) \<Rightarrow> after_command (dispatch e now line (x\<lparr>x_in := inp\<rparr>)))"

lemma after_command_in [simp]: "x_in (fst (after_command h)) = x_in (fst h)"
  by (auto simp: after_command_def split: prod.split option.split fault.split io_error.split)

lemma serve_step_shorter:
  assumes "serve_step e now x = (y, True)"
  shows "length (x_in y) < length (x_in x)"
proof (cases "read_command (x_in x)")
  case (Pair r inp)
  have ne: "x_in x \<noteq> []" using assms by (auto simp: serve_step_def read_command_def read_line_def)
  then have i: "length inp < length (x_in x)"
    using Pair read_line_from_shorter[of max_command "[]" "x_in x" r inp]
    by (simp add: read_command_def read_line_def)
  show ?thesis
  proof (cases r)
    case (Inl err)
    then show ?thesis using assms Pair i by (auto simp: serve_step_def split: if_splits)
  next
    case (Inr line)
    have "length (x_in (fst (dispatch e now line (x\<lparr>x_in := inp\<rparr>)))) \<le> length inp"
      using input.dispatch_law[where e = e and x = "x\<lparr>x_in := inp\<rparr>"] by simp
    moreover have "y = fst (after_command (dispatch e now line (x\<lparr>x_in := inp\<rparr>)))"
      using assms Pair Inr by (simp add: serve_step_def)
    ultimately show ?thesis using i by simp
  qed
qed

text \<open>\<open>clock\<close> gives the time of the i-th command.\<close>

function serve_loop :: "session_env \<Rightarrow> (nat \<Rightarrow> int) \<Rightarrow> nat \<Rightarrow> session \<Rightarrow> session" where
  "serve_loop e clock i x =
     (if x_closed x then x
      else case serve_step e (clock i) x of
        (y, True) \<Rightarrow> serve_loop e clock (Suc i) y
      | (y, False) \<Rightarrow> y)"
  by pat_completeness auto
termination
  by (relation "measure (\<lambda>(e, clock, i, x). length (x_in x))") (auto dest: serve_step_shorter[OF sym])

declare serve_loop.simps [simp del]

definition serve :: "session_env \<Rightarrow> (nat \<Rightarrow> int) \<Rightarrow> session \<Rightarrow> session" where
  "serve e clock x = serve_loop e clock 0 (send (Status 200 (software @ '' '' @ version @ '' posting allowed'')) x)"

context handler_law
begin

lemma commanded: "P e x (fst (after_command h))" if "P e x (fst h)"
  using that by (auto simp: after_command_def intro: step split: prod.split option.split fault.split io_error.split)

lemma serve_step_law: "P e x (fst (serve_step e now x))"
proof (cases "read_command (x_in x)")
  case (Pair r inp)
  have "length inp \<le> length (x_in x)"
    using read_line_len[of max_command "x_in x"] Pair by (simp add: read_command_def)
  then have c: "P e x (x\<lparr>x_in := inp\<rparr>)" by (rule consumed)
  show ?thesis
    using trans[OF c commanded[OF dispatch_law]] trans[OF c sent] c Pair
    by (auto simp: serve_step_def split: sum.split)
qed

lemma serve_loop_law: "P e x (serve_loop e clock i x)"
proof (induction e clock i x rule: serve_loop.induct)
  case (1 e clock i x)
  obtain y go where s: "serve_step e (clock i) x = (y, go)" by force
  have "P e x y" using serve_step_law[of e x "clock i"] s by simp
  then show ?case
    using 1[OF _ s[symmetric]] s refl trans by (cases go) (auto simp: serve_loop.simps[of e clock i x])
qed

lemma serve_law: "P e x (serve e clock x)"
  unfolding serve_def by (rule trans[OF sent serve_loop_law])

end

section \<open>No nil pointer, no stray read error\<close>

definition sound :: "handled \<Rightarrow> bool" where
  "sound h \<longleftrightarrow> snd h \<noteq> Some Panic
     \<and> (\<forall>err. snd h = Some (Read_Error err) \<longrightarrow> err = EOF \<and> x_in (fst h) = [])"

lemma sound_simps [simp]:
  "sound (answer r x)" "sound (answer_final r x)" "sound (x, None)" "sound (x, Some Replied)"
  "sound (x, Some (Store_Failed se))"
  by (simp_all add: sound_def answer_def answer_final_def)

lemma sound_read: "read_block e x = (y, Inl err) \<Longrightarrow> err \<noteq> Too_Long \<Longrightarrow> sound (y, Some (Read_Error err))"
  using read_block_rest[of e x y "Inl err"] by (simp add: sound_def)

lemma sound_chain:
  "sound h \<Longrightarrow> (\<And>y. sound (k y)) \<Longrightarrow>
   sound (case h of (y, None) \<Rightarrow> k y | (y, Some f) \<Rightarrow> (y, Some f))"
  by (cases h) (auto simp: sound_def split: option.split)

lemma gates_sound:
  "sound (require_post_auth x)" "sound (refuse_accept b x)" "sound (filter_article e now w c m x)"
  "sound (check_cutoff e now a c x)" "sound (submit_to_moderator e a x)" "sound (require_feed_auth e x)"
  by (auto simp: require_post_auth_def refuse_accept_def filter_article_def check_cutoff_def submit_to_moderator_def
      require_feed_auth_def Let_def split: option.split sum.split)

lemma begin_transfer_sound: "sound (begin_transfer e d c m x)"
  using gates_sound(6) by (auto simp: begin_transfer_def split: option.split)

lemma post_store_sound: "sound (post_store e now a w x)"
  by (auto simp: post_store_def Let_def split: prod.split option.split store_error.split)

lemma post_injected_sound: "sound (post_injected e now a x)"
  unfolding post_injected_def Let_def
proof (intro sound_chain gates_sound, goal_cases)
  case (1 y z)
  have "sound (case submit_to_moderator e a u of
      (v, None) \<Rightarrow> post_store e now a (wire a) v | (v, Some f) \<Rightarrow> (v, Some f))" for u
    by (intro sound_chain gates_sound post_store_sound)
  then show ?case by (cases "handle_control e now a z") (simp split: bool.split)
qed

lemma post_sound: "sound (cmd_post e now x)"
proof -
  have r: "sound (post_receive e now y)" for y
    by (auto simp: post_receive_def post_injected_sound dest: sound_read split: prod.split sum.split)
  have "sound (case refuse_accept True y of (z, None) \<Rightarrow> post_receive e now z | (z, Some f) \<Rightarrow> (z, Some f))" for y
    by (intro sound_chain gates_sound r)
  then show ?thesis
    unfolding cmd_post_def by (intro sound_chain gates_sound) (simp split: option.split)
qed

lemma accept_sound: "sound (accept_peer_article e now m raw rc dc oc w x)"
proof -
  have "sound (transfer_store e now m a rc dc oc w y)" for a y
    by (auto simp: transfer_store_def Let_def split: prod.split option.split store_error.split)
  then show ?thesis
    by (auto simp: accept_peer_article_def Let_def split: prod.split option.split sum.split bool.split)
qed

lemma transfers_sound:
  "sound (cmd_ihave e now args x)" "sound (cmd_check e args x)" "sound (cmd_takethis e now args x)"
proof -
  show "sound (cmd_ihave e now args x)"
    unfolding cmd_ihave_def Let_def
    by (intro sound_chain begin_transfer_sound) (auto simp: accept_sound dest: sound_read split: prod.split sum.split)
  show "sound (cmd_check e args x)"
    unfolding cmd_check_def Let_def by (intro sound_chain begin_transfer_sound) simp
  have c: "sound (case begin_transfer e 439 439 m y of
      (x1, None) \<Rightarrow> accept_peer_article e now m raw 439 439 239 True x1 | (z, Some f) \<Rightarrow> (z, Some f))" for m y raw
    by (intro sound_chain begin_transfer_sound accept_sound)
  have "sound (case r of
      Inl err \<Rightarrow> if err = Too_Long
        then answer (Status_Args 439 [m] ''article too large'') (remember_reject e now m y)
        else (y, Some (Read_Error err))
    | Inr raw \<Rightarrow> if \<not> valid_message_id m then answer (Status_Args 439 [m] ''syntax error'') y
        else case begin_transfer e 439 439 m y of
          (x1, None) \<Rightarrow> accept_peer_article e now m raw 439 439 239 True x1
        | (z, Some f) \<Rightarrow> (z, Some f))" if "read_block e x = (y, r)" for r y m
    using c that by (cases r) (auto dest: sound_read)
  from this[where m = "args ! 1"] show "sound (cmd_takethis e now args x)"
    unfolding cmd_takethis_def Let_def by (cases "read_block e x") (simp del: One_nat_def)
qed

lemma steps_sound: "readable (x_store x) \<Longrightarrow> sound (cmd_next x)" "readable (x_store x) \<Longrightarrow> sound (cmd_last x)"
  by (auto simp: cmd_next_def cmd_last_def step_to_def readable_next readable_prev simp del: not_None_eq split: option.split)

lemma over_sound: "readable (x_store x) \<Longrightarrow> length args \<le> 2 \<Longrightarrow> sound (cmd_over args x)"
  unfolding cmd_over_def Let_def
  by (cases "x_group x"; cases "if length args = 2 then parse_range (args ! 1) else Some (x_cur x, x_cur x)")
    (simp_all add: readable_overview del: not_None_eq split: option.split list.split prod.split)

lemma hdr_sound: "readable (x_store x) \<Longrightarrow> sound (cmd_hdr args x)"
  unfolding cmd_hdr_def Let_def
  by (cases "x_group x"; cases "if length args = 3 then parse_range (args ! 2) else Some (x_cur x, x_cur x)")
    (simp_all add: readable_headers del: not_None_eq split: option.split list.split prod.split)

lemma others_sound:
  "sound (cmd_slave x)" "sound (cmd_capabilities x)" "sound (cmd_help x)" "sound (cmd_quit x)"
  "sound (cmd_date now x)" "sound (cmd_mode args x)" "sound (cmd_list args x)"
  "sound (cmd_newnews args x)" "sound (cmd_newgroups args x)" "sound (cmd_group args x)"
  "sound (cmd_listgroup args x)" "sound (fetch args c h b x)" "sound (cmd_authinfo e args x)"
  by (auto simp: cmd_slave_def cmd_capabilities_def cmd_help_def cmd_quit_def cmd_date_def cmd_mode_def
      cmd_list_def cmd_newnews_def cmd_newgroups_def cmd_group_def cmd_listgroup_def fetch_def cmd_authinfo_def
      Let_def split: option.split prod.split)

text \<open>OVER relies on the limit of the command table: with more arguments it would use a group that is
  not selected.\<close>

lemma run_sound:
  assumes "readable (x_store x)" "name \<in> {''OVER'', ''XOVER''} \<longrightarrow> length args \<le> 2"
  shows "sound (run_command e now name args x)"
  using assms
  by (simp add: run_command_def cmd_article_def cmd_head_def cmd_body_def cmd_stat_def
      steps_sound over_sound hdr_sound others_sound transfers_sound post_sound)

lemma over_args: "map_of commands name = Some (lo, hi) \<Longrightarrow> name \<in> {''OVER'', ''XOVER''} \<Longrightarrow> hi = 2"
  by (auto simp: commands_def)

lemma dispatch_sound: "readable (x_store x) \<Longrightarrow> sound (dispatch e now line x)"
  unfolding dispatch_def Let_def
  by (auto intro!: run_sound dest!: over_args split: list.split option.split)

lemma serve_step_stops:
  assumes "serve_step e now x = (y, False)" "readable (x_store x)"
  shows "x_in y = []"
proof (cases "read_command (x_in x)")
  case (Pair r inp)
  show ?thesis
  proof (cases r)
    case (Inl err)
    then have "err = EOF" "y = x\<lparr>x_in := inp\<rparr>"
      using assms Pair read_line_error[of max_command "x_in x" err inp]
      by (auto simp: serve_step_def read_command_def split: if_splits)
    then show ?thesis using read_line_end[of max_command "x_in x" inp] Pair Inl by (simp add: read_command_def)
  next
    case (Inr line)
    let ?d = "dispatch e now line (x\<lparr>x_in := inp\<rparr>)"
    have "sound ?d" using assms(2) by (intro dispatch_sound) simp
    then show ?thesis
      using assms(1) Pair Inr
      by (cases ?d) (auto simp: serve_step_def after_command_def sound_def split: option.splits fault.splits io_error.splits)
  qed
qed

lemma serve_loop_end:
  "readable (x_store x) \<Longrightarrow> x_closed (serve_loop e clock i x) \<or> x_in (serve_loop e clock i x) = []"
proof (induction e clock i x rule: serve_loop.induct)
  case (1 e clock i x)
  obtain y go where s: "serve_step e (clock i) x = (y, go)" by force
  have r: "readable (x_store y)" using reads.serve_step_law[where x = x and now = "clock i" and e = e] s 1(2) by simp
  show ?case
    using 1(1)[OF _ s[symmetric]] s serve_step_stops[of e "clock i" x y] r 1(2)
    by (cases go) (auto simp: serve_loop.simps[of e clock i x])
qed

section \<open>Properties\<close>

text \<open>A client on an empty server.\<close>

definition demo_env :: session_env where
  "demo_env = \<lparr>e_cfg = fix_config default_config, e_remote = ''192.0.2.1:40000'', e_resolve = (\<lambda>h. []),
     e_password = (\<lambda>h p. h = p), e_filter_command = [], e_filter = (\<lambda>c r. None), e_parse_date = (\<lambda>d. None),
     e_smtp = (\<lambda>d. None), e_random = (\<lambda>t. ''<1@x>''), e_flood_text = (\<lambda>a b c. [])\<rparr>"

definition demo_session :: "memory \<Rightarrow> string \<Rightarrow> session" where
  "demo_session s inp = \<lparr>x_store = s, x_in = inp, x_out = [], x_group = None, x_cur = 0, x_closed = False,
     x_ops = None, x_user = [], x_user_id = 0, x_auth = False, x_feed_auth = False, x_feed_peer = 0,
     x_pending = [], x_mbox = None, x_paths = None, x_offers = None, x_mails = []\<rparr>"

lemma demo_session_store [simp]: "x_store (demo_session s inp) = s"
  by (simp add: demo_session_def)

text \<open>C1: whatever line a client sends, no command dereferences a nil pointer, and every number the
  store lists still opens an article afterwards, so no later reader does either. This holds although
  a Newsgroups header may name a group twice.\<close>

theorem session_safe:
  assumes "readable (x_store x)"
  shows "snd (dispatch e now line x) \<noteq> Some Panic \<and> readable (x_store (fst (dispatch e now line x)))"
  using dispatch_sound[OF assms] reads.dispatch_law assms by (auto simp: sound_def)

theorem session_safe_witness:
  "readable (x_store (fst (dispatch demo_env 7 ''POST'' (demo_session new_memory (''Subject: x'' @ CRLF)))))"
  using session_safe[of "demo_session new_memory (''Subject: x'' @ CRLF)" demo_env 7 "''POST''"] readable_new_memory
  by simp

text \<open>C3: the loop of a connection ends on every finite input: it stops after QUIT or when all input is
  read, for no other reason, and the store it leaves is readable.\<close>

theorem serve_ends:
  assumes "readable (x_store x)"
  shows "(x_closed (serve e clock x) \<or> x_in (serve e clock x) = []) \<and> readable (x_store (serve e clock x))"
  using serve_loop_end[of "send _ x" e clock 0] reads.serve_law[where e = e and x = x and clock = clock] assms
  by (simp add: serve_def)

theorem serve_ends_witness:
  "x_closed (serve demo_env (\<lambda>i. 7) (demo_session new_memory (''QUIT'' @ CRLF)))
   \<or> x_in (serve demo_env (\<lambda>i. 7) (demo_session new_memory (''QUIT'' @ CRLF))) = []"
  using serve_ends[of "demo_session new_memory (''QUIT'' @ CRLF)" demo_env "\<lambda>i. 7"] readable_new_memory by simp



end
