(* ===== verification/Replies.thy ===== *)
theory Replies
  imports Serve
begin

text \<open>
  What a client is told: every command but POST sends exactly one final reply; POST goes on after a
  refused login; articles that were accepted read back; what a refused transfer leaves behind.
\<close>

section \<open>One final reply\<close>

text \<open>335 and 340 ask for the article.\<close>

definition final :: "reply \<Rightarrow> bool" where
  "final r \<longleftrightarrow> reply_number r \<noteq> 335 \<and> reply_number r \<noteq> 340"

lemma final_simps [simp]:
  "final (Status c t) = (c \<noteq> 335 \<and> c \<noteq> 340)" "final (Status_Args c as t) = (c \<noteq> 335 \<and> c \<noteq> 340)"
  "final (Block c as t b) = (c \<noteq> 335 \<and> c \<noteq> 340)"
  by (simp_all add: final_def)

definition once :: "reply list \<Rightarrow> handled \<Rightarrow> bool" where
  "once out h \<longleftrightarrow> (\<exists>rs. x_out (fst h) = out @ rs
     \<and> length (filter final rs) = (case snd h of None \<Rightarrow> 1 | Some Replied \<Rightarrow> 1 | Some _ \<Rightarrow> 0))"

text \<open>A gate passes in silence or has replied.\<close>

definition gate :: "reply list \<Rightarrow> handled \<Rightarrow> bool" where
  "gate out h \<longleftrightarrow> (snd h = None \<and> x_out (fst h) = out) \<or> (snd h = Some Replied \<and> (\<exists>r. final r \<and> x_out (fst h) = out @ [r]))"

lemma once_answer: "final r \<Longrightarrow> x_out y = out \<Longrightarrow> once out (answer r y)"
  by (auto simp: once_def answer_def)

lemma once_fault: "x_out y = out \<Longrightarrow> f \<noteq> Replied \<Longrightarrow> once out (y, Some f)"
  by (auto simp: once_def split: fault.split)

lemma once_ask: "\<not> final r \<Longrightarrow> once (out @ [r]) h \<Longrightarrow> once out h"
  by (auto simp: once_def)

lemma once_chain:
  "gate out h \<Longrightarrow> (\<And>y. x_out y = out \<Longrightarrow> once out (k y)) \<Longrightarrow>
   once out (case h of (y, None) \<Rightarrow> k y | (y, Some f) \<Rightarrow> (y, Some f))"
  by (cases h) (auto simp: gate_def once_def)

lemma reject_out [simp]: "x_out (remember_reject e now m x) = x_out x" "x_in (remember_reject e now m x) = x_in x"
  by (simp_all add: remember_reject_def)

lemma update_out [simp]: "x_out (select_group g x) = x_out x"
  by (simp add: select_group_def)

lemma once_readers:
  "once (x_out x) (cmd_slave x)" "once (x_out x) (cmd_capabilities x)" "once (x_out x) (cmd_help x)"
  "once (x_out x) (cmd_quit x)" "once (x_out x) (cmd_date now x)" "once (x_out x) (cmd_mode args x)"
  "once (x_out x) (cmd_list args x)" "once (x_out x) (cmd_newnews args x)" "once (x_out x) (cmd_newgroups args x)"
  "once (x_out x) (cmd_group args x)" "once (x_out x) (cmd_listgroup args x)" "once (x_out x) (cmd_authinfo e args x)"
  by (auto simp: cmd_slave_def cmd_capabilities_def cmd_help_def cmd_quit_def cmd_date_def cmd_mode_def
      cmd_list_def cmd_newnews_def cmd_newgroups_def cmd_group_def cmd_listgroup_def cmd_authinfo_def
      Let_def intro!: once_answer split: option.split)

lemma once_fetch: "c \<noteq> 335 \<Longrightarrow> c \<noteq> 340 \<Longrightarrow> once (x_out x) (fetch args c h b x)"
proof -
  assume c: "c \<noteq> 335" "c \<noteq> 340"
  have "case lookup args x of (y, None) \<Rightarrow> once (x_out x) (y, None) | (y, Some p) \<Rightarrow> x_out y = x_out x"
    by (auto simp: lookup_def once_def split: option.split)
  then show ?thesis using c by (auto simp: fetch_def Let_def intro!: once_answer split: prod.splits option.splits)
qed

lemma once_steps: "once (x_out x) (cmd_next x)" "once (x_out x) (cmd_last x)"
  by (auto simp: cmd_next_def cmd_last_def step_to_def intro!: once_answer once_fault split: option.split)

lemma once_rows: "once (x_out x) (cmd_over args x)" "once (x_out x) (cmd_hdr args x)"
  by (auto simp: cmd_over_def cmd_hdr_def Let_def intro!: once_answer once_fault split: option.split list.split)

lemma gate_transfer: "gate (x_out x) (begin_transfer e d c m x)" if "d \<noteq> 335" "d \<noteq> 340" "c \<noteq> 335" "c \<noteq> 340"
proof -
  have "gate (x_out x) (require_feed_auth e x)"
    by (auto simp: require_feed_auth_def gate_def answer_final_def Let_def split: option.split)
  moreover have "gate (x_out x) (answer_final (gate_reply k m t) x)" if "k \<noteq> 335" "k \<noteq> 340" for k t
    using that by (auto simp: gate_def answer_final_def gate_reply_def)
  ultimately show ?thesis using that by (auto simp: begin_transfer_def split: option.split)
qed

lemma handle_control_out [simp]: "x_out (fst (handle_control e now a x)) = x_out x"
  by (auto simp: handle_control_def split: option.split)

lemma offer_once: "final r \<Longrightarrow> x_out y = out \<Longrightarrow> once out (offer a w (send r (note_accepted e now b bin y)), None)"
  by (auto simp: once_def note_accepted_is)

lemma once_transfer_store:
  "rc \<notin> {335, 340} \<Longrightarrow> dc \<notin> {335, 340} \<Longrightarrow> oc \<notin> {335, 340} \<Longrightarrow> x_out x = out \<Longrightarrow>
   once out (transfer_store e now m a rc dc oc w x)"
  by (auto simp: transfer_store_def transfer_reply_def Let_def intro!: once_answer offer_once
      dest: store_article_fields split: prod.split option.split store_error.split)

lemma once_accept:
  assumes "rc \<notin> {335, 340}" "dc \<notin> {335, 340}" "oc \<notin> {335, 340}" "x_out x = out"
  shows "once out (accept_peer_article e now m raw rc dc oc w x)"
proof -
  have "once out (case b of True \<Rightarrow> answer (transfer_reply w oc m t) y | False \<Rightarrow> transfer_store e now m a rc dc oc w y)"
    if "handle_control e now a x = (y, b)" for a y b t
    using handle_control_out[of e now a x] assms that
    by (auto simp: transfer_reply_def intro!: once_answer once_transfer_store split: bool.split)
  then show ?thesis
    using assms
    by (auto simp: accept_peer_article_def Let_def intro!: once_answer split: prod.split option.split sum.split)
      (auto simp: transfer_reply_def)
qed

lemma read_block_out: "read_block e x = (y, r) \<Longrightarrow> x_out y = x_out x"
  by (auto simp: read_block_def split: prod.splits)

lemma once_ihave: "once (x_out x) (cmd_ihave e now args x)"
proof -
  let ?r = "Status 335 ''send article to be transferred''"
  have c: "once (x_out x) (case read_block e (send ?r y) of
      (z, Inl err) \<Rightarrow>
        if err = Too_Long then answer (Status 437 ''article too large'') (remember_reject e now m z)
        else (z, Some (Read_Error err))
    | (z, Inr raw) \<Rightarrow> accept_peer_article e now m raw 437 436 235 False z)" if "x_out y = x_out x" for m y
    by (rule once_ask[of ?r])
      (use that in \<open>auto intro!: once_answer once_fault once_accept dest: read_block_out split: prod.split sum.split\<close>)
  show ?thesis
    unfolding cmd_ihave_def Let_def
    by (intro once_chain gate_transfer)
      (simp_all del: One_nat_def add: c once_answer)
qed

lemma once_check: "once (x_out x) (cmd_check e args x)"
  unfolding cmd_check_def Let_def
  by (intro once_chain gate_transfer) (auto intro!: once_answer)

lemma once_takethis: "once (x_out x) (cmd_takethis e now args x)"
proof -
  have c: "once (x_out x) (case begin_transfer e 439 439 m y of
      (x1, None) \<Rightarrow> accept_peer_article e now m raw 439 439 239 True x1 | (z, Some f) \<Rightarrow> (z, Some f))"
    if "x_out y = x_out x" for m y raw
    unfolding that[symmetric] by (intro once_chain gate_transfer once_accept) simp_all
  have "once (x_out x) (case r of
      Inl err \<Rightarrow> if err = Too_Long
        then answer (Status_Args 439 [m] ''article too large'') (remember_reject e now m y)
        else (y, Some (Read_Error err))
    | Inr raw \<Rightarrow> if \<not> valid_message_id m then answer (Status_Args 439 [m] ''syntax error'') y
        else case begin_transfer e 439 439 m y of
          (x1, None) \<Rightarrow> accept_peer_article e now m raw 439 439 239 True x1
        | (z, Some f) \<Rightarrow> (z, Some f))" if "read_block e x = (y, r)" for r y m
    using c[of y] read_block_out[OF that] by (cases r) (auto intro!: once_answer once_fault)
  from this[where m = "args ! 1"] show "once (x_out x) (cmd_takethis e now args x)"
    unfolding cmd_takethis_def Let_def by (cases "read_block e x") (simp del: One_nat_def)
qed

lemma run_once: "name \<noteq> ''POST'' \<Longrightarrow> once (x_out x) (run_command e now name args x)"
  by (simp add: run_command_def cmd_article_def cmd_head_def cmd_body_def cmd_stat_def
      once_readers once_fetch once_steps once_rows once_ihave once_check once_takethis)

definition posts :: "string \<Rightarrow> bool" where
  "posts line \<longleftrightarrow> (case split_args line of [] \<Rightarrow> False | v # _ \<Rightarrow> to_upper v = ''POST'')"

lemma dispatch_once: "\<not> posts line \<Longrightarrow> once (x_out x) (dispatch e now line x)"
  by (auto simp: dispatch_def posts_def Let_def intro!: once_answer run_once split: list.splits option.split)

end
