(* ===== verification/Spool.thy ===== *)
theory Spool
  imports Readable
begin

text \<open>
  What the store promises about articles, as an abstract spool: the texts by Message-ID, the
  Message-IDs that were seen, the groups that take articles and what is filed in each. Posting,
  cancelling and remembering in \<open>internal/store/memory.go\<close> refine the spool's operations, whatever
  the Newsgroups header says.
\<close>

section \<open>Texts\<close>

text \<open>Only the groups of the object change while it is filed.\<close>

lemma file_in_keeps:
  "obj s r = Some a \<Longrightarrow> \<exists>a'. obj (fst (fold (file_in r) gs (s, nums, parts))) r = Some a'
     \<and> stored_article.truncate a' = stored_article.truncate a"
proof (induction gs arbitrary: s nums parts a)
  case (Cons g gs)
  obtain s' n' p' where e: "file_in r g (s, nums, parts) = (s', n', p')" by (cases "file_in r g (s, nums, parts)")
  have "\<exists>a'. obj s' r = Some a' \<and> stored_article.truncate a' = stored_article.truncate a"
    using e Cons.prems by (auto simp: file_in_def Let_def views split: option.splits)
  then show ?case using Cons.IH[of s'] e by fastforce
qed auto

lemma post_reads_back:
  assumes "post_article now n s = (s', Inr res)"
  shows "\<exists>sa. get_by_msgid (n_msgid n) s' = Some sa \<and> s_headers sa = n_headers n \<and> s_body sa = n_body n
     \<and> s_msgid sa = n_msgid n"
proof -
  let ?r = "m_next_ref s"
  let ?s1 = "put_obj ?r (fresh_art now n) (s\<lparr>m_next_ref := ?r + 1\<rparr>)"
  let ?f = "fold (file_in ?r) (usable_groups s (n_groups n)) (?s1, [], [])"
  have "obj ?s1 ?r = Some (fresh_art now n)" by (simp add: views)
  then obtain a where a: "obj (fst ?f) ?r = Some a" "stored_article.truncate a = stored_article.truncate (fresh_art now n)"
    using file_in_keeps by blast
  obtain s2 nums parts where f: "?f = (s2, nums, parts)" by (cases ?f)
  have h: "s_headers a = n_headers n" "s_body a = n_body n" "s_msgid a = n_msgid n"
    using arg_cong[OF a(2), of s_headers] arg_cong[OF a(2), of s_body] arg_cong[OF a(2), of s_msgid]
    by (simp_all add: stored_article.truncate_def fresh_art_def)
  have "art_ref s' (n_msgid n) = Some ?r \<and> obj s' ?r = Some (a\<lparr>s_xref := xref_text (n_xref n) parts\<rparr>)"
    using assms f a(1) by (auto simp: post_article_def Let_def views art_ref_def split: if_splits)
  then show ?thesis using h by (simp add: get_by_msgid_def numbered_copy_def stored_article.truncate_def)
qed

text \<open>Statistics and flood control do not touch articles.\<close>

definition same_objects :: "memory \<Rightarrow> memory \<Rightarrow> bool" where
  "same_objects s t \<longleftrightarrow> m_arts t = m_arts s \<and> m_heap t = m_heap s"

lemma same_objects_get: "same_objects s t \<Longrightarrow> get_by_msgid m t = get_by_msgid m s"
proof -
  assume "same_objects s t"
  then have "art_ref t = art_ref s" "obj t = obj s"
    by (simp_all add: same_objects_def art_ref_def obj_def fun_eq_iff)
  then show ?thesis by (simp add: get_by_msgid_def)
qed

lemma same_objects_core: "core t = core s \<Longrightarrow> same_objects s t"
  by (simp add: core_def same_objects_def)

lemma same_objects_stats: "same_objects s (record_content_stats now ev s)"
  by (rule same_objects_core) (simp add: record_content_stats_def)

lemma same_objects_alerts:
  "same_objects t (ensure_open_alert now g d s) = same_objects t s"
  "same_objects t (set_retention g ds m s) = same_objects t s"
  "same_objects t (s\<lparr>m_accepts := x\<rparr>) = same_objects t s" "same_objects t (s\<lparr>m_next_aid := y\<rparr>) = same_objects t s"
  by (auto simp: same_objects_def ensure_open_alert_def set_retention_def put_group_def split: option.split)

lemma same_objects_note: "same_objects s (fst (note_accept ft now gs b fl s))"
proof -
  have "same_objects t (fst (note_one ft now b f g st)) = same_objects t (fst st)" for f g st t
    by (cases st) (auto simp: note_one_def Let_def same_objects_alerts split: option.split)
  then have "same_objects t (fst (fold (note_one ft now b f) hs st)) = same_objects t (fst st)" for f hs st t
    by (induction hs arbitrary: st) simp_all
  then show ?thesis
    by (simp add: note_accept_def Let_def ensure_retention_maps_def same_objects_alerts) (simp add: same_objects_def)
qed

lemma unfile_objects: "m_arts (fold unfile_from gns s) = m_arts s \<and> m_heap (fold unfile_from gns s) = m_heap s"
proof (induction gns arbitrary: s)
  case (Cons gn gns)
  have "m_arts (unfile_from gn s) = m_arts s \<and> m_heap (unfile_from gn s) = m_heap s"
    by (cases gn) (auto simp: unfile_from_def Let_def drop_number_def put_group_def split: option.split)
  then show ?case using Cons.IH by simp
qed simp

lemma cancelled_get:
  "get_by_msgid k (fst (cancel_message_id now m s)) = (if k = m then None else get_by_msgid k s)"
proof -
  let ?s = "s\<lparr>m_history := AList.update m now (m_history s)\<rparr>"
  show ?thesis
  proof (cases "Option.bind (art_ref s m) (obj s)")
    case None
    then have "fst (cancel_message_id now m s) = ?s" by (simp add: cancel_message_id_def delete_article_def views)
    then show ?thesis using None by (auto simp: get_by_msgid_def views)
  next
    case (Some a)
    let ?t = "fst (cancel_message_id now m s)"
    have "m_arts ?t = AList.delete m (m_arts s)" "m_heap ?t = m_heap s"
      using Some unfile_objects[of "a_groups a" ?s] by (simp_all add: cancel_message_id_def delete_article_def views Let_def)
    then have "art_ref ?t k = (if k = m then None else art_ref s k)" "obj ?t = obj s"
      by (auto simp: art_ref_def obj_def delete_conv fun_eq_iff)
    then show ?thesis by (simp add: get_by_msgid_def)
  qed
qed

section \<open>The abstract spool\<close>

record spool =
  sp_text :: "string \<Rightarrow> (string \<times> string) option"
  sp_seen :: "string set"
  sp_open :: "string set"
  sp_in :: "string \<Rightarrow> string set"

datatype spool_op = Do_Post int new_article | Do_Cancel int string | Do_Remember int string
datatype spool_result = Posted | Refused store_error | Existed bool | Noted

definition spool_step :: "spool_op \<Rightarrow> spool \<Rightarrow> spool \<times> spool_result" where
  "spool_step op sp = (case op of
     Do_Post now n \<Rightarrow>
       let gs = {g \<in> set (n_groups n). g \<in> sp_open sp}; m = n_msgid n in
       if m \<in> sp_seen sp then (sp, Refused Duplicate_ID)
       else if gs = {} then (sp, Refused No_Group)
       else (sp\<lparr>sp_text := (sp_text sp)(m \<mapsto> (n_headers n, n_body n)), sp_seen := insert m (sp_seen sp),
               sp_in := (\<lambda>g. if g \<in> gs then insert m (sp_in sp g) else sp_in sp g - {m})\<rparr>, Posted)
   | Do_Cancel now m \<Rightarrow>
       (sp\<lparr>sp_text := (sp_text sp)(m := None), sp_seen := insert m (sp_seen sp), sp_in := (\<lambda>g. sp_in sp g - {m})\<rparr>,
        Existed (sp_text sp m \<noteq> None))
   | Do_Remember now m \<Rightarrow> (sp\<lparr>sp_seen := insert m (sp_seen sp)\<rparr>, Noted))"

text \<open>The same operations on the store.\<close>

definition store_step :: "spool_op \<Rightarrow> memory \<Rightarrow> memory \<times> spool_result" where
  "store_step op s = (case op of
     Do_Post now n \<Rightarrow> (case post_article now n s of (s', Inr r) \<Rightarrow> (s', Posted) | (s', Inl err) \<Rightarrow> (s', Refused err))
   | Do_Cancel now m \<Rightarrow> (case cancel_message_id now m s of (s', b) \<Rightarrow> (s', Existed b))
   | Do_Remember now m \<Rightarrow> (remember_message_id now m s, Noted))"

fun spool_run :: "spool_op list \<Rightarrow> spool \<Rightarrow> spool \<times> spool_result list" where
  "spool_run [] sp = (sp, [])"
| "spool_run (op # ops) sp =
     (let (sp1, r) = spool_step op sp; (sp2, rs) = spool_run ops sp1 in (sp2, r # rs))"

fun store_run :: "spool_op list \<Rightarrow> memory \<Rightarrow> memory \<times> spool_result list" where
  "store_run [] s = (s, [])"
| "store_run (op # ops) s =
     (let (s1, r) = store_step op s; (s2, rs) = store_run ops s1 in (s2, r # rs))"

section \<open>Abstraction\<close>

definition stored_in :: "memory \<Rightarrow> string \<Rightarrow> string set" where
  "stored_in s g = {m. \<exists>a. Option.bind (art_ref s m) (obj s) = Some a \<and> map_of (a_groups a) g \<noteq> None}"

definition takes_articles :: "memory \<Rightarrow> string \<Rightarrow> bool" where
  "takes_articles s g \<longleftrightarrow> (case grp s g of None \<Rightarrow> False | Some mg \<Rightarrow> g_status mg \<noteq> ''n'')"

definition spool_of :: "memory \<Rightarrow> spool" where
  "spool_of s =
     \<lparr>sp_text = (\<lambda>m. map_option (\<lambda>a. (s_headers a, s_body a)) (get_by_msgid m s)),
      sp_seen = {m. in_history s m}, sp_open = {g. takes_articles s g}, sp_in = stored_in s\<rparr>"

lemma spool_of_sel [simp]:
  "sp_text (spool_of s) m = map_option (\<lambda>a. (s_headers a, s_body a)) (get_by_msgid m s)"
  "sp_seen (spool_of s) = {m. in_history s m}" "sp_open (spool_of s) = {g. takes_articles s g}"
  "sp_in (spool_of s) = stored_in s"
  by (simp_all add: spool_of_def)

lemma spool_eqI:
  "(\<And>m. sp_text a m = sp_text b m) \<Longrightarrow> sp_seen a = sp_seen b \<Longrightarrow> sp_open a = sp_open b \<Longrightarrow>
   (\<And>g. sp_in a g = sp_in b g) \<Longrightarrow> a = (b :: spool)"
  by (rule spool.equality) (auto simp: fun_eq_iff)

text \<open>References are handed out in order.\<close>

definition refs_below :: "memory \<Rightarrow> bool" where
  "refs_below s \<longleftrightarrow> (\<forall>m r. art_ref s m = Some r \<longrightarrow> r < m_next_ref s)"

lemma store_inv_refs_below: "store_inv s \<Longrightarrow> refs_below s"
  unfolding refs_below_def
proof (intro allI impI)
  fix m r assume i: "store_inv s" and m: "art_ref s m = Some r"
  then have "obj s r \<noteq> None" using store_invD(2)[OF i] unfolding objects_good_def by blast
  then show "r < m_next_ref s" using store_invD(4)[OF i] unfolding refs_fresh_def by (metis leI)
qed

section \<open>The operations refine\<close>

definition filing_to :: "nat \<Rightarrow> memory \<Rightarrow> memory \<Rightarrow> string set \<Rightarrow> bool" where
  "filing_to r s t gs \<longleftrightarrow>
     (\<exists>a b. obj s r = Some a \<and> obj t r = Some b \<and> stored_article.truncate b = stored_article.truncate a
        \<and> dom (map_of (a_groups b)) = dom (map_of (a_groups a)) \<union> gs)
     \<and> (\<forall>q. q \<noteq> r \<longrightarrow> obj t q = obj s q) \<and> m_arts t = m_arts s \<and> m_history t = m_history s \<and> m_next_ref t = m_next_ref s
     \<and> takes_articles t = takes_articles s \<and> (\<forall>g. grp t g = None \<longleftrightarrow> grp s g = None)"

lemma filing_to_refl: "obj s r = Some a \<Longrightarrow> filing_to r s s {}"
  by (simp add: filing_to_def)

lemma filing_to_trans:
  assumes "filing_to r s t gs" "filing_to r t u hs"
  shows "filing_to r s u (gs \<union> hs)"
proof -
  obtain a b c where "obj s r = Some a" "obj t r = Some b" "obj u r = Some c"
    "stored_article.truncate b = stored_article.truncate a" "stored_article.truncate c = stored_article.truncate b"
    "dom (map_of (a_groups b)) = dom (map_of (a_groups a)) \<union> gs"
    "dom (map_of (a_groups c)) = dom (map_of (a_groups b)) \<union> hs"
    using assms unfolding filing_to_def by (elim conjE exE) simp
  then have "\<exists>a c. obj s r = Some a \<and> obj u r = Some c \<and> stored_article.truncate c = stored_article.truncate a
      \<and> dom (map_of (a_groups c)) = dom (map_of (a_groups a)) \<union> (gs \<union> hs)"
    by (intro exI[of _ a] exI[of _ c]) (simp add: Un_assoc)
  then show ?thesis using assms unfolding filing_to_def by (elim conjE, intro conjI) simp_all
qed

lemma file_in_filing:
  assumes "grp s g = Some mg" "obj s r = Some a" "file_in r g (s, nums, parts) = (t, nums', parts')"
  shows "filing_to r s t {g}"
proof -
  let ?n = "g_high (take_number mg)"
  have t: "t = put_obj r (a\<lparr>a_groups := AList.update g ?n (a_groups a)\<rparr>) (set_number g ?n r (put_group g (take_number mg) s))"
    using assms by (simp add: file_in_def Let_def)
  have "takes_articles t = takes_articles s"
    using assms(1) by (auto simp: t takes_articles_def views fun_eq_iff)
  then show ?thesis
    using assms(1,2)
    by (auto simp: filing_to_def t views update_conv stored_article.truncate_def)
qed

lemma fold_filing:
  "obj s r \<noteq> None \<Longrightarrow> \<forall>g \<in> set gs. grp s g \<noteq> None \<Longrightarrow> filing_to r s (fst (fold (file_in r) gs (s, nums, parts))) (set gs)"
proof (induction gs arbitrary: s nums parts)
  case Nil
  then show ?case using filing_to_refl by auto
next
  case (Cons g gs)
  obtain t n' p' where e: "file_in r g (s, nums, parts) = (t, n', p')" by (cases "file_in r g (s, nums, parts)")
  obtain mg a where "grp s g = Some mg" "obj s r = Some a" using Cons.prems by fastforce
  then have f: "filing_to r s t {g}" using file_in_filing e by blast
  then have "obj t r \<noteq> None" "\<forall>g \<in> set gs. grp t g \<noteq> None" using Cons.prems by (auto simp: filing_to_def)
  from filing_to_trans[OF f Cons.IH[OF this]] e show ?case by simp
qed

lemma usable_are_open: "set (usable_groups s gs) = {g \<in> set gs. takes_articles s g}"
  by (auto simp: usable_groups_def takes_articles_def split: option.splits)

lemma post_refines:
  assumes "refs_below s"
  shows "spool_step (Do_Post now n) (spool_of s) = (case store_step (Do_Post now n) s of (t, r) \<Rightarrow> (spool_of t, r))
    \<and> refs_below (fst (store_step (Do_Post now n) s))"
proof -
  let ?m = "n_msgid n" and ?used = "usable_groups s (n_groups n)" and ?r = "m_next_ref s"
  have u: "{g \<in> set (n_groups n). g \<in> sp_open (spool_of s)} = set ?used"
    by (auto simp: usable_are_open)
  show ?thesis
  proof (cases "in_history s ?m \<or> ?used = []")
    case True
    then show ?thesis
      using assms u
      by (auto simp: spool_step_def store_step_def post_article_def Let_def)
  next
    case False
    let ?s1 = "put_obj ?r (fresh_art now n) (s\<lparr>m_next_ref := ?r + 1\<rparr>)"
    obtain s2 nums parts where f: "fold (file_in ?r) ?used (?s1, [], []) = (s2, nums, parts)"
      by (cases "fold (file_in ?r) ?used (?s1, [], [])")
    have g1: "grp ?s1 = grp s" "takes_articles ?s1 = takes_articles s" by (auto simp: views takes_articles_def fun_eq_iff)
    have "\<forall>g \<in> set ?used. grp ?s1 g \<noteq> None"
      unfolding g1 usable_are_open by (auto simp: takes_articles_def split: option.splits)
    then have ft: "filing_to ?r ?s1 s2 (set ?used)"
      using fold_filing[of ?s1 ?r ?used "[]" "[]"] f by (simp add: views)
    then obtain a where a: "obj s2 ?r = Some a" "stored_article.truncate a = stored_article.truncate (fresh_art now n)"
      "dom (map_of (a_groups a)) = set ?used"
      by (auto simp: filing_to_def views)
    have o: "q \<noteq> ?r \<Longrightarrow> obj s2 q = obj s q" for q using ft by (simp add: filing_to_def views)
    have k: "m_arts s2 = m_arts s" "m_history s2 = m_history s" "m_next_ref s2 = ?r + 1" "takes_articles s2 = takes_articles s"
      using ft g1(2) by (simp_all add: filing_to_def views)
    let ?b = "a\<lparr>s_xref := xref_text (n_xref n) parts\<rparr>"
    let ?t = "put_obj ?r ?b s2\<lparr>m_arts := AList.update ?m ?r (m_arts s), m_history := AList.update ?m now (m_history s)\<rparr>"
    have st: "store_step (Do_Post now n) s = (?t, Posted)"
      using False f a(1) k by (auto simp: store_step_def post_article_def Let_def views)
    have ar: "art_ref ?t k = (if k = ?m then Some ?r else art_ref s k)" for k
      by (simp add: art_ref_def update_conv)
    have old: "art_ref s k = Some q \<Longrightarrow> q \<noteq> ?r" for k q using assms by (auto simp: refs_below_def)
    have h: "s_headers ?b = n_headers n" "s_body ?b = n_body n"
      using arg_cong[OF a(2), of s_headers] arg_cong[OF a(2), of s_body]
      by (simp_all add: stored_article.truncate_def fresh_art_def)
    have ot: "obj ?t q = (if q = ?r then Some ?b else obj s q)" for q using o by (simp add: views)
    have bnd: "Option.bind (art_ref ?t k) (obj ?t) = (if k = ?m then Some ?b else Option.bind (art_ref s k) (obj s))" for k
      using old by (cases "art_ref s k") (auto simp: ar ot)
    have "spool_of ?t = (spool_of s)\<lparr>sp_text := (sp_text (spool_of s))(?m \<mapsto> (n_headers n, n_body n)),
        sp_seen := insert ?m (sp_seen (spool_of s)),
        sp_in := (\<lambda>g. if g \<in> set ?used then insert ?m (sp_in (spool_of s) g) else sp_in (spool_of s) g - {?m})\<rparr>"
    proof -
      have "get_by_msgid k ?t = (if k = ?m then Some (numbered_copy 0 ?b) else get_by_msgid k s)" for k
        using bnd[of k] by (simp add: get_by_msgid_def)
      moreover have "{m. in_history ?t m} = insert ?m {m. in_history s m}"
        by (auto simp: in_history_def update_conv)
      moreover have "takes_articles ?t = takes_articles s"
        using k(4) by (simp add: takes_articles_def views fun_eq_iff)
      moreover have "stored_in ?t g = (if g \<in> set ?used then insert ?m (stored_in s g) else stored_in s g - {?m})" for g
        using a(3) unfolding stored_in_def bnd by (auto simp: dom_def)
      ultimately show ?thesis
        by (intro spool_eqI) (simp_all add: h numbered_copy_def stored_article.truncate_def)
    qed
    moreover have "refs_below ?t" using assms k(3) unfolding refs_below_def ar by (auto simp: views intro: less_SucI)
    ultimately show ?thesis
      using False u st by (auto simp: spool_step_def Let_def)
  qed
qed

lemma unfile_open: "takes_articles (fold unfile_from gns s) = takes_articles s"
proof (induction gns arbitrary: s)
  case (Cons gn gns)
  have "g_status (without_number n mg) = g_status mg" for n mg by (simp add: without_number_def Let_def)
  then have "takes_articles (unfile_from gn s) = takes_articles s"
    by (cases gn) (auto simp: unfile_from_def Let_def takes_articles_def views fun_eq_iff split: option.split)
  then show ?case using Cons.IH by simp
qed simp

lemma unfile_rest: "m_history (fold unfile_from gns s) = m_history s \<and> m_next_ref (fold unfile_from gns s) = m_next_ref s"
proof (induction gns arbitrary: s)
  case (Cons gn gns)
  have "m_history (unfile_from gn s) = m_history s \<and> m_next_ref (unfile_from gn s) = m_next_ref s"
    by (cases gn) (auto simp: unfile_from_def Let_def views split: option.split)
  then show ?case using Cons.IH by simp
qed simp

lemma cancel_refines:
  assumes "refs_below s"
  shows "spool_step (Do_Cancel now m) (spool_of s) = (case store_step (Do_Cancel now m) s of (t, r) \<Rightarrow> (spool_of t, r))
    \<and> refs_below (fst (store_step (Do_Cancel now m) s))"
proof -
  let ?s = "s\<lparr>m_history := AList.update m now (m_history s)\<rparr>" and ?t = "fst (cancel_message_id now m s)"
  obtain b where st: "store_step (Do_Cancel now m) s = (?t, Existed b)" "b = snd (cancel_message_id now m s)"
    by (simp add: store_step_def case_prod_beta)
  have c: "takes_articles ?t = takes_articles s \<and> m_history ?t = AList.update m now (m_history s)
      \<and> m_next_ref ?t = m_next_ref s \<and> obj ?t = obj s \<and> (b \<longleftrightarrow> get_by_msgid m s \<noteq> None)
      \<and> (\<forall>k. Option.bind (art_ref ?t k) (obj ?t) = (if k = m then None else Option.bind (art_ref s k) (obj s)))
      \<and> (\<forall>k r. art_ref ?t k = Some r \<longrightarrow> art_ref s k = Some r)"
  proof (cases "Option.bind (art_ref s m) (obj s)")
    case None
    then have "cancel_message_id now m s = (?s, False)" by (simp add: cancel_message_id_def delete_article_def views)
    then show ?thesis using None st(2) by (auto simp: get_by_msgid_def views takes_articles_def fun_eq_iff)
  next
    case (Some a)
    let ?u = "fold unfile_from (a_groups a) ?s"
    have e: "cancel_message_id now m s
        = (?u\<lparr>m_arts := AList.delete m (m_arts ?u), m_feed_q := filter (\<lambda>it. fq_msgid it \<noteq> m) (m_feed_q ?u)\<rparr>, True)"
      using Some by (simp add: cancel_message_id_def delete_article_def views Let_def)
    have a: "m_arts ?t = AList.delete m (m_arts s)" "m_heap ?t = m_heap s"
      using unfile_objects[of "a_groups a" ?s] by (simp_all add: e)
    then have v: "art_ref ?t k = (if k = m then None else art_ref s k)" "obj ?t = obj s" for k
      by (auto simp: art_ref_def obj_def delete_conv fun_eq_iff)
    have "takes_articles ?t = takes_articles ?u" by (simp add: e takes_articles_def views fun_eq_iff)
    moreover have "takes_articles ?s = takes_articles s" by (simp add: takes_articles_def views fun_eq_iff)
    ultimately have "takes_articles ?t = takes_articles s" using unfile_open[of "a_groups a" ?s] by simp
    moreover have "b" "get_by_msgid m s \<noteq> None" using st(2) Some by (simp_all add: e get_by_msgid_def)
    moreover have "m_history ?t = AList.update m now (m_history s)" "m_next_ref ?t = m_next_ref s"
      using unfile_rest[of "a_groups a" ?s] by (simp_all add: e)
    ultimately show ?thesis using v by simp
  qed
  have g: "get_by_msgid k ?t = (if k = m then None else get_by_msgid k s)" for k by (rule cancelled_get)
  have i: "stored_in ?t g = stored_in s g - {m}" for g
  proof -
    have b: "Option.bind (art_ref ?t k) (obj ?t) = (if k = m then None else Option.bind (art_ref s k) (obj s))" for k
      using c by blast
    show ?thesis unfolding stored_in_def b by auto
  qed
  have h: "{k. in_history ?t k} = insert m {k. in_history s k}" using c by (auto simp: in_history_def update_conv)
  have "spool_of ?t = (spool_of s)\<lparr>sp_text := (sp_text (spool_of s))(m := None), sp_seen := insert m (sp_seen (spool_of s)),
      sp_in := (\<lambda>g. sp_in (spool_of s) g - {m})\<rparr>"
    by (intro spool_eqI) (simp_all add: g i h c)
  moreover have "refs_below ?t" using assms c unfolding refs_below_def by metis
  ultimately show ?thesis using st c by (simp add: spool_step_def)
qed

lemma remember_refines:
  assumes "refs_below s"
  shows "spool_step (Do_Remember now m) (spool_of s) = (case store_step (Do_Remember now m) s of (t, r) \<Rightarrow> (spool_of t, r))
    \<and> refs_below (fst (store_step (Do_Remember now m) s))"
proof -
  let ?t = "remember_message_id now m s"
  have v: "art_ref ?t = art_ref s" "obj ?t = obj s" "m_next_ref ?t = m_next_ref s" "grp ?t = grp s"
    by (auto simp: remember_message_id_def views)
  have "{k. in_history ?t k} = insert m {k. in_history s k}"
    by (auto simp: remember_message_id_def in_history_def update_conv)
  moreover have "get_by_msgid k ?t = get_by_msgid k s" "stored_in ?t g = stored_in s g" "takes_articles ?t = takes_articles s" for k g
    by (simp_all add: get_by_msgid_def stored_in_def takes_articles_def fun_eq_iff v)
  ultimately have "spool_of ?t = (spool_of s)\<lparr>sp_seen := insert m (sp_seen (spool_of s))\<rparr>"
    by (intro spool_eqI) simp_all
  moreover have "refs_below ?t" using assms by (simp add: refs_below_def v)
  ultimately show ?thesis by (simp add: spool_step_def store_step_def)
qed

lemma step_refines:
  "refs_below s \<Longrightarrow> spool_step op (spool_of s) = (case store_step op s of (t, r) \<Rightarrow> (spool_of t, r)) \<and> refs_below (fst (store_step op s))"
  using post_refines cancel_refines remember_refines by (cases op) auto



end
