(* ===== verification/Outcomes.thy ===== *)
theory Outcomes
  imports Replies Spool
begin

text \<open>
  What becomes of articles: an accepted article reads back as the server wrote it; POST goes on after
  a refused login; an oversized TAKETHIS and a Supersedes header make a Message-ID unusable; replies
  and overview rows that a client can be misled by.
\<close>

section \<open>What was accepted reads back\<close>

lemma index_of_occurs: "index_of (p @ s @ t) s \<noteq> None"
  by (induction p) (auto simp: index_of_here split: option.splits)

lemma wire_lines_member: "(k, vs) \<in> set hs \<Longrightarrow> v \<in> set vs \<Longrightarrow> (k, v) \<in> set (wire_lines hs)"
  by (cases "list_ex (\<lambda>name. equal_fold k name) wire_order")
    (fastforce simp: wire_lines_def entry_lines_def list_ex_iff)+

lemma first_header_member: "first_header hs n \<noteq> [] \<Longrightarrow> \<exists>k vs. (k, vs) \<in> set hs \<and> vs \<noteq> []"
  by (induction hs n rule: first_header.induct) (auto split: if_splits)

lemma wire_cut: "get_header a n \<noteq> [] \<Longrightarrow> cut (wire a) (CRLF @ CRLF) = (h, b, ok) \<Longrightarrow> wire a = h @ CRLF @ CRLF @ b"
proof -
  assume n: "get_header a n \<noteq> []" and c: "cut (wire a) (CRLF @ CRLF) = (h, b, ok)"
  have "wire_lines (headers a) \<noteq> []"
  proof
    assume w: "wire_lines (headers a) = []"
    obtain k vs where "(k, vs) \<in> set (headers a)" "vs \<noteq> []"
      using first_header_member n unfolding get_header_def by blast
    then show False using wire_lines_member[of k vs "headers a" "hd vs"] w by simp
  qed
  then obtain ls l where "wire_lines (headers a) = ls @ [l]" by (metis rev_exhaust)
  then have "wire a = (concat (map header_text ls) @ fst l @ '': '' @ snd l) @ (CRLF @ CRLF)
      @ (body a @ (if body a \<noteq> [] \<and> \<not> has_suffix (body a) CRLF then CRLF else []))"
    by (simp add: wire_def header_text_def)
  then have "index_of (wire a) (CRLF @ CRLF) \<noteq> None" using index_of_occurs by metis
  then have ok using c by (auto simp: cut_def split: option.splits)
  then show ?thesis using cut_found[of "wire a" "CRLF @ CRLF" h b] c by simp
qed

text \<open>An article that a handler stored and acknowledged.\<close>

lemma stored_reads_back:
  assumes "store_article e now a (wire a) bin x = (y, a', None)" "get_header a ''Message-ID'' = m" "m \<noteq> []"
  shows "\<exists>sa. get_by_msgid m (x_store (note_accepted e now a2 b y)) = Some sa
     \<and> s_headers sa @ CRLF @ CRLF @ s_body sa = wire a \<and> s_msgid sa = m"
proof -
  obtain h bd ok where c: "cut (wire a) (CRLF @ CRLF) = (h, bd, ok)" by (cases "cut (wire a) (CRLF @ CRLF)")
  let ?n = "new_article_of e a (wire a) bin"
  have n: "n_headers ?n = h" "n_body ?n = bd" "n_msgid ?n = m" using c assms(2) by (simp_all add: new_article_of_def)
  obtain s res where p: "post_article now ?n (x_store x) = (s, Inr res)"
      "x_store y = record_content_stats now (stats_event_of e a bin) s"
    using assms(1) by (auto simp: store_article_def Let_def split: prod.splits sum.splits)
  have w: "wire a = h @ CRLF @ CRLF @ bd" using wire_cut[OF _ c, of "''Message-ID''"] assms(2,3) by simp
  show ?thesis
    using post_reads_back[OF p(1)] n w p(2) same_objects_get[OF same_objects_stats] same_objects_get[OF same_objects_note]
    by (auto simp: note_accepted_is)
qed

lemma post_store_accepted:
  assumes "post_store e now a w x = (y, None)" "last (x_out y) = Status 240 t"
  shows "\<exists>x0 x1 a1 b. store_article e now a w b x0 = (x1, a1, None) \<and> x_store y = x_store (note_accepted e now a1 b x1)"
  using assms
  by (auto simp: post_store_def Let_def answer_def split: prod.splits option.splits store_error.splits if_splits) metis

lemma transfer_store_accepted:
  assumes "transfer_store e now m a rc dc oc w x = (y, None)" "last (x_out y) = transfer_reply w oc m t" "oc \<noteq> rc" "oc \<noteq> dc"
  shows "\<exists>x0 x1 a1 b. store_article e now a (wire a) b x0 = (x1, a1, None) \<and> x_store y = x_store (note_accepted e now a1 b x1)"
  using assms
  by (auto simp: transfer_store_def transfer_reply_def Let_def answer_def
      split: prod.splits option.splits store_error.splits if_splits) metis+


definition demo_posting :: article where
  "demo_posting = \<lparr>raw_headers = [], body = ''hi'',
     headers = [(''Newsgroups'', [''a'']), (''Message-ID'', [''<1@x>''])]\<rparr>"


section \<open>POST after a refusal\<close>

text \<open>Where accounts exist and the session is not logged in, POST replies 480 and then goes on as if
  it had not: the reader is asked for the article, which is injected, filtered and stored like any
  other. \<open>requirePostAuth\<close> returns the nil error of the reply it wrote.\<close>

theorem post_without_login_continues:
  assumes "count_users (x_store x) \<noteq> 0" "\<not> x_auth x" "x_ops x = None"
  shows "cmd_post e now x = post_receive e now (send (Status 480 ''Authentication required for POST'') x)"
  using assms
  by (simp add: cmd_post_def require_post_auth_def refuse_accept_def answer_def)

definition demo_accounts :: memory where
  "demo_accounts = new_memory\<lparr>m_users := [(''ann'', demo_user)]\<rparr>"

theorem post_without_login_continues_witness:
  "cmd_post demo_env 5 (demo_session demo_accounts (''.'' @ CRLF))
     = post_receive demo_env 5 (send (Status 480 ''Authentication required for POST'') (demo_session demo_accounts (''.'' @ CRLF)))"
  by (rule post_without_login_continues) (simp_all add: demo_session_def demo_accounts_def count_users_def)

section \<open>TAKETHIS before the gates\<close>

text \<open>A TAKETHIS with an article over the size limit enters its Message-ID into the history before
  any gate is asked: a host that may not transfer at all makes the server refuse that Message-ID
  from every peer from then on.\<close>

theorem oversized_takethis_poisons:
  assumes "read_block e x = (y, Inl Too_Long)" "valid_message_id m" "lm_remember (cf_limits (e_cfg e))"
    and "\<not> inbound_allowed (e_resolve e) (cf_inbound (e_cfg e)) (e_remote e) (peer_ihave_hosts (list_peers (x_store x)))"
    and "begin_transfer e2 431 438 m z = (z, None)" "x_store z = x_store (fst (cmd_takethis e now [v, m] x))"
  shows "cmd_takethis e now [v, m] x
      = answer (Status_Args 439 [m] ''article too large'') (with_store (remember_message_id now m) y)
    \<and> cmd_check e2 [c, m] z = answer (Status_Args 438 [m] ''article not wanted'') z"
proof -
  have "m \<noteq> []" using assms(2) by (auto simp: valid_message_id_def)
  then have t: "cmd_takethis e now [v, m] x
      = answer (Status_Args 439 [m] ''article too large'') (with_store (remember_message_id now m) y)"
    using assms(1-3) by (simp add: cmd_takethis_def remember_reject_def)
  have "has_message_id m (x_store z)"
    unfolding assms(6) t by (simp add: answer_def has_message_id_def remember_message_id_def in_history_def)
  then have "cmd_check e2 [c, m] z = answer (Status_Args 438 [m] ''article not wanted'') z"
    using assms(2,5) by (simp add: cmd_check_def)
  then show ?thesis using t by blast
qed

definition closed_env :: session_env where
  "closed_env = demo_env\<lparr>e_cfg := (fix_config default_config)\<lparr>cf_limits := \<lparr>lm_max_art = 1, lm_idle = 1, lm_cutoff = 0, lm_remember = True\<rparr>,
     cf_inbound := \<lparr>ib_open = Some False, ib_allow = [], ib_require_auth = None\<rparr>\<rparr>\<rparr>"

lemma demo_transfer:
  "m_peers s = [] \<Longrightarrow> begin_transfer demo_env d c m (demo_session s inp) = (demo_session s inp, None)"
  by (simp add: begin_transfer_def demo_session_def demo_env_def inbound_allowed_def inbound_open_def fix_config_def
      default_config_def require_feed_auth_def peer_auth_required_def list_enabled_peers_def
      list_peers_def match_peer_def)

theorem oversized_takethis_poisons_witness:
  "\<exists>z. cmd_check demo_env [''CHECK'', ''<1@x>''] z = answer (Status_Args 438 [''<1@x>''] ''article not wanted'') z"
proof -
  let ?x = "demo_session new_memory (''xx'' @ CRLF @ ''.'' @ CRLF)"
  let ?z = "demo_session (x_store (fst (cmd_takethis closed_env 5 [''TAKETHIS'', ''<1@x>''] ?x))) []"
  have l: "read_line max_line_bytes (''xx'' @ CR # LF # ''.'' @ CRLF) = (Inr ''xx'', ''.'' @ CRLF)"
    "read_line max_line_bytes (''.'' @ CR # LF # []) = (Inr ''.'', [])"
    by (rule read_line_line; simp add: max_line_bytes_def)+
  have r: "read_article 1 (''xx'' @ CRLF @ ''.'' @ CRLF) = (Inl Too_Long, [])"
    using l by (simp add: read_article_def read_article_from.simps[of "Suc 0" "[]"] drain_block.simps[of "DOT # CRLF"] Let_def)
  have m: "valid_message_id ''<1@x>''" by code_simp
  have s: "m_peers (x_store (fst (cmd_takethis closed_env 5 [''TAKETHIS'', ''<1@x>''] ?x))) = []"
    using logins.transfer_commands(3)[of closed_env ?x 5 "[''TAKETHIS'', ''<1@x>'']"]
    by (simp add: login_step_def admin_part_def new_memory_def)
  have b: "begin_transfer demo_env 431 438 ''<1@x>'' ?z = (?z, None)"
    by (rule demo_transfer[OF s])
  have a: "\<not> inbound_allowed (e_resolve closed_env) (cf_inbound (e_cfg closed_env)) (e_remote closed_env)
      (peer_ihave_hosts (list_peers (x_store ?x)))"
    by (simp add: inbound_allowed_def inbound_open_def closed_env_def effective_rules_def peer_ihave_hosts_def
        list_peers_def new_memory_def)
  have rb: "read_block closed_env ?x = (?x\<lparr>x_in := []\<rparr>, Inl Too_Long)"
    using r by (simp add: read_block_def closed_env_def demo_session_def)
  have k: "lm_remember (cf_limits (e_cfg closed_env))" by (simp add: closed_env_def)
  show ?thesis
    by (rule exI[of _ ?z], rule conjunct2[OF oversized_takethis_poisons[OF rb m k a b demo_session_store]])
qed

section \<open>Supersedes\<close>

text \<open>An article with a Supersedes header is taken for a cancel: the article it replaces is deleted,
  the new one is acknowledged to the peer as transferred but is not stored, and as its Message-ID is
  remembered no peer can deliver it again.\<close>

theorem superseding_article_lost:
  assumes "parse_article raw = Inr a0" "inject_for_ihave ((post_opts e)\<lparr>organization := []\<rparr>) a0 = (a, None)"
    and "transfer_refusal e now m a x = None" "\<not> groups_unwanted (newsgroups a) (x_store x)"
    and "cancel_target a = []" "supersedes_target a = old" "old \<noteq> []"
    and "get_by_msgid (get_header a ''Message-ID'') (x_store x) = None"
  shows "let y = fst (accept_peer_article e now m raw rc dc oc w x) in
    x_out y = x_out x @ [transfer_reply w oc m (''cancel transferred '' @ m)]
    \<and> get_by_msgid old (x_store y) = None \<and> get_by_msgid (get_header a ''Message-ID'') (x_store y) = None
    \<and> has_message_id (get_header a ''Message-ID'') (x_store y)"
proof -
  let ?m = "get_header a ''Message-ID''"
  let ?s = "remember_message_id now ?m (fst (cancel_message_id now old (x_store x)))"
  have h: "handle_control e now a x = (with_store (\<lambda>s. remember_message_id now ?m (fst (cancel_message_id now old s))) x, True)"
    using assms(5-7) by (simp add: handle_control_def cancel_of_def)
  have g: "get_by_msgid k (remember_message_id now ?m s) = get_by_msgid k s" for k s
    by (auto simp: remember_message_id_def get_by_msgid_def views)
  have "has_message_id ?m ?s" by (simp add: has_message_id_def remember_message_id_def in_history_def)
  then show ?thesis
    using assms(8) by (simp add: accept_peer_article_def assms(1-4) h answer_def g cancelled_get Let_def)
qed

definition superseding_text :: string where
  "superseding_text = concat (map (\<lambda>l. l @ CRLF) [''From: f'', ''Newsgroups: a'', ''Subject: s'', ''Date: d'',
     ''Message-ID: <2@x>'', ''Path: p'', ''Supersedes: <1@x>'', [], ''hi''])"

lemma demo_accepts:
  "m_peers s = [] \<Longrightarrow> equal_fold (get_header a ''Message-ID'') m \<Longrightarrow>
   transfer_refusal demo_env now m a (demo_session s inp) = None"
  by (simp add: transfer_refusal_def filter_verdict_def cleanfeed_check_def no_verdict_def demo_env_def fix_config_def
      default_config_def fix_cleanfeed_def article_too_old_def too_old_def match_inbound_peer_def list_peers_def
      demo_session_def peer_subscribes_def Let_def)

theorem superseding_article_lost_witness:
  "\<exists>y :: session. has_message_id ''<2@x>'' (x_store y) \<and> get_by_msgid ''<2@x>'' (x_store y) = None \<and> get_by_msgid ''<1@x>'' (x_store y) = None
     \<and> last (x_out y) = Status 235 ''cancel transferred <2@x>''"
proof -
  let ?opt = "\<lparr>pathhost = [], hostname = ''news.localhost'', organization = [], io_now = zero_time\<rparr>"
  let ?x = "demo_session new_memory []"
  obtain a0 where p: "parse_article superseding_text = Inr a0"
    "case inject_for_ihave ?opt a0 of (a, e) \<Rightarrow> e = None \<and> cancel_target a = []
       \<and> supersedes_target a = ''<1@x>'' \<and> get_header a ''Message-ID'' = ''<2@x>'' \<and> newsgroups a = [''a'']"
  proof -
    have "case parse_article superseding_text of Inl _ \<Rightarrow> False | Inr a0 \<Rightarrow> (case inject_for_ihave ?opt a0 of (a, e) \<Rightarrow>
      e = None \<and> cancel_target a = [] \<and> supersedes_target a = ''<1@x>'' \<and> get_header a ''Message-ID'' = ''<2@x>''
      \<and> newsgroups a = [''a''])" by code_simp
    then show thesis using that by (auto split: sum.splits)
  qed
  have o: "(post_opts demo_env)\<lparr>organization := []\<rparr> = ?opt"
    by (simp add: post_opts_def demo_env_def fix_config_def default_config_def)
  obtain a where a: "inject_for_ihave ((post_opts demo_env)\<lparr>organization := []\<rparr>) a0 = (a, None)" "cancel_target a = []"
    "supersedes_target a = ''<1@x>''" "get_header a ''Message-ID'' = ''<2@x>''" "newsgroups a = [''a'']"
    using p(2) unfolding o by (cases "inject_for_ihave ?opt a0") simp
  have r: "transfer_refusal demo_env 5 ''<2@x>'' a ?x = None"
    using a(4) by (intro demo_accepts) (simp_all add: new_memory_def equal_fold_def)
  have u: "\<not> groups_unwanted (newsgroups a) (x_store ?x)"
    using a(5) by (simp add: groups_unwanted_def new_memory_def get_group_def grp_def group_matches_def list_group_bans_def)
  have n: "get_by_msgid (get_header a ''Message-ID'') (x_store ?x) = None"
    by (simp add: get_by_msgid_def art_ref_def new_memory_def)
  have h: "let y = fst (accept_peer_article demo_env 5 ''<2@x>'' superseding_text 437 436 235 False ?x) in
      x_out y = x_out ?x @ [transfer_reply False 235 ''<2@x>'' (''cancel transferred '' @ ''<2@x>'')]
      \<and> get_by_msgid ''<1@x>'' (x_store y) = None \<and> get_by_msgid (get_header a ''Message-ID'') (x_store y) = None
      \<and> has_message_id (get_header a ''Message-ID'') (x_store y)"
    by (rule superseding_article_lost[OF p(1) a(1) r u a(2,3) _ n]) simp
  let ?y = "fst (accept_peer_article demo_env 5 ''<2@x>'' superseding_text 437 436 235 False ?x)"
  have "has_message_id ''<2@x>'' (x_store ?y)" "get_by_msgid ''<2@x>'' (x_store ?y) = None"
    "get_by_msgid ''<1@x>'' (x_store ?y) = None" "last (x_out ?y) = Status 235 ''cancel transferred <2@x>''"
    using h a(4) by (simp_all add: Let_def transfer_reply_def)
  then show ?thesis by (intro exI conjI)
qed

section \<open>Replies that are not one line\<close>

text \<open>The reason of the external filter goes to the client as it is, and the code takes it from all
  of the filter's standard error: a second line of it arrives as a reply of its own, so the client
  takes it for the answer to its next command.\<close>

theorem filter_reason_splits_reply:
  assumes "filter_verdict e w = \<lparr>vd_reject = True, vd_audit = au, vd_reason = r1 @ LF # r2\<rparr>"
    and "length r1 < 500" "LF \<notin> set r1" "CR \<notin> set r1"
  shows "x_out (fst (filter_article e now w 441 m x)) = x_out x @ [Status 441 (r1 @ LF # r2)]
    \<and> read_reply (render (Status 441 (r1 @ LF # r2))) = (Inr (441, ''441 '' @ r1), r2 @ CRLF)"
proof -
  have f: "format_int 441 = ''441''" by code_simp
  have l: "LF \<notin> set l \<Longrightarrow> last (CHR ''0'' # l) \<noteq> CR \<Longrightarrow> length buf + length l + 1 \<le> n \<Longrightarrow>
      read_line_from n buf (l @ LF # s) = (Inr (strip_cr (rev buf @ l)), s)" for l buf n s
    by (induction l arbitrary: buf) (auto split: if_splits)
  have "read_line 512 ((''441 '' @ r1) @ LF # r2 @ CRLF) = (Inr (strip_cr (rev [] @ ''441 '' @ r1)), r2 @ CRLF)"
    unfolding read_line_def using assms(2-4) by (intro l) (auto simp: last_append dest: last_in_set)
  moreover have "strip_cr (''441 '' @ r1) = ''441 '' @ r1"
    using assms(4) by (auto simp: strip_cr_def last_append dest: last_in_set split: if_splits)
  ultimately have "read_line max_command (render (Status 441 (r1 @ LF # r2))) = (Inr (''441 '' @ r1), r2 @ CRLF)"
    using f by (simp add: reply_text_def max_command_def)
  then have "read_reply (render (Status 441 (r1 @ LF # r2))) = (Inr (441, ''441 '' @ r1), r2 @ CRLF)"
    by (simp add: read_reply_def reply_code_def is_digit_def)
  then show ?thesis using assms(1) by (simp add: filter_article_def answer_def)
qed

definition filtering_env :: session_env where
  "filtering_env = demo_env\<lparr>e_cfg := default_config\<lparr>cf_cleanfeed :=
       \<lparr>cl_enabled = True, cl_mode = ''reject'', cl_command = [], cl_script = [], cl_dir = []\<rparr>\<rparr>,
     e_filter_command := ''f'', e_filter := (\<lambda>c w. Some (''spam'' @ LF # ''240 ok''))\<rparr>"

theorem filter_reason_splits_reply_witness:
  "read_reply (render (Status 441 (''spam'' @ LF # ''240 ok''))) = (Inr (441, ''441 spam''), ''240 ok'' @ CRLF)"
proof -
  have f: "str_fields ''f'' \<noteq> []" "equal_fold (trim_space ''reject'') ''reject''" by code_simp+
  have v: "filter_verdict filtering_env [] = \<lparr>vd_reject = True, vd_audit = False, vd_reason = ''spam'' @ LF # ''240 ok''\<rparr>"
    using f by (simp add: filter_verdict_def filtering_env_def cleanfeed_check_def run_external_def Let_def
        apply_filter_mode_def cleanfeed_reject_def)
  show ?thesis using filter_reason_splits_reply[OF v] by simp
qed

section \<open>Every command but POST\<close>

text \<open>C5: every command other than POST gets exactly one final reply, on every path, errors included;
  the only exception is a client that breaks off inside an article, which ends the connection.\<close>

theorem one_final_reply:
  assumes "\<not> posts line"
  shows "\<exists>rs. x_out (fst (after_command (dispatch e now line x))) = x_out x @ rs
    \<and> length (filter final rs) = (if snd (after_command (dispatch e now line x)) then 1 else 0)"
proof -
  obtain y f rs where d: "dispatch e now line x = (y, f)" "x_out y = x_out x @ rs"
    "length (filter final rs) = (case f of None \<Rightarrow> 1 | Some Replied \<Rightarrow> 1 | Some _ \<Rightarrow> 0)"
    using dispatch_once[OF assms, of x e now] by (cases "dispatch e now line x") (auto simp: once_def)
  then show ?thesis
    by (auto simp: after_command_def split: option.splits fault.splits io_error.splits)
qed

theorem one_final_reply_witness:
  "\<exists>rs. x_out (fst (after_command (dispatch demo_env 5 ''IHAVE <1@x>'' (demo_session new_memory (''.'' @ CRLF))))) = rs
     \<and> length (filter final rs) \<le> 1"
proof -
  have "\<not> posts ''IHAVE <1@x>''" by code_simp
  from one_final_reply[OF this, of demo_env 5 "demo_session new_memory (''.'' @ CRLF)"]
  show ?thesis by (auto simp: demo_session_def split: if_splits)
qed

section \<open>OVER by range\<close>

text \<open>A row of OVER by range is written without the sanitizing that OVER by Message-ID applies: a TAB
  in the subject moves every later column, and what follows it is read as the From column.\<close>

theorem over_row_forged:
  assumes "o_subject r = s1 @ TAB # s2" "TAB \<notin> set s1" "TAB \<notin> set s2"
  shows "take 3 (split_on TAB (overview_row_line r)) = [format_int (o_num r), s1, s2]"
proof -
  have n: "TAB \<notin> set (format_int (o_num r))" using format_int_no_control by blast
  show ?thesis
    using n assms by (simp add: overview_row_line_def split_on_append numeral_3_eq_3)
qed

theorem over_row_forged_witness:
  "take 3 (split_on TAB (overview_row_line ((overview_of 1 (fresh_art 0 (demo_article ''<1@x>'' [])))\<lparr>o_subject := ''Hi'' @ TAB # ''boss@x''\<rparr>)))
     = [format_int 1, ''Hi'', ''boss@x'']"
  by (subst over_row_forged[of _ "''Hi''" "''boss@x''"]) (simp_all add: overview_of_def)

end
