(* ===== verification/Mbox.thy ===== *)
theory Mbox
  imports Article
begin

text \<open>
  The archive in mbox format, \<open>internal/archive/mbox.go\<close> and \<open>mbox_read.go\<close>: the file of a newsgroup,
  appending an article, removing articles of purged groups, and reading the messages of a file. The
  file system is a map from paths to contents; its operations succeed. The clock is an argument.
\<close>

section \<open>Paths\<close>

text \<open>\<open>filepath.Clean\<close> and \<open>filepath.Join\<close> on Unix. \<open>clean_step\<close> adds one element to the cleaned
  elements before it, last element first.\<close>

definition clean_step :: "bool \<Rightarrow> string \<Rightarrow> string list \<Rightarrow> string list" where
  "clean_step rooted e acc =
     (if e = [] \<or> e = ''.'' then acc
      else if e = ''..'' then
        (case acc of [] \<Rightarrow> if rooted then [] else [e]
         | d # ds \<Rightarrow> if d = ''..'' then e # acc else ds)
      else e # acc)"

definition clean_path :: "string \<Rightarrow> string" where
  "clean_path p =
     (let rooted = has_prefix p ''/'';
          es = rev (fold (clean_step rooted) (split_on CHR ''/'' p) []);
          out = join ''/'' es
      in if rooted then CHR ''/'' # out else if es = [] then ''.'' else out)"

definition join_path :: "string list \<Rightarrow> string" where
  "join_path ps = (case filter (\<lambda>p. p \<noteq> []) ps of [] \<Rightarrow> [] | qs \<Rightarrow> clean_path (join ''/'' qs))"

definition path_for :: "string \<Rightarrow> string \<Rightarrow> string" where
  "path_for root g =
     (let safe = replace_all g ''/'' ''.''; parts = split_on DOT safe in
      if length parts = 1 then join_path [root, safe @ ''.mbox'']
      else join_path [join_path (root # butlast parts), last parts @ ''.mbox''])"

section \<open>Appending\<close>

text \<open>\<open>strings.Fields(from)[0]\<close> panics on a From of white space only: None.\<close>

definition mbox_sender :: "string \<Rightarrow> string option" where
  "mbox_sender from =
     (case index_of from ''<'' of
        Some i \<Rightarrow>
          (case index_of (drop i from) ''>'' of
             Some j \<Rightarrow> Some (if j > 0 then drop (i + 1) (take (i + j) from) else ''MAILER-DAEMON'')
           | None \<Rightarrow> Some ''MAILER-DAEMON'')
      | None \<Rightarrow>
          if from = [] then Some ''MAILER-DAEMON''
          else (case str_fields from of [] \<Rightarrow> None | f # fs \<Rightarrow> Some f))"

definition mbox_envelope :: "article \<Rightarrow> int \<Rightarrow> string option" where
  "mbox_envelope a now =
     map_option
       (\<lambda>addr0. let addr = replace_all addr0 '' '' [] in
          ''From '' @ (if addr = [] then ''MAILER-DAEMON'' else addr) @ '' '' @ format_ansic now)
       (mbox_sender (get_header a ''From''))"

definition escape_from :: "string \<Rightarrow> string" where
  "escape_from l = (if has_prefix l ''From '' then CHR ''>'' # l else l)"

definition mbox_text :: "string \<Rightarrow> string \<Rightarrow> string" where
  "mbox_text env w =
     (let b = env @ [LF]
            @ concat (map (\<lambda>l. escape_from l @ [LF]) (split_on LF (replace_all w CRLF [LF])))
      in if has_suffix b [LF, LF] then b else b @ [LF])"

type_synonym file_system = "(string \<times> string) list"

definition file_text :: "file_system \<Rightarrow> string \<Rightarrow> string" where
  "file_text fs p = (case map_of fs p of None \<Rightarrow> [] | Some t \<Rightarrow> t)"

text \<open>The result is the offset and the length; None is the panic of the envelope.\<close>

definition mbox_append :: "string \<Rightarrow> string \<Rightarrow> article \<Rightarrow> int \<Rightarrow> file_system \<Rightarrow> (file_system \<times> nat \<times> nat) option" where
  "mbox_append root g a now fs =
     map_option
       (\<lambda>env. let p = path_for root g; old = file_text fs p; b = mbox_text env (wire a) in
          (AList.update p (old @ b) fs, length old, length b))
       (mbox_envelope a now)"

section \<open>Scrubbing\<close>

text \<open>\<open>strings.SplitAfter\<close> with a separator of one byte.\<close>

fun split_after :: "char \<Rightarrow> string \<Rightarrow> string list" where
  "split_after c [] = [[]]"
| "split_after c (x # xs) =
     (if x = c then [x] # split_after c xs
      else (case split_after c xs of [] \<Rightarrow> [[x]] | y # ys \<Rightarrow> (x # y) # ys))"

definition id_line :: "(string \<Rightarrow> bool) \<Rightarrow> string \<Rightarrow> bool" where
  "id_line drp line = (has_prefix (to_lower line) ''message-id:'' \<and> drp (trim_space (drop 11 line)))"

definition message_dropped :: "string \<Rightarrow> string list \<Rightarrow> bool" where
  "message_dropped msg drp = list_ex (id_line (\<lambda>m. m \<in> set drp)) (split_on LF msg)"

definition keep_message :: "string list \<Rightarrow> string \<Rightarrow> string list" where
  "keep_message drp msg = (if msg = [] \<or> message_dropped msg drp then [] else [msg])"

fun rewrite_lines :: "string list \<Rightarrow> string list \<Rightarrow> string \<Rightarrow> string list" where
  "rewrite_lines drp [] cur = keep_message drp cur"
| "rewrite_lines drp (l # ls) cur =
     (if has_prefix l ''From '' \<and> cur \<noteq> [] then keep_message drp cur @ rewrite_lines drp ls l
      else rewrite_lines drp ls (cur @ l))"

definition end_line :: "string \<Rightarrow> string" where
  "end_line msg = (if has_suffix msg [LF] then msg else msg @ [LF])"

definition rewrite_text :: "string list \<Rightarrow> string \<Rightarrow> string" where
  "rewrite_text drp b = concat (map end_line (rewrite_lines drp (split_after LF b) []))"

definition rewrite_mbox :: "string list \<Rightarrow> string \<Rightarrow> file_system \<Rightarrow> file_system" where
  "rewrite_mbox drp p fs =
     (case map_of fs p of None \<Rightarrow> fs | Some b \<Rightarrow> AList.update p (rewrite_text drp b) fs)"

definition scrub :: "string \<Rightarrow> string list \<Rightarrow> string list \<Rightarrow> string list \<Rightarrow> file_system \<Rightarrow> file_system" where
  "scrub root drop_groups rewrite_groups msgids fs =
     (if root = [] \<or> drop_groups = [] \<and> msgids = [] then fs
      else
        let fs1 = fold (\<lambda>g. AList.delete (path_for root g)) drop_groups fs in
        if msgids = [] then fs1
        else fold (\<lambda>g. rewrite_mbox msgids (path_for root g)) rewrite_groups fs1)"

section \<open>Reading\<close>

text \<open>The lines \<open>ReadBytes\<close> returns, line ends included; the last one may have none.\<close>

definition read_lines :: "string \<Rightarrow> string list" where
  "read_lines s = filter (\<lambda>l. l \<noteq> []) (split_after LF s)"

definition unix_line :: "string \<Rightarrow> string" where
  "unix_line l = (if has_suffix l CRLF then take (length l - 2) l @ [LF] else l)"

definition is_from_separator :: "string \<Rightarrow> bool" where
  "is_from_separator l = has_prefix (trim_right l [LF]) ''From ''"

definition unescape_from :: "string \<Rightarrow> string" where
  "unescape_from l = (if has_prefix l ''>From '' then tl l else l)"

definition flush_message :: "string \<Rightarrow> string list" where
  "flush_message cur =
     (let raw = trim_right cur [LF] in if trim_space raw = [] then [] else [raw])"

text \<open>The messages in the order in which the callback gets them. None: no separator seen yet.\<close>

fun read_loop :: "string list \<Rightarrow> string option \<Rightarrow> string list" where
  "read_loop [] st = (case st of None \<Rightarrow> [] | Some cur \<Rightarrow> flush_message cur)"
| "read_loop (line # ls) st =
     (let l = unix_line line in
      if is_from_separator l then
        (case st of None \<Rightarrow> [] | Some cur \<Rightarrow> flush_message cur) @ read_loop ls (Some [])
      else read_loop ls (map_option (\<lambda>cur. cur @ unescape_from l) st))"

definition mbox_messages :: "string \<Rightarrow> string list" where
  "mbox_messages s = read_loop (read_lines s) None"

definition group_from_mbox_path :: "string \<Rightarrow> string" where
  "group_from_mbox_path path =
     (let base = rev (takeWhile (\<lambda>c. c \<noteq> CHR ''/'' \<and> c \<noteq> CHR 0x5C) (rev path))
      in trim_space (trim_suffix (trim_suffix base ''.gz'') ''.mbox''))"

section \<open>Dates\<close>

text \<open>The month computed from a day number is a month; so a formatted date is one line of text.\<close>

lemma century_of_era:
  fixes z :: int
  assumes zb: "36524 * b \<le> z" "z < 36524 * b + 36524" and za: "1460 * a \<le> z" "z < 1460 * a + 1460"
    and yz: "z - a + b = 365 * y + e" and e: "0 \<le> e" "e \<le> 364" and b: "b = 0 \<or> b = 1 \<or> b = 2 \<or> b = 3"
  shows "100 * b \<le> y \<and> y < 100 * b + 100"
proof -
  have l: "36499 * b \<le> z - a" using b zb(1) za(1) by (elim disjE; hypsubst; linarith)
  have u: "z - a \<le> 36498 * b + 36498 + b" using b zb(2) za(2) by (elim disjE; hypsubst; linarith)
  show ?thesis using l u yz e b by (elim disjE; hypsubst; linarith)
qed

lemma year_of_era:
  fixes z :: int
  assumes z: "0 \<le> z" "z < 146097" and a: "a = z div 1460" and b: "b = z div 36524" and c: "c = z div 146096"
    and y: "y = (z - a + b - c) div 365"
  shows "0 \<le> z - (365 * y + y div 4 - y div 100) \<and> z - (365 * y + y div 4 - y div 100) \<le> 366"
proof (cases "z = 146096")
  case True
  then show ?thesis by (simp add: a b c y)
next
  case False
  define p s q e where "p = y div 4" and "s = y mod 4" and "q = y div 100" and "e = (z - a + b - c) mod 365"
  have e: "0 \<le> e" "e \<le> 364" and s: "0 \<le> s" "s \<le> 3" by (simp_all add: e_def s_def)
  have c0: "c = 0" using False z by (auto simp: c)
  have yz: "z - a + b = 365 * y + e" using c0 by (simp add: y e_def)
  have yp: "y = 4 * p + s" by (simp add: p_def s_def)
  have za: "1460 * a \<le> z" "z < 1460 * a + 1460" by (simp_all add: a)
  have zb: "36524 * b \<le> z" "z < 36524 * b + 36524" by (simp_all add: b)
  have "0 \<le> b" "b < 4" using False z zb by linarith+
  then have "b = 0 \<or> b = 1 \<or> b = 2 \<or> b = 3" by linarith
  from century_of_era[OF zb za yz e this] have y100: "100 * b \<le> y" "y < 100 * b + 100" by blast+
  then have q: "q = b" unfolding q_def by (intro int_div_pos_eq[of y 100 b "y - 100 * b"]) auto
  have up: "a \<le> p + 1" using yz yp za(1) s e \<open>0 \<le> b\<close> \<open>b < 4\<close> y100 by linarith
  have lo: "p \<le> a"
  proof (cases "p \<le> 0")
    case True
    then show ?thesis using za z by linarith
  next
    case False
    then have "b \<le> p - 1" using y100 yp s \<open>0 \<le> b\<close> by linarith
    then show ?thesis using yz yp za(2) s e by linarith
  qed
  show ?thesis unfolding p_def[symmetric] q_def[symmetric] using q yz up lo e by linarith
qed

lemma civil_month: "civil d = (y, m, k) \<Longrightarrow> 1 \<le> m \<and> m \<le> 12"
proof -
  assume d: "civil d = (y, m, k)"
  define z where "z = (d + 719468) mod 146097"
  define n where "n = (z - z div 1460 + z div 36524 - z div 146096) div 365"
  define j where "j = z - (365 * n + n div 4 - n div 100)"
  define mp where "mp = (5 * j + 2) div 153"
  have "0 \<le> j \<and> j \<le> 366"
    unfolding j_def n_def by (rule year_of_era[OF _ _ refl refl refl refl]) (simp_all add: z_def)
  then have "0 \<le> mp" "mp < 12" unfolding mp_def by linarith+
  moreover have "m = (if mp < 10 then mp + 3 else mp - 9)"
    using d unfolding civil_def Let_def z_def[symmetric] n_def[symmetric] j_def[symmetric] mp_def[symmetric]
    by (simp only: prod.inject)
  ultimately show ?thesis by auto
qed

lemma pad_plain: "plain [c] \<Longrightarrow> plain (pad c w n)"
  by (auto simp: pad_def Let_def dest: format_int_no_control)
lemma weekday_plain: "plain (weekday_name d)"
proof -
  have "nat ((d + 4) mod 7) \<in> set [0..<7]" by auto
  then show ?thesis unfolding weekday_name_def by (auto simp: upt_rec numeral_eq_Suc)
qed
lemma month_plain: "1 \<le> m \<Longrightarrow> m \<le> 12 \<Longrightarrow> plain (month_name m)"
proof -
  assume "1 \<le> m" "m \<le> 12"
  then have "nat (m - 1) \<in> set [0..<12]" by auto
  then show ?thesis unfolding month_name_def by (auto simp: upt_rec numeral_eq_Suc)
qed
lemma format_ansic_plain: "plain (format_ansic t)"
proof -
  obtain y m d where c: "civil (day_of t) = (y, m, d)" by (metis prod_cases3)
  obtain h i s where k: "clock_of t = (h, i, s)" by (metis prod_cases3)
  show ?thesis using civil_month[OF c] weekday_plain[of "day_of t"] month_plain[of m] pad_plain[of SP 2 d] pad_plain[of "CHR ''0''"]
    by (simp add: format_ansic_def c hms_def k)
qed

section \<open>Lines\<close>

definition unlines :: "string list \<Rightarrow> string" where
  "unlines ls = concat (map (\<lambda>l. l @ [LF]) ls)"

lemma unlines_simps [simp]: "unlines [] = []" "unlines (l # ls) = l @ LF # unlines ls"
  "unlines (ks @ ls) = unlines ks @ unlines ls"
  by (simp_all add: unlines_def)

lemma unlines_split_on: "unlines (split_on LF u) = u @ [LF]"
  using join_line_ends[of "split_on LF u" "[LF]"] join_split_on[of LF u] by (simp add: unlines_def)

lemma split_after_line: "LF \<notin> set l \<Longrightarrow> split_after LF (l @ LF # s) = (l @ [LF]) # split_after LF s"
  by (induction l) auto

lemma split_after_unlines:
  "(\<forall>l \<in> set ls. LF \<notin> set l) \<Longrightarrow> split_after LF (unlines ls @ s) = map (\<lambda>l. l @ [LF]) ls @ split_after LF s"
  by (induction ls) (auto simp: split_after_line)

lemma split_on_unlines:
  "(\<forall>l \<in> set ls. LF \<notin> set l) \<Longrightarrow> split_on LF (unlines ls @ s) = ls @ split_on LF s"
  by (induction ls) (auto simp: split_on_append)

lemma has_prefix_snoc: "x \<notin> set p \<Longrightarrow> has_prefix (l @ [x]) p = has_prefix l p"
proof (induction l arbitrary: p)
  case Nil then show ?case by (cases p) auto
next
  case (Cons a l) then show ?case by (cases p) auto
qed

lemma trim_right_none: "x \<notin> set l \<Longrightarrow> trim_right l [x] = l"
proof -
  assume "x \<notin> set l"
  then have "dropWhile (\<lambda>c. c \<in> set [x]) (rev l) = rev l"
    by (cases "rev l") (auto simp: rev_eq_Cons_iff)
  then show ?thesis by (simp add: trim_right_def)
qed

lemma trim_right_snoc: "x \<in> set cs \<Longrightarrow> trim_right (l @ [x]) cs = trim_right l cs"
  by (simp add: trim_right_def)

lemma has_suffix_snoc: "has_suffix (l @ [x]) (p @ [y]) \<longleftrightarrow> x = y \<and> has_suffix l p"
  by (simp add: has_suffix_def)

section \<open>What is written\<close>

text \<open>The text of an article in Unix lines. Its entry is these lines, escaped, after the envelope and
  before at most one blank line.\<close>

definition unix_text :: "article \<Rightarrow> string" where
  "unix_text a = replace_all (wire a) CRLF [LF]"

definition entry_lines_of :: "string \<Rightarrow> string list \<Rightarrow> string \<Rightarrow> string list" where
  "entry_lines_of env extra u = env # map escape_from (split_on LF u) @ extra"

lemma mbox_text_lines:
  obtains extra where "extra = [] \<or> extra = [[]]" "mbox_text env (wire a) = unlines (entry_lines_of env extra (unix_text a))"
proof -
  have "mbox_text env (wire a) = unlines (entry_lines_of env [] (unix_text a))
    \<or> mbox_text env (wire a) = unlines (entry_lines_of env [[]] (unix_text a))"
    by (auto simp: mbox_text_def entry_lines_of_def unix_text_def unlines_def comp_def Let_def)
  then show thesis using that by blast
qed

lemma entry_lines_LF: "LF \<notin> set env \<Longrightarrow> extra = [] \<or> extra = [[]] \<Longrightarrow> l \<in> set (entry_lines_of env extra u) \<Longrightarrow> LF \<notin> set l"
  by (auto simp: entry_lines_of_def escape_from_def dest: split_on_no_sep)

lemma envelope_plain:
  assumes "mbox_envelope a now = Some env" "plain (get_header a ''From'')"
  shows "plain env \<and> has_prefix env ''From ''"
proof -
  obtain addr where addr: "mbox_sender (get_header a ''From'') = Some addr"
    and env: "env = ''From '' @ (if replace_all addr '' '' [] = [] then ''MAILER-DAEMON'' else replace_all addr '' '' []) @ '' '' @ format_ansic now"
    using assms(1) by (auto simp: mbox_envelope_def Let_def)
  have "plain addr"
    using addr assms(2) fields_visible[of addr "get_header a ''From''"]
    by (auto simp: mbox_sender_def has_space_def list_ex_iff ascii_space_def
        split: option.splits if_splits list.splits dest!: in_set_dropD in_set_takeD)
  then have "plain (replace_all addr '' '' [])" by (auto simp: replace_char split: if_splits)
  then show ?thesis using env format_ansic_plain by auto
qed

text \<open>Append panics on no article that has passed injection: its From is not blank.\<close>

lemma fields_from_pending: "cur \<noteq> [] \<Longrightarrow> fields_from cur s \<noteq> []"
  by (induction cur s rule: fields_from.induct) auto

lemma fields_blank: "fields_from cur s = [] \<Longrightarrow> cur = [] \<Longrightarrow> trim_by space_len s = []"
proof (induction cur s rule: fields_from.induct)
  case (1 cur)
  then show ?case by (simp add: trim_by.simps)
next
  case (2 cur a s)
  then have n: "space_len (a # s) \<noteq> 0" using fields_from_pending[of "[a]" s] by (auto simp del: space_len.simps split: if_splits)
  then have "trim_by space_len (drop (space_len (a # s)) (a # s)) = []"
    using 2 by (simp del: space_len.simps)
  then show ?case using n by (subst trim_by.simps) (simp del: space_len.simps)
qed

lemma envelope_total: "trim_space (get_header a ''From'') \<noteq> [] \<Longrightarrow> mbox_envelope a now \<noteq> None"
  using fields_blank[of "[]" "get_header a ''From''"]
  by (auto simp: mbox_envelope_def mbox_sender_def trim_space_def trim_left_space_def str_fields_def
      trim_right_space_def trim_by.simps[of space_len_rev "[]"] split: option.splits list.splits)

section \<open>What is read back\<close>

definition text_ok :: "string \<Rightarrow> bool" where
  "text_ok u \<longleftrightarrow> CR \<notin> set u \<and> list_all (\<lambda>l. \<not> has_prefix l ''>From '') (split_on LF u)
     \<and> trim_space (trim_right u [LF]) \<noteq> []"

definition mbox_ok :: "article \<Rightarrow> bool" where
  "mbox_ok a \<longleftrightarrow> plain (get_header a ''From'') \<and> trim_space (get_header a ''From'') \<noteq> [] \<and> text_ok (unix_text a)"

lemma unix_line_plain: "plain l \<Longrightarrow> unix_line (l @ [LF]) = l @ [LF]"
  by (cases l rule: rev_cases) (auto simp: unix_line_def has_suffix_def)

lemma separator_line: "plain l \<Longrightarrow> is_from_separator (l @ [LF]) = has_prefix l ''From ''"
  by (simp add: is_from_separator_def trim_right_snoc trim_right_none)

lemma unescape_line: "unescape_from (l @ [LF]) = unescape_from l @ [LF]"
  using has_prefix_snoc[of LF "''>From ''" l] by (cases l) (auto simp: unescape_from_def)

lemma escape_no_separator: "\<not> has_prefix (escape_from l) ''From ''"
  by (simp add: escape_from_def)

lemma unescape_escape: "\<not> has_prefix l ''>From '' \<Longrightarrow> unescape_from (escape_from l) = l"
  by (auto simp: escape_from_def unescape_from_def)

lemma unescape_no_prefix: "unescape_from [] = []"
  by (simp add: unescape_from_def)

lemma read_loop_body:
  "(\<forall>l \<in> set ls. plain l \<and> \<not> has_prefix l ''From '') \<Longrightarrow>
   read_loop (map (\<lambda>l. l @ [LF]) ls @ rest) (Some cur) = read_loop rest (Some (cur @ unlines (map unescape_from ls)))"
  by (induction ls arbitrary: cur) (simp_all add: unix_line_plain separator_line unescape_line)

abbreviation flush_opt :: "string option \<Rightarrow> string list" where
  "flush_opt st \<equiv> (case st of None \<Rightarrow> [] | Some cur \<Rightarrow> flush_message cur)"

lemma escaped_lines:
  assumes "CR \<notin> set u" "extra = [] \<or> extra = [[]]" "l \<in> set (map escape_from (split_on LF u) @ extra)"
  shows "plain l \<and> \<not> has_prefix l ''From ''"
proof -
  have "plain k" if "k \<in> set (split_on LF u)" for k
    using split_on_no_sep[OF that] split_on_chars[OF that] assms(1) by blast
  then show ?thesis using assms(2,3) escape_no_separator by (auto simp: escape_from_def split: if_splits)
qed

lemma read_loop_entry:
  assumes "text_ok u" "plain env" "has_prefix env ''From ''" "extra = [] \<or> extra = [[]]"
  shows "read_loop (map (\<lambda>l. l @ [LF]) (entry_lines_of env extra u) @ rest) st
    = flush_opt st @ read_loop rest (Some (u @ [LF] @ unlines extra))"
proof -
  have "map unescape_from (map escape_from (split_on LF u) @ extra) = split_on LF u @ extra"
    using assms(1,4) unescape_escape by (auto simp: text_ok_def list_all_iff unescape_no_prefix intro!: map_idI)
  then show ?thesis
    using read_loop_body[of "map escape_from (split_on LF u) @ extra" rest "[]"] escaped_lines[of u extra]
      assms unlines_split_on[of u]
    by (simp add: entry_lines_of_def unix_line_plain separator_line text_ok_def)
qed

lemma flush_entry: "text_ok u \<Longrightarrow> extra = [] \<or> extra = [[]] \<Longrightarrow>
   flush_message (u @ [LF] @ unlines extra) = [trim_right u [LF]]"
  using trim_right_snoc[of LF "[LF]" u] trim_right_snoc[of LF "[LF]" "u @ [LF]"]
  by (auto simp: flush_message_def text_ok_def Let_def)

section \<open>The file of a group\<close>

text \<open>Appending a list of articles, each with the time of its envelope.\<close>

fun append_all :: "string \<Rightarrow> string \<Rightarrow> (article \<times> int) list \<Rightarrow> file_system \<Rightarrow> file_system option" where
  "append_all root g [] fs = Some fs"
| "append_all root g ((a, now) # as) fs =
     (case mbox_append root g a now fs of None \<Rightarrow> None | Some (fs', _) \<Rightarrow> append_all root g as fs')"

text \<open>An entry: envelope, blank lines at the end, text.\<close>

type_synonym entry = "string \<times> string list \<times> string"

definition entry_ok :: "entry \<Rightarrow> bool" where
  "entry_ok e = (case e of (env, extra, u) \<Rightarrow>
     text_ok u \<and> plain env \<and> has_prefix env ''From '' \<and> (extra = [] \<or> extra = [[]]))"

definition entry_text :: "entry \<Rightarrow> string" where
  "entry_text e = (case e of (env, extra, u) \<Rightarrow> unlines (entry_lines_of env extra u))"

definition entry_message :: "string \<Rightarrow> string" where
  "entry_message u = trim_right u [LF]"

lemma append_entry:
  assumes "mbox_ok a"
  shows "\<exists>e n m. entry_ok e \<and> snd (snd e) = unix_text a \<and> mbox_append root g a now fs
       = Some (AList.update (path_for root g) (file_text fs (path_for root g) @ entry_text e) fs, n, m)"
proof -
  obtain env where env: "mbox_envelope a now = Some env"
    using envelope_total[of a now] assms by (auto simp: mbox_ok_def)
  obtain extra where e: "extra = [] \<or> extra = [[]]" "mbox_text env (wire a) = unlines (entry_lines_of env extra (unix_text a))"
    by (rule mbox_text_lines)
  show ?thesis
    using envelope_plain[OF env] assms env e
    by (intro exI[of _ "(env, extra, unix_text a)"] exI)
      (auto simp: mbox_append_def mbox_ok_def Let_def entry_ok_def entry_text_def)
qed

lemma append_all_entries:
  assumes "\<forall>x \<in> set as. mbox_ok (fst x)"
  shows "\<exists>fs' es. append_all root g as fs = Some fs' \<and> list_all entry_ok es \<and> map (\<lambda>e. snd (snd e)) es = map (\<lambda>x. unix_text (fst x)) as
    \<and> file_text fs' (path_for root g) = file_text fs (path_for root g) @ concat (map entry_text es)"
  using assms
proof (induction as arbitrary: fs)
  case Nil
  show ?case by (rule exI[of _ fs], rule exI[of _ "[]"]) simp
next
  case (Cons x as)
  obtain a now where x: "x = (a, now)" by (cases x)
  have ok: "mbox_ok a" using Cons.prems(1) x by simp
  obtain e n m where e: "entry_ok e" "snd (snd e) = unix_text a" "mbox_append root g a now fs
       = Some (AList.update (path_for root g) (file_text fs (path_for root g) @ entry_text e) fs, n, m)"
    using append_entry[OF ok] by blast
  let ?fs = "AList.update (path_for root g) (file_text fs (path_for root g) @ entry_text e) fs"
  have t: "file_text ?fs (path_for root g) = file_text fs (path_for root g) @ entry_text e" by (simp add: file_text_def)
  have "\<forall>x \<in> set as. mbox_ok (fst x)" using Cons.prems by simp
  from Cons.IH[OF this, of ?fs] obtain fs' es where f: "append_all root g as ?fs = Some fs'" "list_all entry_ok es"
    "map (\<lambda>e. snd (snd e)) es = map (\<lambda>x. unix_text (fst x)) as"
    "file_text fs' (path_for root g) = file_text ?fs (path_for root g) @ concat (map entry_text es)"
    by blast
  show ?case using f e x t by (intro exI[of _ fs'] exI[of _ "e # es"]) simp
qed

lemma read_lines_entry: "entry_ok (env, extra, u) \<Longrightarrow>
  read_lines (unlines (entry_lines_of env extra u) @ s) = map (\<lambda>l. l @ [LF]) (entry_lines_of env extra u) @ read_lines s"
  using split_after_unlines[of "entry_lines_of env extra u" s] entry_lines_LF[of env extra _ u]
  by (simp add: read_lines_def comp_def entry_ok_def)

lemma read_entries:
  "list_all entry_ok es \<Longrightarrow>
   read_loop (read_lines (concat (map entry_text es))) st = flush_opt st @ map (\<lambda>e. entry_message (snd (snd e))) es"
proof (induction es arbitrary: st)
  case (Cons e es)
  obtain env extra u where e: "e = (env, extra, u)" by (cases e)
  then have ok: "entry_ok (env, extra, u)" "text_ok u" "plain env" "has_prefix env ''From ''" "extra = [] \<or> extra = [[]]"
    using Cons.prems by (auto simp: entry_ok_def)
  show ?case
    using read_lines_entry[OF ok(1)] read_loop_entry[OF ok(2-5)] Cons.IH Cons.prems flush_entry[OF ok(2,5)] e
    by (simp add: entry_text_def entry_message_def)
qed (simp add: read_lines_def)

text \<open>An entry is dropped when one of its lines, in the header or in the body, reads as the
  Message-ID line of a removed article.\<close>

definition names_dropped :: "string list \<Rightarrow> string \<Rightarrow> bool" where
  "names_dropped drp u = list_ex (id_line (\<lambda>m. m \<in> set drp)) (split_on LF u)"

lemma to_lower_head: "ascii c \<Longrightarrow> \<exists>t. to_lower (c # s) = lower_char c # t"
  by (auto simp: to_lower_def dotted_I_def kelvin_sign_def ascii_def)

lemma id_line_head: "ascii c \<Longrightarrow> lower_char c \<noteq> CHR ''m'' \<Longrightarrow> \<not> id_line P (c # s)"
  using to_lower_head[of c s] by (auto simp: id_line_def)

lemma id_line_Nil: "\<not> id_line P []"
  by (simp add: id_line_def to_lower_def)

lemma other_heads: "ascii (CHR ''>'')" "ascii (CHR ''F'')" "lower_char (CHR ''>'') \<noteq> CHR ''m''" "lower_char (CHR ''F'') \<noteq> CHR ''m''"
  by code_simp+

lemma rewrite_lines_entry:
  assumes "entry_ok (env, extra, u)"
  shows "rewrite_lines drp (map (\<lambda>l. l @ [LF]) (entry_lines_of env extra u) @ rest) cur
    = keep_message drp cur @ rewrite_lines drp rest (unlines (entry_lines_of env extra u))"
proof -
  have run: "(\<forall>l \<in> set ls. \<not> has_prefix l ''From '') \<Longrightarrow>
     rewrite_lines drp (map (\<lambda>l. l @ [LF]) ls @ rest) c = rewrite_lines drp rest (c @ unlines ls)" for ls c
    by (induction ls arbitrary: c) (simp_all add: has_prefix_snoc)
  have "\<forall>l \<in> set (map escape_from (split_on LF u) @ extra). \<not> has_prefix l ''From ''"
    using assms escape_no_separator by (auto simp: entry_ok_def)
  from run[OF this, of "env @ [LF]"] show ?thesis
    using assms by (cases cur) (simp_all add: entry_lines_of_def entry_ok_def has_prefix_snoc keep_message_def)
qed

lemma id_line_envelope: "has_prefix env ''From '' \<Longrightarrow> \<not> id_line P env"
  using other_heads id_line_head[of "CHR ''F''"] by (cases env) auto

lemma id_line_escape: "id_line P (escape_from l) = id_line P l"
  using other_heads id_line_head[of "CHR ''>''"] id_line_envelope[of l] by (auto simp: escape_from_def)

lemma entry_dropped:
  assumes "entry_ok (env, extra, u)"
  shows "message_dropped (unlines (entry_lines_of env extra u)) drp = names_dropped drp u"
proof -
  have "split_on LF (unlines (entry_lines_of env extra u)) = entry_lines_of env extra u @ [[]]"
    using split_on_unlines[of "entry_lines_of env extra u" "[]"] entry_lines_LF[of env extra _ u] assms
    by (simp add: entry_ok_def)
  then show ?thesis
    using assms id_line_envelope[of env]
    by (auto simp: message_dropped_def names_dropped_def entry_lines_of_def entry_ok_def id_line_Nil
        list_ex_iff id_line_escape)
qed

lemma rewrite_entries:
  "list_all entry_ok es \<Longrightarrow>
   rewrite_lines drp (split_after LF (concat (map entry_text es))) cur
     = keep_message drp cur @ map entry_text (filter (\<lambda>e. \<not> names_dropped drp (snd (snd e))) es)"
proof (induction es arbitrary: cur)
  case (Cons e es)
  obtain env extra u where e: "e = (env, extra, u)" by (cases e)
  then have ok: "entry_ok (env, extra, u)" using Cons.prems by simp
  have ne: "unlines (entry_lines_of env extra u) \<noteq> []" by (simp add: entry_lines_of_def)
  have "split_after LF (unlines (entry_lines_of env extra u) @ s)
    = map (\<lambda>l. l @ [LF]) (entry_lines_of env extra u) @ split_after LF s" for s
    using ok entry_lines_LF[of env extra _ u] by (intro split_after_unlines) (auto simp: entry_ok_def)
  then show ?case
    using Cons e rewrite_lines_entry[OF ok] entry_dropped[OF ok] ne by (simp add: entry_text_def keep_message_def)
qed (simp add: keep_message_def)

lemma end_entry: "end_line (entry_text e) = entry_text e"
proof -
  obtain env extra u where "e = (env, extra, u)" by (cases e)
  moreover have "has_suffix (unlines (l # ls)) [LF]" for l ls
  proof (cases "l # ls" rule: rev_cases)
    case (snoc ks k)
    show ?thesis unfolding snoc using has_suffix_append[of "unlines ks @ k" "[LF]"] by simp
  qed simp
  ultimately show ?thesis by (simp add: end_line_def entry_text_def entry_lines_of_def del: unlines_simps)
qed

lemma rewrite_text_entries:
  "list_all entry_ok es \<Longrightarrow> rewrite_text drp (concat (map entry_text es))
     = concat (map entry_text (filter (\<lambda>e. \<not> names_dropped drp (snd (snd e))) es))"
  by (simp add: rewrite_text_def rewrite_entries keep_message_def comp_def end_entry)

lemma file_text_rewrite: "file_text (rewrite_mbox drp p fs) p = rewrite_text drp (file_text fs p)"
  by (auto simp: file_text_def rewrite_mbox_def rewrite_text_def keep_message_def split: option.split)

lemma read_file: "list_all entry_ok es \<Longrightarrow>
  mbox_messages (concat (map entry_text es)) = map (\<lambda>e. entry_message (snd (snd e))) es"
  using read_entries[of es None] by (simp add: mbox_messages_def)

lemma rewritten_file:
  assumes "\<forall>x \<in> set as. mbox_ok (fst x)" "map_of fs (path_for root g) = None"
  shows "map_option (\<lambda>fs'. mbox_messages (file_text (rewrite_mbox drp (path_for root g) fs') (path_for root g)))
       (append_all root g as fs)
     = Some (map (\<lambda>x. entry_message (unix_text (fst x))) (filter (\<lambda>x. \<not> names_dropped drp (unix_text (fst x))) as))"
proof -
  obtain fs' es where f: "append_all root g as fs = Some fs'" "list_all entry_ok es"
    "map (\<lambda>e. snd (snd e)) es = map (\<lambda>x. unix_text (fst x)) as" "file_text fs' (path_for root g) = concat (map entry_text es)"
    using append_all_entries[OF assms(1), of root g fs] assms(2) by (auto simp: file_text_def)
  have "list_all entry_ok (filter (\<lambda>e. \<not> names_dropped drp (snd (snd e))) es)" using f(2) by (simp add: list_all_iff)
  from read_file[OF this] have
    "mbox_messages (rewrite_text drp (file_text fs' (path_for root g)))
       = map entry_message (filter (\<lambda>a. \<not> names_dropped drp a) (map (\<lambda>e. snd (snd e)) es))"
    using f(2,4) by (simp add: rewrite_text_entries filter_map comp_def)
  then show ?thesis using f(1) unfolding f(3) by (simp add: file_text_rewrite filter_map comp_def)
qed

section \<open>Properties\<close>

definition demo_note :: "string \<Rightarrow> string \<Rightarrow> article" where
  "demo_note m b = \<lparr>raw_headers = [], body = b,
     headers = [(''From'', [''a@b'']), (''Message-ID'', [m])]\<rparr>"

text \<open>C14: articles appended to the archive of a group are read back from it as they were sent, in order:
  each message is the article in Unix lines without the line feeds at its end. The writer quotes
  lines that begin with From, and the reader takes the quote away; the condition is that no line of
  the article begins with the quoted form itself.\<close>

theorem mbox_roundtrip:
  assumes "\<forall>x \<in> set as. mbox_ok (fst x)" "map_of fs (path_for root g) = None"
  shows "map_option (\<lambda>fs'. mbox_messages (file_text fs' (path_for root g))) (append_all root g as fs)
     = Some (map (\<lambda>x. trim_right (unix_text (fst x)) [LF]) as)"
proof -
  obtain fs' es where f: "append_all root g as fs = Some fs'" "list_all entry_ok es"
    "map (\<lambda>e. snd (snd e)) es = map (\<lambda>x. unix_text (fst x)) as" "file_text fs' (path_for root g) = concat (map entry_text es)"
    using append_all_entries[OF assms(1), of root g fs] assms(2) by (auto simp: file_text_def)
  have "map (\<lambda>e. entry_message (snd (snd e))) es = map entry_message (map (\<lambda>e. snd (snd e)) es)" by simp
  then show ?thesis using f(1,4) read_file[OF f(2)] unfolding f(3) by (simp add: entry_message_def comp_def)
qed

lemma demo_hello:
  "wire (demo_note ''<1@x>'' ''hello'') = ''From: a@b'' @ CRLF @ ''Message-ID: <1@x>'' @ CRLF @ CRLF @ ''hello'' @ CRLF"
  "replace_all (''From: a@b'' @ CRLF @ ''Message-ID: <1@x>'' @ CRLF @ CRLF @ ''hello'' @ CRLF) CRLF [LF] = ''From: a@b'' @ [LF] @ ''Message-ID: <1@x>'' @ [LF, LF] @ ''hello'' @ [LF]"
  "trim_right (''From: a@b'' @ [LF] @ ''Message-ID: <1@x>'' @ [LF, LF] @ ''hello'' @ [LF]) [LF] = ''From: a@b'' @ [LF] @ ''Message-ID: <1@x>'' @ [LF, LF] @ ''hello''"
  "split_on LF (''From: a@b'' @ [LF] @ ''Message-ID: <1@x>'' @ [LF, LF] @ ''hello'' @ [LF]) = [''From: a@b'', ''Message-ID: <1@x>'', [], ''hello'', []]"
  "trim_space (''From: a@b'' @ [LF] @ ''Message-ID: <1@x>'' @ [LF, LF] @ ''hello'') \<noteq> []" "get_header (demo_note ''<1@x>'' ''hello'') ''From'' = ''a@b''" "trim_space ''a@b'' \<noteq> []"
  by code_simp+

lemma demo_hello_ok: "mbox_ok (demo_note ''<1@x>'' ''hello'')"
  unfolding mbox_ok_def text_ok_def unix_text_def demo_hello by (intro conjI demo_hello; simp)

lemma demo_quote:
  "wire (demo_note ''<2@x>'' ''Message-ID: <1@x>'') = ''From: a@b'' @ CRLF @ ''Message-ID: <2@x>'' @ CRLF @ CRLF @ ''Message-ID: <1@x>'' @ CRLF"
  "replace_all (''From: a@b'' @ CRLF @ ''Message-ID: <2@x>'' @ CRLF @ CRLF @ ''Message-ID: <1@x>'' @ CRLF) CRLF [LF] = ''From: a@b'' @ [LF] @ ''Message-ID: <2@x>'' @ [LF, LF] @ ''Message-ID: <1@x>'' @ [LF]"
  "trim_right (''From: a@b'' @ [LF] @ ''Message-ID: <2@x>'' @ [LF, LF] @ ''Message-ID: <1@x>'' @ [LF]) [LF] = ''From: a@b'' @ [LF] @ ''Message-ID: <2@x>'' @ [LF, LF] @ ''Message-ID: <1@x>''"
  "split_on LF (''From: a@b'' @ [LF] @ ''Message-ID: <2@x>'' @ [LF, LF] @ ''Message-ID: <1@x>'' @ [LF]) = [''From: a@b'', ''Message-ID: <2@x>'', [], ''Message-ID: <1@x>'', []]"
  "trim_space (''From: a@b'' @ [LF] @ ''Message-ID: <2@x>'' @ [LF, LF] @ ''Message-ID: <1@x>'') \<noteq> []" "get_header (demo_note ''<2@x>'' ''Message-ID: <1@x>'') ''From'' = ''a@b''" "trim_space ''a@b'' \<noteq> []"
  by code_simp+

lemma demo_quote_ok: "mbox_ok (demo_note ''<2@x>'' ''Message-ID: <1@x>'')"
  unfolding mbox_ok_def text_ok_def unix_text_def demo_quote by (intro conjI demo_quote; simp)

theorem mbox_roundtrip_witness:
  "map_option (\<lambda>fs'. mbox_messages (file_text fs' (path_for ''/spool'' ''a.b'')))
      (append_all ''/spool'' ''a.b'' [(demo_note ''<1@x>'' ''hello'', 0)] [])
   = Some [''From: a@b'' @ [LF] @ ''Message-ID: <1@x>'' @ [LF, LF] @ ''hello'']"
proof -
  have "trim_right (unix_text (demo_note ''<1@x>'' ''hello'')) [LF]
    = ''From: a@b'' @ [LF] @ ''Message-ID: <1@x>'' @ [LF, LF] @ ''hello''" unfolding unix_text_def demo_hello ..
  then show ?thesis
    using mbox_roundtrip[of "[(demo_note ''<1@x>'' ''hello'', 0)]" "[]" "''/spool''" "''a.b''"] demo_hello_ok by simp
qed

text \<open>Removing articles from the archive of a group keeps the others as they were, in order, and removes
  exactly those that have a line reading as the Message-ID line of a removed article. The line may
  be in the body: an article that quotes a purged one is removed with it.\<close>

theorem scrub_exact:
  assumes "\<forall>x \<in> set as. mbox_ok (fst x)" "map_of fs (path_for root g) = None"
  shows "map_option (\<lambda>fs'. mbox_messages (file_text (rewrite_mbox drp (path_for root g) fs') (path_for root g)))
       (append_all root g as fs)
     = Some (map (\<lambda>x. trim_right (unix_text (fst x)) [LF])
         (filter (\<lambda>x. \<not> list_ex (id_line (\<lambda>m. m \<in> set drp)) (split_on LF (unix_text (fst x)))) as))"
  using rewritten_file[OF assms] by (simp add: entry_message_def names_dropped_def)

theorem scrub_exact_witness:
  "map_option (\<lambda>fs'. mbox_messages (file_text (rewrite_mbox [''<1@x>''] (path_for ''/spool'' ''a.b'') fs')
        (path_for ''/spool'' ''a.b'')))
      (append_all ''/spool'' ''a.b'' [(demo_note ''<2@x>'' ''Message-ID: <1@x>'', 0)] []) = Some []"
proof -
  have "list_ex (id_line (\<lambda>m. m \<in> set [''<1@x>''])) (split_on LF (unix_text (demo_note ''<2@x>'' ''Message-ID: <1@x>'')))"
    unfolding unix_text_def demo_quote by code_simp
  then show ?thesis
    using scrub_exact[of "[(demo_note ''<2@x>'' ''Message-ID: <1@x>'', 0)]" "[]" "''/spool''" "''a.b''" "[''<1@x>'']"]
      demo_quote_ok by simp
qed

end
