(* ===== verification/GoSort.thy ===== *)
theory GoSort
  imports Prelude "HOL-Library.Multiset"
begin

text \<open>
  The exchange sort that two packages write out in place of \<open>sort.Strings\<close>: \<open>PruneOldExports\<close> in
  \<open>internal/archive/export.go\<close> and \<open>sortedRelKeys\<close> in \<open>internal/inpaths/dump.go\<close>.
\<close>

text \<open>\<open>exchange x ys\<close> is one pass of the inner loop, which leaves the
  least element in front.\<close>

fun exchange :: "string \<Rightarrow> string list \<Rightarrow> string \<times> string list" where
  "exchange x [] = (x, [])"
| "exchange x (y # ys) =
     (if y < x then (case exchange y ys of (m, r) \<Rightarrow> (m, x # r))
      else (case exchange x ys of (m, r) \<Rightarrow> (m, y # r)))"

lemma exchange_length [termination_simp]: "(m, r) = exchange x ys \<Longrightarrow> length r = length ys"
  by (induction x ys arbitrary: m r rule: exchange.induct) (auto split: if_splits prod.splits)

fun exchange_sort :: "string list \<Rightarrow> string list" where
  "exchange_sort [] = []"
| "exchange_sort (x # xs) = (case exchange x xs of (m, r) \<Rightarrow> m # exchange_sort r)"

lemma exchange_spec: "exchange x ys = (m, r) \<Longrightarrow> mset (m # r) = mset (x # ys) \<and> (\<forall>y \<in> set (x # ys). m \<le> y)"
proof (induction x ys arbitrary: m r rule: exchange.induct)
  case (2 x y ys)
  show ?case
  proof (cases "y < x")
    case True
    obtain n s where e: "exchange y ys = (n, s)" by (cases "exchange y ys")
    then show ?thesis using 2(1)[OF True e] True "2.prems" by auto
  next
    case False
    obtain n s where e: "exchange x ys = (n, s)" by (cases "exchange x ys")
    then show ?thesis using 2(2)[OF False e] False "2.prems" by auto
  qed
qed simp

lemma exchange_sort_sort: "exchange_sort xs = sort xs"
proof -
  have "mset (exchange_sort xs) = mset xs \<and> sorted (exchange_sort xs)"
  proof (induction xs rule: exchange_sort.induct)
    case (2 x xs)
    obtain m r where e: "exchange x xs = (m, r)" by (cases "exchange x xs")
    note m = exchange_spec[OF e]
    have ih: "mset (exchange_sort r) = mset r" "sorted (exchange_sort r)" using 2 e by auto
    have "set (m # r) = set (x # xs)" using m by (metis mset_eq_setD)
    then have "\<forall>y \<in> set (exchange_sort r). m \<le> y" using m mset_eq_setD[OF ih(1)] by auto
    then show ?case using m e ih by auto
  qed simp
  then show ?thesis by (metis properties_for_sort)
qed

end
