(* ===== verification/Archive.thy ===== *)
theory Archive
  imports Mbox StoreStats Binary GoSort
begin

text \<open>
  Export and import of newsgroups, \<open>internal/archive/export.go\<close> and \<open>import.go\<close>. Compression is left out: the text
  of an exported file is what the reader gets after decompression. Writing files succeeds; the clock is an
  argument.
\<close>

section \<open>Export\<close>

definition export_envelope :: "stored_article \<Rightarrow> string" where
  "export_envelope a =
     (let date = format_ansic (s_stored_at a); from = s_from a in
      case index_of from ''<'' of
        None \<Rightarrow> ''From MAILER-DAEMON '' @ date
      | Some i \<Rightarrow>
          (case index_of (drop i from) ''>'' of
             None \<Rightarrow> ''From MAILER-DAEMON '' @ date
           | Some j \<Rightarrow> ''From '' @ trim_space (drop (i + 1) (take (i + j) from)) @ '' '' @ date))"

definition export_article :: "stored_article \<Rightarrow> string" where
  "export_article a =
     (let hdr = replace_all (s_headers a) CRLF [LF]; bdy = replace_all (s_body a) CRLF [LF];
          w = hdr @ [LF, LF] @ bdy; w1 = (if has_suffix w [LF] then w else w @ [LF])
      in export_envelope a @ [LF] @ concat (map (\<lambda>l. escape_from l @ [LF]) (split_on LF w1)) @ [LF])"

definition export_text :: "stored_article list \<Rightarrow> string" where
  "export_text arts = concat (map export_article arts)"

definition export_stamp :: "int \<Rightarrow> string" where
  "export_stamp t =
     (let (y, m, d) = civil (day_of t)
      in pad0 4 y @ pad0 2 m @ pad0 2 d @ ''T'' @ hms [] t @ ''Z'')"

record export_result =
  xr_dir :: string
  xr_files :: "string list"
  xr_groups :: nat
  xr_articles :: nat

definition export_path :: "string \<Rightarrow> string \<Rightarrow> string" where
  "export_path dir g = join_path [dir, replace_all g ''/'' ''.'' @ ''.mbox.gz'']"

text \<open>The loop over the groups; None is the nil article a reader would dereference.\<close>

fun export_groups ::
    "memory \<Rightarrow> string \<Rightarrow> group_info list \<Rightarrow> file_system \<times> export_result \<Rightarrow> (file_system \<times> export_result) option" where
  "export_groups s sel [] acc = Some acc"
| "export_groups s sel (g # gs) (fs, res) =
     (if sel \<noteq> ''all'' \<and> \<not> wildmat_match sel (g_name g) then export_groups s sel gs (fs, res)
      else case articles_for_group (g_name g) s of
        None \<Rightarrow> None
      | Some arts \<Rightarrow>
          let p = export_path (xr_dir res) (g_name g) in
          export_groups s sel gs
            (AList.update p (export_text arts) fs,
             res\<lparr>xr_files := xr_files res @ [p], xr_groups := xr_groups res + 1,
                 xr_articles := xr_articles res + length arts\<rparr>))"

definition export :: "memory \<Rightarrow> string \<Rightarrow> string \<Rightarrow> int \<Rightarrow> file_system \<Rightarrow> (file_system \<times> export_result) option" where
  "export s dest selector0 now fs =
     (let t = trim_space selector0; sel = (if t = [] then ''all'' else t)
      in export_groups s sel (list_groups [] s)
           (fs, \<lparr>xr_dir = join_path [dest, export_stamp now], xr_files = [], xr_groups = 0, xr_articles = 0\<rparr>))"

text \<open>The generations removed from a directory that holds the generations \<open>dirs\<close>.\<close>

definition pruned_exports :: "string list \<Rightarrow> int \<Rightarrow> string list" where
  "pruned_exports dirs retain =
     (if retain \<le> 0 \<or> length dirs \<le> nat retain then []
      else take (length dirs - nat retain) (exchange_sort dirs))"

section \<open>Import\<close>

record import_opts =
  io_group :: string
  io_restrict :: bool
  io_create :: bool
  io_spool :: "string option"
  io_hostname :: string

record import_result =
  ir_scanned :: nat
  ir_imported :: nat
  ir_duplicates :: nat
  ir_skipped :: nat
  ir_groups :: "(string \<times> int) list"

definition normalize_import_raw :: "string \<Rightarrow> string" where
  "normalize_import_raw raw =
     sanitize_utf8 (if contains raw CRLF then raw else replace_all raw [LF] CRLF)"

definition import_groups :: "import_opts \<Rightarrow> article \<Rightarrow> string list \<times> article" where
  "import_groups opt a =
     (let fallback = trim_space (io_group opt); gs = newsgroups a in
      if io_restrict opt \<and> fallback \<noteq> [] then ([fallback], a)
      else if gs = [] \<and> fallback \<noteq> [] then ([fallback], set_header ''Newsgroups'' fallback a)
      else (gs, a))"

definition import_new_article :: "import_opts \<Rightarrow> article \<Rightarrow> string \<Rightarrow> string list \<Rightarrow> new_article" where
  "import_new_article opt a msgid gs =
     (case (let w = wire a in if w = [] then (raw_headers a, body a, False)
            else case cut w (CRLF @ CRLF) of (h, b, ok) \<Rightarrow> if ok then (h, b, ok) else (raw_headers a, body a, ok)) of
        (hdr, bdy, _) \<Rightarrow>
          \<lparr>n_headers = hdr, n_body = bdy, n_msgid = msgid, n_subject = get_header a ''Subject'',
           n_from = get_header a ''From'', n_date = get_header a ''Date'', n_refs = get_header a ''References'',
           n_xref = io_hostname opt, n_bytes = int (article_bytes a), n_lines = int (article_lines a),
           n_groups = gs, n_binary = looks_binary (raw_headers a) (body a)\<rparr>)"

text \<open>The spool copies; None is the panic of the envelope.\<close>

fun spool_copies :: "string \<Rightarrow> int \<Rightarrow> article \<Rightarrow> string list \<Rightarrow> file_system \<Rightarrow> file_system option" where
  "spool_copies root now a [] fs = Some fs"
| "spool_copies root now a (g # gs) fs =
     (case mbox_append root g a now fs of None \<Rightarrow> None | Some (fs', _) \<Rightarrow> spool_copies root now a gs fs')"

record import_state =
  is_store :: memory
  is_files :: file_system
  is_res :: import_result

definition skipped :: "import_state \<Rightarrow> import_state" where
  "skipped st = st\<lparr>is_res := (is_res st)\<lparr>ir_skipped := ir_skipped (is_res st) + 1\<rparr>\<rparr>"

definition duplicate :: "import_state \<Rightarrow> import_state" where
  "duplicate st = st\<lparr>is_res := (is_res st)\<lparr>ir_duplicates := ir_duplicates (is_res st) + 1\<rparr>\<rparr>"

definition imported :: "string list \<Rightarrow> import_state \<Rightarrow> import_state" where
  "imported gs st = st\<lparr>is_res := (is_res st)\<lparr>ir_imported := ir_imported (is_res st) + 1,
     ir_groups := fold count_key gs (ir_groups (is_res st))\<rparr>\<rparr>"

definition import_stats :: "import_opts \<Rightarrow> article \<Rightarrow> string list \<Rightarrow> stats_event" where
  "import_stats opt a gs =
     \<lparr>se_groups = gs, se_from = get_header a ''From'', se_path = get_header a ''Path'',
      se_binary = looks_binary (raw_headers a) (body a), se_exclude = [io_hostname opt], se_day = zero_time\<rparr>"

text \<open>From the parsed article on.\<close>

definition import_parsed :: "import_opts \<Rightarrow> int \<Rightarrow> article \<Rightarrow> import_state \<Rightarrow> import_state option" where
  "import_parsed opt now a0 st =
     (let msgid = trim_space (get_header a0 ''Message-ID'') in
      if msgid = [] \<or> \<not> valid_message_id msgid then Some (skipped st)
      else case import_groups opt a0 of (gs, a) \<Rightarrow>
        if gs = [] then Some (skipped st)
        else
          let s1 = (if io_create opt then fold (\<lambda>g. ensure_group now g [] ''y'') gs (is_store st) else is_store st);
              st1 = st\<lparr>is_store := s1\<rparr>
          in if has_message_id msgid s1 then Some (duplicate st1)
          else case post_article now (import_new_article opt a msgid gs) s1 of
            (s2, Inl Duplicate_ID) \<Rightarrow> Some (duplicate (st1\<lparr>is_store := s2\<rparr>))
          | (s2, Inl _) \<Rightarrow> Some (skipped (st1\<lparr>is_store := s2\<rparr>))
          | (s2, Inr _) \<Rightarrow>
              let st2 = imported gs (st1\<lparr>is_store := record_content_stats now (import_stats opt a gs) s2\<rparr>)
              in (case io_spool opt of None \<Rightarrow> Some st2
                  | Some root \<Rightarrow> map_option (\<lambda>fs. st2\<lparr>is_files := fs\<rparr>) (spool_copies root now a gs (is_files st2))))"

definition import_message :: "import_opts \<Rightarrow> int \<Rightarrow> string \<Rightarrow> import_state \<Rightarrow> import_state option" where
  "import_message opt now raw st0 =
     (let st = st0\<lparr>is_res := (is_res st0)\<lparr>ir_scanned := ir_scanned (is_res st0) + 1\<rparr>\<rparr> in
      case parse_article (normalize_import_raw raw) of
        Inl e \<Rightarrow> Some (skipped st)
      | Inr a \<Rightarrow> import_parsed opt now a st)"

fun import_messages :: "import_opts \<Rightarrow> int \<Rightarrow> string list \<Rightarrow> import_state \<Rightarrow> import_state option" where
  "import_messages opt now [] st = Some st"
| "import_messages opt now (m # ms) st =
     (case import_message opt now m st of None \<Rightarrow> None | Some st' \<Rightarrow> import_messages opt now ms st')"

definition no_result :: import_result where
  "no_result = \<lparr>ir_scanned = 0, ir_imported = 0, ir_duplicates = 0, ir_skipped = 0, ir_groups = []\<rparr>"

definition import_mbox :: "import_opts \<Rightarrow> int \<Rightarrow> string \<Rightarrow> memory \<Rightarrow> file_system \<Rightarrow> import_state option" where
  "import_mbox opt now text s fs =
     import_messages opt now (mbox_messages text) \<lparr>is_store = s, is_files = fs, is_res = no_result\<rparr>"

definition import_file :: "import_opts \<Rightarrow> int \<Rightarrow> string \<Rightarrow> string \<Rightarrow> memory \<Rightarrow> file_system \<Rightarrow> import_state option" where
  "import_file opt now path text s fs =
     import_mbox (if trim_space (io_group opt) = [] then opt\<lparr>io_group := group_from_mbox_path path\<rparr> else opt)
       now text s fs"

section \<open>What an exported file holds\<close>

definition stored_text :: "stored_article \<Rightarrow> string" where
  "stored_text a = s_headers a @ CRLF @ CRLF @ s_body a"

definition stored_unix :: "stored_article \<Rightarrow> string" where
  "stored_unix a = replace_all (s_headers a) CRLF [LF] @ [LF, LF] @ replace_all (s_body a) CRLF [LF]"

definition closed_unix :: "stored_article \<Rightarrow> string" where
  "closed_unix a = (if has_suffix (stored_unix a) [LF] then stored_unix a else stored_unix a @ [LF])"

lemma export_envelope_ok: "plain (s_from a) \<Longrightarrow> plain (export_envelope a) \<and> has_prefix (export_envelope a) ''From ''"
  using format_ansic_plain[of "s_stored_at a"]
  by (auto simp: export_envelope_def Let_def split: option.split
      dest!: subsetD[OF trim_space_chars] in_set_dropD in_set_takeD)

lemma export_article_entry: "export_article a = entry_text (export_envelope a, [[]], closed_unix a)"
  by (simp add: export_article_def entry_text_def entry_lines_of_def closed_unix_def stored_unix_def Let_def
      unlines_def comp_def)

lemma closed_unix_text: "trim_right (closed_unix a) [LF] = trim_right (stored_unix a) [LF]"
  by (simp add: closed_unix_def trim_right_snoc)

lemma export_messages:
  assumes "\<forall>a \<in> set arts. plain (s_from a) \<and> text_ok (closed_unix a)"
  shows "mbox_messages (export_text arts) = map (\<lambda>a. trim_right (stored_unix a) [LF]) arts"
proof -
  let ?es = "map (\<lambda>a. (export_envelope a, [[]], closed_unix a)) arts"
  have "export_text arts = concat (map entry_text ?es)"
    by (simp add: export_text_def comp_def flip: export_article_entry)
  moreover have "list_all entry_ok ?es"
    using assms export_envelope_ok by (auto simp: list_all_iff entry_ok_def)
  ultimately show ?thesis using read_file[of ?es] by (simp add: comp_def entry_message_def closed_unix_text)
qed

lemma unix_append: "crlf_ok s \<Longrightarrow> replace_all (s @ t) CRLF [LF] = replace_all s CRLF [LF] @ replace_all t CRLF [LF]"
proof (induction s rule: length_induct)
  case (1 s)
  from \<open>crlf_ok s\<close> show ?case
  proof (cases rule: crlf_ok_cases)
    case 1
    then show ?thesis using replace_plain[of s t "[LF]"] replace_plain[of s "[]" "[LF]"] by simp
  next
    case (2 l r)
    then have "length r < length s" by simp
    then have "replace_all (r @ t) CRLF [LF] = replace_all r CRLF [LF] @ replace_all t CRLF [LF]"
      using "1.IH" 2 by blast
    then show ?thesis using 2 by (simp add: replace_CRLF_line)
  qed
qed

lemma stored_unix_text:
  assumes "crlf_ok (s_headers a)"
  shows "stored_unix a = replace_all (stored_text a) CRLF [LF]"
  using unix_append[OF assms, of "CRLF @ CRLF @ s_body a"] replace_all_hit[of CRLF "CRLF @ s_body a" "[LF]"]
    replace_all_hit[of CRLF "s_body a" "[LF]"]
  by (simp add: stored_unix_def stored_text_def)

lemma unix_end: "crlf_ok t \<Longrightarrow> has_suffix (replace_all t CRLF [LF]) [LF] \<Longrightarrow> has_suffix t CRLF"
proof -
  assume t: "crlf_ok t" and "has_suffix (replace_all t CRLF [LF]) [LF]"
  then obtain v where v: "replace_all t CRLF [LF] = v @ [LF]" by (auto simp: has_suffix_iff)
  then have "t = replace_all (v @ [LF]) [LF] CRLF" using unix_lines[OF t] by simp
  then have "t = replace_all v [LF] CRLF @ CRLF" by (simp add: replace_char)
  then show ?thesis using has_suffix_append by metis
qed

lemma trim_right_last: "\<not> has_suffix s [LF] \<Longrightarrow> trim_right s [LF] = s"
  by (cases s rule: rev_cases) (auto simp: trim_right_def has_suffix_def)

lemma normalize_unix:
  assumes "crlf_ok t" "valid_utf8 t" "CHR 0x00 \<notin> set t"
  shows "normalize_import_raw (replace_all t CRLF [LF]) = t"
proof -
  have "\<not> contains (replace_all t CRLF [LF]) CRLF"
  proof
    assume "contains (replace_all t CRLF [LF]) CRLF"
    then obtain i where "index_of (replace_all t CRLF [LF]) CRLF = Some i" by (auto simp: contains_def)
    from index_of_Some[OF this] have "CR \<in> set (replace_all t CRLF [LF])"
      by (metis Un_iff list.set_intros(1) set_append)
    then show False using unix_lines[OF assms(1)] by simp
  qed
  then show ?thesis using unix_lines[OF assms(1)] assms(2,3) by (simp add: normalize_import_raw_def sanitize_utf8_def)
qed

text \<open>A stored article that a file in mbox format can carry: its text is made of lines, is not blank, its From is
  one line, and none of its lines begins with a quoted From.\<close>

definition exportable :: "stored_article \<Rightarrow> bool" where
  "exportable a \<longleftrightarrow> crlf_ok (s_headers a) \<and> crlf_ok (s_body a) \<and> plain (s_from a) \<and> text_ok (closed_unix a)"

text \<open>The body has a last line that is not empty, closed by one line end.\<close>

definition ends_in_line :: "string \<Rightarrow> bool" where
  "ends_in_line b \<longleftrightarrow> has_suffix b CRLF \<and> trim_suffix b CRLF \<noteq> [] \<and> \<not> has_suffix (trim_suffix b CRLF) CRLF"

lemma ends_in_lineD: "ends_in_line b \<Longrightarrow> \<exists>c. b = c @ CRLF \<and> trim_suffix b CRLF = c \<and> c \<noteq> [] \<and> \<not> has_suffix c CRLF"
  unfolding ends_in_line_def has_suffix_iff[of b] using trim_suffix_append by metis

lemma crlf_ok_open: "crlf_ok (b @ CRLF) \<Longrightarrow> crlf_ok b"
proof (induction b rule: crlf_ok.induct)
  case (2 c s)
  then show ?case by (cases s) (auto split: if_splits)
qed simp

lemma has_suffix_inside: "b \<noteq> [] \<Longrightarrow> has_suffix (t @ [LF] @ b) CRLF = has_suffix b CRLF"
proof -
  assume "b \<noteq> []"
  then obtain c x where b: "b = c @ [x]" by (metis rev_exhaust)
  show ?thesis
  proof (cases c rule: rev_cases)
    case Nil
    then show ?thesis by (simp add: b has_suffix_def)
  next
    case (snoc d y)
    then show ?thesis by (simp add: b has_suffix_def)
  qed
qed

lemma trimmed_unix:
  assumes "exportable a" "s_body a = b @ CRLF" "b \<noteq> []" "\<not> has_suffix b CRLF"
  shows "crlf_ok (s_headers a @ CRLF @ CRLF @ b)"
    and "trim_right (stored_unix a) [LF] = replace_all (s_headers a @ CRLF @ CRLF @ b) CRLF [LF]"
proof -
  let ?t = "s_headers a @ CRLF @ CRLF @ b"
  have h: "crlf_ok (s_headers a)" "crlf_ok (b @ CRLF)" using assms(1,2) by (simp_all add: exportable_def)
  show t: "crlf_ok ?t" using crlf_ok_open[OF h(2)] h(1) by (simp add: crlf_ok_append)
  have "\<not> has_suffix ?t CRLF"
    using has_suffix_inside[OF assms(3), of "s_headers a @ CRLF @ [CR]"] assms(4) by simp
  then have n: "\<not> has_suffix (replace_all ?t CRLF [LF]) [LF]" using unix_end[OF t] by blast
  have "stored_text a = ?t @ CRLF" by (simp add: stored_text_def assms(2))
  then have "stored_unix a = replace_all ?t CRLF [LF] @ [LF]"
    unfolding stored_unix_text[OF h(1)] using unix_append[OF t, of CRLF] replace_all_hit[of CRLF "[]" "[LF]"] by simp
  then show "trim_right (stored_unix a) [LF] = replace_all ?t CRLF [LF]"
    using trim_right_last[OF n] by (simp add: trim_right_snoc)
qed

text \<open>Exporting a group and reading the file back for import gives every article as it is stored, header and
  body byte for byte, only without the line end that closes the body; provided that the body is
  not empty and does not end in an empty line, and that the text is valid UTF-8.\<close>

theorem export_import_text:
  assumes "\<forall>a \<in> set arts. exportable a \<and> ends_in_line (s_body a)
     \<and> valid_utf8 (s_headers a @ CRLF @ CRLF @ trim_suffix (s_body a) CRLF)
     \<and> CHR 0x00 \<notin> set (s_headers a @ s_body a)"
  shows "map normalize_import_raw (mbox_messages (export_text arts))
     = map (\<lambda>a. s_headers a @ CRLF @ CRLF @ trim_suffix (s_body a) CRLF) arts"
proof -
  have "normalize_import_raw (trim_right (stored_unix a) [LF]) = s_headers a @ CRLF @ CRLF @ trim_suffix (s_body a) CRLF"
    if "a \<in> set arts" for a
  proof -
    have a: "exportable a" "ends_in_line (s_body a)" "CHR 0x00 \<notin> set (s_headers a @ s_body a)"
      and u: "valid_utf8 (s_headers a @ CRLF @ CRLF @ trim_suffix (s_body a) CRLF)"
      using assms that by blast+
    obtain b where b: "s_body a = b @ CRLF" "trim_suffix (s_body a) CRLF = b" "b \<noteq> []" "\<not> has_suffix b CRLF"
      using ends_in_lineD[OF a(2)] by blast
    show ?thesis unfolding trimmed_unix(2)[OF a(1) b(1,3,4)] b(2)
      using trimmed_unix(1)[OF a(1) b(1,3,4)] u a(3) by (intro normalize_unix) (simp_all add: b(1,2))
  qed
  moreover have "\<forall>a \<in> set arts. plain (s_from a) \<and> text_ok (closed_unix a)" using assms by (auto simp: exportable_def)
  ultimately show ?thesis using export_messages[of arts] by simp
qed

definition demo_stored :: "string \<Rightarrow> stored_article" where
  "demo_stored b = \<lparr>s_num = 1, s_msgid = ''<1@x>'', s_headers = ''From: a@b'', s_body = b, s_bytes = 0, s_lines = 1,
     s_stored_at = 0, s_xref = [], s_subject = [], s_from = ''a@b'', s_date = [], s_refs = []\<rparr>"

lemma demo_stored_simps:
  "s_headers (demo_stored b) = ''From: a@b''" "s_body (demo_stored b) = b" "s_from (demo_stored b) = ''a@b''"
  by (simp_all add: demo_stored_def)

lemma demo_exported_texts:
  "closed_unix (demo_stored (''hi'' @ CRLF)) = ''From: a@b'' @ [LF, LF] @ ''hi'' @ [LF]"
  "closed_unix (demo_stored []) = ''From: a@b'' @ [LF, LF]"
  "split_on LF (''From: a@b'' @ [LF, LF] @ ''hi'' @ [LF]) = [''From: a@b'', [], ''hi'', []]"
  "split_on LF (''From: a@b'' @ [LF, LF]) = [''From: a@b'', [], []]"
  "trim_right (''From: a@b'' @ [LF, LF] @ ''hi'' @ [LF]) [LF] = ''From: a@b'' @ [LF, LF] @ ''hi''"
  "trim_right (''From: a@b'' @ [LF, LF]) [LF] = ''From: a@b''"
  "trim_space (''From: a@b'' @ [LF, LF] @ ''hi'') \<noteq> []" "trim_space ''From: a@b'' \<noteq> []"
  by code_simp+

lemma demo_stored_exportable: "exportable (demo_stored (''hi'' @ CRLF))"
  unfolding exportable_def text_ok_def demo_exported_texts demo_stored_simps
  by (intro conjI demo_exported_texts; simp)

lemma demo_empty_exportable: "exportable (demo_stored [])"
  unfolding exportable_def text_ok_def demo_exported_texts demo_stored_simps
  by (intro conjI demo_exported_texts; simp)

theorem export_import_text_witness:
  "map normalize_import_raw (mbox_messages (export_text [demo_stored (''hi'' @ CRLF)]))
     = [''From: a@b'' @ CRLF @ CRLF @ ''hi'']"
proof -
  have t: "trim_suffix [CHR ''h'', CHR ''i'', CR, LF] CRLF = ''hi''" by code_simp
  have "ends_in_line (''hi'' @ CRLF)" by (simp add: ends_in_line_def t has_suffix_def)
  moreover have "valid_utf8 (''From: a@b'' @ CRLF @ CRLF @ ''hi'')" by (rule valid_utf8_ascii) (simp add: ascii_def)
  ultimately show ?thesis
    using export_import_text[of "[demo_stored (''hi'' @ CRLF)]"] demo_stored_exportable
    by (simp add: demo_stored_simps t del: trim_suffix_append)
qed

section \<open>Pruning\<close>

text \<open>Pruning keeps the newest generations: what it removes is not newer than what it keeps.\<close>

lemma prune_keeps_newest:
  "retain > 0 \<Longrightarrow> mset dirs = mset (pruned_exports dirs retain @ drop (length (pruned_exports dirs retain)) (sort dirs))
   \<and> length dirs - length (pruned_exports dirs retain) = min (length dirs) (nat retain)
   \<and> (\<forall>d \<in> set (pruned_exports dirs retain). \<forall>k \<in> set (drop (length (pruned_exports dirs retain)) (sort dirs)). d \<le> k)"
proof -
  assume r: "retain > 0"
  let ?n = "length dirs - nat retain"
  have "pruned_exports dirs retain = take ?n (sort dirs)" using r by (simp add: pruned_exports_def exchange_sort_sort)
  moreover have "sorted (take ?n (sort dirs) @ drop ?n (sort dirs))" by simp
  ultimately show ?thesis using r unfolding sorted_append by simp
qed

end
