(* ===== verification/ArchiveLaws.thy ===== *)
theory ArchiveLaws
  imports Archive Spool
begin

text \<open>
  What import does to the store: it never crashes, a second import of the same file changes nothing,
  and an exported article without a body does not come back.
\<close>

section \<open>Parsed articles have an envelope\<close>

definition trimmed_values :: "(string \<times> string list) list \<Rightarrow> bool" where
  "trimmed_values hs \<longleftrightarrow> (\<forall>(k, vs) \<in> set hs. \<forall>v \<in> set vs. trim_space v = v)"

lemma trimmed_update:
  "trimmed_values hs \<Longrightarrow> (\<forall>v \<in> set vs. trim_space v = v) \<Longrightarrow> trimmed_values (AList.update k vs hs)"
  unfolding trimmed_values_def by (induction hs) auto

lemma trimmed_lookup: "trimmed_values hs \<Longrightarrow> v \<in> set (header_values hs k) \<Longrightarrow> trim_space v = v"
  unfolding trimmed_values_def header_values_def by (cases "map_of hs k") (auto dest!: map_of_SomeD)

lemma trimmed_flush: "trimmed_values (hdrs st) \<Longrightarrow> trimmed_values (hdrs (flush_header st))"
  using trimmed_lookup by (auto simp: flush_header_def intro!: trimmed_update)

lemma trimmed_line: "header_line l st = Inr st' \<Longrightarrow> trimmed_values (hdrs st) \<Longrightarrow> trimmed_values (hdrs st')"
  using trimmed_flush[of st] by (cases l) (auto simp: Let_def split: if_splits prod.splits)

lemma trimmed_lines: "header_lines ls st = Inr st' \<Longrightarrow> trimmed_values (hdrs st) \<Longrightarrow> trimmed_values (hdrs st')"
  by (induction ls arbitrary: st) (auto intro: trimmed_flush trimmed_line split: sum.splits)

lemma parsed_trimmed: "parse_article raw = Inr a \<Longrightarrow> trimmed_values (headers a)"
proof -
  assume p: "parse_article raw = Inr a"
  have h: "parse_headers h = Inr hs \<Longrightarrow> trimmed_values hs" for h hs
    using trimmed_lines by (cases "header_lines (split_str CRLF h) \<lparr>cur_name = [], cur_val = [], hdrs = []\<rparr>")
      (fastforce simp: parse_headers_def trimmed_values_def)+
  have "make_article h b = Inr a \<Longrightarrow> trimmed_values (headers a)" for h b
    using h[of h] by (cases "parse_headers h") (auto simp: make_article_def)
  then show ?thesis using p by (auto simp: parse_article_def Let_def split: prod.splits if_splits)
qed

lemma first_header_trimmed: "trimmed_values hs \<Longrightarrow> trim_space (first_header hs n) = first_header hs n"
  unfolding trimmed_values_def by (induction hs n rule: first_header.induct) (auto simp: neq_Nil_conv)

lemma trimmed_envelope: "trim_space (get_header a ''From'') = get_header a ''From'' \<Longrightarrow> mbox_envelope a now \<noteq> None"
  using envelope_total[of a now]
  by (cases "get_header a ''From'' = []") (auto simp: mbox_envelope_def mbox_sender_def)

lemma import_groups_from:
  "import_groups opt a = (gs, b) \<Longrightarrow> get_header b ''From'' = get_header a ''From''"
  by (auto simp: import_groups_def Let_def get_set_header field_name_eq split: if_splits)

section \<open>Import does not crash\<close>

lemma spool_copies_some: "mbox_envelope a now \<noteq> None \<Longrightarrow> spool_copies root now a gs fs \<noteq> None"
  by (induction gs arbitrary: fs) (auto simp: mbox_append_def Let_def)

lemma import_message_some: "import_message opt now raw st \<noteq> None"
proof (cases "parse_article (normalize_import_raw raw)")
  case (Inr a)
  have f: "trim_space (get_header a ''From'') = get_header a ''From''"
    using first_header_trimmed[OF parsed_trimmed[OF Inr]] by (simp add: get_header_def)
  have "spool_copies root now b gs fs \<noteq> None" if "import_groups opt a = (gs, b)" for root gs b fs
    using import_groups_from[OF that] f by (intro spool_copies_some trimmed_envelope) simp
  then show ?thesis
    using Inr by (auto simp: import_message_def import_parsed_def Let_def split: prod.splits sum.splits store_error.splits option.splits)
qed (simp add: import_message_def)

lemma import_messages_some: "import_messages opt now ms st \<noteq> None"
proof (induction ms arbitrary: st)
  case (Cons m ms)
  then show ?case using import_message_some[of opt now m st] by (auto split: option.split)
qed simp

section \<open>What one message does\<close>

lemma post_open:
  assumes "refs_below s" "post_article now n s = (t, r)"
  shows "takes_articles t = takes_articles s \<and> refs_below t"
proof -
  from post_refines[OF assms(1), of now n] assms(2)
  have "sp_open (spool_of t) = sp_open (fst (spool_step (Do_Post now n) (spool_of s)))" "refs_below t"
    by (auto simp: store_step_def split: sum.splits)
  then show ?thesis by (auto simp: spool_step_def Let_def fun_eq_iff set_eq_iff)
qed

lemma ensure_group_rest:
  "art_ref (ensure_group now g d st s) = art_ref s" "m_next_ref (ensure_group now g d st s) = m_next_ref s"
  "in_history (ensure_group now g d st s) = in_history s"
  by (auto simp: ensure_group_def add_group_def put_group_def art_ref_def in_history_def Let_def fun_eq_iff
      split: option.split)

lemma ensure_groups_rest:
  "refs_below (fold (\<lambda>g. ensure_group now g [] ''y'') gs s) = refs_below s"
  "in_history (fold (\<lambda>g. ensure_group now g [] ''y'') gs s) = in_history s"
  by (induction gs arbitrary: s) (simp_all add: ensure_group_rest refs_below_def)

lemma ensure_group_opens: "takes_articles (ensure_group now g [] ''y'' s) h \<longleftrightarrow> h = g \<or> takes_articles s h"
  by (auto simp: ensure_group_def default_status_def new_desc_def takes_articles_def views add_group_views
      fresh_group_def Let_def split: option.splits)

lemma ensure_groups_open: "g \<in> set gs \<Longrightarrow> takes_articles (fold (\<lambda>g. ensure_group now g [] ''y'') gs s) g"
proof (induction gs arbitrary: s)
  case (Cons h gs)
  have "takes_articles t g \<Longrightarrow> takes_articles (fold (\<lambda>g. ensure_group now g [] ''y'') gs t) g" for t
    by (induction gs arbitrary: t) (simp_all add: ensure_group_opens)
  then show ?case using Cons by (auto simp: ensure_group_opens)
qed simp

lemma stats_rest:
  "in_history (record_content_stats now ev s) = in_history s"
  "takes_articles (record_content_stats now ev s) = takes_articles s"
  "refs_below (record_content_stats now ev s) = refs_below s"
proof -
  have "core (record_content_stats now ev s) = core s" by (simp add: record_content_stats_def)
  then show "in_history (record_content_stats now ev s) = in_history s"
    "takes_articles (record_content_stats now ev s) = takes_articles s"
    "refs_below (record_content_stats now ev s) = refs_below s"
    by (auto simp: core_def in_history_def takes_articles_def refs_below_def grp_def art_ref_def fun_eq_iff)
qed

text \<open>Nothing is left to do for a message: it is no article, or its Message-ID is known, or no group takes it.\<close>

definition settled :: "import_opts \<Rightarrow> memory \<Rightarrow> string \<Rightarrow> bool" where
  "settled opt s raw =
     (case parse_article (normalize_import_raw raw) of Inl e \<Rightarrow> True
      | Inr a0 \<Rightarrow>
          let m = trim_space (get_header a0 ''Message-ID''); gs = fst (import_groups opt a0) in
          m = [] \<or> \<not> valid_message_id m \<or> gs = [] \<or> in_history s m
          \<or> \<not> io_create opt \<and> list_all (\<lambda>g. \<not> takes_articles s g) gs)"

definition grown :: "import_opts \<Rightarrow> memory \<Rightarrow> memory \<Rightarrow> bool" where
  "grown opt s t \<longleftrightarrow> (\<forall>m. in_history s m \<longrightarrow> in_history t m) \<and> refs_below t
     \<and> (io_create opt \<or> takes_articles t = takes_articles s)"

lemma grown_trans: "grown opt s t \<Longrightarrow> grown opt t u \<Longrightarrow> grown opt s u"
  by (auto simp: grown_def)

lemma settled_grown: "settled opt s raw \<Longrightarrow> grown opt s t \<Longrightarrow> settled opt t raw"
  by (auto simp: settled_def grown_def Let_def split: sum.splits)

lemma usable_none: "usable_groups s gs = [] \<longleftrightarrow> list_all (\<lambda>g. \<not> takes_articles s g) gs"
  unfolding set_empty[symmetric] usable_are_open by (auto simp: list_all_iff)

lemma handled_simps [simp]:
  "is_store (skipped st) = is_store st" "is_files (skipped st) = is_files st"
  "is_store (duplicate st) = is_store st" "is_files (duplicate st) = is_files st"
  "is_store (imported gs st) = is_store st" "is_files (imported gs st) = is_files st"
  "ir_imported (is_res (skipped st)) = ir_imported (is_res st)"
  "ir_imported (is_res (duplicate st)) = ir_imported (is_res st)"
  "ir_imported (is_res (imported gs st)) = ir_imported (is_res st) + 1"
  "ir_duplicates (is_res (skipped st)) = ir_duplicates (is_res st)"
  "ir_duplicates (is_res (duplicate st)) = ir_duplicates (is_res st) + 1"
  "ir_duplicates (is_res (imported gs st)) = ir_duplicates (is_res st)"
  "ir_skipped (is_res (skipped st)) = ir_skipped (is_res st) + 1"
  "ir_skipped (is_res (duplicate st)) = ir_skipped (is_res st)"
  "ir_skipped (is_res (imported gs st)) = ir_skipped (is_res st)"
  "ir_scanned (is_res (skipped st)) = ir_scanned (is_res st)"
  "ir_scanned (is_res (duplicate st)) = ir_scanned (is_res st)"
  "ir_scanned (is_res (imported gs st)) = ir_scanned (is_res st)"
  by (simp_all add: skipped_def duplicate_def imported_def)

definition same_count :: "import_state \<Rightarrow> import_state \<Rightarrow> bool" where
  "same_count st st' \<longleftrightarrow> ir_imported (is_res st') = ir_imported (is_res st) \<and> is_files st' = is_files st"

definition counted :: "import_result \<Rightarrow> import_result \<Rightarrow> bool" where
  "counted p q \<longleftrightarrow> ir_scanned q = ir_scanned p
     \<and> ir_imported q + ir_duplicates q + ir_skipped q = ir_imported p + ir_duplicates p + ir_skipped p + 1"

lemma import_parsed_step:
  assumes "import_parsed opt now a0 st = Some st'" "refs_below (is_store st)"
    and p: "parse_article (normalize_import_raw raw) = Inr a0"
  shows "settled opt (is_store st') raw \<and> grown opt (is_store st) (is_store st') \<and> counted (is_res st) (is_res st')
    \<and> (settled opt (is_store st) raw \<longrightarrow> same_count st st')"
proof -
  define m where "m = trim_space (get_header a0 ''Message-ID'')"
  obtain gs a where g: "import_groups opt a0 = (gs, a)" by (cases "import_groups opt a0")
  have set_iff: "settled opt s raw \<longleftrightarrow> m = [] \<or> \<not> valid_message_id m \<or> gs = [] \<or> in_history s m
      \<or> \<not> io_create opt \<and> list_all (\<lambda>g. \<not> takes_articles s g) gs" for s
    by (simp add: settled_def p g m_def Let_def)
  show ?thesis
  proof (cases "m = [] \<or> \<not> valid_message_id m \<or> gs = []")
    case True
    then have "st' = skipped st" using assms(1) g by (auto simp: import_parsed_def m_def Let_def split: if_splits)
    then show ?thesis using True assms(2) set_iff by (auto simp: grown_def counted_def same_count_def)
  next
    case False
    define s1 where "s1 = (if io_create opt then fold (\<lambda>g. ensure_group now g [] ''y'') gs (is_store st) else is_store st)"
    have s1: "in_history s1 = in_history (is_store st)" "refs_below s1"
      "io_create opt \<or> s1 = is_store st" "io_create opt \<longrightarrow> (\<forall>g \<in> set gs. takes_articles s1 g)"
      using assms(2) ensure_groups_open by (auto simp: s1_def ensure_groups_rest)
    have n: "n_msgid (import_new_article opt a m gs) = m" "n_groups (import_new_article opt a m gs) = gs"
      by (simp_all add: import_new_article_def case_prod_beta)
    have r: "import_parsed opt now a0 st =
       (let st1 = st\<lparr>is_store := s1\<rparr> in
        if has_message_id m s1 then Some (duplicate st1)
        else case post_article now (import_new_article opt a m gs) s1 of
            (s2, Inl Duplicate_ID) \<Rightarrow> Some (duplicate (st1\<lparr>is_store := s2\<rparr>))
          | (s2, Inl _) \<Rightarrow> Some (skipped (st1\<lparr>is_store := s2\<rparr>))
          | (s2, Inr _) \<Rightarrow>
              let st2 = imported gs (st1\<lparr>is_store := record_content_stats now (import_stats opt a gs) s2\<rparr>)
              in (case io_spool opt of None \<Rightarrow> Some st2
                  | Some root \<Rightarrow> map_option (\<lambda>fs. st2\<lparr>is_files := fs\<rparr>) (spool_copies root now a gs (is_files st2))))"
      using False g by (simp add: import_parsed_def m_def[symmetric] s1_def[symmetric] Let_def)
    show ?thesis
    proof (cases rule: post_article_cases[of s1 "import_new_article opt a m gs" now])
      case dup
      then have "st' = duplicate (st\<lparr>is_store := s1\<rparr>)" using assms(1) r n by (simp add: has_message_id_def Let_def)
      then show ?thesis using dup s1 n set_iff by (auto simp: grown_def counted_def same_count_def)
    next
      case none
      then have "st' = skipped (st\<lparr>is_store := s1\<rparr>)" using assms(1) r n by (simp add: has_message_id_def Let_def)
      moreover have "list_all (\<lambda>g. \<not> takes_articles s1 g) gs" using none(2) n usable_none by simp
      moreover have "\<not> io_create opt"
        using calculation(2) s1(4) False by (cases gs) auto
      ultimately show ?thesis using s1 set_iff by (auto simp: grown_def counted_def same_count_def)
    next
      case (ok res s2)
      let ?s3 = "record_content_stats now (import_stats opt a gs) s2"
      have st': "is_store st' = ?s3" "counted (is_res st) (is_res st')"
        using assms(1) r n ok by (auto simp: has_message_id_def Let_def counted_def split: option.splits)
      have h: "in_history ?s3 k \<longleftrightarrow> k = m \<or> in_history s1 k" for k
        using post_article_history[OF ok(3)] n(1) by (simp add: stats_rest)
      have o: "takes_articles ?s3 = takes_articles s1" "refs_below ?s3"
        using post_open[OF s1(2) ok(3)] by (simp_all add: stats_rest)
      have "\<not> settled opt (is_store st) raw"
        using ok(1,2) n s1 usable_none[of s1 gs] False set_iff by auto
      then show ?thesis using st' h o s1 set_iff by (auto simp: grown_def)
    qed
  qed
qed

definition balanced :: "import_result \<Rightarrow> bool" where
  "balanced r \<longleftrightarrow> ir_scanned r = ir_imported r + ir_duplicates r + ir_skipped r"

lemma import_message_step:
  assumes "import_message opt now raw st = Some st'" "refs_below (is_store st)"
  shows "settled opt (is_store st') raw \<and> grown opt (is_store st) (is_store st')
    \<and> (balanced (is_res st) \<longrightarrow> balanced (is_res st')) \<and> ir_scanned (is_res st') = ir_scanned (is_res st) + 1
    \<and> (settled opt (is_store st) raw \<longrightarrow> same_count st st')"
proof -
  define st1 where "st1 = st\<lparr>is_res := (is_res st)\<lparr>ir_scanned := ir_scanned (is_res st) + 1\<rparr>\<rparr>"
  have st1: "is_store st1 = is_store st" "is_files st1 = is_files st" "ir_scanned (is_res st1) = ir_scanned (is_res st) + 1"
    "ir_imported (is_res st1) = ir_imported (is_res st)" "ir_duplicates (is_res st1) = ir_duplicates (is_res st)"
    "ir_skipped (is_res st1) = ir_skipped (is_res st)"
    by (simp_all add: st1_def)
  show ?thesis
  proof (cases "parse_article (normalize_import_raw raw)")
    case (Inl e)
    then have "st' = skipped st1" using assms(1) by (simp add: import_message_def st1_def)
    then show ?thesis using Inl assms(2) st1 by (simp add: settled_def grown_def balanced_def same_count_def)
  next
    case (Inr a0)
    then have "import_parsed opt now a0 st1 = Some st'" using assms(1) by (simp add: import_message_def st1_def)
    from import_parsed_step[OF this _ Inr] assms(2) st1 show ?thesis
      by (simp add: counted_def balanced_def same_count_def)
  qed
qed

lemma import_messages_step:
  assumes "import_messages opt now ms st = Some st'" "refs_below (is_store st)"
  shows "(\<forall>m \<in> set ms. settled opt (is_store st') m) \<and> grown opt (is_store st) (is_store st')
    \<and> (balanced (is_res st) \<longrightarrow> balanced (is_res st')) \<and> ir_scanned (is_res st') = ir_scanned (is_res st) + length ms
    \<and> ((\<forall>m \<in> set ms. settled opt (is_store st) m) \<longrightarrow> same_count st st')"
  using assms
proof (induction ms arbitrary: st)
  case Nil
  then show ?case by (simp add: grown_def same_count_def)
next
  case (Cons m ms)
  obtain st1 where st1: "import_message opt now m st = Some st1" "import_messages opt now ms st1 = Some st'"
    using Cons.prems(1) by (auto split: option.splits)
  note one = import_message_step[OF st1(1) Cons.prems(2)]
  then have "refs_below (is_store st1)" by (simp add: grown_def)
  note rest = Cons.IH[OF st1(2) this]
  have "settled opt (is_store st') m" using one rest settled_grown by blast
  moreover have "(\<forall>k \<in> set (m # ms). settled opt (is_store st) k) \<longrightarrow> same_count st st'"
    using one rest settled_grown[of opt "is_store st" _ "is_store st1"] by (auto simp: same_count_def)
  ultimately show ?case using one rest grown_trans by auto
qed


definition demo_opts :: import_opts where
  "demo_opts = \<lparr>io_group = ''a.b'', io_restrict = False, io_create = True, io_spool = None, io_hostname = ''h''\<rparr>"


section \<open>Articles without a body\<close>

text \<open>An article without a body does not survive export and import: the reader cuts all line ends at the
  end of a message, with them the empty line after the header, and the import skips what has no
  empty line.\<close>

theorem empty_body_lost:
  assumes "exportable a" "s_body a = []" "s_headers a \<noteq> []" "\<not> has_suffix (s_headers a) CRLF"
    "\<not> contains (s_headers a) (CRLF @ CRLF)" "valid_utf8 (s_headers a)" "CHR 0x00 \<notin> set (s_headers a)"
  shows "import_mbox opt now (export_text [a]) s fs
     = Some \<lparr>is_store = s, is_files = fs, is_res = no_result\<lparr>ir_scanned := 1, ir_skipped := 1\<rparr>\<rparr>"
proof -
  let ?h = "s_headers a"
  have h: "crlf_ok ?h" using assms(1) by (simp add: exportable_def)
  have "stored_unix a = replace_all ?h CRLF [LF] @ [LF] @ [LF]" using assms(2) by (simp add: stored_unix_def)
  then have u: "trim_right (stored_unix a) [LF] = replace_all ?h CRLF [LF]"
    using unix_end[OF h] assms(4) trim_right_last trim_right_snoc[of LF "[LF]"]
    by (metis append_assoc list.set_intros(1))
  have m: "mbox_messages (export_text [a]) = [replace_all ?h CRLF [LF]]"
    using export_messages[of "[a]"] assms(1) u by (simp add: exportable_def)
  have "cut ?h (CRLF @ CRLF) = (?h, [], False)" using assms(5) by (simp add: cut_def contains_def split: option.split)
  then have "parse_article ?h = Inl No_Separator"
    using assms(4) by (simp add: parse_article_def normalize_newlines_id[OF h])
  then show ?thesis
    using m normalize_unix[OF h assms(6,7)]
    by (simp add: import_mbox_def import_message_def skipped_def no_result_def)
qed

theorem empty_body_lost_witness:
  "import_mbox demo_opts 0 (export_text [demo_stored [] ]) new_memory []
     = Some \<lparr>is_store = new_memory, is_files = [], is_res = no_result\<lparr>ir_scanned := 1, ir_skipped := 1\<rparr>\<rparr>"
proof -
  have e: "s_headers (demo_stored []) = ''From: a@b''" "s_body (demo_stored []) = []" by (simp_all add: demo_stored_def)
  have "valid_utf8 ''From: a@b''" by (rule valid_utf8_ascii) (simp add: ascii_def)
  moreover have "\<not> contains ''From: a@b'' (CRLF @ CRLF)" "\<not> has_suffix ''From: a@b'' CRLF"
    by (simp_all add: contains_def has_suffix_def)
  ultimately show ?thesis using empty_body_lost[OF demo_empty_exportable] by (simp add: e)
qed

end
