(* ===== verification/ArchivePath.thy ===== *)
theory ArchivePath
  imports Mbox
begin

text \<open>
  Where the archive keeps its files: the path \<open>internal/archive/mbox.go\<close> gives to a newsgroup, whatever
  its name, lies inside the archive directory, and valid names have files of their own.
\<close>

section \<open>Where the files are\<close>

text \<open>The elements of a cleaned path, and the form they have: names, after parent steps only when the
  path is relative. Cleaning a path keeps its elements.\<close>

definition elements_rev :: "string \<Rightarrow> string list" where
  "elements_rev p = fold (clean_step (has_prefix p ''/'')) (split_on CHR ''/'' p) []"

definition path_elements :: "string \<Rightarrow> string list" where
  "path_elements p = rev (elements_rev p)"

definition name_ok :: "string \<Rightarrow> bool" where
  "name_ok d \<longleftrightarrow> d \<noteq> [] \<and> d \<noteq> ''.'' \<and> d \<noteq> ''..'' \<and> CHR ''/'' \<notin> set d"

definition normal :: "bool \<Rightarrow> string list \<Rightarrow> bool" where
  "normal rooted acc \<longleftrightarrow> (\<exists>ns k. acc = ns @ replicate k ''..'' \<and> list_all name_ok ns \<and> (rooted \<longrightarrow> k = 0))"

lemma normalI: "list_all name_ok ns \<Longrightarrow> (r \<longrightarrow> k = 0) \<Longrightarrow> normal r (ns @ replicate k ''..'')"
  unfolding normal_def by blast

lemma clean_step_name: "name_ok d \<Longrightarrow> clean_step r d acc = d # acc"
  by (simp add: clean_step_def name_ok_def)

lemma fold_names: "list_all name_ok ds \<Longrightarrow> fold (clean_step r) ds acc = rev ds @ acc"
  by (induction ds arbitrary: acc) (simp_all add: clean_step_name)

lemma clean_step_normal: "normal r acc \<Longrightarrow> CHR ''/'' \<notin> set e \<Longrightarrow> normal r (clean_step r e acc)"
proof -
  assume n: "normal r acc" and e: "CHR ''/'' \<notin> set e"
  then obtain ns k where a: "acc = ns @ replicate k ''..''" "list_all name_ok ns" "r \<longrightarrow> k = 0"
    unfolding normal_def by blast
  consider "e = [] \<or> e = ''.''" | "e = ''..''" | "name_ok e" using e by (auto simp: name_ok_def)
  then show ?thesis
  proof cases
    case 1
    then show ?thesis using n by (simp add: clean_step_def)
  next
    case 2
    show ?thesis
    proof (cases ns)
      case Nil
      have "clean_step r e acc = [] @ replicate (if r then 0 else Suc k) ''..''"
        using 2 a Nil by (cases k) (auto simp: clean_step_def)
      then show ?thesis using normalI[of "[]" r "if r then 0 else Suc k"] by (simp only: list.pred_inject) simp
    next
      case (Cons d ds)
      then have "clean_step r e acc = ds @ replicate k ''..''"
        using 2 a by (auto simp: clean_step_def name_ok_def)
      then show ?thesis using a Cons normalI[of ds r k] by simp
    qed
  next
    case 3
    then have "clean_step r e acc = (e # ns) @ replicate k ''..''" using a by (simp add: clean_step_name)
    then show ?thesis using a 3 normalI[of "e # ns" r k] by simp
  qed
qed

lemma fold_normal: "normal r acc \<Longrightarrow> (\<forall>e \<in> set es. CHR ''/'' \<notin> set e) \<Longrightarrow> normal r (fold (clean_step r) es acc)"
  by (induction es arbitrary: acc) (auto intro: clean_step_normal)

lemma normal_elements: "normal (has_prefix p ''/'') (elements_rev p)"
  unfolding elements_rev_def
  by (rule fold_normal) (auto simp: normal_def dest: split_on_no_sep)

lemma fold_parents: "fold (clean_step False) (replicate k ''..'') (replicate j ''..'') = replicate (k + j) ''..''"
proof (induction k arbitrary: j)
  case (Suc k)
  have "clean_step False ''..'' (replicate j ''..'') = replicate (Suc j) ''..''"
    by (cases j) (simp_all add: clean_step_def)
  then show ?case using Suc[of "Suc j"] by (simp del: replicate_Suc add: replicate_Suc[of k])
qed simp

lemma normal_fixed: "normal r acc \<Longrightarrow> fold (clean_step r) (rev acc) [] = acc"
proof -
  assume "normal r acc"
  then obtain ns k where a: "acc = ns @ replicate k ''..''" "list_all name_ok ns" "r \<longrightarrow> k = 0"
    unfolding normal_def by blast
  have "fold (clean_step r) (replicate k ''..'') [] = replicate k ''..''"
    using a(3) fold_parents[of k 0] by (cases r) simp_all
  then show ?thesis using a fold_names[of "rev ns" r "replicate k ''..''"] by simp
qed

lemma normal_no_slash:
  assumes "normal r acc" "e \<in> set acc"
  shows "e \<noteq> [] \<and> CHR ''/'' \<notin> set e"
proof -
  obtain ns k where a: "acc = ns @ replicate k ''..''" "list_all name_ok ns"
    using assms(1) unfolding normal_def by blast
  then have "name_ok e \<or> e = ''..''" using assms(2) by (auto simp: list_all_iff)
  then show ?thesis by (auto simp: name_ok_def)
qed

lemma clean_path_elements: "clean_path p = (if has_prefix p ''/'' then CHR ''/'' # join ''/'' (path_elements p)
    else if path_elements p = [] then ''.'' else join ''/'' (path_elements p))"
  by (simp add: clean_path_def path_elements_def elements_rev_def Let_def)

lemma split_elements: "es \<noteq> [] \<Longrightarrow> (\<forall>e \<in> set es. e \<noteq> [] \<and> CHR ''/'' \<notin> set e) \<Longrightarrow>
   split_on CHR ''/'' (join ''/'' es) = es \<and> \<not> has_prefix (join ''/'' es) ''/'' \<and> join ''/'' es \<noteq> []"
proof -
  assume a: "es \<noteq> []" "\<forall>e \<in> set es. e \<noteq> [] \<and> CHR ''/'' \<notin> set e"
  then obtain c cs ds where "es = (c # cs) # ds" "c \<noteq> CHR ''/''" by (cases es) (auto simp: neq_Nil_conv)
  then show ?thesis using a split_on_join[of es "CHR ''/''"] by (cases ds) auto
qed

lemma elements_clean: "elements_rev (clean_path p) = elements_rev p \<and> has_prefix (clean_path p) ''/'' = has_prefix p ''/''"
proof -
  let ?r = "has_prefix p ''/''" and ?es = "path_elements p"
  have f: "fold (clean_step ?r) ?es [] = elements_rev p"
    using normal_fixed[OF normal_elements] by (simp add: path_elements_def)
  have ns: "\<forall>e \<in> set ?es. e \<noteq> [] \<and> CHR ''/'' \<notin> set e"
    using normal_no_slash[OF normal_elements[of p]] by (simp add: path_elements_def)
  have nil: "?es = [] \<longleftrightarrow> elements_rev p = []" by (simp add: path_elements_def)
  show ?thesis
    using f nil split_elements[OF _ ns]
    by (cases "?es = []"; cases ?r) (simp_all add: clean_path_elements elements_rev_def[of "_ # _"]
        elements_rev_def[of "join _ _"] elements_rev_def[of "''.''"] clean_step_def)
qed

lemma split_on_join_after:
  "(\<forall>e \<in> set es. c \<notin> set e) \<Longrightarrow> split_on c (join [c] (p # es)) = split_on c p @ es"
proof (induction es arbitrary: p)
  case (Cons e es)
  have app: "split_on c (p @ c # t) = split_on c p @ split_on c t" for t
    by (induction p) (auto split: list.splits)
  have "join [c] (p # e # es) = p @ c # join [c] (e # es)" by simp
  then show ?case using Cons app[of "join [c] (e # es)"] split_on_single[of c e] by simp
qed simp

lemma join_names:
  assumes "p \<noteq> []" "\<forall>e \<in> set es. CHR ''/'' \<notin> set e \<and> e \<noteq> ''.'' \<and> e \<noteq> ''..''"
  shows "join_path (p # es) = clean_path (join ''/'' (p # filter (\<lambda>e. e \<noteq> []) es))"
    and "elements_rev (join_path (p # es)) = rev (filter (\<lambda>e. e \<noteq> []) es) @ elements_rev p"
    and "join_path (p # es) \<noteq> []"
proof -
  let ?es = "filter (\<lambda>e. e \<noteq> []) es"
  show j: "join_path (p # es) = clean_path (join ''/'' (p # ?es))"
    using assms(1) by (simp add: join_path_def)
  have n: "list_all name_ok ?es" using assms(2) by (auto simp: list_all_iff name_ok_def)
  have r: "has_prefix (join ''/'' (p # ?es)) ''/'' = has_prefix p ''/''"
    using assms(1) by (cases p; cases ?es) auto
  have s: "split_on CHR ''/'' (join ''/'' (p # ?es)) = split_on CHR ''/'' p @ ?es"
    using assms(2) by (intro split_on_join_after) auto
  show "elements_rev (join_path (p # es)) = rev ?es @ elements_rev p"
    unfolding j elements_clean[THEN conjunct1] unfolding elements_rev_def r s by (simp add: fold_names[OF n])
  have "\<forall>e \<in> set (path_elements q). e \<noteq> [] \<and> CHR ''/'' \<notin> set e" for q
    using normal_no_slash[OF normal_elements[of q]] by (simp add: path_elements_def)
  then show "join_path (p # es) \<noteq> []"
    unfolding j clean_path_elements using split_elements by auto
qed

lemma group_parts:
  assumes "d \<in> set (split_on DOT (replace_all g ''/'' ''.''))"
  shows "CHR ''/'' \<notin> set d \<and> d \<noteq> ''.'' \<and> d \<noteq> ''..'' \<and> CHR ''/'' \<notin> set (d @ ''.mbox'') \<and> name_ok (d @ ''.mbox'')"
proof -
  have "CHR ''/'' \<notin> set d" using split_on_chars[OF assms] by (auto simp: replace_char split: if_splits)
  moreover have "DOT \<notin> set d" using split_on_no_sep[OF assms] .
  moreover have "d @ ''.mbox'' \<noteq> ''..''" "d @ ''.mbox'' \<noteq> ''.''" by (auto dest: arg_cong[where f = length])
  ultimately show ?thesis by (auto simp: name_ok_def)
qed

lemma path_for_elements:
  assumes "root \<noteq> []"
  shows "path_elements (path_for root g) =
    (let ps = split_on DOT (replace_all g ''/'' ''.'')
     in path_elements root @ filter (\<lambda>d. d \<noteq> []) (butlast ps) @ [last ps @ ''.mbox''])"
proof -
  let ?safe = "replace_all g ''/'' ''.''"
  let ?ps = "split_on DOT ?safe"
  have l: "last ?ps \<in> set ?ps" by (rule last_in_set) simp
  have b: "\<forall>e \<in> set (butlast ?ps). CHR ''/'' \<notin> set e \<and> e \<noteq> ''.'' \<and> e \<noteq> ''..''"
    using group_parts[of _ g] by (auto dest: in_set_butlastD)
  have f: "\<forall>e \<in> set [last ?ps @ ''.mbox'']. CHR ''/'' \<notin> set e \<and> e \<noteq> ''.'' \<and> e \<noteq> ''..''"
    using group_parts[OF l] by (auto simp: name_ok_def)
  show ?thesis
  proof (cases "length ?ps = 1")
    case True
    then have ps: "?ps = [last ?ps]" "butlast ?ps = []" by (cases ?ps; simp)+
    have "join [DOT] ?ps = ?safe" by (rule join_split_on)
    then have "last ?ps = ?safe" using ps(1) by (metis join.simps(2))
    then have "path_for root g = join_path [root, last ?ps @ ''.mbox'']" using True by (simp add: path_for_def Let_def)
    then show ?thesis using join_names(2)[OF assms f] ps(2) by (simp add: path_elements_def Let_def)
  next
    case False
    then have "path_for root g = join_path [join_path (root # butlast ?ps), last ?ps @ ''.mbox'']"
      by (simp add: path_for_def Let_def)
    then show ?thesis
      using join_names(2)[OF join_names(3)[OF assms b] f] join_names(2)[OF assms b]
      by (simp add: path_elements_def Let_def)
  qed
qed

lemma slash_no_group_char: "\<not> group_char (CHR ''/'')"
  by code_simp

lemma valid_name_parts:
  assumes "valid_group_name g"
  shows "replace_all g ''/'' ''.'' = g" "filter (\<lambda>d. d \<noteq> []) (butlast (split_on DOT g)) = butlast (split_on DOT g)"
proof -
  have v: "list_all group_char g" "[] \<notin> set (split_on DOT g)" using assms by (simp_all add: valid_group_name_iff)
  then have "[] \<notin> set (butlast (split_on DOT g))" using in_set_butlastD by fast
  then show "filter (\<lambda>d. d \<noteq> []) (butlast (split_on DOT g)) = butlast (split_on DOT g)"
    by (subst filter_id_conv) auto
  have "CHR ''/'' \<notin> set g" using v(1) slash_no_group_char by (auto simp: list_all_iff)
  then show "replace_all g ''/'' ''.'' = g" by (rule replace_char_none)
qed

lemma path_for_inj:
  assumes "root \<noteq> []" "valid_group_name g" "valid_group_name h" "path_for root g = path_for root h"
  shows "g = h"
proof -
  have e: "path_elements (path_for root g) = path_elements root @ butlast (split_on DOT g) @ [last (split_on DOT g) @ ''.mbox'']"
    if "valid_group_name g" for g
    using path_for_elements[OF assms(1), of g] valid_name_parts[OF that] by (simp add: Let_def)
  have "butlast (split_on DOT g) = butlast (split_on DOT h) \<and> last (split_on DOT g) = last (split_on DOT h)"
    using e[OF assms(2)] e[OF assms(3)] assms(4) by simp
  then have "split_on DOT g = split_on DOT h" using append_butlast_last_id split_on_neq_Nil by metis
  then show ?thesis using join_split_on by metis
qed

text \<open>The archive file of any group name, also of one from a hostile Newsgroups header, is inside the
  archive directory: its path has the elements of the directory, then only names, the last one
  ending in .mbox. Two valid group names never share a file.\<close>

theorem archive_path_inside:
  assumes "root \<noteq> []"
  shows "path_elements (path_for root g) =
      path_elements root @ filter (\<lambda>d. d \<noteq> []) (butlast (split_on DOT (replace_all g ''/'' ''.'')))
        @ [last (split_on DOT (replace_all g ''/'' ''.'')) @ ''.mbox'']
    \<and> ''..'' \<notin> set (split_on DOT (replace_all g ''/'' ''.''))
    \<and> (if valid_group_name g \<and> valid_group_name h \<and> g \<noteq> h then path_for root g \<noteq> path_for root h else True)"
  using path_for_elements[OF assms, of g] group_parts[of "''..''" g] path_for_inj[OF assms, of g h]
  by (auto simp: Let_def)

theorem archive_path_inside_witness:
  "path_elements (path_for ''/spool'' ''../../etc/x'') = [''spool'', ''etc'', ''x.mbox'']"
proof -
  have e: "path_elements ''/spool'' = [''spool'']"
    "split_on DOT (replace_all ''../../etc/x'' ''/'' ''.'') = [[], [], [], [], [], [], ''etc'', ''x'']"
    by code_simp+
  show ?thesis using archive_path_inside[of "''/spool''" "''../../etc/x''" "[]"] by (simp add: e)
qed

end
