(* ===== verification/Flags.thy ===== *)
theory Flags
  imports StoreTypes Wildmat Article
begin

text \<open>
  Which articles a peer wants: the newsfeeds flags of \<open>internal/feed/flags.go\<close>, the group
  patterns of \<open>filter.go\<close> and the Path exclusions of \<open>skipPeer\<close> in \<open>feed.go\<close>.
\<close>

section \<open>Flags\<close>

record flags =
  f_raw :: string
  f_max_bytes :: int
  f_min_bytes :: int
  f_exclude_control :: bool
  f_only_control :: bool
  f_need_distrib :: bool
  f_all_exist :: bool
  f_no_filtered :: bool
  f_junk_by_groups :: bool
  f_need_overview :: bool
  f_path_only :: bool
  f_max_cost :: int
  f_max_groups :: int
  f_max_hops :: int
  f_max_followups :: int
  f_moderated_only :: bool
  f_unmoderated_only :: bool

definition no_flags :: "string \<Rightarrow> flags" where
  "no_flags raw = \<lparr>f_raw = raw, f_max_bytes = 0, f_min_bytes = 0, f_exclude_control = False,
     f_only_control = False, f_need_distrib = False, f_all_exist = False, f_no_filtered = False,
     f_junk_by_groups = False, f_need_overview = False, f_path_only = False, f_max_cost = 0,
     f_max_groups = 0, f_max_hops = 0, f_max_followups = 0, f_moderated_only = False,
     f_unmoderated_only = False\<rparr>"

definition a_check :: "flags \<Rightarrow> char \<Rightarrow> flags" where
  "a_check f c =
     (if c = CHR ''c'' then f\<lparr>f_exclude_control := True, f_only_control := False\<rparr>
      else if c = CHR ''C'' then f\<lparr>f_only_control := True, f_exclude_control := False\<rparr>
      else if c = CHR ''d'' then f\<lparr>f_need_distrib := True\<rparr>
      else if c = CHR ''e'' then f\<lparr>f_all_exist := True\<rparr>
      else if c = CHR ''f'' then f\<lparr>f_no_filtered := True\<rparr>
      else if c = CHR ''j'' then f\<lparr>f_junk_by_groups := True\<rparr>
      else if c = CHR ''o'' then f\<lparr>f_need_overview := True\<rparr>
      else if c = CHR ''p'' \<or> c = CHR ''P'' then f\<lparr>f_path_only := True\<rparr>
      else f)"

definition parse_a_checks :: "flags \<Rightarrow> string \<Rightarrow> flags" where
  "parse_a_checks f checks = foldl a_check f checks"

definition positive_limit :: "string \<Rightarrow> (int \<Rightarrow> flags \<Rightarrow> flags) \<Rightarrow> flags \<Rightarrow> flags" where
  "positive_limit s upd f = (case parse_int s of Some n \<Rightarrow> if n > 0 then upd n f else f | None \<Rightarrow> f)"

definition any_limit :: "string \<Rightarrow> (int \<Rightarrow> flags \<Rightarrow> flags) \<Rightarrow> flags \<Rightarrow> flags" where
  "any_limit s upd f = (case parse_int s of Some n \<Rightarrow> upd n f | None \<Rightarrow> f)"

definition parse_flag :: "flags \<Rightarrow> string \<Rightarrow> flags" where
  "parse_flag f part0 =
     (case trim_space part0 of [] \<Rightarrow> f
      | c # rest \<Rightarrow>
        if c = CHR ''<'' then positive_limit rest (\<lambda>n f. f\<lparr>f_max_bytes := n\<rparr>) f
        else if c = CHR ''>'' then positive_limit rest (\<lambda>n f. f\<lparr>f_min_bytes := n\<rparr>) f
        else if c \<in> {CHR ''A'', CHR ''a''} then parse_a_checks f rest
        else if c \<in> {CHR ''C'', CHR ''c''} then any_limit rest (\<lambda>n f. f\<lparr>f_max_cost := n\<rparr>) f
        else if c \<in> {CHR ''G'', CHR ''g''} then any_limit rest (\<lambda>n f. f\<lparr>f_max_groups := n\<rparr>) f
        else if c \<in> {CHR ''H'', CHR ''h''} then
          if rest = [] then f\<lparr>f_max_hops := 1\<rparr>
          else any_limit rest (\<lambda>n f. f\<lparr>f_max_hops := n\<rparr>) f
        else if c \<in> {CHR ''U'', CHR ''u''} then any_limit rest (\<lambda>n f. f\<lparr>f_max_followups := n\<rparr>) f
        else if c \<in> {CHR ''N'', CHR ''n''} then
          if to_lower rest = ''m'' then f\<lparr>f_moderated_only := True\<rparr>
          else if to_lower rest = ''u'' then f\<lparr>f_unmoderated_only := True\<rparr>
          else f
        else f)"

definition parse_flags :: "string \<Rightarrow> flags" where
  "parse_flags raw =
     (let r = trim_space raw in
      if r = [] then no_flags r
      else foldl parse_flag (no_flags r) (split_on CHR '','' r))"

section \<open>The article as the flags see it\<close>

record article_view =
  v_groups :: "string list"
  v_path :: string
  v_distribution :: string
  v_control :: string
  v_followup :: string
  v_bytes :: int
  v_filtered :: bool
  v_status :: "(string \<times> string) list option"

definition view_from_article :: "article option \<Rightarrow> int \<Rightarrow> article_view" where
  "view_from_article a wire_len =
     (case a of
        None \<Rightarrow> \<lparr>v_groups = [], v_path = [], v_distribution = [], v_control = [], v_followup = [],
                 v_bytes = wire_len, v_filtered = False, v_status = None\<rparr>
      | Some art \<Rightarrow>
          \<lparr>v_groups = newsgroups art, v_path = get_header art ''Path'',
           v_distribution = get_header art ''Distribution'', v_control = get_header art ''Control'',
           v_followup = get_header art ''Followup-To'', v_bytes = wire_len, v_filtered = False,
           v_status = None\<rparr>)"

definition followup_group_count :: "article_view \<Rightarrow> int" where
  "followup_group_count v =
     (let ft = trim_space (v_followup v) in
      if ft = [] then int (length (v_groups v))
      else if equal_fold ft ''poster'' then 0
      else int (length (filter (\<lambda>g. trim_space g \<noteq> []) (split_on CHR '','' ft))))"

definition path_hop_count :: "string \<Rightarrow> int" where
  "path_hop_count path0 =
     (let path = trim_space path0 in
      if path = [] then 0
      else int (length (filter (\<lambda>h. trim_space h \<noteq> []) (split_on CHR ''!'' path))))"

text \<open>The two loops over the groups; \<open>st\<close> is the active file.\<close>

definition all_groups_exist :: "(string \<times> string) list \<Rightarrow> string list \<Rightarrow> bool" where
  "all_groups_exist st gs = list_all (\<lambda>g. map_of st g \<noteq> None) gs"

definition moderation_ok :: "flags \<Rightarrow> (string \<times> string) list \<Rightarrow> string list \<Rightarrow> bool" where
  "moderation_ok f st gs =
     list_all (\<lambda>g. case map_of st g of None \<Rightarrow> False
       | Some s \<Rightarrow>
           let m = equal_fold s ''m'' in
           \<not> (f_moderated_only f \<and> \<not> m) \<and> \<not> (f_unmoderated_only f \<and> m)) gs"

definition flags_allow :: "flags \<Rightarrow> article_view \<Rightarrow> bool" where
  "flags_allow f v =
     (let control = trim_space (v_control v) \<noteq> [];
          n = int (length (v_groups v));
          follow = followup_group_count v in
      if f_max_bytes f > 0 \<and> v_bytes v \<ge> f_max_bytes f then False
      else if f_min_bytes f > 0 \<and> v_bytes v \<le> f_min_bytes f then False
      else if f_exclude_control f \<and> control then False
      else if f_only_control f \<and> \<not> control then False
      else if f_need_distrib f \<and> trim_space (v_distribution v) = [] then False
      else if f_no_filtered f \<and> v_filtered v then False
      else if f_max_groups f > 0 \<and> n > f_max_groups f then False
      else if f_max_followups f > 0 \<and> follow > f_max_followups f then False
      else if f_max_cost f > 0 \<and> n + follow * follow > f_max_cost f then False
      else if f_max_hops f > 0 \<and> path_hop_count (v_path v) > f_max_hops f then False
      else if f_all_exist f
          \<and> (case v_status v of None \<Rightarrow> True | Some st \<Rightarrow> \<not> all_groups_exist st (v_groups v)) then False
      else if (f_moderated_only f \<or> f_unmoderated_only f)
          \<and> (case v_status v of None \<Rightarrow> True | Some st \<Rightarrow> \<not> moderation_ok f st (v_groups v)) then False
      else True)"

section \<open>Distributions\<close>

definition has_positive_distrib :: "string list \<Rightarrow> bool" where
  "has_positive_distrib tokens = list_ex (\<lambda>t. \<not> has_prefix t ''!'') tokens"

text \<open>The loop of \<open>distributionTokenAllows\<close>; None means it returned false inside.\<close>

fun dist_scan :: "string list \<Rightarrow> string \<Rightarrow> bool \<Rightarrow> bool option" where
  "dist_scan [] dist matched = Some matched"
| "dist_scan (t # ts) dist matched =
     (if \<not> equal_fold (trim_prefix t ''!'') dist then dist_scan ts dist matched
      else if has_prefix t ''!'' then None
      else dist_scan ts dist True)"

definition distribution_token_allows :: "string list \<Rightarrow> string \<Rightarrow> bool \<Rightarrow> bool" where
  "distribution_token_allows tokens dist has_neg =
     (case dist_scan tokens dist False of
        None \<Rightarrow> False
      | Some matched \<Rightarrow> if matched then True else has_neg \<and> \<not> has_positive_distrib tokens)"

definition trimmed_list :: "string \<Rightarrow> string list" where
  "trimmed_list s = filter (\<lambda>t. t \<noteq> []) (map trim_space (split_on CHR '','' s))"

definition distribution_wanted :: "string \<Rightarrow> string \<Rightarrow> bool" where
  "distribution_wanted distribs0 header0 =
     (let distribs = trim_space distribs0; header = trim_space header0;
          tokens = trimmed_list distribs in
      if distribs = [] then True
      else if header = [] then True
      else if tokens = [] then True
      else
        let has_neg = list_ex (\<lambda>t. has_prefix t ''!'') tokens in
        list_ex (\<lambda>d. distribution_token_allows tokens d has_neg) (trimmed_list header))"

section \<open>What a peer wants\<close>

definition groups_wanted :: "string \<Rightarrow> string list \<Rightarrow> bool" where
  "groups_wanted patterns gs =
     (let pat = (if trim_space patterns = [] then ''*'' else trim_space patterns) in
      if list_ex (poisoned pat) gs then False else match_any pat gs)"

definition peer_wants :: "peer \<Rightarrow> string list \<Rightarrow> bool" where
  "peer_wants p gs = groups_wanted (p_patterns p) gs"

definition peer_wants_article :: "peer \<Rightarrow> article_view \<Rightarrow> bool" where
  "peer_wants_article p v =
     (if \<not> groups_wanted (p_patterns p) (v_groups v) then False
      else if \<not> distribution_wanted (p_distributions p) (v_distribution v) then False
      else flags_allow (parse_flags (p_flags p)) v)"

text \<open>\<open>skipPeer\<close>; the two configuration fields it reads are arguments.\<close>

definition skip_peer :: "string \<Rightarrow> string \<Rightarrow> peer \<Rightarrow> string \<Rightarrow> bool" where
  "skip_peer cfg_hostname cfg_pathhost p path =
     (let host = trim_space (p_host p);
          token = (if trim_space (p_path_token p) = [] then host else trim_space (p_path_token p));
          f = parse_flags (p_flags p);
          name = trim_space (p_name p) in
      if host = [] then True
      else if equal_fold host cfg_hostname \<or> equal_fold host cfg_pathhost then True
      else if list_ex (path_contains path) (split_on CHR '','' token) then True
      else if \<not> f_path_only f \<and> path_contains path host then True
      else if \<not> f_path_only f \<and> name \<noteq> [] \<and> path_contains path name then True
      else if f_path_only f \<and> path_contains path host \<and> equal_fold host token then True
      else path_contains path cfg_pathhost \<and> equal_fold host cfg_pathhost)"

section \<open>Lemmas\<close>

definition flags_inv :: "flags \<Rightarrow> bool" where
  "flags_inv f \<longleftrightarrow> \<not> (f_exclude_control f \<and> f_only_control f) \<and> 0 \<le> f_max_bytes f \<and> 0 \<le> f_min_bytes f"

lemma a_check_inv: "flags_inv f \<Longrightarrow> flags_inv (a_check f c)"
  by (auto simp: flags_inv_def a_check_def)

lemma parse_a_checks_inv: "flags_inv f \<Longrightarrow> flags_inv (parse_a_checks f cs)"
  unfolding parse_a_checks_def by (induction cs arbitrary: f) (simp_all add: a_check_inv)

lemma parse_flag_inv: "flags_inv f \<Longrightarrow> flags_inv (parse_flag f p)"
  by (simp add: parse_flag_def parse_a_checks_inv positive_limit_def any_limit_def split: list.split option.split)
     (simp add: flags_inv_def)

lemma parse_flags_inv: "flags_inv (parse_flags raw)"
proof -
  have "flags_inv f \<Longrightarrow> flags_inv (foldl parse_flag f ps)" for f ps
    by (induction ps arbitrary: f) (simp_all add: parse_flag_inv)
  moreover have "flags_inv (no_flags r)" for r by (simp add: flags_inv_def no_flags_def)
  ultimately show ?thesis by (simp add: parse_flags_def Let_def)
qed

definition token_names :: "string \<Rightarrow> string \<Rightarrow> bool" where
  "token_names dist t \<longleftrightarrow> equal_fold (trim_prefix t ''!'') dist"

lemma dist_scan_None:
  "dist_scan ts dist b = None \<longleftrightarrow> list_ex (\<lambda>t. has_prefix t ''!'' \<and> token_names dist t) ts"
  by (induction ts arbitrary: b) (auto simp: token_names_def)

lemma dist_scan_Some:
  "dist_scan ts dist b = Some m \<Longrightarrow> m \<longleftrightarrow> b \<or> list_ex (token_names dist) ts"
  by (induction ts arbitrary: b) (auto simp: token_names_def split: if_splits)

lemma distribution_token_allows_iff:
  "distribution_token_allows ts d (list_ex (\<lambda>t. has_prefix t ''!'') ts) \<longleftrightarrow>
     \<not> list_ex (\<lambda>t. has_prefix t ''!'' \<and> token_names d t) ts
     \<and> (list_ex (\<lambda>t. \<not> has_prefix t ''!'' \<and> token_names d t) ts
        \<or> ts \<noteq> [] \<and> list_all (\<lambda>t. has_prefix t ''!'') ts)"
proof (cases "dist_scan ts d False")
  case None
  then show ?thesis by (simp add: distribution_token_allows_def flip: dist_scan_None[of ts d False])
next
  case (Some m)
  then have n: "\<not> list_ex (\<lambda>t. has_prefix t ''!'' \<and> token_names d t) ts"
    by (simp flip: dist_scan_None[of ts d False])
  then have "m \<longleftrightarrow> list_ex (\<lambda>t. \<not> has_prefix t ''!'' \<and> token_names d t) ts"
    using dist_scan_Some[OF Some] by (auto simp: list_ex_iff)
  then show ?thesis
    using n Some
    by (auto simp: distribution_token_allows_def has_positive_distrib_def list_ex_iff list_all_iff)
qed

lemma trimmed_list_empty: "trim_space s = [] \<Longrightarrow> trimmed_list (trim_space s) = []"
  by (simp add: trimmed_list_def)

lemma skip_peer_host:
  "path_contains path (trim_space (p_host p)) \<Longrightarrow> \<not> f_path_only (parse_flags (p_flags p)) \<Longrightarrow>
   skip_peer cfg_hostname cfg_pathhost p path"
  by (simp add: skip_peer_def Let_def)

lemma skip_peer_token:
  "trim_space (p_path_token p) \<noteq> [] \<Longrightarrow>
   list_ex (path_contains path) (split_on CHR '','' (trim_space (p_path_token p))) \<Longrightarrow>
   skip_peer cfg_hostname cfg_pathhost p path"
  by (simp add: skip_peer_def Let_def)

section \<open>Properties\<close>

text \<open>No flag string asks both to exclude control messages and to send only them (the last
  of \<open>Ac\<close> and \<open>AC\<close> wins), and the size limits are never negative.\<close>

theorem parse_flags_consistent:
  "\<not> (f_exclude_control (parse_flags raw) \<and> f_only_control (parse_flags raw))
   \<and> 0 \<le> f_max_bytes (parse_flags raw) \<and> 0 \<le> f_min_bytes (parse_flags raw)"
  using parse_flags_inv[of raw] by (simp add: flags_inv_def)

text \<open>An article is wanted by distribution exactly when the peer names none, the article
  carries none, or one of the article's distributions is not negated by the peer and is either
  named by it or the peer lists negations only.\<close>

theorem distribution_wanted_spec:
  "distribution_wanted distribs header \<longleftrightarrow>
     (let tokens = trimmed_list (trim_space distribs); ds = trimmed_list (trim_space header) in
      tokens = [] \<or> trim_space header = []
      \<or> list_ex (\<lambda>d. \<not> list_ex (\<lambda>t. has_prefix t ''!'' \<and> token_names d t) tokens
           \<and> (list_ex (\<lambda>t. \<not> has_prefix t ''!'' \<and> token_names d t) tokens
              \<or> list_all (\<lambda>t. has_prefix t ''!'') tokens)) ds)"
  using trimmed_list_empty[of distribs]
  by (cases "trimmed_list (trim_space distribs)")
     (simp_all only: distribution_wanted_def Let_def distribution_token_allows_iff, auto)

text \<open>One poisoned group keeps the whole article from the peer, whatever the flags, the
  distributions and the other groups.\<close>

theorem poison_rejects_article:
  assumes "g \<in> set (v_groups v)" "poisoned (trim_space (p_patterns p)) g"
  shows "\<not> peer_wants_article p v"
proof -
  have "trim_space (p_patterns p) \<noteq> []" using assms(2) by (auto simp: poisoned_def)
  then show ?thesis
    using assms by (auto simp: peer_wants_article_def groups_wanted_def list_ex_iff Let_def)
qed

theorem poison_rejects_article_witness:
  "\<not> peer_wants_article
     \<lparr>p_id = 1, p_name = [], p_path_token = [], p_incoming = [], p_host = ''h'', p_port = 119,
      p_patterns = ''*,@a.b'', p_distributions = [], p_flags = [], p_enabled = True,
      p_in_password = [], p_out_password = [], p_notes = [], p_created = 0\<rparr>
     \<lparr>v_groups = [''c'', ''a.b''], v_path = [], v_distribution = [], v_control = [], v_followup = [],
      v_bytes = 10, v_filtered = False, v_status = None\<rparr>"
proof (rule poison_rejects_article[where g = "''a.b''"])
  show "poisoned (trim_space (p_patterns \<lparr>p_id = 1, p_name = [], p_path_token = [], p_incoming = [],
      p_host = ''h'', p_port = 119, p_patterns = ''*,@a.b'', p_distributions = [], p_flags = [],
      p_enabled = True, p_in_password = [], p_out_password = [], p_notes = [], p_created = 0\<rparr>)) ''a.b''"
    by code_simp
qed simp

end
