(* ===== verification/Feeder.thy ===== *)
theory Feeder
  imports Flags Handlers
begin

text \<open>
  The outgoing feed, \<open>internal/feed/feed.go\<close> and \<open>stream.go\<close>: queueing an accepted article for the peers that
  want it, draining the queue, and the conversation with a peer. What a peer sends on a connection
  is a string the client reads from; dialling is an argument. Writing to a connection succeeds.
  \<open>Offer\<close> also starts a drain in the background, which is a step of its own here.
\<close>

section \<open>The conversation\<close>

record link =
  k_in :: string
  k_out :: string

datatype feed_error =
    Dial_Failed string | Conn_Error io_error | Bad_Greeting string | Auth_User_Failed string | Auth_Pass_Failed string
  | Check_Deferred string | Check_Failed string | Takethis_Failed string
  | Ihave_Deferred string | After_Transfer string | Ihave_Failed string

definition io_error_text :: "io_error \<Rightarrow> string" where
  "io_error_text e = (case e of
     EOF \<Rightarrow> ''EOF'' | Too_Long \<Rightarrow> ''line too long'' | Short_Reply l \<Rightarrow> ''short reply '' @ go_quote l
   | Bad_Reply l \<Rightarrow> ''bad reply '' @ go_quote l | Write_Failed \<Rightarrow> ''write failed'')"

definition feed_error_text :: "feed_error \<Rightarrow> string" where
  "feed_error_text e = (case e of
     Dial_Failed s \<Rightarrow> s | Conn_Error i \<Rightarrow> io_error_text i | Bad_Greeting l \<Rightarrow> ''greeting '' @ l
   | Auth_User_Failed l \<Rightarrow> ''AUTHINFO USER '' @ l | Auth_Pass_Failed l \<Rightarrow> ''AUTHINFO PASS '' @ l
   | Check_Deferred l \<Rightarrow> ''peer deferred CHECK: '' @ l | Check_Failed l \<Rightarrow> ''CHECK '' @ l
   | Takethis_Failed l \<Rightarrow> ''TAKETHIS '' @ l | Ihave_Deferred l \<Rightarrow> ''peer deferred: '' @ l
   | After_Transfer l \<Rightarrow> ''after transfer '' @ l | Ihave_Failed l \<Rightarrow> ''IHAVE '' @ l)"

definition say :: "string \<Rightarrow> link \<Rightarrow> link" where
  "say line k = k\<lparr>k_out := k_out k @ raw_text line\<rparr>"

definition say_block :: "string \<Rightarrow> link \<Rightarrow> link" where
  "say_block b k = k\<lparr>k_out := k_out k @ dot_block b\<rparr>"

text \<open>Waits for a reply and goes on with its code and line.\<close>

definition hear :: "(nat \<Rightarrow> string \<Rightarrow> link \<Rightarrow> link \<times> (feed_error + 'a)) \<Rightarrow> link \<Rightarrow> link \<times> (feed_error + 'a)" where
  "hear f k =
     (case read_reply (k_in k) of
        (Inl e, inp) \<Rightarrow> (k\<lparr>k_in := inp\<rparr>, Inl (Conn_Error e))
      | (Inr (code, line), inp) \<Rightarrow> f code line (k\<lparr>k_in := inp\<rparr>))"

definition ihave_transfer :: "string \<Rightarrow> string \<Rightarrow> link \<Rightarrow> link \<times> (feed_error + bool)" where
  "ihave_transfer msgid w k =
     hear (\<lambda>code line k1.
       if code = 335 then
         hear (\<lambda>code line k2.
           if code = 235 then (k2, Inr True)
           else if code \<in> {435, 437} then (k2, Inr False)
           else if code = 436 then (k2, Inl (Ihave_Deferred line))
           else (k2, Inl (After_Transfer line))) (say_block w k1)
       else if code \<in> {435, 437} then (k1, Inr False)
       else if code = 436 then (k1, Inl (Ihave_Deferred line))
       else (k1, Inl (Ihave_Failed line))) (say (''IHAVE '' @ msgid) k)"

definition streaming_transfer :: "string \<Rightarrow> string \<Rightarrow> link \<Rightarrow> link \<times> (feed_error + bool)" where
  "streaming_transfer msgid w k =
     hear (\<lambda>code line k1.
       if code = 238 then
         hear (\<lambda>code line k2.
           if code = 239 then (k2, Inr True)
           else if code = 439 then (k2, Inr False)
           else (k2, Inl (Takethis_Failed line))) (say_block w (say (''TAKETHIS '' @ msgid) k1))
       else if code = 438 then (k1, Inr False)
       else if code = 431 then (k1, Inl (Check_Deferred line))
       else if code \<in> {500, 501} then ihave_transfer msgid w k1
       else (k1, Inl (Check_Failed line))) (say (''CHECK '' @ msgid) k)"

text \<open>The lines of the capability list up to the closing dot.\<close>

function streaming_listed :: "bool \<Rightarrow> string \<Rightarrow> string \<times> (feed_error + bool)" where
  "streaming_listed found inp =
     (case read_line max_command inp of
        (Inl e, inp') \<Rightarrow> (inp', Inl (Conn_Error e))
      | (Inr l, inp') \<Rightarrow>
          if l = ''.'' then (inp', Inr found)
          else
            let fs = str_fields (trim_prefix l ''.'')
            in streaming_listed (found \<or> (fs \<noteq> [] \<and> equal_fold (hd fs) ''STREAMING'')) inp')"
  by pat_completeness auto
termination by (relation "measure (\<lambda>(found, inp). length inp)") (auto dest: read_line_shorter[OF sym])

declare streaming_listed.simps [simp del]

definition peer_supports_streaming :: "link \<Rightarrow> link \<times> (feed_error + bool)" where
  "peer_supports_streaming k =
     hear (\<lambda>code line k1.
       if code \<noteq> 101 then (k1, Inr False)
       else case streaming_listed False (k_in k1) of (inp, r) \<Rightarrow> (k1\<lparr>k_in := inp\<rparr>, r)) (say ''CAPABILITIES'' k)"

definition auth_peer :: "string \<Rightarrow> peer \<Rightarrow> link \<Rightarrow> link \<times> (feed_error + unit)" where
  "auth_peer cfg_pathhost p k =
     (let pass = trim_space (p_out_password p);
          name = trim_space (p_name p); usr = (if name = [] then cfg_pathhost else name) in
      if pass = [] then (k, Inr ())
      else
        hear (\<lambda>code line k1.
          if code \<noteq> 381 then (k1, Inl (Auth_User_Failed line))
          else
            hear (\<lambda>code line k2.
              if code \<noteq> 281 then (k2, Inl (Auth_Pass_Failed line)) else (k2, Inr ()))
              (say (''AUTHINFO PASS '' @ pass) k1))
          (say (''AUTHINFO USER '' @ usr) k))"

definition quit_link :: "link \<Rightarrow> link" where
  "quit_link k = (case read_reply (k_in k) of (_, inp) \<Rightarrow> (say ''QUIT'' k)\<lparr>k_in := inp\<rparr>)"

text \<open>\<open>dialled\<close> is what dialling the peer gives: an error, or what the peer will send.\<close>

definition deliver_article :: "string \<Rightarrow> peer \<Rightarrow> string \<Rightarrow> string \<Rightarrow> string + string \<Rightarrow> link \<times> (feed_error + bool)" where
  "deliver_article cfg_pathhost p msgid w dialled =
     (case dialled of
        Inl err \<Rightarrow> (\<lparr>k_in = [], k_out = []\<rparr>, Inl (Dial_Failed err))
      | Inr inp \<Rightarrow>
          hear (\<lambda>code line k1.
            if code \<noteq> 200 \<and> code \<noteq> 201 then (k1, Inl (Bad_Greeting line))
            else case auth_peer cfg_pathhost p k1 of
              (k2, Inl e) \<Rightarrow> (k2, Inl e)
            | (k2, Inr _) \<Rightarrow>
                (case peer_supports_streaming k2 of
                   (k3, Inl e) \<Rightarrow> (k3, Inl e)
                 | (k3, Inr streaming) \<Rightarrow>
                     (case (if streaming then streaming_transfer else ihave_transfer) msgid w k3 of
                        (k4, Inl e) \<Rightarrow> (k4, Inl e)
                      | (k4, Inr accepted) \<Rightarrow> (quit_link k4, Inr accepted))))
            \<lparr>k_in = inp, k_out = []\<rparr>)"

section \<open>Queueing\<close>

definition peer_addr :: "peer \<Rightarrow> string" where
  "peer_addr p =
     (let port = format_int (if p_port p \<le> 0 then 119 else p_port p); h = p_host p in
      if CHR '':'' \<in> set h \<or> CHR ''%'' \<in> set h then ''['' @ h @ '']:'' @ port else h @ '':'' @ port)"

text \<open>The status of the groups the store has; None for Go's nil map.\<close>

definition group_status :: "memory \<Rightarrow> string list \<Rightarrow> (string \<times> string) list option" where
  "group_status s gs =
     (if gs = [] then None
      else Some (fold (\<lambda>g m. case get_group g s of None \<Rightarrow> m | Some gi \<Rightarrow> AList.update g (g_status gi) m) gs []))"

record feeder =
  fd_store :: memory
  fd_offered :: int
  fd_ok :: int
  fd_fail :: int
  fd_last :: string

definition offer_view :: "memory \<Rightarrow> string \<Rightarrow> string list \<Rightarrow> string \<Rightarrow> article_view" where
  "offer_view s path gs w =
     (let n = int (length w);
          v0 = (view_from_article None n)\<lparr>v_groups := gs, v_path := path\<rparr>;
          v = (case parse_article w of
                 Inl e \<Rightarrow> v0
               | Inr a \<Rightarrow>
                   let v1 = view_from_article (Some a) n;
                       v2 = (if path \<noteq> [] then v1\<lparr>v_path := path\<rparr> else v1)
                   in (if gs \<noteq> [] then v2\<lparr>v_groups := gs\<rparr> else v2))
      in v\<lparr>v_status := group_status s (v_groups v)\<rparr>)"

definition offer_to :: "server_cfg \<Rightarrow> int \<Rightarrow> string \<Rightarrow> article_view \<Rightarrow> peer \<Rightarrow> feeder \<Rightarrow> feeder" where
  "offer_to cfg now msgid v p f =
     (if skip_peer (sv_hostname cfg) (sv_pathhost cfg) p (v_path v) then f
      else if \<not> peer_wants_article p v then f
      else f\<lparr>fd_store := enqueue_feed now (p_id p) msgid (fd_store f), fd_offered := fd_offered f + 1\<rparr>)"

definition offer_article :: "server_cfg \<Rightarrow> int \<Rightarrow> string \<Rightarrow> string \<Rightarrow> string list \<Rightarrow> string \<Rightarrow> feeder \<Rightarrow> feeder" where
  "offer_article cfg now msgid path gs w f =
     (if msgid = [] then f
      else fold (offer_to cfg now msgid (offer_view (fd_store f) path gs w)) (list_enabled_peers (fd_store f)) f)"

section \<open>Draining\<close>

definition retry_backoff :: "int \<Rightarrow> int" where
  "retry_backoff attempts =
     (let d = wrap64 (attempts * minute);
          d1 = (if d < 30 * second then 30 * second else d)
      in if d1 > 30 * minute then 30 * minute else d1)"

definition peer_label :: "int \<Rightarrow> peer option \<Rightarrow> string" where
  "peer_label k p =
     (case p of Some q \<Rightarrow> if p_name q \<noteq> [] then p_name q else ''peer '' @ format_int k
      | None \<Rightarrow> ''peer '' @ format_int k)"

definition delivery_view :: "memory \<Rightarrow> string \<Rightarrow> article_view" where
  "delivery_view s w =
     (let v = view_from_article (case parse_article w of Inl e \<Rightarrow> None | Inr a \<Rightarrow> Some a) (int (length w))
      in v\<lparr>v_status := group_status s (v_groups v)\<rparr>)"

text \<open>\<open>dial\<close> answers for the item that is delivered. The result is the store (the item of a disabled peer is
  completed here already), and an error or whether the peer took the article, with a summary.\<close>

definition deliver :: "server_cfg \<Rightarrow> (feed_item \<Rightarrow> peer \<Rightarrow> string + string) \<Rightarrow> feed_item \<Rightarrow> memory \<Rightarrow>
    memory \<times> (feed_error + bool \<times> string)" where
  "deliver cfg dial it s =
     (let label = peer_label (fq_peer it) (get_peer (fq_peer it) s); m = fq_msgid it in
      case get_peer (fq_peer it) s of
        None \<Rightarrow> (complete_feed (fq_id it) s, Inr (False, ''not sent '' @ m @ '' -> '' @ label @ '' (peer disabled)''))
      | Some p \<Rightarrow>
          if \<not> p_enabled p
          then (complete_feed (fq_id it) s, Inr (False, ''not sent '' @ m @ '' -> '' @ label @ '' (peer disabled)''))
          else case get_by_msgid m s of
            None \<Rightarrow> (s, Inr (False, ''not sent '' @ m @ '' -> '' @ label @ '' (article missing)''))
          | Some a \<Rightarrow>
              let w = s_headers a @ CRLF @ CRLF @ s_body a in
              if \<not> peer_wants_article p (delivery_view s w)
              then (s, Inr (False, ''not sent '' @ m @ '' -> '' @ label @ '' (patterns/flags)''))
              else case snd (deliver_article (sv_pathhost cfg) p m w (dial it p)) of
                Inl e \<Rightarrow> (s, Inl e)
              | Inr accepted \<Rightarrow>
                  (s, Inr (accepted, (if accepted then ''accepted '' else ''refused '') @ m @ '' -> '' @ label
                     @ '' ('' @ peer_addr p @ '')'')))"

definition drain_item :: "server_cfg \<Rightarrow> (feed_item \<Rightarrow> peer \<Rightarrow> string + string) \<Rightarrow> (feed_item \<Rightarrow> int) \<Rightarrow> feed_item \<Rightarrow> feeder \<Rightarrow> feeder" where
  "drain_item cfg dial clock it f =
     (case deliver cfg dial it (fd_store f) of
        (s, Inl e) \<Rightarrow>
          f\<lparr>fd_store := fail_feed (clock it) (fq_id it) (feed_error_text e) (retry_backoff (fq_attempts it)) s,
            fd_fail := fd_fail f + 1,
            fd_last := ''error '' @ fq_msgid it @ '' -> peer '' @ format_int (fq_peer it) @ '': '' @ feed_error_text e\<rparr>
      | (s, Inr (accepted, summary)) \<Rightarrow>
          f\<lparr>fd_store := complete_feed (fq_id it) s,
            fd_last := (if summary \<noteq> [] then summary else fd_last f),
            fd_ok := (if accepted then fd_ok f + 1 else fd_ok f)\<rparr>)"

definition drain_once :: "server_cfg \<Rightarrow> (feed_item \<Rightarrow> peer \<Rightarrow> string + string) \<Rightarrow> (feed_item \<Rightarrow> int) \<Rightarrow> int \<Rightarrow> feeder \<Rightarrow> feeder" where
  "drain_once cfg dial clock now f =
     (case claim_feed_due now 32 (fd_store f) of
        (s, items) \<Rightarrow> fold (drain_item cfg dial clock) items (f\<lparr>fd_store := s\<rparr>))"

end
