(* ===== verification/FeederLaws.thy ===== *)
theory FeederLaws
  imports Feeder
begin

text \<open>
  What the outgoing feed promises: an accepted article waits for exactly the peers that want it, and an
  offer leaves the queue only when the peer has answered or there is nothing to send; a failed one
  is tried again after a bounded time.
\<close>

section \<open>Offering\<close>

lemma offer_to_store: "fd_store (offer_to cfg now m v p f)
   = (if \<not> skip_peer (sv_hostname cfg) (sv_pathhost cfg) p (v_path v) \<and> peer_wants_article p v
      then enqueue_feed now (p_id p) m (fd_store f) else fd_store f)"
  by (simp add: offer_to_def)

lemma offers_pending:
  "feed_sound (fd_store f) \<Longrightarrow>
   feed_sound (fd_store (fold (offer_to cfg now m v) ps f)) \<and>
   feed_pending (fd_store (fold (offer_to cfg now m v) ps f)) q k =
     (if k = m \<and> (\<exists>p \<in> set ps. p_id p = q \<and> \<not> skip_peer (sv_hostname cfg) (sv_pathhost cfg) p (v_path v) \<and> peer_wants_article p v)
      then 1 else feed_pending (fd_store f) q k)"
proof (induction ps arbitrary: f)
  case (Cons p ps)
  have "feed_sound (fd_store (offer_to cfg now m v p f))"
    using Cons.prems fq.enqueue_sound by (simp add: offer_to_store)
  from Cons.IH[OF this] show ?case
    using Cons.prems fq.enqueue_pending[of "fd_store f" now "p_id p" m] by (auto simp: offer_to_store)
qed simp

section \<open>Draining\<close>

definition ticket :: "feed_item \<Rightarrow> int \<times> int \<times> string" where
  "ticket it = (fq_id it, feed_key it)"

definition quiet :: "memory \<Rightarrow> memory" where
  "quiet s = s\<lparr>m_feed_q := []\<rparr>"

lemma quiet_reads:
  "get_peer k (quiet s) = get_peer k s" "get_by_msgid m (quiet s) = get_by_msgid m s"
  "get_group g (quiet s) = get_group g s" "group_status (quiet s) gs = group_status s gs"
  by (simp_all add: quiet_def get_peer_def get_by_msgid_def get_group_def group_status_def art_ref_def obj_def[abs_def] grp_def)

lemma quiet_steps:
  "quiet (complete_feed k s) = quiet s" "quiet (fail_feed now k e t s) = quiet s" "quiet (fst (claim_feed_due now n s)) = quiet s"
  by (simp_all add: quiet_def complete_feed_def fail_feed_def claim_feed_due_def Let_def case_prod_beta)

definition settles :: "server_cfg \<Rightarrow> (feed_item \<Rightarrow> peer \<Rightarrow> string + string) \<Rightarrow> memory \<Rightarrow> feed_item \<Rightarrow> bool" where
  "settles cfg dial s it \<longleftrightarrow> (case snd (deliver cfg dial it s) of Inl e \<Rightarrow> False | Inr r \<Rightarrow> True)"

lemma delivery_view_quiet: "delivery_view (quiet s) w = delivery_view s w"
  by (simp add: delivery_view_def quiet_reads Let_def)

lemma deliver_quiet: "snd (deliver cfg dial it (quiet s)) = snd (deliver cfg dial it s)"
  by (simp add: deliver_def quiet_reads delivery_view_quiet Let_def split: option.split sum.split)

lemma deliver_store: "fst (deliver cfg dial it s) = s \<or> fst (deliver cfg dial it s) = complete_feed (fq_id it) s \<and> settles cfg dial s it"
  by (simp add: settles_def deliver_def Let_def split: option.split sum.split)

lemma drain_item_store:
  "(if settles cfg dial (fd_store f) it then fd_store (drain_item cfg dial clock it f) = complete_feed (fq_id it) (fd_store f)
    else \<exists>e. fd_store (drain_item cfg dial clock it f)
        = fail_feed (clock it) (fq_id it) e (retry_backoff (fq_attempts it)) (fd_store f))"
proof -
  have "complete_feed k (complete_feed k s) = complete_feed k s" for k s by (simp add: complete_feed_def)
  then show ?thesis
    using deliver_store[of cfg dial it "fd_store f"]
    by (cases "deliver cfg dial it (fd_store f)") (auto simp: drain_item_def settles_def split: sum.splits prod.splits)
qed

lemma tickets_fail: "map ticket (m_feed_q (fail_feed now i e t s)) = map ticket (m_feed_q s)"
proof -
  have "map ticket (fail_first k g q) = map ticket q" if "\<And>it. ticket (g it) = ticket it" for k g q
    using that by (induction q) simp_all
  then show ?thesis by (simp add: fail_feed_def Let_def ticket_def feed_key_def)
qed

lemma tickets_claim: "map ticket (m_feed_q (fst (claim_feed_due now n s))) = map ticket (m_feed_q s)"
proof -
  have "claim_loop now k q = (q', out) \<Longrightarrow> map ticket q' = map ticket q" for k q q' out
    by (induction now k q arbitrary: q' out rule: claim_loop.induct) (auto simp: ticket_def split: if_splits prod.splits)
  then show ?thesis by (auto simp: claim_feed_due_def Let_def split: prod.split)
qed

text \<open>The offers that wait, as pairs of peer and Message-ID.\<close>

definition waiting :: "memory \<Rightarrow> (int \<times> string) set" where
  "waiting s = feed_key ` set (m_feed_q s)"

lemma drain_item_waiting:
  assumes "feed_sound (fd_store f)" "ticket it \<in> ticket ` set (m_feed_q (fd_store f))"
  shows "feed_sound (fd_store (drain_item cfg dial clock it f))"
    and "quiet (fd_store (drain_item cfg dial clock it f)) = quiet (fd_store f)"
    and "waiting (fd_store (drain_item cfg dial clock it f))
       = (if settles cfg dial (fd_store f) it then waiting (fd_store f) - {feed_key it} else waiting (fd_store f))"
    and "ticket ` set (m_feed_q (fd_store f)) - {ticket it} \<subseteq> ticket ` set (m_feed_q (fd_store (drain_item cfg dial clock it f)))"
proof -
  let ?s = "fd_store f" and ?t = "fd_store (drain_item cfg dial clock it f)"
  obtain e where t: "?t = (if settles cfg dial ?s it then complete_feed (fq_id it) ?s
      else fail_feed (clock it) (fq_id it) e (retry_backoff (fq_attempts it)) ?s)"
    using drain_item_store[of cfg dial f it clock] by (auto split: if_splits)
  show "feed_sound ?t" using assms(1) fq.complete_sound fq.fail_sound by (simp add: t)
  show "quiet ?t = quiet ?s" by (simp add: t quiet_steps)
  have u: "x \<in> set (m_feed_q ?s) \<Longrightarrow> fq_id x = fq_id it \<longleftrightarrow> feed_key x = feed_key it" for x
    using assms unfolding feed_sound_def ticket_def by (auto simp: distinct_map inj_on_def)
  then have "feed_key ` set (filter (\<lambda>x. fq_id x \<noteq> fq_id it) (m_feed_q ?s)) = waiting ?s - {feed_key it}"
    by (auto simp: waiting_def)
  moreover have "waiting (fail_feed n i e k ?s) = waiting ?s" for n i e k
    using arg_cong[OF fail_feed_queue(1)[of n i e k ?s], of set] by (simp add: waiting_def)
  ultimately show "waiting ?t = (if settles cfg dial ?s it then waiting ?s - {feed_key it} else waiting ?s)"
    by (simp add: t) (simp add: waiting_def complete_feed_def)
  have "ticket ` set (m_feed_q (fail_feed n i e k ?s)) = ticket ` set (m_feed_q ?s)" for n i e k
    using arg_cong[OF tickets_fail[of n i e k ?s], of set] by simp
  moreover have "ticket ` set (m_feed_q ?s) - {ticket it} \<subseteq> ticket ` set (m_feed_q (complete_feed (fq_id it) ?s))"
    using u by (auto simp: complete_feed_def ticket_def)
  ultimately show "ticket ` set (m_feed_q ?s) - {ticket it} \<subseteq> ticket ` set (m_feed_q ?t)" by (simp add: t)
qed

lemma drain_items_waiting:
  assumes "feed_sound (fd_store f)" "distinct (map ticket items)" "ticket ` set items \<subseteq> ticket ` set (m_feed_q (fd_store f))"
  shows "feed_sound (fd_store (fold (drain_item cfg dial clock) items f))
    \<and> waiting (fd_store (fold (drain_item cfg dial clock) items f))
      = waiting (fd_store f) - {feed_key it | it. it \<in> set items \<and> settles cfg dial (fd_store f) it}"
  using assms
proof (induction items arbitrary: f)
  case (Cons it items)
  let ?g = "drain_item cfg dial clock it f"
  have it: "ticket it \<in> ticket ` set (m_feed_q (fd_store f))" using Cons.prems(3) by auto
  note d = drain_item_waiting[OF Cons.prems(1) it, of cfg dial clock]
  have "ticket ` set items \<subseteq> ticket ` set (m_feed_q (fd_store f)) - {ticket it}" using Cons.prems(2,3) by auto
  then have "ticket ` set items \<subseteq> ticket ` set (m_feed_q (fd_store ?g))" using d(4) by (rule order_trans)
  note ih = Cons.IH[OF d(1) _ this]
  have "settles cfg dial (fd_store ?g) i = settles cfg dial (fd_store f) i" for i
    using deliver_quiet[of cfg dial i "fd_store ?g"] deliver_quiet[of cfg dial i "fd_store f"] d(2)
    by (simp add: settles_def)
  then have "waiting (fd_store (fold (drain_item cfg dial clock) items ?g))
      = waiting (fd_store ?g) - {feed_key i | i. i \<in> set items \<and> settles cfg dial (fd_store f) i}"
    using ih Cons.prems(2) by simp
  moreover have "feed_sound (fd_store (fold (drain_item cfg dial clock) items ?g))" using ih Cons.prems(2) by simp
  moreover have "{feed_key i | i. i \<in> set (it # items) \<and> settles cfg dial (fd_store f) i}
    = (if settles cfg dial (fd_store f) it then {feed_key it} else {})
      \<union> {feed_key i | i. i \<in> set items \<and> settles cfg dial (fd_store f) i}" by auto
  ultimately show ?case using d(3) by (simp add: Diff_eq Int_assoc)
qed simp

lemma claimed_tickets: "feed_sound s \<Longrightarrow> distinct (map ticket (snd (claim_feed_due now n s)))
   \<and> ticket ` set (snd (claim_feed_due now n s)) \<subseteq> ticket ` set (m_feed_q (fst (claim_feed_due now n s)))"
proof -
  assume s: "feed_sound s"
  have d: "claim_loop now k q = (q', out) \<Longrightarrow> distinct (map fq_id q) \<Longrightarrow>
      distinct (map fq_id out) \<and> fq_id ` set out \<subseteq> fq_id ` set q" for k q q' out
    by (induction now k q arbitrary: q' out rule: claim_loop.induct) (fastforce split: if_splits prod.splits)+
  have "distinct (map fq_id (snd (claim_feed_due now n s)))"
    using s d by (auto simp: claim_feed_due_def Let_def feed_sound_def split: prod.split)
  then have "distinct (map ticket (snd (claim_feed_due now n s)))"
    unfolding distinct_map inj_on_def ticket_def by auto
  then show ?thesis using claim_feed_due_queue(4)[of now n s] by auto
qed

text \<open>C16: an accepted article is queued, once, for exactly the enabled peers that want it: those that are not
  on its Path and whose patterns, distributions and flags admit it; other offers are not touched.\<close>

theorem offer_queues_exactly:
  assumes "feed_sound (fd_store f)" "m \<noteq> []"
  shows "feed_sound (fd_store (offer_article cfg now m path gs w f)) \<and>
    feed_pending (fd_store (offer_article cfg now m path gs w f)) q k =
     (let v = offer_view (fd_store f) path gs w in
      if k = m \<and> list_ex (\<lambda>p. p_id p = q \<and> \<not> skip_peer (sv_hostname cfg) (sv_pathhost cfg) p (v_path v) \<and> peer_wants_article p v)
           (list_enabled_peers (fd_store f))
      then 1 else feed_pending (fd_store f) q k)"
  using offers_pending[OF assms(1)] assms(2) by (auto simp: offer_article_def Let_def list_ex_iff)

definition demo_server :: server_cfg where
  "demo_server = \<lparr>sv_hostname = ''h'', sv_organization = [], sv_pathhost = ''h''\<rparr>"

definition demo_peer :: peer where
  "demo_peer = \<lparr>p_id = 1, p_name = ''b'', p_path_token = [], p_incoming = [], p_host = ''b.example'', p_port = 119,
     p_patterns = ''a'', p_distributions = [], p_flags = [], p_enabled = True, p_in_password = [],
     p_out_password = [], p_notes = [], p_created = 0\<rparr>"

definition demo_feeder :: feeder where
  "demo_feeder = \<lparr>fd_store = demo_feed\<lparr>m_peers := [(1, demo_peer)]\<rparr>, fd_offered = 0, fd_ok = 0, fd_fail = 0, fd_last = []\<rparr>"

lemma demo_feeder_sound: "feed_sound (fd_store demo_feeder)"
  using demo_feed_sound by (simp add: demo_feeder_def feed_sound_def)

theorem offer_queues_exactly_witness:
  "feed_pending (fd_store (offer_article demo_server 9 ''<c@x>'' ''x!y'' [''a''] [] demo_feeder)) 1 ''<c@x>'' = 1"
proof -
  let ?v = "offer_view (fd_store demo_feeder) ''x!y'' [''a''] []"
  have "list_ex (\<lambda>p. p_id p = 1 \<and> \<not> skip_peer ''h'' ''h'' p (v_path ?v) \<and> peer_wants_article p ?v)
      (list_enabled_peers (fd_store demo_feeder))" by code_simp
  then show ?thesis using offer_queues_exactly[OF demo_feeder_sound, of "''<c@x>''" demo_server 9 "''x!y''" "[''a'']" "[]" 1 "''<c@x>''"]
    by (simp add: demo_server_def Let_def)
qed



end
