(* ===== verification/Inpaths.thy ===== *)
theory Inpaths
  imports GoScan GoNet GoTime GoSort
begin

text \<open>
  Statistics of the hops of Path headers and their dump files, \<open>internal/inpaths/stats.go\<close> and \<open>dump.go\<close>, and
  the directory of pending paths and dump files of \<open>logger.go\<close>, whose files can be read and written. Whether
  a rune above ASCII is a letter (\<open>unicode.IsLetter\<close>) is the argument \<open>ul\<close>. A count is an \<open>int\<close>: the number of
  articles stays far below the range of the machine's integers. The clock is an argument.
\<close>

section \<open>Counting\<close>

record path_stats =
  ps_sites :: "string list"
  ps_idx :: "(string \<times> nat) list"
  ps_count :: "(string \<times> int) list"
  ps_rels :: "(string \<times> int) list"
  ps_articles :: int
  ps_start :: int
  ps_end :: int

definition new_stats :: "int \<Rightarrow> path_stats" where
  "new_stats now =
     \<lparr>ps_sites = [], ps_idx = [], ps_count = [], ps_rels = [], ps_articles = 0, ps_start = now, ps_end = now\<rparr>"

definition is_letter :: "(nat \<Rightarrow> bool) \<Rightarrow> nat \<Rightarrow> bool" where
  "is_letter ul r = (if r < 128 then 65 \<le> r \<and> r \<le> 90 \<or> 97 \<le> r \<and> r \<le> 122 else ul r)"

definition hop_ok :: "(nat \<Rightarrow> bool) \<Rightarrow> string \<Rightarrow> bool" where
  "hop_ok ul hop =
     (let h = trim_space hop
      in h \<noteq> [] \<and> \<not> equal_fold h ''not-for-mail'' \<and> list_ex (is_letter ul) (runes h))"

definition parse_hops :: "(nat \<Rightarrow> bool) \<Rightarrow> string \<Rightarrow> string list" where
  "parse_hops ul path =
     (let p = trim_space path in if p = [] then [] else filter (hop_ok ul) (split_on CHR ''!'' p))"

definition site_index :: "string \<Rightarrow> path_stats \<Rightarrow> nat \<times> path_stats" where
  "site_index name s =
     (case map_of (ps_idx s) name of
        Some i \<Rightarrow> (i, s)
      | None \<Rightarrow>
          (let i = length (ps_sites s)
           in (i, s\<lparr>ps_sites := ps_sites s @ [name], ps_idx := AList.update name i (ps_idx s)\<rparr>)))"

text \<open>\<open>m[k] += n\<close>.\<close>

definition bump :: "string \<Rightarrow> int \<Rightarrow> (string \<times> int) list \<Rightarrow> (string \<times> int) list" where
  "bump k n m = AList.update k ((case map_of m k of None \<Rightarrow> 0 | Some v \<Rightarrow> v) + n) m"

definition add_site :: "string \<Rightarrow> int \<Rightarrow> path_stats \<Rightarrow> path_stats" where
  "add_site h n s = snd (site_index h (s\<lparr>ps_count := bump h n (ps_count s)\<rparr>))"

definition rel_key :: "string \<Rightarrow> string \<Rightarrow> string" where
  "rel_key a b = a @ CHR ''!'' # b"

text \<open>The keys of consecutive hops, from the last pair to the first.\<close>

definition hop_pairs :: "string list \<Rightarrow> string list" where
  "hop_pairs hops = rev (map2 (\<lambda>b a. rel_key a b) hops (tl hops))"

definition add_rel :: "string \<Rightarrow> int \<Rightarrow> path_stats \<Rightarrow> path_stats" where
  "add_rel k n s = s\<lparr>ps_rels := bump k n (ps_rels s)\<rparr>"

definition add_path :: "(nat \<Rightarrow> bool) \<Rightarrow> int \<Rightarrow> string \<Rightarrow> path_stats \<Rightarrow> path_stats" where
  "add_path ul now path s =
     (let hops = parse_hops ul path
      in if hops = [] then s
         else
           let s1 = s\<lparr>ps_start := (if ps_articles s = 0 then now else ps_start s), ps_end := now,
                      ps_articles := ps_articles s + 1\<rparr>;
               s2 = fold (\<lambda>h. add_site h 1) hops s1
           in fold (\<lambda>k. add_rel k 1) (hop_pairs hops) s2)"

text \<open>\<open>None\<close> is the nil pointer.\<close>

definition merge_stats :: "path_stats option \<Rightarrow> path_stats \<Rightarrow> path_stats" where
  "merge_stats other s =
     (case other of
        None \<Rightarrow> s
      | Some t \<Rightarrow>
          if ps_articles t = 0 then s
          else
            let s1 = s\<lparr>ps_start := (if ps_articles s = 0 then ps_start t
                                   else if ps_start t < ps_start s then ps_start t else ps_start s)\<rparr>;
                s2 = s1\<lparr>ps_end := (if ps_end s1 < ps_end t then ps_end t else ps_end s1),
                        ps_articles := ps_articles s1 + ps_articles t\<rparr>;
                s3 = fold (\<lambda>(name, n). add_site name n) (ps_count t) s2
            in fold (\<lambda>(k, n). add_rel k n) (ps_rels t) s3)"

section \<open>Dumps\<close>

definition unix_seconds :: "int \<Rightarrow> int" where
  "unix_seconds t = t div second"

text \<open>Go's division, which rounds towards zero.\<close>

definition half_of :: "int \<Rightarrow> int" where
  "half_of n = (if 0 \<le> n then n div 2 else - ((- n) div 2))"

definition split_rel_key :: "string \<Rightarrow> (string \<times> string) option" where
  "split_rel_key key =
     (case index_of key ''!'' of
        None \<Rightarrow> None
      | Some i \<Rightarrow> if i = 0 then None else Some (take i key, drop (i + 1) key))"

definition sorted_rel_keys :: "(string \<times> int) list \<Rightarrow> string list" where
  "sorted_rel_keys m = exchange_sort (map fst m)"

definition map_int :: "(string \<times> int) list \<Rightarrow> string \<Rightarrow> int" where
  "map_int m k = (case map_of m k of None \<Rightarrow> 0 | Some v \<Rightarrow> v)"

definition rel_piece :: "path_stats \<Rightarrow> string \<Rightarrow> string list" where
  "rel_piece s key =
     (case split_rel_key key of
        None \<Rightarrow> []
      | Some (a, b) \<Rightarrow>
          (case (map_of (ps_idx s) a, map_of (ps_idx s) b) of
             (Some i, Some j) \<Rightarrow>
               (let n = map_int (ps_rels s) key
                in [CHR '':'' # format_int (int i) @ CHR ''!'' # format_int (int j) @
                    (if n = 1 then [] else CHR '','' # format_int n)])
           | _ \<Rightarrow> []))"

definition dump_header :: "path_stats \<Rightarrow> string list" where
  "dump_header s =
     (let a = unix_seconds (ps_start s); b = unix_seconds (ps_end s)
      in [''!!NINP'', ''3.1.1'', format_int a, format_int b, format_int (int (length (ps_sites s))),
          format_int (ps_articles s), format_int (half_of (a + b))])"

definition dump_sites :: "path_stats \<Rightarrow> string list" where
  "dump_sites s = concat (map (\<lambda>name. [name, format_int (map_int (ps_count s) name)]) (ps_sites s))"

definition dump_rels :: "path_stats \<Rightarrow> string" where
  "dump_rels s =
     (let ps = concat (map (rel_piece s) (sorted_rel_keys (ps_rels s)))
      in if ps = [] then '':'' else join '':'' ps)"

text \<open>\<open>None\<close> is the error that no paths were recorded.\<close>

definition write_dump :: "path_stats \<Rightarrow> string option" where
  "write_dump s =
     (if ps_articles s = 0 then None
      else Some (join '' '' (dump_header s) @ [LF] @ join '' '' (dump_sites s) @ [LF] @ ''!!NLREC'' @ [LF] @
                 dump_rels s @ [LF] @ ''!!NEND '' @ format_int (int (length (ps_rels s))) @ [LF]))"

datatype dump_error = Empty_Dump | Bad_Header | Short_Header | Line_Too_Long

fun next_non_empty :: "string list \<Rightarrow> string \<times> string list" where
  "next_non_empty [] = ([], [])"
| "next_non_empty (l # ls) = (let t = trim_space l in if t \<noteq> [] then (t, ls) else next_non_empty ls)"

definition set_site :: "string \<Rightarrow> int \<Rightarrow> path_stats \<Rightarrow> path_stats" where
  "set_site name n s = (let s1 = snd (site_index name s) in s1\<lparr>ps_count := AList.update name n (ps_count s1)\<rparr>)"

fun read_sites :: "string list \<Rightarrow> path_stats \<Rightarrow> path_stats" where
  "read_sites (name # n # parts) s = read_sites parts (set_site name (atoi_value n) s)"
| "read_sites _ s = s"

fun read_site_lines :: "string list \<Rightarrow> path_stats \<Rightarrow> string list \<times> path_stats" where
  "read_site_lines [] s = ([], s)"
| "read_site_lines (l # ls) s =
     (let t = trim_space l
      in if t = [] then read_site_lines ls s
         else if has_prefix t ''!!NLREC'' then (ls, s)
         else read_site_lines ls (read_sites (str_fields t) s))"

fun rel_text :: "string list \<Rightarrow> string" where
  "rel_text [] = []"
| "rel_text (l # ls) = (let t = trim_space l in if has_prefix t ''!!NEND'' then [] else t @ rel_text ls)"

definition part_count :: "string \<Rightarrow> string \<times> int" where
  "part_count p =
     (case last_index CHR '','' p of
        None \<Rightarrow> (p, 1)
      | Some j \<Rightarrow>
          if j = 0 then (p, 1)
          else (case parse_int (drop (j + 1) p) of None \<Rightarrow> (p, 1) | Some n \<Rightarrow> (take j p, n)))"

definition parse_part :: "string \<Rightarrow> path_stats \<Rightarrow> path_stats" where
  "parse_part part0 s =
     (let part = trim_space part0
      in if part = [] then s
         else
           let (p, n) = part_count part;
               idx = split_on CHR ''!'' p
           in if length idx < 2 then s
              else (case (parse_int (idx ! 0), parse_int (idx ! 1)) of
                      (Some a, Some b) \<Rightarrow>
                        if a < 0 \<or> b < 0 \<or> int (length (ps_sites s)) \<le> a \<or> int (length (ps_sites s)) \<le> b then s
                        else add_rel (rel_key (ps_sites s ! nat a) (ps_sites s ! nat b)) n s
                    | _ \<Rightarrow> s))"

definition parse_relations :: "string \<Rightarrow> path_stats \<Rightarrow> path_stats" where
  "parse_relations blob0 s =
     (let b = trim_space blob0
      in if b = [] \<or> b = '':'' then s
         else fold parse_part (split_on CHR '':'' (if has_prefix b '':'' then b else CHR '':'' # b)) s)"

definition read_dump :: "int \<Rightarrow> string \<Rightarrow> dump_error + path_stats" where
  "read_dump now inp =
     (let (ls, bad) = scan_lines scan_limit inp;
          (line, rest) = next_non_empty ls
      in if line = [] then Inl Empty_Dump
         else if \<not> has_prefix line ''!!NINP '' then Inl Bad_Header
         else
           let f = str_fields line
           in if length f < 7 then Inl Short_Header
              else
                let s0 = (new_stats now)\<lparr>ps_start := atoi_value (f ! 2) * second, ps_end := atoi_value (f ! 3) * second,
                           ps_articles := atoi_value (f ! 5)\<rparr>;
                    (rest2, s1) = read_site_lines rest s0;
                    s2 = parse_relations (rel_text rest2) s1
                in if bad then Inl Line_Too_Long else Inr s2)"

text \<open>\<open>Report\<close>.\<close>

definition report :: "string \<Rightarrow> path_stats \<Rightarrow> string option" where
  "report host s =
     map_option (\<lambda>d. (if host = [] then [] else ''Path statistics from '' @ host @ [LF, LF]) @ d) (write_dump s)"

section \<open>The log of Path headers\<close>

text \<open>The directory of a \<open>Logger\<close>: the file \<open>pending\<close>, and the dump files with the times they were written.\<close>

record path_log =
  pl_pending :: "string option"
  pl_dumps :: "(string \<times> int \<times> string) list"

definition dump_prefix :: string where
  "dump_prefix = ''inpaths.''"

definition record_path :: "string \<Rightarrow> path_log \<Rightarrow> path_log" where
  "record_path path l =
     (let p = trim_space path
      in if p = [] then l
         else l\<lparr>pl_pending := Some ((case pl_pending l of None \<Rightarrow> [] | Some f \<Rightarrow> f) @ p @ [LF])\<rparr>)"

text \<open>The lines of the pending file that are not blank. The scanner's error is ignored.\<close>

definition pending_lines :: "path_log \<Rightarrow> string list" where
  "pending_lines l =
     (case pl_pending l of
        None \<Rightarrow> []
      | Some f \<Rightarrow> filter (\<lambda>t. t \<noteq> []) (map trim_space (fst (scan_lines scan_limit f))))"

definition pending_articles :: "path_log \<Rightarrow> nat" where
  "pending_articles l = length (pending_lines l)"

definition load_pending :: "(nat \<Rightarrow> bool) \<Rightarrow> int \<Rightarrow> path_log \<Rightarrow> path_stats" where
  "load_pending ul now l = fold (add_path ul now) (pending_lines l) (new_stats now)"

text \<open>\<open>None\<close> is the error that there are no paths to flush. A dump of the same second is overwritten.\<close>

definition flush :: "(nat \<Rightarrow> bool) \<Rightarrow> int \<Rightarrow> path_log \<Rightarrow> (string \<times> path_log) option" where
  "flush ul now l =
     (let st = load_pending ul now l
      in if ps_articles st = 0 then None
         else
           let name = dump_prefix @ format_int (unix_seconds now)
           in (case write_dump st of
                 None \<Rightarrow> None
               | Some d \<Rightarrow> Some (name, l\<lparr>pl_pending := None, pl_dumps := AList.update name (now, d) (pl_dumps l)\<rparr>)))"

definition list_dumps :: "path_log \<Rightarrow> string list" where
  "list_dumps l = rev (sort (filter (\<lambda>n. has_prefix n dump_prefix) (map fst (pl_dumps l))))"

definition load_dump :: "int \<Rightarrow> int \<Rightarrow> path_log \<Rightarrow> string \<Rightarrow> path_stats \<Rightarrow> path_stats" where
  "load_dump now max_age l name out =
     (case map_of (pl_dumps l) name of
        None \<Rightarrow> out
      | Some (mtime, text1) \<Rightarrow>
          if 0 < max_age \<and> mtime < now - max_age then out
          else (case read_dump now text1 of Inl e \<Rightarrow> out | Inr st \<Rightarrow> merge_stats (Some st) out))"

definition load_dumps :: "int \<Rightarrow> int \<Rightarrow> path_log \<Rightarrow> path_stats" where
  "load_dumps now max_age l = fold (load_dump now max_age l) (list_dumps l) (new_stats now)"

definition prune_dumps :: "int \<Rightarrow> int \<Rightarrow> path_log \<Rightarrow> nat \<times> path_log" where
  "prune_dumps now keep l =
     (if keep \<le> 0 then (0, l)
      else
        let old = filter (\<lambda>n. case map_of (pl_dumps l) n of None \<Rightarrow> False | Some (mtime, _) \<Rightarrow> mtime < now - keep) (list_dumps l)
        in (length old, l\<lparr>pl_dumps := filter (\<lambda>(n, _). n \<notin> set old) (pl_dumps l)\<rparr>))"

end
