(* ===== verification/InpathsLaws.thy ===== *)
theory InpathsLaws
  imports Inpaths
begin

text \<open>
  Path statistics: the tables of sites, counts and relations stay consistent under every operation, a dump file
  is read back to the statistics it was written from, and merging adds the counts up.
\<close>

section \<open>Consistency\<close>

definition known_rel :: "string list \<Rightarrow> string \<Rightarrow> bool" where
  "known_rel sites k \<longleftrightarrow> (\<exists>a \<in> set sites. \<exists>b \<in> set sites. k = rel_key a b)"

text \<open>Sites are numbered in the order of their first hop, every site has a count, and relations join known sites.\<close>

definition stats_wf :: "path_stats \<Rightarrow> bool" where
  "stats_wf s \<longleftrightarrow>
     distinct (ps_sites s) \<and> ps_idx s = zip (ps_sites s) [0..<length (ps_sites s)]
     \<and> distinct (map fst (ps_count s)) \<and> set (map fst (ps_count s)) = set (ps_sites s)
     \<and> distinct (map fst (ps_rels s)) \<and> (\<forall>k \<in> set (map fst (ps_rels s)). known_rel (ps_sites s) k)"

lemma idx_keys: "ps_idx s = zip (ps_sites s) [0..<length (ps_sites s)] \<Longrightarrow> fst ` set (ps_idx s) = set (ps_sites s)"
  by (metis length_upt map_fst_zip minus_nat.diff_0 set_map)

lemma known_rel_mono: "known_rel xs k \<Longrightarrow> set xs \<subseteq> set ys \<Longrightarrow> known_rel ys k"
  by (auto simp: known_rel_def)

lemma site_position:
  "distinct xs \<Longrightarrow> i < length xs \<Longrightarrow> map_of (zip xs [0..<length xs]) (xs ! i) = Some i"
  by (simp add: map_of_zip_nth)

lemma site_index_known:
  "ps_idx s = zip (ps_sites s) [0..<length (ps_sites s)] \<Longrightarrow> h \<in> set (ps_sites s) \<Longrightarrow> snd (site_index h s) = s"
  using idx_keys[of s] by (auto simp: site_index_def map_of_eq_None_iff split: option.splits)

lemma site_index_new:
  "ps_idx s = zip (ps_sites s) [0..<length (ps_sites s)] \<Longrightarrow> h \<notin> set (ps_sites s) \<Longrightarrow>
   snd (site_index h s) = s\<lparr>ps_sites := ps_sites s @ [h], ps_idx := zip (ps_sites s @ [h]) [0..<length (ps_sites s @ [h])]\<rparr>"
proof -
  assume i: "ps_idx s = zip (ps_sites s) [0..<length (ps_sites s)]" and h: "h \<notin> set (ps_sites s)"
  then have n: "map_of (ps_idx s) h = None" using idx_keys[OF i] by (simp add: map_of_eq_None_iff)
  have "AList.update h (length (ps_sites s)) (ps_idx s) = ps_idx s @ [(h, length (ps_sites s))]"
    using idx_keys[OF i] h by (intro update_new) simp
  then have "site_index h s = (length (ps_sites s), s\<lparr>ps_sites := ps_sites s @ [h], ps_idx := ps_idx s @ [(h, length (ps_sites s))]\<rparr>)"
    by (simp add: site_index_def n Let_def)
  then show ?thesis by (simp add: i)
qed

lemma bump_keys [simp]: "fst ` set (bump k n m) = insert k (fst ` set m)"
  using keys_update[of k _ m] by (simp add: bump_def)

lemma bump_distinct: "distinct (map fst m) \<Longrightarrow> distinct (map fst (bump k n m))"
  by (simp add: bump_def distinct_keys_update)

lemma map_int_bump: "map_int (bump k n m) x = map_int m x + (if x = k then n else 0)"
  by (simp add: map_int_def bump_def split: option.splits)

lemma add_site_wf: "stats_wf s \<Longrightarrow> stats_wf (add_site h n s)"
proof (cases "h \<in> set (ps_sites s)")
  case True
  assume w: "stats_wf s"
  have "add_site h n s = s\<lparr>ps_count := bump h n (ps_count s)\<rparr>"
    unfolding add_site_def using w True by (intro site_index_known) (auto simp: stats_wf_def)
  then show ?thesis using w True by (auto simp: stats_wf_def bump_distinct)
next
  case False
  assume w: "stats_wf s"
  have "add_site h n s = s\<lparr>ps_count := bump h n (ps_count s), ps_sites := ps_sites s @ [h],
      ps_idx := zip (ps_sites s @ [h]) [0..<length (ps_sites s @ [h])]\<rparr>"
    unfolding add_site_def using w False by (subst site_index_new) (auto simp: stats_wf_def)
  moreover have "known_rel (ps_sites s @ [h]) k" if "k \<in> set (map fst (ps_rels s))" for k
    using that w known_rel_mono[of "ps_sites s" k "ps_sites s @ [h]"] by (auto simp: stats_wf_def)
  ultimately show ?thesis using w False by (auto simp: stats_wf_def bump_distinct)
qed

lemma add_site_sites: "stats_wf s \<Longrightarrow> set (ps_sites (add_site h n s)) = insert h (set (ps_sites s))"
proof (cases "h \<in> set (ps_sites s)")
  case True
  assume w: "stats_wf s"
  have "add_site h n s = s\<lparr>ps_count := bump h n (ps_count s)\<rparr>"
    unfolding add_site_def using w True by (intro site_index_known) (auto simp: stats_wf_def)
  then show ?thesis using True by auto
next
  case False
  assume w: "stats_wf s"
  then show ?thesis unfolding add_site_def using False by (subst site_index_new) (auto simp: stats_wf_def)
qed

lemma add_site_rest [simp]:
  "ps_rels (add_site h n s) = ps_rels s" "ps_articles (add_site h n s) = ps_articles s"
  "ps_start (add_site h n s) = ps_start s" "ps_end (add_site h n s) = ps_end s"
  "ps_count (add_site h n s) = bump h n (ps_count s)"
  by (auto simp: add_site_def site_index_def Let_def split: option.splits)

lemma add_rel_wf: "stats_wf s \<Longrightarrow> known_rel (ps_sites s) k \<Longrightarrow> stats_wf (add_rel k n s)"
  by (auto simp: stats_wf_def add_rel_def bump_distinct)

lemma fold_add_site_wf:
  "stats_wf s \<Longrightarrow> stats_wf (fold (\<lambda>(h, n). add_site h n) hs s)
     \<and> set (ps_sites (fold (\<lambda>(h, n). add_site h n) hs s)) = fst ` set hs \<union> set (ps_sites s)"
  by (induction hs arbitrary: s) (auto simp: add_site_wf add_site_sites split: prod.splits)

lemma add_rel_sites [simp]: "ps_sites (add_rel k n s) = ps_sites s" "ps_idx (add_rel k n s) = ps_idx s"
  "ps_count (add_rel k n s) = ps_count s" "ps_articles (add_rel k n s) = ps_articles s"
  "ps_start (add_rel k n s) = ps_start s" "ps_end (add_rel k n s) = ps_end s"
  "ps_rels (add_rel k n s) = bump k n (ps_rels s)"
  by (simp_all add: add_rel_def)

lemma fold_add_rel_wf:
  "stats_wf s \<Longrightarrow> \<forall>(k, n) \<in> set ks. known_rel (ps_sites s) k \<Longrightarrow> stats_wf (fold (\<lambda>(k, n). add_rel k n) ks s)"
  by (induction ks arbitrary: s) (auto simp: add_rel_wf split: prod.splits)

lemma fold_pairs: "fold (\<lambda>h. f h (1 :: int)) hs s = fold (\<lambda>(h, n). f h n) (map (\<lambda>h. (h, 1)) hs) s"
  by (simp add: fold_map comp_def)

lemma hop_pairs_known: "k \<in> set (hop_pairs hs) \<Longrightarrow> known_rel hs k"
proof -
  assume "k \<in> set (hop_pairs hs)"
  then obtain a b where k: "k = rel_key a b" "(b, a) \<in> set (zip hs (tl hs))" by (auto simp: hop_pairs_def)
  have "b \<in> set hs" using set_zip_leftD[OF k(2)] .
  moreover have "a \<in> set hs" using set_zip_rightD[OF k(2)] by (cases hs) auto
  ultimately have "a \<in> set hs" "b \<in> set hs" by auto
  then show ?thesis using k(1) by (auto simp: known_rel_def)
qed

lemma add_path_wf: "stats_wf s \<Longrightarrow> stats_wf (add_path ul now p s)"
proof -
  assume w: "stats_wf s"
  let ?hs = "parse_hops ul p"
  let ?s = "s\<lparr>ps_start := (if ps_articles s = 0 then now else ps_start s), ps_end := now, ps_articles := ps_articles s + 1\<rparr>"
  let ?t = "fold (\<lambda>(h, n). add_site h n) (map (\<lambda>h. (h, 1)) ?hs) ?s"
  have "stats_wf ?s" using w by (simp add: stats_wf_def)
  from fold_add_site_wf[OF this, of "map (\<lambda>h. (h, 1)) ?hs"]
  have t: "stats_wf ?t" "set ?hs \<subseteq> set (ps_sites ?t)" by (auto simp: image_image)
  have "known_rel (ps_sites ?t) k" if "k \<in> set (hop_pairs ?hs)" for k
    using hop_pairs_known[OF that] t(2) by (rule known_rel_mono)
  then have "stats_wf (fold (\<lambda>(k, n). add_rel k n) (map (\<lambda>k. (k, 1)) (hop_pairs ?hs)) ?t)"
    by (intro fold_add_rel_wf t(1)) auto
  then show ?thesis using w by (simp add: add_path_def Let_def fold_pairs)
qed

lemma merge_wf: "stats_wf s \<Longrightarrow> stats_wf t \<Longrightarrow> stats_wf (merge_stats (Some t) s)"
proof (cases "ps_articles t = 0")
  case False
  assume w: "stats_wf s" "stats_wf t"
  define s2 where "s2 = (let s1 = s\<lparr>ps_start := (if ps_articles s = 0 then ps_start t
                                   else if ps_start t < ps_start s then ps_start t else ps_start s)\<rparr>
            in s1\<lparr>ps_end := (if ps_end s1 < ps_end t then ps_end t else ps_end s1),
                  ps_articles := ps_articles s1 + ps_articles t\<rparr>)"
  have "stats_wf s2" using w(1) by (simp add: stats_wf_def s2_def Let_def)
  from fold_add_site_wf[OF this, of "ps_count t"]
  have t: "stats_wf (fold (\<lambda>(h, n). add_site h n) (ps_count t) s2)"
    "set (ps_sites t) \<subseteq> set (ps_sites (fold (\<lambda>(h, n). add_site h n) (ps_count t) s2))"
    using w(2) by (auto simp: stats_wf_def)
  have "stats_wf (fold (\<lambda>(k, n). add_rel k n) (ps_rels t) (fold (\<lambda>(h, n). add_site h n) (ps_count t) s2))"
  proof (intro fold_add_rel_wf t(1), clarify)
    fix k n assume "(k, n) \<in> set (ps_rels t)"
    then have "known_rel (ps_sites t) k" using w(2) by (auto simp: stats_wf_def)
    then show "known_rel (ps_sites (fold (\<lambda>(h, n). add_site h n) (ps_count t) s2)) k"
      using t(2) by (rule known_rel_mono)
  qed
  then show ?thesis using False by (simp add: merge_stats_def Let_def s2_def)
qed (simp add: merge_stats_def)

lemma set_site_wf: "stats_wf s \<Longrightarrow> stats_wf (set_site h n s)"
proof (cases "h \<in> set (ps_sites s)")
  case True
  assume w: "stats_wf s"
  then have "snd (site_index h s) = s" using True by (intro site_index_known) (auto simp: stats_wf_def)
  moreover have "set (map fst (AList.update h n (ps_count s))) = set (ps_sites s)"
    using w True unfolding keys_update by (auto simp: stats_wf_def)
  ultimately show ?thesis using w by (simp add: set_site_def Let_def stats_wf_def distinct_keys_update)
next
  case False
  assume w: "stats_wf s"
  have "set (map fst (AList.update h n (ps_count s))) = set (ps_sites s @ [h])"
    using w False unfolding keys_update by (auto simp: stats_wf_def)
  moreover have "known_rel (ps_sites s @ [h]) k" if "k \<in> set (map fst (ps_rels s))" for k
    using that w known_rel_mono[of "ps_sites s" k "ps_sites s @ [h]"] by (auto simp: stats_wf_def)
  moreover have "snd (site_index h s) = s\<lparr>ps_sites := ps_sites s @ [h], ps_idx := zip (ps_sites s @ [h]) [0..<length (ps_sites s @ [h])]\<rparr>"
    using w False by (intro site_index_new) (auto simp: stats_wf_def)
  ultimately show ?thesis using w False by (simp add: set_site_def Let_def stats_wf_def distinct_keys_update)
qed

lemma read_sites_wf: "stats_wf s \<Longrightarrow> stats_wf (read_sites parts s)"
  by (induction parts s rule: read_sites.induct) (auto simp: set_site_wf)

lemma read_site_lines_wf: "stats_wf s \<Longrightarrow> stats_wf (snd (read_site_lines ls s))"
  by (induction ls s rule: read_site_lines.induct) (auto simp: read_sites_wf Let_def)

lemma parse_part_wf: "stats_wf s \<Longrightarrow> stats_wf (parse_part p s)"
  by (auto simp: parse_part_def Let_def known_rel_def intro!: add_rel_wf split: prod.splits option.splits)
     (metis nat_less_iff not_le nth_mem)

lemma parse_relations_wf: "stats_wf s \<Longrightarrow> stats_wf (parse_relations b s)"
proof -
  have f: "stats_wf s \<Longrightarrow> stats_wf (fold parse_part ps s)" for ps s
    by (induction ps arbitrary: s) (auto simp: parse_part_wf)
  show "stats_wf s \<Longrightarrow> stats_wf (parse_relations b s)" by (simp add: parse_relations_def Let_def f)
qed

lemma new_stats_wf: "stats_wf (new_stats now)"
  by (simp add: stats_wf_def new_stats_def)

lemma read_dump_wf: "read_dump now d = Inr s \<Longrightarrow> stats_wf s"
proof -
  assume r: "read_dump now d = Inr s"
  obtain ls bad where l: "scan_lines scan_limit d = (ls, bad)" by fastforce
  obtain line rest where n: "next_non_empty ls = (line, rest)" by fastforce
  have "stats_wf (s0\<lparr>ps_start := a, ps_end := b, ps_articles := c\<rparr>)" if "stats_wf s0" for s0 a b c
    using that by (simp add: stats_wf_def)
  then have w: "stats_wf ((new_stats now)\<lparr>ps_start := a, ps_end := b, ps_articles := c\<rparr>)" for a b c
    using new_stats_wf by blast
  obtain f0 f1 rest2 s1 where f: "read_site_lines rest f0 = (rest2, s1)" "stats_wf f0" "s = parse_relations f1 s1"
    using r w by (auto simp: read_dump_def l n Let_def split: if_splits prod.splits)
  have "stats_wf s1" using read_site_lines_wf[OF f(2), of rest] f(1) by simp
  then show ?thesis using f(3) by (simp add: parse_relations_wf)
qed

section \<open>Round trip\<close>

abbreviation int64 :: "int \<Rightarrow> bool" where
  "int64 n \<equiv> - (2 ^ 63) \<le> n \<and> n < 2 ^ 63"

text \<open>
  Statistics a dump can carry: consistent, sites that are words of ASCII characters without an exclamation mark,
  numbers of 64 bits, and lines that fit the reader's buffer.
\<close>

definition dumpable :: "path_stats \<Rightarrow> bool" where
  "dumpable s \<longleftrightarrow>
     stats_wf s \<and> (\<forall>h \<in> set (ps_sites s). is_word h \<and> CHR ''!'' \<notin> set h)
     \<and> (\<forall>(h, n) \<in> set (ps_count s). int64 n) \<and> (\<forall>(k, n) \<in> set (ps_rels s). int64 n)
     \<and> 0 < ps_articles s \<and> int64 (ps_articles s)
     \<and> int64 (unix_seconds (ps_start s)) \<and> int64 (unix_seconds (ps_end s))
     \<and> int (length (ps_sites s)) < 2 ^ 63
     \<and> length (join '' '' (dump_header s)) < scan_limit
     \<and> length (join '' '' (dump_sites s)) < scan_limit
     \<and> length (dump_rels s) < scan_limit
     \<and> length (''!!NEND '' @ format_int (int (length (ps_rels s)))) < scan_limit"

lemma last_index_append: "c \<notin> set t \<Longrightarrow> last_index c (s @ c # t) = Some (length s)"
  by (simp add: last_index_def index_of_single_append)

lemma last_index_None: "c \<notin> set s \<Longrightarrow> last_index c s = None"
  by (simp add: last_index_def index_of_single)

lemma format_int_free: "c \<noteq> CHR ''-'' \<Longrightarrow> \<not> is_digit c \<Longrightarrow> c \<notin> set (format_int n)"
  using format_int_chars by blast

lemma punctuation [simp]: "\<not> is_digit CHR ''!''" "\<not> is_digit CHR '',''" "\<not> is_digit CHR '':''" "\<not> is_digit LF"
  by (simp_all add: is_digit_def)

text \<open>The part of the relation line for the sites \<open>i\<close> and \<open>j\<close>.\<close>

definition rel_part :: "nat \<Rightarrow> nat \<Rightarrow> int \<Rightarrow> string" where
  "rel_part i j n = format_int (int i) @ CHR ''!'' # format_int (int j) @ (if n = 1 then [] else CHR '','' # format_int n)"

lemma part_count_rel_part:
  "int64 n \<Longrightarrow> part_count (rel_part i j n) = (format_int (int i) @ CHR ''!'' # format_int (int j), n)"
proof (cases "n = 1")
  case True
  then show ?thesis
    by (simp add: part_count_def rel_part_def last_index_None format_int_free)
next
  case False
  assume "int64 n"
  have "rel_part i j n = (format_int (int i) @ CHR ''!'' # format_int (int j)) @ CHR '','' # format_int n"
    using False by (simp add: rel_part_def)
  moreover have "last_index CHR '','' ((format_int (int i) @ CHR ''!'' # format_int (int j)) @ CHR '','' # format_int n)
      = Some (length (format_int (int i) @ CHR ''!'' # format_int (int j)))"
    by (rule last_index_append) (simp add: format_int_free)
  ultimately show ?thesis using \<open>int64 n\<close> by (simp add: part_count_def parse_int_format_int)
qed

lemma rel_part_word: "is_word (rel_part i j n)"
  using word_format_int[of "int i"] word_format_int[of "int j"] word_format_int[of n]
  by (auto simp: rel_part_def is_word_def ascii_def ascii_space_def)

lemma parse_part_rel_part:
  assumes "int64 n" "i < length (ps_sites s)" "j < length (ps_sites s)" "int (length (ps_sites s)) < 2 ^ 63"
  shows "parse_part (rel_part i j n) s = add_rel (rel_key (ps_sites s ! i) (ps_sites s ! j)) n s"
proof -
  have "split_on CHR ''!'' (format_int (int i) @ CHR ''!'' # format_int (int j)) = [format_int (int i), format_int (int j)]"
    by (simp add: split_on_append split_on_single format_int_free)
  moreover have "parse_int (format_int (int i)) = Some (int i)" "parse_int (format_int (int j)) = Some (int j)"
    using assms by (intro parse_int_format_int; simp)+
  moreover have "rel_part i j n \<noteq> []" using rel_part_word[of i j n] by (simp add: is_word_def)
  ultimately show ?thesis using assms
    by (simp add: parse_part_def rel_part_word part_count_rel_part[OF assms(1)])
qed

lemma parse_part_Nil [simp]: "parse_part [] s = s"
  by (simp add: parse_part_def)

lemma split_colons:
  "ps \<noteq> [] \<Longrightarrow> \<forall>p \<in> set ps. CHR '':'' \<notin> set p \<Longrightarrow>
   split_on CHR '':'' (join '':'' (map ((#) CHR '':'') ps)) = concat (map (\<lambda>p. [[], p]) ps)"
proof (induction ps rule: induct_list012)
  case (2 x) then show ?case by (simp add: split_on_single)
next
  case (3 x y zs) then show ?case by (simp add: split_on_append)
qed simp

lemma fold_parse_parts: "fold parse_part (concat (map (\<lambda>p. [[], p]) ps)) s = fold parse_part ps s"
  by (induction ps arbitrary: s) auto

lemma rel_part_no_colon: "CHR '':'' \<notin> set (rel_part i j n)"
  by (auto simp: rel_part_def format_int_free)

lemma parse_relations_parts:
  assumes "\<forall>p \<in> set ps. is_word p \<and> CHR '':'' \<notin> set p"
  shows "parse_relations (if ps = [] then '':'' else join '':'' (map ((#) CHR '':'') ps)) s = fold parse_part ps s"
    and "trim_space (if ps = [] then '':'' else join '':'' (map ((#) CHR '':'') ps)) =
         (if ps = [] then '':'' else join '':'' (map ((#) CHR '':'') ps))"
    and "LF \<notin> set (if ps = [] then '':'' else join '':'' (map ((#) CHR '':'') ps))"
    and "\<exists>r. (if ps = [] then '':'' else join '':'' (map ((#) CHR '':'') ps)) = CHR '':'' # r"
    and "is_word (if ps = [] then '':'' else join '':'' (map ((#) CHR '':'') ps))"
proof -
  let ?b = "if ps = [] then '':'' else join '':'' (map ((#) CHR '':'') ps)"
  have w: "ps \<noteq> [] \<Longrightarrow> is_word (join '':'' (map ((#) CHR '':'') ps)) \<and> hd (join '':'' (map ((#) CHR '':'') ps)) = CHR '':''
      \<and> length (join '':'' (map ((#) CHR '':'') ps)) > 1"
    using assms by (induction ps rule: induct_list012) (auto simp: is_word_def ascii_def ascii_space_def)
  show b: "is_word ?b" using w by (auto simp: is_word_def ascii_def ascii_space_def)
  then show t: "trim_space ?b = ?b" by (rule word_trim)
  show "LF \<notin> set ?b" using word_chars[OF b] by fastforce
  show h: "\<exists>r. ?b = CHR '':'' # r" using w b by (cases ?b) (auto simp: is_word_def split: if_splits)
  show "parse_relations ?b s = fold parse_part ps s"
  proof (cases "ps = []")
    case True
    have "trim_space '':'' = '':''" using t True by simp
    then show ?thesis using True by (simp add: parse_relations_def)
  next
    case False
    then have n: "?b \<noteq> []" "?b \<noteq> '':''" using w by auto
    have p: "has_prefix ?b '':''" using h by auto
    have "parse_relations ?b s = fold parse_part (split_on CHR '':'' ?b) s"
      using n p t by (simp add: parse_relations_def Let_def)
    also have "\<dots> = fold parse_part ps s"
      using False assms by (simp add: split_colons fold_parse_parts)
    finally show ?thesis .
  qed
qed

lemma map_of_fold_bump:
  "distinct ks \<Longrightarrow> \<forall>k \<in> set ks. map_of m k = None \<Longrightarrow>
   map_of (fold (\<lambda>k. bump k (f k)) ks m) x = (if x \<in> set ks then Some (f x) else map_of m x)"
proof (induction ks arbitrary: m)
  case (Cons k ks)
  have m: "map_of (bump k (f k) m) = (map_of m)(k \<mapsto> f k)" using Cons.prems by (simp add: bump_def)
  have "\<forall>k' \<in> set ks. map_of (bump k (f k) m) k' = None" using Cons.prems by (auto simp: m)
  from Cons.IH[OF _ this] show ?case using Cons.prems by (auto simp: m)
qed simp

lemma fold_add_rel:
  "fold (\<lambda>k. add_rel k (f k)) ks s = s\<lparr>ps_rels := fold (\<lambda>k. bump k (f k)) ks (ps_rels s)\<rparr>"
  by (induction ks arbitrary: s) (auto simp: add_rel_def)

lemma read_sites_dump:
  assumes "ps_idx s = zip (ps_sites s) [0..<length (ps_sites s)]" "distinct (ps_sites s @ hs)"
    and "fst ` set (ps_count s) = set (ps_sites s)" "\<forall>h \<in> set hs. int64 (f h)"
  shows "read_sites (concat (map (\<lambda>h. [h, format_int (f h)]) hs)) s =
    s\<lparr>ps_sites := ps_sites s @ hs, ps_idx := zip (ps_sites s @ hs) [0..<length (ps_sites s @ hs)],
      ps_count := ps_count s @ map (\<lambda>h. (h, f h)) hs\<rparr>"
  using assms
proof (induction hs arbitrary: s)
  case (Cons h hs)
  have e: "set_site h (f h) s = s\<lparr>ps_sites := ps_sites s @ [h],
      ps_idx := zip (ps_sites s @ [h]) [0..<length (ps_sites s @ [h])], ps_count := ps_count s @ [(h, f h)]\<rparr>"
    using Cons.prems by (simp add: set_site_def site_index_new update_new)
  have v: "atoi_value (format_int (f h)) = f h" using Cons.prems(4) by (simp add: atoi_value_format_int)
  show ?case unfolding concat.simps list.map append.simps read_sites.simps v e
    using Cons.prems by (subst Cons.IH) auto
qed simp

lemma rel_piece_known:
  assumes "stats_wf s" "\<forall>h \<in> set (ps_sites s). h \<noteq> [] \<and> CHR ''!'' \<notin> set h" "k \<in> set (map fst (ps_rels s))"
  shows "\<exists>i j. i < length (ps_sites s) \<and> j < length (ps_sites s) \<and> k = rel_key (ps_sites s ! i) (ps_sites s ! j)
     \<and> rel_piece s k = [CHR '':'' # rel_part i j (map_int (ps_rels s) k)]"
proof -
  have "known_rel (ps_sites s) k" using assms(1,3) by (auto simp: stats_wf_def)
  then obtain i j where ij: "i < length (ps_sites s)" "j < length (ps_sites s)" "k = rel_key (ps_sites s ! i) (ps_sites s ! j)"
    by (auto simp: known_rel_def in_set_conv_nth)
  let ?a = "ps_sites s ! i" and ?b = "ps_sites s ! j"
  have a: "?a \<noteq> []" "CHR ''!'' \<notin> set ?a" using assms(2) ij(1) by auto
  have "split_rel_key k = Some (?a, ?b)"
    using a index_of_single_append[OF a(2), of ?b] by (simp add: ij(3) split_rel_key_def rel_key_def)
  moreover have "map_of (ps_idx s) ?a = Some i" "map_of (ps_idx s) ?b = Some j"
    using assms(1) ij site_position[of "ps_sites s"] unfolding stats_wf_def by metis+
  ultimately show ?thesis using ij by (auto simp: rel_piece_def rel_part_def Let_def)
qed

lemma concat_singletons: "\<forall>k \<in> set ks. f k = [g k] \<Longrightarrow> concat (map f ks) = map g ks"
  by (induction ks) auto

lemma fold_rel_parts:
  "\<forall>k \<in> set ks. fi k < length sites \<and> fj k < length sites \<and> k = rel_key (sites ! fi k) (sites ! fj k) \<and> int64 (f k) \<Longrightarrow>
   ps_sites u = sites \<Longrightarrow> int (length sites) < 2 ^ 63 \<Longrightarrow>
   fold parse_part (map (\<lambda>k. rel_part (fi k) (fj k) (f k)) ks) u = fold (\<lambda>k. add_rel k (f k)) ks u"
proof (induction ks arbitrary: u)
  case (Cons k ks)
  have "parse_part (rel_part (fi k) (fj k) (f k)) u = add_rel k (f k) u"
    using Cons.prems by (subst parse_part_rel_part) auto
  then show ?case using Cons.prems by (simp add: Cons.IH)
qed simp

lemma read_relations_dump:
  assumes wf: "stats_wf s" and w: "\<forall>h \<in> set (ps_sites s). is_word h \<and> CHR ''!'' \<notin> set h"
    and r: "\<forall>(k, n) \<in> set (ps_rels s). int64 n" and len: "int (length (ps_sites s)) < 2 ^ 63"
    and t: "ps_sites t = ps_sites s" "ps_rels t = []"
  shows "\<exists>m. map_of m = map_of (ps_rels s) \<and> parse_relations (dump_rels s) t = t\<lparr>ps_rels := m\<rparr>"
    and "trim_space (dump_rels s) = dump_rels s" "LF \<notin> set (dump_rels s)" "\<exists>q. dump_rels s = CHR '':'' # q"
    and "is_word (dump_rels s)"
proof -
  let ?ks = "sorted_rel_keys (ps_rels s)"
  have d: "distinct (map fst (ps_rels s))" using wf by (simp add: stats_wf_def)
  then have ks: "distinct ?ks" "set ?ks = set (map fst (ps_rels s))"
    by (simp_all add: sorted_rel_keys_def exchange_sort_sort)
  have "\<forall>h \<in> set (ps_sites s). h \<noteq> [] \<and> CHR ''!'' \<notin> set h" using w by (auto simp: is_word_def)
  then have "\<forall>k \<in> set ?ks. \<exists>i j. i < length (ps_sites s) \<and> j < length (ps_sites s)
      \<and> k = rel_key (ps_sites s ! i) (ps_sites s ! j) \<and> rel_piece s k = [CHR '':'' # rel_part i j (map_int (ps_rels s) k)]"
    using rel_piece_known[OF wf] ks(2) by blast
  then obtain fi fj where f: "\<forall>k \<in> set ?ks. fi k < length (ps_sites s) \<and> fj k < length (ps_sites s)
      \<and> k = rel_key (ps_sites s ! fi k) (ps_sites s ! fj k) \<and> rel_piece s k = [CHR '':'' # rel_part (fi k) (fj k) (map_int (ps_rels s) k)]"
    by metis
  define ps where "ps = map (\<lambda>k. rel_part (fi k) (fj k) (map_int (ps_rels s) k)) ?ks"
  have "concat (map (rel_piece s) ?ks) = map (\<lambda>k. CHR '':'' # rel_part (fi k) (fj k) (map_int (ps_rels s) k)) ?ks"
    using f by (intro concat_singletons) blast
  then have "concat (map (rel_piece s) ?ks) = map ((#) CHR '':'') ps"
    by (simp add: ps_def comp_def)
  then have dr: "dump_rels s = (if ps = [] then '':'' else join '':'' (map ((#) CHR '':'') ps))"
    by (simp add: dump_rels_def Let_def)
  have ok: "\<forall>p \<in> set ps. is_word p \<and> CHR '':'' \<notin> set p"
    by (auto simp: ps_def rel_part_word rel_part_no_colon)
  note parts = parse_relations_parts[OF ok, folded dr]
  show "trim_space (dump_rels s) = dump_rels s" "LF \<notin> set (dump_rels s)" "\<exists>q. dump_rels s = CHR '':'' # q" "is_word (dump_rels s)"
    by (rule parts)+
  have n: "int64 (map_int (ps_rels s) k)" if "k \<in> set ?ks" for k
    using that r ks(2) by (auto simp: map_int_def split: option.splits dest!: map_of_SomeD)
  have "parse_relations (dump_rels s) t = fold (\<lambda>k. add_rel k (map_int (ps_rels s) k)) ?ks t"
    unfolding parts(1) ps_def using f n len t(1) by (intro fold_rel_parts[where sites = "ps_sites s"]) blast+
  moreover have "map_of (fold (\<lambda>k. bump k (map_int (ps_rels s) k)) ?ks []) x = map_of (ps_rels s) x" for x
  proof (cases "map_of (ps_rels s) x")
    case None
    then have "x \<notin> set ?ks" unfolding ks(2) by (simp add: map_of_eq_None_iff)
    then show ?thesis using None by (simp add: map_of_fold_bump[OF ks(1)])
  next
    case (Some v)
    then have "x \<in> set ?ks" unfolding ks(2) by (force dest: map_of_SomeD)
    then show ?thesis using Some by (simp add: map_of_fold_bump[OF ks(1)] map_int_def)
  qed
  ultimately show "\<exists>m. map_of m = map_of (ps_rels s) \<and> parse_relations (dump_rels s) t = t\<lparr>ps_rels := m\<rparr>"
    unfolding fold_add_rel t(2) by blast
qed

lemma join_words_last: "\<forall>w \<in> set ws. is_word w \<Longrightarrow> join [SP] ws = [] \<or> last (join [SP] ws) \<noteq> CR"
  using join_words_edges[of ws] word_last_not_CR[of "last ws"] by (cases "ws = []") auto

lemma dump_header_words: "\<forall>w \<in> set (dump_header s). is_word w"
proof -
  have "is_word ''!!NINP''" "is_word ''3.1.1''" by (simp_all add: is_word_def ascii_def ascii_space_def)
  then show ?thesis by (simp add: dump_header_def Let_def)
qed

text \<open>The lines of a dump.\<close>

lemma dump_lines:
  assumes s: "dumpable s" and w: "write_dump s = Some d"
  shows "scan_lines scan_limit d = ([join '' '' (dump_header s), join '' '' (dump_sites s), ''!!NLREC'', dump_rels s,
      ''!!NEND '' @ format_int (int (length (ps_rels s)))], False)"
proof -
  let ?fin = "''!!NEND '' @ format_int (int (length (ps_rels s)))"
  note hw = dump_header_words[of s]
  have sw: "\<forall>w \<in> set (dump_sites s). is_word w" using s by (auto simp: dump_sites_def dumpable_def)
  have wf: "stats_wf s" "\<forall>h \<in> set (ps_sites s). is_word h \<and> CHR ''!'' \<notin> set h" "\<forall>(k, n) \<in> set (ps_rels s). int64 n"
    "int (length (ps_sites s)) < 2 ^ 63" using s by (auto simp: dumpable_def)
  note r = read_relations_dump[OF wf, of "s\<lparr>ps_rels := []\<rparr>", simplified]
  have e: "clean_line scan_limit ?fin" "clean_line scan_limit ''!!NLREC''"
    using s word_last_not_CR[OF word_format_int[of "int (length (ps_rels s))"]]
    by (auto simp: clean_line_def format_int_free dumpable_def scan_limit_def)
  have "d = concat (map (\<lambda>l. l @ [LF]) [join '' '' (dump_header s), join '' '' (dump_sites s), ''!!NLREC'', dump_rels s, ?fin])"
    using w by (auto simp: write_dump_def split: if_splits)
  moreover have "clean_line scan_limit l" if "l \<in> {join '' '' (dump_header s), join '' '' (dump_sites s), dump_rels s}" for l
    using that s join_words_last[OF hw] join_words_last[OF sw] join_words_no_LF[OF hw] join_words_no_LF[OF sw] r(3) word_last_not_CR[OF r(5)]
    by (auto simp: clean_line_def dumpable_def)
  moreover have "0 < scan_limit" by (simp add: scan_limit_def)
  ultimately show ?thesis using e by (simp only:) (rule scan_clean_lines; auto)
qed

lemma nlrec_line: "trim_space ''!!NLREC'' = ''!!NLREC''"
  by (rule word_trim) (simp add: is_word_def ascii_def ascii_space_def)

lemma read_site_section:
  "trim_space l = l \<Longrightarrow> \<not> has_prefix l ''!!NLREC'' \<Longrightarrow>
   read_site_lines (l # ''!!NLREC'' # rest) s = (rest, read_sites (str_fields l) s)"
  by (cases "l = []") (simp_all add: nlrec_line Let_def str_fields_def)

lemma rel_section:
  "trim_space l = l \<Longrightarrow> \<not> has_prefix l ''!!NEND'' \<Longrightarrow> has_prefix (trim_space e) ''!!NEND'' \<Longrightarrow> rel_text [l, e] = l"
  by (simp add: Let_def)

lemma dump_read_back:
  assumes s: "dumpable s" and w: "write_dump s = Some d"
  shows "\<exists>t. read_dump now d = Inr t \<and> ps_sites t = ps_sites s \<and> ps_idx t = ps_idx s
     \<and> map_of (ps_count t) = map_of (ps_count s) \<and> map_of (ps_rels t) = map_of (ps_rels s)
     \<and> ps_articles t = ps_articles s
     \<and> ps_start t = unix_seconds (ps_start s) * second \<and> ps_end t = unix_seconds (ps_end s) * second"
proof -
  have wf: "stats_wf s" "\<forall>h \<in> set (ps_sites s). is_word h \<and> CHR ''!'' \<notin> set h" "\<forall>(k, n) \<in> set (ps_rels s). int64 n"
    "int (length (ps_sites s)) < 2 ^ 63" using s by (auto simp: dumpable_def)
  have i64: "int64 (ps_articles s)" "int64 (unix_seconds (ps_start s))" "int64 (unix_seconds (ps_end s))"
    using s by (auto simp: dumpable_def)
  let ?head = "join '' '' (dump_header s)" and ?sites = "join '' '' (dump_sites s)"
  have head: "trim_space ?head = ?head" "str_fields ?head = dump_header s" "?head \<noteq> []" "has_prefix ?head ''!!NINP ''"
    using trim_join_words[OF dump_header_words] fields_join_words[OF dump_header_words]
    by (simp_all add: dump_header_def Let_def)
  have sw: "\<forall>w \<in> set (dump_sites s). is_word w" using wf(2) by (auto simp: dump_sites_def)
  have sites: "trim_space ?sites = ?sites" "str_fields ?sites = dump_sites s"
    using trim_join_words[OF sw] fields_join_words[OF sw] by simp_all
  have site_pre: "\<not> has_prefix ?sites ''!!NLREC''"
  proof (cases "ps_sites s")
    case (Cons h hs)
    then have "CHR ''!'' \<notin> set h" "h \<noteq> []" using wf(2) by (auto simp: is_word_def)
    then show ?thesis using Cons by (cases h) (auto simp: dump_sites_def)
  qed (simp add: dump_sites_def)
  define s0 where "s0 = (new_stats now)\<lparr>ps_start := unix_seconds (ps_start s) * second, ps_end := unix_seconds (ps_end s) * second,
                           ps_articles := ps_articles s\<rparr>"
  have n: "int64 (map_int (ps_count s) h)" if "h \<in> set (ps_sites s)" for h
    using s that by (auto simp: map_int_def dumpable_def split: option.splits dest!: map_of_SomeD)
  define s1 where "s1 = s0\<lparr>ps_sites := ps_sites s, ps_idx := zip (ps_sites s) [0..<length (ps_sites s)],
      ps_count := map (\<lambda>h. (h, map_int (ps_count s) h)) (ps_sites s)\<rparr>"
  have rs: "read_sites (dump_sites s) s0 = s1"
    unfolding dump_sites_def s1_def using wf(1) n
    by (subst read_sites_dump) (auto simp: s0_def new_stats_def stats_wf_def)
  let ?rest = "[?sites, ''!!NLREC'', dump_rels s, ''!!NEND '' @ format_int (int (length (ps_rels s)))]"
  have rl: "read_site_lines ?rest s0 = ([dump_rels s, ''!!NEND '' @ format_int (int (length (ps_rels s)))], s1)"
    using read_site_section[OF sites(1) site_pre] rs sites(2) by simp
  have t: "ps_sites s1 = ps_sites s" "ps_rels s1 = []" by (simp_all add: s1_def s0_def new_stats_def)
  note rel = read_relations_dump[OF wf t]
  obtain m where m: "map_of m = map_of (ps_rels s)" "parse_relations (dump_rels s) s1 = s1\<lparr>ps_rels := m\<rparr>"
    using rel(1) by blast
  have "is_word (''!!NEND'')" by (simp add: is_word_def ascii_def ascii_space_def)
  then have "trim_space (''!!NEND '' @ format_int (int (length (ps_rels s)))) = ''!!NEND '' @ format_int (int (length (ps_rels s)))"
    using trim_join_words[of "[''!!NEND'', format_int (int (length (ps_rels s)))]"] by simp
  then have rt: "rel_text [dump_rels s, ''!!NEND '' @ format_int (int (length (ps_rels s)))] = dump_rels s"
    using rel(2,4) by (intro rel_section) auto
  have "read_dump now d = Inr (s1\<lparr>ps_rels := m\<rparr>)"
    using head i64 rl rt m(2) unfolding read_dump_def dump_lines[OF s w]
    by (simp add: dump_header_def atoi_value_format_int Let_def s0_def)
  moreover have "map_of (ps_count s1) h = map_of (ps_count s) h" for h
  proof (cases "h \<in> set (ps_sites s)")
    case True
    then have "h \<in> set (map fst (ps_count s))" using wf(1) by (simp add: stats_wf_def)
    then show ?thesis using True
      by (cases "map_of (ps_count s) h") (auto simp: s1_def map_of_map_restrict map_int_def map_of_eq_None_iff)
  next
    case False
    then have "h \<notin> set (map fst (ps_count s))" using wf(1) by (simp add: stats_wf_def)
    then show ?thesis using False by (simp add: s1_def map_of_map_restrict map_of_eq_None_iff[THEN iffD2])
  qed
  ultimately show ?thesis using wf(1) m(1) by (auto simp: s1_def s0_def stats_wf_def)
qed

text \<open>C25: a dump is read back to the statistics it was written from: the same sites in the same order, the same
  count of every site and relation, the same number of articles, and the times to the second.\<close>

theorem dump_roundtrip:
  assumes s: "dumpable s" and w: "write_dump s = Some d"
  shows "\<exists>t. read_dump now d = Inr t \<and> ps_sites t = ps_sites s \<and> ps_idx t = ps_idx s
     \<and> map_of (ps_count t) = map_of (ps_count s) \<and> map_of (ps_rels t) = map_of (ps_rels s)
     \<and> ps_articles t = ps_articles s
     \<and> ps_start t = unix_seconds (ps_start s) * second \<and> ps_end t = unix_seconds (ps_end s) * second"
  by (rule dump_read_back[OF s w])

definition demo_path_stats :: path_stats where
  "demo_path_stats = add_path (\<lambda>r. False) (90 * second) ''b!a!b'' (add_path (\<lambda>r. False) (60 * second) ''a!b!not-for-mail'' (new_stats 0))"

lemma demo_path_stats_value:
  "demo_path_stats = \<lparr>ps_sites = [''a'', ''b''], ps_idx = [(''a'', 0), (''b'', 1)], ps_count = [(''a'', 2), (''b'', 3)],
     ps_rels = [(''b!a'', 2), (''a!b'', 1)], ps_articles = 2, ps_start = 60 * second, ps_end = 90 * second\<rparr>"
  by code_simp

lemma demo_dump: "write_dump demo_path_stats = Some (concat (map (\<lambda>l. l @ [LF])
    [''!!NINP 3.1.1 60 90 2 2 75'', ''a 2 b 3'', ''!!NLREC'', '':0!1::1!0,2'', ''!!NEND 2'']))"
  unfolding demo_path_stats_value by code_simp

lemma demo_dumpable: "dumpable demo_path_stats"
proof -
  have "length (join '' '' (dump_header demo_path_stats)) = 25" "length (join '' '' (dump_sites demo_path_stats)) = 7"
    "length (dump_rels demo_path_stats) = 11" "length (''!!NEND '' @ format_int (int (length (ps_rels demo_path_stats)))) = 8"
    unfolding demo_path_stats_value by code_simp+
  moreover have "stats_wf demo_path_stats" unfolding demo_path_stats_value stats_wf_def known_rel_def by (simp add: rel_key_def)
  ultimately show ?thesis
    by (simp add: dumpable_def demo_path_stats_value is_word_def ascii_def ascii_space_def scan_limit_def unix_seconds_def)
qed

theorem dump_roundtrip_witness:
  "\<exists>t. read_dump 0 (concat (map (\<lambda>l. l @ [LF])
    [''!!NINP 3.1.1 60 90 2 2 75'', ''a 2 b 3'', ''!!NLREC'', '':0!1::1!0,2'', ''!!NEND 2''])) = Inr t
    \<and> map_of (ps_rels t) ''b!a'' = Some 2"
  using dump_roundtrip[OF demo_dumpable demo_dump, of 0] by (auto simp: demo_path_stats_value)

section \<open>Every value the program builds\<close>

inductive stats_built :: "(nat \<Rightarrow> bool) \<Rightarrow> path_stats \<Rightarrow> bool" for ul where
  Built_New: "stats_built ul (new_stats now)"
| Built_Path: "stats_built ul s \<Longrightarrow> stats_built ul (add_path ul now p s)"
| Built_Merge: "stats_built ul s \<Longrightarrow> stats_built ul t \<Longrightarrow> stats_built ul (merge_stats (Some t) s)"
| Built_Read: "read_dump now d = Inr s \<Longrightarrow> stats_built ul s"

text \<open>C26: the tables of the path statistics agree with one another in every value the program builds from paths, merges
  and dump files of any content: sites are distinct and indexed by their position, exactly the sites have a count,
  and every relation joins two sites.\<close>

theorem stats_well_formed: "stats_built ul s \<Longrightarrow> stats_wf s"
  by (induction rule: stats_built.induct) (auto simp: new_stats_wf add_path_wf merge_wf read_dump_wf)

theorem stats_well_formed_witness: "stats_wf demo_path_stats"
  unfolding demo_path_stats_def
  by (rule stats_well_formed[of "\<lambda>r. False"]) (intro stats_built.intros)

section \<open>Long lines\<close>

text \<open>All sites are written on one line, and a line of 65536 bytes or more is beyond the buffer of the
  scanner that reads it: a dump of that many sites is written without an error and never read again.\<close>

theorem long_dump_unreadable:
  assumes "write_dump s = Some d" "scan_limit \<le> length (join '' '' (dump_sites s))" "\<forall>h \<in> set (ps_sites s). LF \<notin> set h"
    and "length (join '' '' (dump_header s)) < scan_limit"
  shows "read_dump now d = Inl Line_Too_Long"
proof -
  let ?head = "join '' '' (dump_header s)" and ?sites = "join '' '' (dump_sites s)"
  have free: "LF \<notin> set (join [SP] ws)" if "\<forall>w \<in> set ws. LF \<notin> set w" for ws
    using that by (induction ws rule: induct_list012) auto
  have "LF \<notin> set ?sites" using assms(3) by (intro free) (auto simp: dump_sites_def format_int_free)
  then have long: "scan_lines scan_limit (?sites @ LF # r) = ([], True)" for r using assms(2) by (rule scan_lines_too_long)
  obtain r where d: "d = ?head @ LF # ?sites @ LF # r" using assms(1) by (auto simp: write_dump_def split: if_splits)
  have "scan_lines scan_limit d = ([?head], True)"
    unfolding d using assms(4) join_words_no_LF[OF dump_header_words] join_words_last[OF dump_header_words]
    by (simp add: scan_lines_append long drop_cr_id)
  moreover have "trim_space ?head = ?head" "str_fields ?head = dump_header s"
    using trim_join_words[OF dump_header_words] fields_join_words[OF dump_header_words] by simp_all
  moreover have "?head \<noteq> []" "has_prefix ?head ''!!NINP ''" "length (dump_header s) = 7"
    by (simp_all add: dump_header_def Let_def)
  ultimately show ?thesis unfolding read_dump_def by simp
qed

theorem long_dump_unreadable_witness:
  "let h = replicate 65536 CHR ''a'';
       s = \<lparr>ps_sites = [h], ps_idx = [(h, 0)], ps_count = [(h, 1)], ps_rels = [], ps_articles = 1, ps_start = 0, ps_end = 0\<rparr>
   in stats_wf s \<and> read_dump 0 (the (write_dump s)) = Inl Line_Too_Long"
proof -
  define h where "h = replicate 65536 CHR ''a''"
  let ?s = "\<lparr>ps_sites = [h], ps_idx = [(h, 0)], ps_count = [(h, 1)], ps_rels = [], ps_articles = 1, ps_start = 0, ps_end = 0\<rparr>"
  have "length (join '' '' (dump_header ?s)) = 22" by code_simp
  moreover have "scan_limit \<le> length (join '' '' (dump_sites ?s))" by (simp add: dump_sites_def h_def scan_limit_def)
  moreover have "\<forall>h \<in> set (ps_sites ?s). LF \<notin> set h" by (simp add: h_def)
  moreover have "write_dump ?s = Some (the (write_dump ?s))" by (simp add: write_dump_def)
  ultimately have "read_dump 0 (the (write_dump ?s)) = Inl Line_Too_Long"
    by (intro long_dump_unreadable[where s = ?s]) (auto simp: scan_limit_def)
  moreover have "stats_wf ?s" by (simp add: stats_wf_def)
  ultimately show ?thesis unfolding h_def Let_def by blast
qed

end
