(* ===== verification/Posting.thy ===== *)
theory Posting
  imports Outcomes
begin

text \<open>
  Posting from the web reader, \<open>internal/posting/posting.go\<close>. The environment of a session is used for the
  configuration, the clock's Date parser, the random part of a Message-ID and the mail server. Where the source
  repeats what the POST command does, the definition of \<open>Session\<close> is used.
\<close>

section \<open>The draft\<close>

record post_input =
  in_newsgroups :: string
  in_subject :: string
  in_from :: string
  in_body :: string
  in_references :: string
  in_reply_to :: string

definition draft_refs :: "post_input \<Rightarrow> string" where
  "draft_refs i =
     (let refs = trim_space (in_references i); reply = trim_space (in_reply_to i)
      in if reply = [] then refs
         else if refs = [] then reply
         else if \<not> contains refs reply then refs @ SP # reply
         else refs)"

definition draft_headers :: "post_input \<Rightarrow> (string \<times> string) list" where
  "draft_headers i =
     (let refs = draft_refs i; reply = trim_space (in_reply_to i)
      in [(''From'', trim_space (in_from i)), (''Newsgroups'', trim_space (in_newsgroups i)),
          (''Subject'', trim_space (in_subject i))]
         @ (if refs = [] then []
            else (''References'', refs) # (if reply = [] then [] else [(''In-Reply-To'', reply)])))"

definition draft_body :: "post_input \<Rightarrow> string" where
  "draft_body i =
     (let b = replace_all (replace_all (in_body i) CRLF [LF]) [LF] CRLF
      in b @ (if has_suffix b CRLF then [] else CRLF))"

definition draft_text :: "post_input \<Rightarrow> string" where
  "draft_text i = concat (map (\<lambda>(n, v). n @ '': '' @ v @ CRLF) (draft_headers i)) @ CRLF @ draft_body i"

section \<open>Accepting\<close>

record portal =
  po_store :: memory
  po_mails :: "delivery list"
  po_mbox :: "(string \<times> article) list option"
  po_offers :: "(string \<times> string \<times> string list \<times> string) list option"

datatype post_failure =
    Fields_Required | Bad_Draft article_error | Groups_Not_Accepted | Article_Too_Old
  | Duplicate_Post | Not_Submitted moderate_error | Not_Mailed string
  | Over_Quota int | Not_Stored store_error

datatype post_outcome = Stored post_result | Mailed string string string

definition mail_moderated :: "session_env \<Rightarrow> article \<Rightarrow> portal \<Rightarrow> portal \<times> (post_failure + post_outcome option)" where
  "mail_moderated e a p =
     (let s = po_store p; g = submission_group a s; m = get_header a ''Message-ID'' in
      if g = [] then (p, Inr None)
      else if has_message_id m s then (p, Inl Duplicate_Post)
      else case submit_moderated (load_mail s (e_cfg e)) g (rules_of s) (wire a) of
        Inl err \<Rightarrow> (p, Inl (Not_Submitted err))
      | Inr (addr, d) \<Rightarrow>
          (case e_smtp e d of
             Some err \<Rightarrow> (p, Inl (Not_Mailed err))
           | None \<Rightarrow> (p\<lparr>po_mails := po_mails p @ [d]\<rparr>, Inr (Some (Mailed g addr m)))))"

definition accept_store :: "session_env \<Rightarrow> int \<Rightarrow> article \<Rightarrow> bool \<Rightarrow> portal \<Rightarrow> portal \<times> (post_failure + post_outcome)" where
  "accept_store e now a bin p =
     (let m = get_header a ''Message-ID''; w = wire a in
      if has_message_id m (po_store p) then (p, Inl Duplicate_Post)
      else case post_article now (new_article_of e a w bin) (po_store p) of
        (s, Inl err) \<Rightarrow> (p\<lparr>po_store := s\<rparr>, Inl (Not_Stored err))
      | (s, Inr res) \<Rightarrow>
          let s1 = fst (note_accept (e_flood_text e) now (newsgroups a) bin (flood_from_config (e_cfg e)) s);
              s2 = record_content_stats now (stats_event_of e a bin) s1;
              a1 = (if po_mbox p = None then a else set_header ''Xref'' (pr_xref res) a)
          in (p\<lparr>po_store := s2,
                po_mbox := map_option (\<lambda>l. l @ map (\<lambda>(g, n). (g, a1)) (pr_numbers res)) (po_mbox p),
                po_offers := map_option (\<lambda>l. l @ [(m, get_header a1 ''Path'', newsgroups a1, w)]) (po_offers p)\<rparr>,
              Inr (Stored res)))"

definition accept_quota :: "session_env \<Rightarrow> int \<Rightarrow> int \<Rightarrow> bool \<Rightarrow> portal \<Rightarrow> portal \<times> post_failure option" where
  "accept_quota e now uid bin p =
     (let limit = rt_user_binary (cf_retention (e_cfg e)) in
      if bin \<and> uid > 0 \<and> limit > 0 then
        (case consume_binary_quota now uid limit (po_store p) of
           (s, _, None) \<Rightarrow> (p\<lparr>po_store := s\<rparr>, None)
         | (s, _, Some err) \<Rightarrow> (p\<lparr>po_store := s\<rparr>, Some (if err = Quota_Exceeded then Over_Quota limit else Not_Stored err)))
      else (p, None))"

definition accept_injected :: "session_env \<Rightarrow> int \<Rightarrow> int \<Rightarrow> article \<Rightarrow> portal \<Rightarrow> portal \<times> (post_failure + post_outcome)" where
  "accept_injected e now uid a p =
     (if groups_unwanted (newsgroups a) (po_store p) then (p, Inl Groups_Not_Accepted)
      else if article_too_old e now a then
        (if lm_remember (cf_limits (e_cfg e))
         then p\<lparr>po_store := remember_message_id now (get_header a ''Message-ID'') (po_store p)\<rparr> else p,
         Inl Article_Too_Old)
      else case mail_moderated e a p of
        (p1, Inl f) \<Rightarrow> (p1, Inl f)
      | (p1, Inr (Some oc)) \<Rightarrow> (p1, Inr oc)
      | (p1, Inr None) \<Rightarrow>
          let bin = looks_binary (raw_headers a) (body a) in
          (case accept_quota e now uid bin p1 of
             (p2, Some f) \<Rightarrow> (p2, Inl f)
           | (p2, None) \<Rightarrow> accept_store e now a bin p2))"

definition accept_post :: "session_env \<Rightarrow> int \<Rightarrow> post_input \<Rightarrow> int \<Rightarrow> portal \<Rightarrow> portal \<times> (post_failure + post_outcome)" where
  "accept_post e now i uid p =
     (if trim_space (in_from i) = [] \<or> trim_space (in_subject i) = [] \<or> trim_space (in_newsgroups i) = []
      then (p, Inl Fields_Required)
      else case parse_article (draft_text i) of
        Inl err \<Rightarrow> (p, Inl (Bad_Draft err))
      | Inr a0 \<Rightarrow>
          (case inject_for_post (post_opts e) now (e_random e now) a0 of
             Inl err \<Rightarrow> (p, Inl (Bad_Draft err))
           | Inr a \<Rightarrow> accept_injected e now uid a p))"

end
