(* ===== verification/PostingLaws.thy ===== *)
theory PostingLaws
  imports Posting GoScan
begin

text \<open>
  Posting from the web reader: what the draft parses to, what a stored post has passed, and the header fields a
  line break in an input field adds.
\<close>

section \<open>The draft\<close>

lemma draft_headers_shape: "draft_headers i \<noteq> []"
  by (simp add: draft_headers_def Let_def)

lemma draft_text_lines:
  "draft_text i = join CRLF (map pair_line (draft_headers i)) @ CRLF @ CRLF @ draft_body i"
proof -
  have "concat (map (\<lambda>(n, v). n @ '': '' @ v @ CRLF) ps) = concat (map (\<lambda>l. l @ CRLF) (map pair_line ps))" for ps
    by (induction ps) (auto simp: pair_line_def)
  then show ?thesis
    using join_line_ends[of "map pair_line (draft_headers i)" CRLF] draft_headers_shape[of i]
    by (simp add: draft_text_def flip: append_assoc)
qed

lemma parse_header_text:
  assumes "list_all pair_ok ps" "ps \<noteq> []" "crlf_ok b"
  shows "parse_article (join CRLF (map pair_line ps) @ CRLF @ CRLF @ b) =
    Inr \<lparr>raw_headers = join CRLF (map pair_line ps), body = b, headers = fold add_header ps []\<rparr>"
proof -
  let ?ls = "map pair_line ps"
  have ls: "\<forall>l \<in> set ?ls. plain l \<and> l \<noteq> []" using assms(1) pair_line_plain by (auto simp: list_all_iff)
  have "crlf_ok (concat (map (\<lambda>l. l @ CRLF) ?ls))" using ls by (intro crlf_ok_concat) auto
  then have "crlf_ok (concat (map (\<lambda>l. l @ CRLF) ?ls) @ CRLF @ b)" using assms(3) by (simp add: crlf_ok_append)
  moreover have "join CRLF ?ls @ CRLF @ CRLF @ b = concat (map (\<lambda>l. l @ CRLF) ?ls) @ CRLF @ b"
    using join_line_ends[of ?ls CRLF] assms(2) by (simp flip: append_assoc)
  ultimately have "crlf_ok (join CRLF ?ls @ CRLF @ CRLF @ b)" by metis
  then show ?thesis
    using cut_blank_line[of ?ls b] ls assms(2) parse_headers_pairs[OF assms(1,2)]
    by (simp add: parse_article_def normalize_newlines_id make_article_def)
qed

lemma crlf_ok_draft_body: "CR \<notin> set (replace_all (in_body i) CRLF [LF]) \<Longrightarrow> crlf_ok (draft_body i)"
  by (simp add: draft_body_def Let_def crlf_ok_append crlf_ok_unix)

text \<open>An input whose fields are single lines and whose body has no stray carriage return.\<close>

definition clean_input :: "post_input \<Rightarrow> bool" where
  "clean_input i \<longleftrightarrow>
     (\<forall>f \<in> {in_from i, in_newsgroups i, in_subject i, in_references i, in_reply_to i}. plain (trim_space f))
     \<and> CR \<notin> set (replace_all (in_body i) CRLF [LF])"

lemma draft_pairs_ok: "clean_input i \<Longrightarrow> list_all pair_ok (draft_headers i)"
proof -
  assume c: "clean_input i"
  have refs: "header_value_ok (draft_refs i)"
    using c trim_two_words[of "trim_space (in_references i)" "trim_space (in_reply_to i)"]
    by (auto simp: draft_refs_def Let_def header_value_ok_def clean_input_def)
  have names: "header_name_ok ''From''" "header_name_ok ''Newsgroups''" "header_name_ok ''Subject''"
      "header_name_ok ''References''" "header_name_ok ''In-Reply-To''"
    by (simp_all add: header_name_ok_def)
  have vals: "header_value_ok (trim_space f)" if "f \<in> {in_from i, in_newsgroups i, in_subject i, in_references i, in_reply_to i}" for f
    using c that unfolding clean_input_def header_value_ok_def by auto
  show ?thesis using names vals refs unfolding draft_headers_def Let_def pair_ok_def by simp
qed

lemma fold_add_header_distinct:
  "distinct (map fst (hs @ ps)) \<Longrightarrow> fold add_header ps (map (\<lambda>(n, v). (n, [v])) hs) = map (\<lambda>(n, v). (n, [v])) (hs @ ps)"
proof (induction ps arbitrary: hs)
  case (Cons p ps)
  let ?m = "map (\<lambda>(n, v). (n, [v])) hs"
  have k: "fst ` set ?m = fst ` set hs" by force
  have n: "fst p \<notin> fst ` set ?m" using Cons.prems unfolding k by auto
  then have "add_header p ?m = map (\<lambda>(n, v). (n, [v])) (hs @ [p])"
    by (cases p) (simp add: add_header_def header_values_def update_new map_of_eq_None_iff[THEN iffD2])
  then show ?case using Cons.IH[of "hs @ [p]"] Cons.prems by simp
qed simp

text \<open>An input of single-line fields becomes an article with exactly the header fields of the form, no others, and
  the body with its line ends made uniform.\<close>

theorem draft_exact:
  assumes "clean_input i"
  shows "\<exists>raw. parse_article (draft_text i) = Inr \<lparr>raw_headers = raw, body = draft_body i,
     headers = map (\<lambda>(n, v). (n, [v])) (draft_headers i)\<rparr>"
proof -
  have "distinct (map fst (draft_headers i))" by (simp add: draft_headers_def Let_def)
  then have "fold add_header (draft_headers i) [] = map (\<lambda>(n, v). (n, [v])) (draft_headers i)"
    using fold_add_header_distinct[of "[]" "draft_headers i"] by simp
  moreover have "CR \<notin> set (replace_all (in_body i) CRLF [LF])" using assms by (simp add: clean_input_def)
  ultimately show ?thesis
    using parse_header_text[OF draft_pairs_ok[OF assms] draft_headers_shape crlf_ok_draft_body] draft_text_lines[of i] by metis
qed

definition demo_input :: "string \<Rightarrow> post_input" where
  "demo_input subject = \<lparr>in_newsgroups = ''a'', in_subject = subject, in_from = ''me@x'', in_body = ''hi'',
     in_references = [], in_reply_to = ''<0@x>''\<rparr>"

theorem draft_exact_witness:
  "\<exists>a. parse_article (draft_text (demo_input ''s'')) = Inr a \<and> get_header a ''Subject'' = ''s''"
proof -
  have "clean_input (demo_input ''s'')" by code_simp
  from draft_exact[OF this] obtain raw where "parse_article (draft_text (demo_input ''s'')) = Inr \<lparr>raw_headers = raw,
      body = draft_body (demo_input ''s''), headers = map (\<lambda>(n, v). (n, [v])) (draft_headers (demo_input ''s''))\<rparr>" by blast
  moreover have "draft_headers (demo_input ''s'') = [(''From'', ''me@x''), (''Newsgroups'', ''a''), (''Subject'', ''s''),
      (''References'', ''<0@x>''), (''In-Reply-To'', ''<0@x>'')]" by code_simp
  moreover have "get_header \<lparr>raw_headers = r, body = b, headers = [(''From'', [''me@x'']), (''Newsgroups'', [''a'']), (''Subject'', [''s'']),
      (''References'', [''<0@x>'']), (''In-Reply-To'', [''<0@x>''])]\<rparr> ''Subject'' = ''s''" for r b
    unfolding get_header_def by simp (code_simp)
  ultimately show ?thesis by auto
qed

section \<open>Line breaks in an input field\<close>

text \<open>A field is only trimmed at its ends, so a line break inside the subject ends the Subject field and starts
  another one: the article gets a header field of the poster's choice, such as the Approved field that makes
  an article for a moderated group pass.\<close>

theorem subject_adds_header:
  assumes "clean_input (i\<lparr>in_subject := s\<rparr>)" "plain v" "trim_space v = v" "v \<noteq> []"
    and "in_subject i = s @ CRLF @ ''Approved: '' @ v" "trim_space (in_subject i) = in_subject i" "trim_space s = s"
  shows "\<exists>a. parse_article (draft_text i) = Inr a \<and> approved a"
proof -
  let ?j = "i\<lparr>in_subject := s\<rparr>"
  have refs: "draft_refs i = draft_refs ?j" by (simp add: draft_refs_def)
  define rest where "rest = drop 3 (draft_headers ?j)"
  have dj: "draft_headers ?j = [(''From'', trim_space (in_from i)), (''Newsgroups'', trim_space (in_newsgroups i)), (''Subject'', s)] @ rest"
    using assms(7) by (simp add: rest_def draft_headers_def Let_def)
  let ?ps = "[(''From'', trim_space (in_from i)), (''Newsgroups'', trim_space (in_newsgroups i)), (''Subject'', s), (''Approved'', v)] @ rest"
  have di: "draft_headers i = [(''From'', trim_space (in_from i)), (''Newsgroups'', trim_space (in_newsgroups i)), (''Subject'', in_subject i)] @ rest"
    using assms(6) by (simp add: rest_def draft_headers_def Let_def refs)
  have "draft_text i = concat (map (\<lambda>l. l @ CRLF) (map pair_line ?ps)) @ CRLF @ draft_body i"
    using draft_text_lines[of i] join_line_ends[of "map pair_line (draft_headers i)" CRLF] draft_headers_shape[of i]
    unfolding di by (simp add: pair_line_def assms(5) flip: append_assoc)
  then have t: "draft_text i = join CRLF (map pair_line ?ps) @ CRLF @ CRLF @ draft_body i"
    using join_line_ends[of "map pair_line ?ps" CRLF] by (simp flip: append_assoc)
  have "list_all pair_ok ?ps"
    using draft_pairs_ok[OF assms(1)] assms(2,3) unfolding dj
    by (simp add: pair_ok_def header_name_ok_def header_value_ok_def)
  moreover have "crlf_ok (draft_body i)"
    using assms(1) by (intro crlf_ok_draft_body) (simp add: clean_input_def)
  ultimately have p: "parse_article (draft_text i) = Inr \<lparr>raw_headers = join CRLF (map pair_line ?ps), body = draft_body i,
      headers = fold add_header ?ps []\<rparr>"
    unfolding t by (intro parse_header_text) auto
  have d: "distinct (map fst ?ps)" by (simp add: rest_def draft_headers_def Let_def)
  then have "fold add_header ?ps [] = map (\<lambda>(n, v). (n, [v])) ?ps" using fold_add_header_distinct[of "[]" ?ps] by simp
  moreover have "first_header (map (\<lambda>(n, v). (n, [v])) ?ps) ''Approved'' = v"
  proof -
    have "\<not> equal_fold ''From'' ''Approved''" "\<not> equal_fold ''Newsgroups'' ''Approved''" "\<not> equal_fold ''Subject'' ''Approved''"
      by code_simp+
    then show ?thesis by simp
  qed
  ultimately show ?thesis unfolding p by (simp add: approved_def get_header_def assms(3,4))
qed

theorem subject_adds_header_witness:
  "\<exists>a. parse_article (draft_text (demo_input (''s'' @ CRLF @ ''Approved: me''))) = Inr a \<and> approved a"
proof (rule subject_adds_header[where s = "''s''" and v = "''me''"])
  show "clean_input ((demo_input (''s'' @ CRLF @ ''Approved: me''))\<lparr>in_subject := ''s''\<rparr>)" by code_simp
qed (simp_all add: demo_input_def, code_simp+)

section \<open>What is stored\<close>

lemma first_moderated_none:
  "first_moderated (group_status_of s) gs = Inr [] \<Longrightarrow> [] \<notin> set gs \<Longrightarrow> g \<in> set gs \<Longrightarrow> group_status_of s g \<noteq> Inr (Some ''m'')"
  by (induction gs) (auto simp: group_status_of_def split: if_splits)

lemma first_moderated_total: "\<exists>g. first_moderated (group_status_of s) gs = Inr g"
  by (induction gs) (auto simp: group_status_of_def)

lemma submission_none:
  "submission_group a s = [] \<Longrightarrow> approved a \<or> (\<forall>g \<in> set (newsgroups a). group_status_of s g \<noteq> Inr (Some ''m''))"
proof -
  assume n: "submission_group a s = []"
  have "[] \<notin> set (newsgroups a)" by (simp add: newsgroups_def Let_def)
  moreover obtain g where "first_moderated (group_status_of s) (newsgroups a) = Inr g" using first_moderated_total by blast
  ultimately show ?thesis using n first_moderated_none[of s "newsgroups a"]
    by (auto simp: submission_group_def moderated_target_def)
qed

lemma accept_store_stored:
  assumes "accept_store e now a bin p = (q, Inr (Stored r))" "get_header a ''Message-ID'' \<noteq> []"
  shows "\<exists>sa. get_by_msgid (get_header a ''Message-ID'') (po_store q) = Some sa
     \<and> s_headers sa @ CRLF @ CRLF @ s_body sa = wire a"
proof -
  obtain h bd ok where c: "cut (wire a) (CRLF @ CRLF) = (h, bd, ok)" by (cases "cut (wire a) (CRLF @ CRLF)")
  let ?n = "new_article_of e a (wire a) bin"
  have n: "n_headers ?n = h" "n_body ?n = bd" "n_msgid ?n = get_header a ''Message-ID''" using c by (simp_all add: new_article_of_def)
  obtain s where p: "post_article now ?n (po_store p) = (s, Inr r)"
    "po_store q = record_content_stats now (stats_event_of e a bin)
        (fst (note_accept (e_flood_text e) now (newsgroups a) bin (flood_from_config (e_cfg e)) s))"
    using assms(1) by (auto simp: accept_store_def Let_def split: prod.splits sum.splits if_splits)
  show ?thesis
    using post_reads_back[OF p(1)] n p(2) wire_cut[OF assms(2) c] same_objects_get[OF same_objects_stats] same_objects_get[OF same_objects_note]
    by auto
qed

lemma accept_injected_stored:
  assumes "accept_injected e now uid a p = (q, Inr (Stored r))"
  shows "\<not> groups_unwanted (newsgroups a) (po_store p) \<and> \<not> article_too_old e now a
     \<and> submission_group a (po_store p) = [] \<and> (\<exists>p2 bin. accept_store e now a bin p2 = (q, Inr (Stored r)))"
  using assms
  by (auto simp: accept_injected_def mail_moderated_def Let_def split: prod.splits sum.splits option.splits if_splits)

lemma injected_id:
  assumes "inject_for_post opt clock rnd a = Inr a'"
  shows "get_header a' ''Message-ID'' \<noteq> []"
proof -
  obtain now mid where "a' = fill_post_headers opt now (set_header ''Message-ID'' mid a)" "mid \<noteq> []"
    using inject_for_post_cases[OF assms] Message_ID_generated_nonempty by metis
  then show ?thesis by (simp add: fill_post_headers_get field_rules)
qed

text \<open>C24: an article the web reader reports as stored names no unwanted group, is not too old, carries an approval if one of
  its groups is moderated, and is in the store under its Message-ID exactly as it was written.\<close>

theorem web_post_stored:
  assumes "accept_post e now i uid p = (q, Inr (Stored r))"
  shows "\<exists>a. (\<exists>a0. parse_article (draft_text i) = Inr a0 \<and> inject_for_post (post_opts e) now (e_random e now) a0 = Inr a)
     \<and> \<not> groups_unwanted (newsgroups a) (po_store p) \<and> \<not> article_too_old e now a
     \<and> (approved a \<or> (\<forall>g \<in> set (newsgroups a). group_status_of (po_store p) g \<noteq> Inr (Some ''m'')))
     \<and> (\<exists>sa. get_by_msgid (get_header a ''Message-ID'') (po_store q) = Some sa \<and> s_headers sa @ CRLF @ CRLF @ s_body sa = wire a)"
proof -
  obtain a0 a where a: "parse_article (draft_text i) = Inr a0" "inject_for_post (post_opts e) now (e_random e now) a0 = Inr a"
      "accept_injected e now uid a p = (q, Inr (Stored r))"
    using assms by (auto simp: accept_post_def split: if_splits sum.splits)
  note s = accept_injected_stored[OF a(3)]
  then obtain p2 bin where "accept_store e now a bin p2 = (q, Inr (Stored r))" by blast
  then show ?thesis using a(1,2) s submission_none accept_store_stored injected_id[OF a(2)] by blast
qed

definition demo_portal :: portal where
  "demo_portal = \<lparr>po_store = demo_group_store, po_mails = [], po_mbox = Some [], po_offers = Some []\<rparr>"

lemma demo_injected:
  "\<exists>a0 a. parse_article (draft_text (demo_input ''s'')) = Inr a0
     \<and> inject_for_post (post_opts demo_env) 5 (e_random demo_env 5) a0 = Inr a \<and> newsgroups a = [''a'']"
proof -
  have "clean_input (demo_input ''s'')" by code_simp
  note ok = draft_pairs_ok[OF this]
  let ?hs = "draft_headers (demo_input ''s'')"
  have b: "crlf_ok (draft_body (demo_input ''s''))" by code_simp
  have hs: "?hs = [(''From'', ''me@x''), (''Newsgroups'', ''a''), (''Subject'', ''s''),
      (''References'', ''<0@x>''), (''In-Reply-To'', ''<0@x>'')]" by code_simp
  define a0 where "a0 = \<lparr>raw_headers = join CRLF (map pair_line ?hs), body = draft_body (demo_input ''s''),
      headers = fold add_header ?hs []\<rparr>"
  have p: "parse_article (draft_text (demo_input ''s'')) = Inr a0"
    unfolding draft_text_lines a0_def by (rule parse_header_text[OF ok draft_headers_shape b])
  have h: "headers a0 = [(''From'', [''me@x'']), (''Newsgroups'', [''a'']), (''Subject'', [''s'']), (''References'', [''<0@x>'']),
      (''In-Reply-To'', [''<0@x>''])]"
    unfolding a0_def hs by code_simp
  have r: "check_required a0 = None" "trim_space (get_header a0 ''Message-ID'') = []" "newsgroups a0 = [''a'']"
    unfolding check_required_def newsgroups_def get_header_def h by code_simp+
  then have "\<exists>a. inject_for_post (post_opts demo_env) 5 (e_random demo_env 5) a0 = Inr a"
    by (simp add: inject_for_post_def Let_def)
  then obtain a where a: "inject_for_post (post_opts demo_env) 5 (e_random demo_env 5) a0 = Inr a" by blast
  then obtain now mid where "a = fill_post_headers (post_opts demo_env) now (set_header ''Message-ID'' mid a0)"
    using inject_for_post_cases by metis
  then have "newsgroups a = newsgroups a0"
    by (intro newsgroups_cong) (simp add: fill_post_headers_get field_rules)
  then show ?thesis using p a r(3) by auto
qed

theorem web_post_stored_witness:
  "\<exists>q r a sa. accept_post demo_env 5 (demo_input ''s'') 0 demo_portal = (q, Inr (Stored r))
     \<and> get_by_msgid (get_header a ''Message-ID'') (po_store q) = Some sa \<and> s_headers sa @ CRLF @ CRLF @ s_body sa = wire a"
proof -
  obtain a0 a where a: "parse_article (draft_text (demo_input ''s'')) = Inr a0"
      "inject_for_post (post_opts demo_env) 5 (e_random demo_env 5) a0 = Inr a" "newsgroups a = [''a'']"
    using demo_injected by blast
  let ?p = demo_portal and ?b = "looks_binary (raw_headers a) (body a)"
  let ?n = "new_article_of demo_env a (wire a) ?b"
  have s: "po_store ?p = demo_group_store" by (simp add: demo_portal_def)
  have u: "\<not> groups_unwanted [''a''] demo_group_store" "usable_groups demo_group_store [''a''] = [''a'']" 
    "group_status_of demo_group_store ''a'' = Inr (Some ''y'')" "m_arts demo_group_store = []" "m_history demo_group_store = []"
    by code_simp+
  then have h: "\<not> in_history demo_group_store m" for m by (simp add: in_history_def art_ref_def)
  have "\<not> article_too_old demo_env 5 a" by (simp add: article_too_old_def too_old_def demo_env_def)
  moreover have "submission_group a demo_group_store = []"
    using a(3) u(3) by (simp add: submission_group_def moderated_target_def)
  moreover have "accept_quota demo_env 5 0 ?b ?p = (?p, None)" by (simp add: accept_quota_def Let_def)
  moreover obtain s' res where "post_article 5 ?n demo_group_store = (s', Inr res)"
    using u a(3) h by (cases rule: post_article_cases[of demo_group_store ?n 5])
      (auto simp: new_article_of_def split: prod.splits)
  moreover have "trim_space (in_from (demo_input ''s'')) \<noteq> []" "trim_space (in_subject (demo_input ''s'')) \<noteq> []"
      "trim_space (in_newsgroups (demo_input ''s'')) \<noteq> []" by code_simp+
  ultimately have "\<exists>q r. accept_post demo_env 5 (demo_input ''s'') 0 ?p = (q, Inr (Stored r))"
    using a u(1) h by (simp add: accept_post_def accept_injected_def mail_moderated_def accept_store_def has_message_id_def s Let_def)
  then obtain q r where q: "accept_post demo_env 5 (demo_input ''s'') 0 ?p = (q, Inr (Stored r))" by blast
  show ?thesis using web_post_stored[OF q] q by blast
qed

end
