(* ===== verification/Auth.thy ===== *)
theory Auth
  imports GoText GoTime
begin

text \<open>
  The signed session cookie, \<open>internal/auth/session.go\<close>, and the checks around the password hash of
  \<open>password.go\<close>. HMAC-SHA-256 is the argument \<open>mac\<close>, bcrypt the arguments \<open>bcrypt\<close> and \<open>bcrypt_ok\<close>. The clock
  is an argument.
\<close>

section \<open>Base64, the URL alphabet without padding\<close>

definition b64_alphabet :: string where
  "b64_alphabet = ''ABCDEFGHIJKLMNOPQRSTUVWXYZabcdefghijklmnopqrstuvwxyz0123456789-_''"

definition b64_char :: "nat \<Rightarrow> char" where
  "b64_char n = b64_alphabet ! n"

definition b64_value :: "char \<Rightarrow> nat option" where
  "b64_value c = index_of b64_alphabet [c]"

fun b64_encode :: "string \<Rightarrow> string" where
  "b64_encode [] = []"
| "b64_encode [a] = [b64_char (byte a div 4), b64_char (byte a mod 4 * 16)]"
| "b64_encode [a, b] =
     [b64_char (byte a div 4), b64_char (byte a mod 4 * 16 + byte b div 16), b64_char (byte b mod 16 * 4)]"
| "b64_encode (a # b # c # s) =
     b64_char (byte a div 4) # b64_char (byte a mod 4 * 16 + byte b div 16)
     # b64_char (byte b mod 16 * 4 + byte c div 64) # b64_char (byte c mod 64) # b64_encode s"

text \<open>\<open>DecodeString\<close>: line ends are skipped, the spare bits of the last character are not looked at.\<close>

fun b64_groups :: "nat list \<Rightarrow> string option" where
  "b64_groups [] = Some []"
| "b64_groups [a] = None"
| "b64_groups [a, b] = Some [char_of (a * 4 + b div 16)]"
| "b64_groups [a, b, c] = Some [char_of (a * 4 + b div 16), char_of (b mod 16 * 16 + c div 4)]"
| "b64_groups (a # b # c # d # s) =
     map_option (\<lambda>r. char_of (a * 4 + b div 16) # char_of (b mod 16 * 16 + c div 4) # char_of (c mod 4 * 64 + d) # r)
       (b64_groups s)"

definition b64_decode :: "string \<Rightarrow> string option" where
  "b64_decode s =
     (let vs = map b64_value (filter (\<lambda>c. c \<noteq> CR \<and> c \<noteq> LF) s)
      in if list_ex (\<lambda>v. v = None) vs then None else b64_groups (map the vs))"

section \<open>The cookie\<close>

abbreviation session_ttl :: int where "session_ttl \<equiv> 24 * hour"
abbreviation remember_ttl :: int where "remember_ttl \<equiv> 30 * 24 * hour"

record token =
  tk_user :: int
  tk_gen :: int
  tk_expiry :: int
  tk_remember :: bool

definition seal_payload :: "int \<Rightarrow> int \<Rightarrow> int \<Rightarrow> bool \<Rightarrow> string" where
  "seal_payload uid gen expiry remember =
     format_int uid @ ''.'' @ format_int gen @ ''.'' @ format_int (expiry div second) @ ''.'' @ format_int (if remember then 1 else 0)"

text \<open>\<open>None\<close> is the error that the signer has no key.\<close>

definition seal_token :: "(string \<Rightarrow> string \<Rightarrow> string) \<Rightarrow> string \<Rightarrow> int \<Rightarrow> int \<Rightarrow> int \<Rightarrow> bool \<Rightarrow> string option" where
  "seal_token mac key uid gen expiry remember =
     (if key = [] then None
      else let payload = seal_payload uid gen expiry remember
           in Some (b64_encode payload @ ''.'' @ b64_encode (mac key payload)))"

definition read_payload :: "int \<Rightarrow> string \<Rightarrow> token option" where
  "read_payload now payload =
     (case split_on CHR ''.'' payload of
        [f0, f1, f2, f3] \<Rightarrow>
          (case (parse_int f0, parse_int f1, parse_int f2) of
             (Some uid, Some gen, Some e) \<Rightarrow>
               if uid \<le> 0 \<or> gen < 0 \<or> now > e * second then None
               else Some \<lparr>tk_user = uid, tk_gen = gen, tk_expiry = e * second, tk_remember = (f3 = ''1'')\<rparr>
           | _ \<Rightarrow> None)
      | _ \<Rightarrow> None)"

definition open_token :: "(string \<Rightarrow> string \<Rightarrow> string) \<Rightarrow> string \<Rightarrow> int \<Rightarrow> string \<Rightarrow> token option" where
  "open_token mac key now raw =
     (if key = [] \<or> raw = [] then None
      else case cut raw ''.'' of (bdy, sig, ok) \<Rightarrow>
        if \<not> ok \<or> bdy = [] \<or> sig = [] then None
        else case (b64_decode bdy, b64_decode sig) of
          (Some payload, Some got) \<Rightarrow> if got = mac key payload then read_payload now payload else None
        | _ \<Rightarrow> None)"

section \<open>Passwords\<close>

definition hash_password :: "(string \<Rightarrow> string option) \<Rightarrow> string \<Rightarrow> string option" where
  "hash_password bcrypt password = (if password = [] then None else bcrypt password)"

definition check_password :: "(string \<Rightarrow> string \<Rightarrow> bool) \<Rightarrow> string \<Rightarrow> string \<Rightarrow> bool" where
  "check_password bcrypt_ok hash password = (hash \<noteq> [] \<and> password \<noteq> [] \<and> bcrypt_ok hash password)"

section \<open>Base64 round trip\<close>

lemma b64_table: "list_all (\<lambda>n. b64_value (b64_char n) = Some n \<and> b64_char n \<noteq> CR \<and> b64_char n \<noteq> LF \<and> b64_char n \<noteq> CHR ''.'') [0..<64]"
  by code_simp

lemma b64_char:
  assumes "n < 64"
  shows "b64_value (b64_char n) = Some n" "b64_char n \<noteq> CR" "b64_char n \<noteq> LF" "b64_char n \<noteq> CHR ''.''"
  using assms b64_table unfolding list_all_iff by auto

lemma byte_bounds:
  "byte a div 4 < 64" "byte a mod 4 * 16 < 64" "byte a mod 4 * 16 + byte b div 16 < 64" "byte b mod 16 * 4 < 64"
  "byte b mod 16 * 4 + byte c div 64 < 64" "byte c mod 64 < 64"
proof -
  have "byte a < 256" "byte b < 256" "byte c < 256" by simp_all
  then show "byte a div 4 < 64" "byte a mod 4 * 16 < 64" "byte a mod 4 * 16 + byte b div 16 < 64" "byte b mod 16 * 4 < 64"
    "byte b mod 16 * 4 + byte c div 64 < 64" "byte c mod 64 < 64" by linarith+
qed

lemma byte_pieces:
  "byte b div 16 div 16 = 0" "byte b div 16 mod 16 = byte b div 16"
  "byte b div 64 div 4 = 0" "byte b div 64 mod 4 = byte b div 64"
proof -
  have "byte b div 16 < 16" "byte b div 64 < 4" using byte_bounds(1)[of b] by (simp_all add: less_mult_imp_div_less)
  then show "byte b div 16 div 16 = 0" "byte b div 16 mod 16 = byte b div 16"
    "byte b div 64 div 4 = 0" "byte b div 64 mod 4 = byte b div 64" by simp_all
qed

text \<open>The values of an encoded string.\<close>

lemma b64_encode_chars: "set (b64_encode s) \<subseteq> b64_char ` {..<64}"
proof (induction s rule: b64_encode.induct)
  case (4 a b c s)
  then show ?case using byte_bounds by (simp add: imageI)
qed (use byte_bounds in \<open>simp_all add: imageI\<close>)

lemma b64_encode_char: "c \<in> set (b64_encode s) \<Longrightarrow> \<exists>n < 64. c = b64_char n"
  using b64_encode_chars[of s] by auto

lemma b64_decode_encode: "b64_decode (b64_encode s) = Some s"
proof -
  have clean: "c \<noteq> CR \<and> c \<noteq> LF \<and> b64_value c \<noteq> None" if "c \<in> set (b64_encode s)" for c
    using b64_encode_char[OF that] b64_char by fastforce
  then have "filter (\<lambda>c. c \<noteq> CR \<and> c \<noteq> LF) (b64_encode s) = b64_encode s" by (simp add: filter_id_conv)
  moreover have "\<not> list_ex (\<lambda>v. v = None) (map b64_value (b64_encode s))"
  proof -
    have "v \<noteq> None" if "v \<in> set (map b64_value (b64_encode s))" for v using that clean by auto
    then show ?thesis unfolding list_ex_iff by blast
  qed
  moreover have "b64_groups (map the (map b64_value (b64_encode s))) = Some s"
    by (induction s rule: b64_encode.induct) (simp_all add: b64_char(1) byte_bounds byte_pieces)
  ultimately show ?thesis by (simp add: b64_decode_def)
qed

lemma b64_encode_Nil: "b64_encode s = [] \<longleftrightarrow> s = []"
  by (cases s rule: b64_encode.cases) auto

lemma b64_encode_no_dot: "CHR ''.'' \<notin> set (b64_encode s)"
  using b64_encode_char b64_char(4) by metis

end
