(* ===== verification/Accounts.thy ===== *)
theory Accounts
  imports Auth StoreUsers
begin

text \<open>
  The accounts of the web portal, the handlers of \<open>internal/admin/admin.go\<close> for setup, login, the own profile and
  password, and the administration of users. A request comes decoded: \<open>None\<close> in place of its fields is a body that is
  no JSON. A request with another method is refused without effect and left out.
\<close>

section \<open>Requests and replies\<close>

record request =
  rq_cookie :: "string option"
  rq_path :: string
  rq_https :: bool

record cookie =
  ck_value :: string
  ck_max_age :: "int option"
  ck_secure :: bool

datatype web_error =
    Setup_Required | Login_Required | Change_Required | Admin_Required | Bad_Json | Already_Set_Up
  | No_Hash | Bad_Credentials | Wrong_Password | Not_Single_Line | Email_Without_At | Own_Account
  | Store_Problem store_error | Signer_Problem

record account_view =
  av_id :: int
  av_name :: string
  av_role :: string
  av_can_post :: bool
  av_disabled :: bool
  av_display :: string
  av_email :: string
  av_must_change :: bool

datatype result = Refused nat web_error | Done

record reply =
  rp_result :: result
  rp_users :: "account_view list"
  rp_cookie :: "cookie option"

definition refused :: "nat \<Rightarrow> web_error \<Rightarrow> reply" where
  "refused code e = \<lparr>rp_result = Refused code e, rp_users = [], rp_cookie = None\<rparr>"

definition ok_reply :: "account_view list \<Rightarrow> cookie option \<Rightarrow> reply" where
  "ok_reply us c = \<lparr>rp_result = Done, rp_users = us, rp_cookie = c\<rparr>"

definition public_user :: "user \<Rightarrow> account_view list" where
  "public_user u =
     (if u_name u = [] then []
      else [\<lparr>av_id = u_id u, av_name = u_name u, av_role = u_role u, av_can_post = u_can_post u,
             av_disabled = u_disabled u, av_display = u_display u, av_email = u_email u,
             av_must_change = u_must_change u\<rparr>])"

section \<open>Sessions\<close>

text \<open>The primitives the handlers call, and what is left of a request to them.\<close>

record web_env =
  we_mac :: "string \<Rightarrow> string \<Rightarrow> string"
  we_bcrypt :: "string \<Rightarrow> string option"
  we_bcrypt_ok :: "string \<Rightarrow> string \<Rightarrow> bool"
  we_random :: "string option"

record web =
  w_store :: memory
  w_signer :: "string option"

definition needs_setup :: "web \<Rightarrow> bool" where
  "needs_setup w = (count_users (w_store w) = 0)"

definition signer_for :: "web_env \<Rightarrow> web \<Rightarrow> (web \<times> string) option" where
  "signer_for e w =
     (case w_signer w of
        Some k \<Rightarrow> Some (w, k)
      | None \<Rightarrow>
          (case get_or_create_secret (we_random e) ''session'' (w_store w) of
             None \<Rightarrow> None
           | Some (s, k) \<Rightarrow> Some (w\<lparr>w_store := s, w_signer := Some k\<rparr>, k)))"

definition read_cookie :: "web_env \<Rightarrow> int \<Rightarrow> request \<Rightarrow> web \<Rightarrow> web \<times> token option" where
  "read_cookie e now r w =
     (case rq_cookie r of
        None \<Rightarrow> (w, None)
      | Some raw \<Rightarrow>
          (case signer_for e w of
             None \<Rightarrow> (w, None)
           | Some (w1, k) \<Rightarrow> (w1, open_token (we_mac e) k now raw)))"

definition session_user :: "memory \<Rightarrow> token \<Rightarrow> user option" where
  "session_user s t =
     (case get_user_by_id (tk_user t) s of
        None \<Rightarrow> None
      | Some u \<Rightarrow> if u_disabled u \<or> u_gen u \<noteq> tk_gen t then None else Some u)"

definition current_user :: "web_env \<Rightarrow> int \<Rightarrow> request \<Rightarrow> web \<Rightarrow> web \<times> user option" where
  "current_user e now r w =
     (case read_cookie e now r w of
        (w1, None) \<Rightarrow> (w1, None)
      | (w1, Some t) \<Rightarrow> (w1, session_user (w_store w1) t))"

definition cookie_remembers :: "web_env \<Rightarrow> int \<Rightarrow> request \<Rightarrow> web \<Rightarrow> bool" where
  "cookie_remembers e now r w = (case snd (read_cookie e now r w) of None \<Rightarrow> False | Some t \<Rightarrow> tk_remember t)"

definition session_cookie :: "web_env \<Rightarrow> int \<Rightarrow> request \<Rightarrow> user \<Rightarrow> bool \<Rightarrow> web \<Rightarrow> web \<times> cookie option" where
  "session_cookie e now r u remember w =
     (case signer_for e w of
        None \<Rightarrow> (w, None)
      | Some (w1, k) \<Rightarrow>
          let ttl = (if remember then remember_ttl else session_ttl)
          in (w1, map_option
                (\<lambda>v. \<lparr>ck_value = v, ck_max_age = (if remember then Some (ttl div second) else None), ck_secure = rq_https r\<rparr>)
                (seal_token (we_mac e) k (u_id u) (u_gen u) (now + ttl) remember)))"

text \<open>Replies with a session for the user, or reports that the signer is missing.\<close>

definition reply_with_session :: "web_env \<Rightarrow> int \<Rightarrow> request \<Rightarrow> user \<Rightarrow> bool \<Rightarrow> web \<Rightarrow> web \<times> reply" where
  "reply_with_session e now r u remember w =
     (case session_cookie e now r u remember w of
        (w1, None) \<Rightarrow> (w1, refused 500 Signer_Problem)
      | (w1, Some c) \<Rightarrow> (w1, ok_reply (public_user u) (Some c)))"

text \<open>Who may go on with a request: the user, or the refusal.\<close>

definition authorize :: "web_env \<Rightarrow> int \<Rightarrow> bool \<Rightarrow> request \<Rightarrow> web \<Rightarrow> web \<times> (nat \<times> web_error + user)" where
  "authorize e now admin_only r w =
     (if needs_setup w then (w, Inl (403, Setup_Required))
      else case current_user e now r w of
        (w1, None) \<Rightarrow> (w1, Inl (401, Login_Required))
      | (w1, Some u) \<Rightarrow>
          if u_must_change u \<and> rq_path r \<noteq> ''/api/me/password'' then (w1, Inl (403, Change_Required))
          else if admin_only \<and> \<not> is_admin u then (w1, Inl (403, Admin_Required))
          else (w1, Inr u))"

definition with_auth ::
    "web_env \<Rightarrow> int \<Rightarrow> bool \<Rightarrow> (user \<Rightarrow> web \<Rightarrow> web \<times> reply) \<Rightarrow> request \<Rightarrow> web \<Rightarrow> web \<times> reply" where
  "with_auth e now admin_only handler r w =
     (case authorize e now admin_only r w of
        (w1, Inl (code, err)) \<Rightarrow> (w1, refused code err)
      | (w1, Inr u) \<Rightarrow> handler u w1)"

section \<open>Handlers\<close>

definition new_user :: "string \<Rightarrow> string \<Rightarrow> string \<Rightarrow> bool \<Rightarrow> bool \<Rightarrow> user" where
  "new_user name hash role can_post must_change =
     \<lparr>u_id = 0, u_name = name, u_hash = hash, u_role = role, u_can_post = can_post, u_disabled = False, u_display = [],
      u_email = [], u_must_change = must_change, u_gen = 0, u_created = 0\<rparr>"

definition setup_post :: "web_env \<Rightarrow> int \<Rightarrow> (string \<times> string) option \<Rightarrow> request \<Rightarrow> web \<Rightarrow> web \<times> reply" where
  "setup_post e now i r w =
     (if \<not> needs_setup w then (w, refused 409 Already_Set_Up)
      else case i of
        None \<Rightarrow> (w, refused 400 Bad_Json)
      | Some (name, password) \<Rightarrow>
          (case hash_password (we_bcrypt e) password of
             None \<Rightarrow> (w, refused 400 No_Hash)
           | Some h \<Rightarrow>
               (case create_user now (new_user name h ''admin'' True False) (w_store w) of
                  Inl err \<Rightarrow> (w, refused 500 (Store_Problem err))
                | Inr (s, u) \<Rightarrow> reply_with_session e now r u True (w\<lparr>w_store := s\<rparr>))))"

definition login_post :: "web_env \<Rightarrow> int \<Rightarrow> (string \<times> string \<times> bool) option \<Rightarrow> request \<Rightarrow> web \<Rightarrow> web \<times> reply" where
  "login_post e now i r w =
     (case i of
        None \<Rightarrow> (w, refused 400 Bad_Json)
      | Some (name, password, remember) \<Rightarrow>
          (case get_user name (w_store w) of
             None \<Rightarrow> (w, refused 401 Bad_Credentials)
           | Some u \<Rightarrow>
               if u_disabled u \<or> \<not> check_password (we_bcrypt_ok e) (u_hash u) password
               then (w, refused 401 Bad_Credentials)
               else reply_with_session e now r u remember w))"

definition logout :: "request \<Rightarrow> web \<Rightarrow> web \<times> reply" where
  "logout r w = (w, ok_reply [] (Some \<lparr>ck_value = [], ck_max_age = Some (- 1), ck_secure = rq_https r\<rparr>))"

definition me_patch :: "web_env \<Rightarrow> int \<Rightarrow> (string \<times> string) option \<Rightarrow> request \<Rightarrow> web \<Rightarrow> web \<times> reply" where
  "me_patch e now i r w =
     (case current_user e now r w of
        (w1, None) \<Rightarrow> (w1, refused 401 Login_Required)
      | (w1, Some u) \<Rightarrow>
          if u_must_change u then (w1, refused 403 Change_Required)
          else case i of
            None \<Rightarrow> (w1, refused 400 Bad_Json)
          | Some (display, email) \<Rightarrow>
              let n = trim_space display; m = trim_space email
              in if contains_any n [CR, LF] \<or> contains_any m [CR, LF, SP, TAB] then (w1, refused 400 Not_Single_Line)
                 else if m \<noteq> [] \<and> \<not> contains m ''@'' then (w1, refused 400 Email_Without_At)
                 else (case update_profile (u_name u) n m (w_store w1) of
                         Inl err \<Rightarrow> (w1, refused 500 (Store_Problem err))
                       | Inr s \<Rightarrow> (w1\<lparr>w_store := s\<rparr>, ok_reply (public_user (u\<lparr>u_display := n, u_email := m\<rparr>)) None)))"

definition change_own_password ::
    "web_env \<Rightarrow> int \<Rightarrow> (string \<times> string) option \<Rightarrow> request \<Rightarrow> user \<Rightarrow> web \<Rightarrow> web \<times> reply" where
  "change_own_password e now i r u w =
     (case i of
        None \<Rightarrow> (w, refused 400 Bad_Json)
      | Some (current, new) \<Rightarrow>
          if \<not> check_password (we_bcrypt_ok e) (u_hash u) current then (w, refused 401 Wrong_Password)
          else case hash_password (we_bcrypt e) new of
            None \<Rightarrow> (w, refused 400 No_Hash)
          | Some h \<Rightarrow>
              (case change_password (u_name u) h (w_store w) of
                 Inl err \<Rightarrow> (w, refused 500 (Store_Problem err))
               | Inr (s, nu) \<Rightarrow> reply_with_session e now r nu (cookie_remembers e now r w) (w\<lparr>w_store := s\<rparr>)))"

definition users_get :: "user \<Rightarrow> web \<Rightarrow> web \<times> reply" where
  "users_get me w = (w, ok_reply (concat (map public_user (list_users (w_store w)))) None)"

definition users_post ::
    "web_env \<Rightarrow> int \<Rightarrow> (string \<times> string \<times> string \<times> bool option) option \<Rightarrow> user \<Rightarrow> web \<Rightarrow> web \<times> reply" where
  "users_post e now i me w =
     (case i of
        None \<Rightarrow> (w, refused 400 Bad_Json)
      | Some (name, password, role, can_post) \<Rightarrow>
          (case hash_password (we_bcrypt e) password of
             None \<Rightarrow> (w, refused 400 No_Hash)
           | Some h \<Rightarrow>
               let cp = (case can_post of None \<Rightarrow> True | Some b \<Rightarrow> b); ro = (if role = [] then ''user'' else role)
               in (case create_user now (new_user name h ro cp True) (w_store w) of
                     Inl err \<Rightarrow> (w, refused 500 (Store_Problem err))
                   | Inr (s, u) \<Rightarrow> (w\<lparr>w_store := s\<rparr>, ok_reply (public_user u) None))))"

definition users_patch ::
    "web_env \<Rightarrow> (string \<times> string \<times> string \<times> bool option \<times> bool option) option \<Rightarrow> user \<Rightarrow> web \<Rightarrow> web \<times> reply" where
  "users_patch e i me w =
     (case i of
        None \<Rightarrow> (w, refused 400 Bad_Json)
      | Some (name, password, role, can_post, disabled) \<Rightarrow>
          (case (if password = [] then Some [] else hash_password (we_bcrypt e) password) of
             None \<Rightarrow> (w, refused 400 No_Hash)
           | Some h \<Rightarrow>
               (case update_user name role can_post disabled h (w_store w) of
                  Inl err \<Rightarrow> (w, refused 500 (Store_Problem err))
                | Inr s \<Rightarrow> (w\<lparr>w_store := s\<rparr>, ok_reply [] None))))"

definition users_delete :: "string \<Rightarrow> user \<Rightarrow> web \<Rightarrow> web \<times> reply" where
  "users_delete name me w =
     (if name = u_name me then (w, refused 400 Own_Account)
      else case delete_user name (w_store w) of
        Inl err \<Rightarrow> (w, refused 500 (Store_Problem err))
      | Inr s \<Rightarrow> (w\<lparr>w_store := s\<rparr>, ok_reply [] None))"

section \<open>The portal\<close>

datatype account_request =
    Setup_Post "(string \<times> string) option"
  | Login_Post "(string \<times> string \<times> bool) option"
  | Logout
  | Me_Patch "(string \<times> string) option"
  | Password_Post "(string \<times> string) option"
  | Users_Get
  | Users_Post "(string \<times> string \<times> string \<times> bool option) option"
  | Users_Patch "(string \<times> string \<times> string \<times> bool option \<times> bool option) option"
  | Users_Delete string

text \<open>The routes of \<open>Handler\<close>. The path of a request is the one of its route.\<close>

definition account_handler :: "web_env \<Rightarrow> int \<Rightarrow> account_request \<Rightarrow> request \<Rightarrow> web \<Rightarrow> web \<times> reply" where
  "account_handler e now q r w =
     (case q of
        Setup_Post i \<Rightarrow> setup_post e now i r w
      | Login_Post i \<Rightarrow> login_post e now i r w
      | Logout \<Rightarrow> logout r w
      | Me_Patch i \<Rightarrow> me_patch e now i r w
      | Password_Post i \<Rightarrow>
          with_auth e now False (change_own_password e now i r) (r\<lparr>rq_path := ''/api/me/password''\<rparr>) w
      | Users_Get \<Rightarrow> with_auth e now True users_get (r\<lparr>rq_path := ''/api/users''\<rparr>) w
      | Users_Post i \<Rightarrow> with_auth e now True (users_post e now i) (r\<lparr>rq_path := ''/api/users''\<rparr>) w
      | Users_Patch i \<Rightarrow> with_auth e now True (users_patch e i) (r\<lparr>rq_path := ''/api/users''\<rparr>) w
      | Users_Delete name \<Rightarrow> with_auth e now True (users_delete name) (r\<lparr>rq_path := ''/api/users''\<rparr>) w)"

end
