(* ===== verification/AccountsLaws.thy ===== *)
theory AccountsLaws
  imports Accounts GoScan
begin

text \<open>
  The sessions and accounts of the web portal: a cookie opens to what was sealed in it, a new password ends the
  sessions of before, who may change which account, and the two requests that take an administrator's account away and
  leave the portal open to anyone.
\<close>

section \<open>Cookies\<close>

lemma read_seal:
  assumes "0 < uid" "uid < 2 ^ 63" "0 \<le> gen" "gen < 2 ^ 63" "- (2 ^ 63) \<le> ex div second" "ex div second < 2 ^ 63"
    and "now \<le> ex div second * second"
  shows "read_payload now (seal_payload uid gen ex rem) =
    Some \<lparr>tk_user = uid, tk_gen = gen, tk_expiry = ex div second * second, tk_remember = rem\<rparr>"
proof -
  have dot: "CHR ''.'' \<notin> set (format_int n)" for n by (auto simp: is_digit_def dest!: format_int_chars)
  have "split_on CHR ''.'' (seal_payload uid gen ex rem) =
      [format_int uid, format_int gen, format_int (ex div second), format_int (if rem then 1 else 0)]"
    by (simp add: seal_payload_def split_on_append split_on_single dot)
  moreover have "format_int 1 = ''1''" "format_int 0 \<noteq> ''1''" by code_simp+
  then have "format_int (if rem then 1 else 0) = ''1'' \<longleftrightarrow> rem" by simp
  ultimately show ?thesis using assms by (simp add: read_payload_def parse_int_format_int)
qed

lemma open_sealed:
  assumes "seal_token mac key uid gen ex rem = Some raw" "mac key (seal_payload uid gen ex rem) \<noteq> []"
    and "0 < uid" "uid < 2 ^ 63" "0 \<le> gen" "gen < 2 ^ 63" "- (2 ^ 63) \<le> ex div second" "ex div second < 2 ^ 63"
    and "now \<le> ex div second * second"
  shows "open_token mac key now raw =
    Some \<lparr>tk_user = uid, tk_gen = gen, tk_expiry = ex div second * second, tk_remember = rem\<rparr>"
proof -
  let ?p = "seal_payload uid gen ex rem"
  have r: "raw = b64_encode ?p @ CHR ''.'' # b64_encode (mac key ?p)" "key \<noteq> []"
    using assms(1) by (auto simp: seal_token_def Let_def split: if_splits)
  have "?p \<noteq> []" by (simp add: seal_payload_def)
  then show ?thesis
    using assms(2) read_seal[OF assms(3-9)] cut_single[OF b64_encode_no_dot[of ?p], of "b64_encode (mac key ?p)"] r
    by (simp add: open_token_def b64_encode_Nil b64_decode_encode)
qed

text \<open>C36: a cookie the portal sealed opens, until it expires, to the user, the session generation and the choice that were
  sealed in it, and to the expiry cut to the second.\<close>

theorem cookie_roundtrip:
  assumes "seal_token mac key uid gen ex rem = Some raw" "mac key (seal_payload uid gen ex rem) \<noteq> []"
    and "0 < uid" "uid < 2 ^ 63" "0 \<le> gen" "gen < 2 ^ 63" "- (2 ^ 63) \<le> ex div second" "ex div second < 2 ^ 63"
    and "now \<le> ex div second * second"
  shows "open_token mac key now raw =
    Some \<lparr>tk_user = uid, tk_gen = gen, tk_expiry = ex div second * second, tk_remember = rem\<rparr>"
  by (rule open_sealed[OF assms])

definition demo_mac :: "string \<Rightarrow> string \<Rightarrow> string" where
  "demo_mac k m = ''s''"

theorem cookie_roundtrip_witness:
  "\<exists>raw. seal_token demo_mac ''k'' 7 2 (90 * second) True = Some raw
     \<and> open_token demo_mac ''k'' (60 * second) raw = Some \<lparr>tk_user = 7, tk_gen = 2, tk_expiry = 90 * second, tk_remember = True\<rparr>"
  using cookie_roundtrip[of demo_mac "''k''" 7 2 "90 * second" True "the (seal_token demo_mac ''k'' 7 2 (90 * second) True)" "60 * second"]
  by (simp add: seal_token_def demo_mac_def)

section \<open>What a request does to the accounts\<close>

definition same_accounts :: "memory \<Rightarrow> memory \<Rightarrow> bool" where
  "same_accounts s t \<longleftrightarrow> m_users t = m_users s \<and> m_next_uid t = m_next_uid s"

lemma same_accounts_facts:
  "same_accounts s t \<Longrightarrow> users_wf t = users_wf s" "same_accounts s t \<Longrightarrow> get_user_by_id k t = get_user_by_id k s"
  "same_accounts s t \<Longrightarrow> count_users t = count_users s" "same_accounts s s"
  by (simp_all add: same_accounts_def users_wf_def get_user_by_id_def count_users_def)

lemma signer_for_same: "signer_for e w = Some (w1, k) \<Longrightarrow>
    same_accounts (w_store w) (w_store w1) \<and> w_signer w1 = Some k \<and> (w_signer w = None \<or> w1 = w \<and> w_signer w = Some k)"
  by (auto simp: signer_for_def get_or_create_secret_def same_accounts_def split: option.splits)

lemma read_cookie_same: "read_cookie e now r w = (w1, t) \<Longrightarrow>
    same_accounts (w_store w) (w_store w1) \<and> (w_signer w = None \<or> w1 = w)
    \<and> (t \<noteq> None \<longrightarrow> (\<exists>raw k. rq_cookie r = Some raw \<and> w_signer w1 = Some k \<and> open_token (we_mac e) k now raw = t))"
  by (auto simp: read_cookie_def same_accounts_facts dest!: signer_for_same split: option.splits)

lemma session_user_same: "same_accounts s t \<Longrightarrow> session_user t k = session_user s k"
  by (simp add: session_user_def same_accounts_facts)

text \<open>A request is made by a user when its cookie is a valid session of an enabled account.\<close>

definition made_by :: "web_env \<Rightarrow> int \<Rightarrow> request \<Rightarrow> web \<Rightarrow> user \<Rightarrow> bool" where
  "made_by e now r w u \<longleftrightarrow>
     (\<exists>raw k t. rq_cookie r = Some raw \<and> (w_signer w = None \<or> w_signer w = Some k)
        \<and> open_token (we_mac e) k now raw = Some t \<and> session_user (w_store w) t = Some u)"

lemma current_user_made: "current_user e now r w = (w1, v) \<Longrightarrow>
    same_accounts (w_store w) (w_store w1) \<and> (w_signer w = None \<or> w1 = w) \<and> (v \<noteq> None \<longrightarrow> made_by e now r w (the v))"
proof -
  assume c: "current_user e now r w = (w1, v)"
  obtain w2 t where t: "read_cookie e now r w = (w2, t)" by fastforce
  note r = read_cookie_same[OF t]
  show ?thesis
  proof (cases t)
    case None
    then show ?thesis using c t r by (auto simp: current_user_def)
  next
    case (Some k)
    then have w: "w1 = w2" "v = session_user (w_store w) k"
      using c t r by (auto simp: current_user_def session_user_same)
    then show ?thesis using r Some by (auto simp: made_by_def)
  qed
qed

lemma session_cookie_same: "session_cookie e now r u rem w = (w1, c) \<Longrightarrow>
    same_accounts (w_store w) (w_store w1) \<and> (w_signer w = None \<or> w1 = w)"
  by (auto simp: session_cookie_def Let_def same_accounts_facts dest!: signer_for_same split: option.splits)

lemma reply_with_session_same: "reply_with_session e now r u rem w = (w1, rep) \<Longrightarrow>
    same_accounts (w_store w) (w_store w1) \<and> (w_signer w = None \<or> w1 = w)"
  by (auto simp: reply_with_session_def dest!: session_cookie_same split: prod.splits option.splits)

text \<open>The accounts stay, or one account operation succeeds on them; a signer stays.\<close>

definition account_change :: "web \<Rightarrow> web \<Rightarrow> bool" where
  "account_change w w' \<longleftrightarrow>
     (w_signer w = None \<or> w_signer w' = w_signer w)
     \<and> (same_accounts (w_store w) (w_store w')
        \<or> (\<exists>s t. same_accounts (w_store w) s \<and> account_step s t \<and> same_accounts t (w_store w')))"

lemma account_change_same: "same_accounts (w_store w) (w_store w') \<Longrightarrow> w_signer w = None \<or> w' = w \<Longrightarrow> account_change w w'"
  by (auto simp: account_change_def)

lemma account_change_step:
  "same_accounts (w_store w) (w_store w1) \<Longrightarrow> w_signer w = None \<or> w1 = w \<Longrightarrow> account_step (w_store w1) s \<Longrightarrow>
   same_accounts s (w_store w') \<Longrightarrow> w_signer w1 = None \<or> w_signer w' = w_signer w1 \<Longrightarrow> account_change w w'"
  unfolding account_change_def by metis

lemma change_and_reply:
  assumes "account_step (w_store w) s" "reply_with_session e now r u rem (w\<lparr>w_store := s\<rparr>) = (w', rep)"
  shows "account_change w w'"
  using reply_with_session_same[OF assms(2)] assms(1)
  by (intro account_change_step[of w w s]) (auto simp: same_accounts_facts)

lemma change_store: "account_step (w_store w) s \<Longrightarrow> account_change w (w\<lparr>w_store := s\<rparr>)"
  by (rule account_change_step[of w w s]) (auto simp: same_accounts_facts)

lemma account_change_refl: "account_change w w"
  by (rule account_change_same) (auto simp: same_accounts_facts)

lemma account_change_after:
  assumes "same_accounts (w_store w) (w_store w1)" "w_signer w = None \<or> w1 = w" "account_change w1 w'"
  shows "account_change w w'"
proof -
  have t: "same_accounts a b \<Longrightarrow> same_accounts b c \<Longrightarrow> same_accounts a c" for a b c by (simp add: same_accounts_def)
  show ?thesis using assms unfolding account_change_def by (metis t)
qed

lemma setup_change: "setup_post e now i r w = (w', rep) \<Longrightarrow> account_change w w'"
  by (auto simp: setup_post_def account_change_refl split: if_splits option.splits sum.splits)
     (erule (1) change_and_reply[OF account_step.creates])

lemma login_change: "login_post e now i r w = (w', rep) \<Longrightarrow> account_change w w'"
  by (auto simp: login_post_def account_change_refl split: if_splits option.splits)
     (drule reply_with_session_same, blast intro: account_change_same)

lemma me_patch_change: "me_patch e now i r w = (w', rep) \<Longrightarrow> account_change w w'"
proof -
  assume m: "me_patch e now i r w = (w', rep)"
  obtain w1 v where c: "current_user e now r w = (w1, v)" by fastforce
  note k = current_user_made[OF c]
  have "account_change w1 w'"
    using m c by (auto simp: me_patch_def Let_def account_change_refl intro: change_store[OF account_step.profiles]
      split: if_splits option.splits sum.splits)
  then show ?thesis using k account_change_after by blast
qed

lemma own_password_change: "change_own_password e now i r u w = (w', rep) \<Longrightarrow> account_change w w'"
  by (auto simp: change_own_password_def account_change_refl split: if_splits option.splits sum.splits)
     (erule (1) change_and_reply[OF account_step.passwords])

lemma users_change:
  "users_get u w = (w', rep) \<Longrightarrow> account_change w w'" "users_post e now i2 u w = (w', rep) \<Longrightarrow> account_change w w'"
  "users_patch e i3 u w = (w', rep) \<Longrightarrow> account_change w w'" "users_delete n u w = (w', rep) \<Longrightarrow> account_change w w'"
  by (auto simp: users_get_def users_post_def users_patch_def users_delete_def Let_def account_change_refl
      intro: change_store[OF account_step.creates] change_store[OF account_step.updates] change_store[OF account_step.deletes]
      split: if_splits option.splits sum.splits)

lemma authorize_cases:
  assumes "authorize e now adm r w = (w1, res)"
  shows "same_accounts (w_store w) (w_store w1)" "w_signer w = None \<or> w1 = w"
    and "res = Inr u \<Longrightarrow> \<not> needs_setup w \<and> current_user e now r w = (w1, Some u) \<and> made_by e now r w u \<and> (adm \<longrightarrow> is_admin u)"
proof -
  obtain w2 v where c: "current_user e now r w = (w2, v)" by fastforce
  note k = current_user_made[OF c]
  show "same_accounts (w_store w) (w_store w1)" "w_signer w = None \<or> w1 = w"
    using k assms c by (auto simp: authorize_def same_accounts_facts split: if_splits option.splits)
  show "res = Inr u \<Longrightarrow> \<not> needs_setup w \<and> current_user e now r w = (w1, Some u) \<and> made_by e now r w u \<and> (adm \<longrightarrow> is_admin u)"
    using k assms c by (auto simp: authorize_def split: if_splits option.splits)
qed

lemma with_auth_cases:
  assumes "with_auth e now adm h r w = (w', rep)"
  shows "same_accounts (w_store w) (w_store w') \<and> (w_signer w = None \<or> w' = w) \<and> rp_result rep \<noteq> Done
    \<or> (\<exists>u w1. \<not> needs_setup w \<and> current_user e now r w = (w1, Some u) \<and> made_by e now r w u \<and> (adm \<longrightarrow> is_admin u)
         \<and> same_accounts (w_store w) (w_store w1) \<and> (w_signer w = None \<or> w1 = w) \<and> h u w1 = (w', rep))"
proof -
  obtain w1 res where a: "authorize e now adm r w = (w1, res)" by fastforce
  show ?thesis
  proof (cases res)
    case (Inl l)
    then show ?thesis using assms a authorize_cases(1,2)[OF a] by (cases l) (auto simp: with_auth_def refused_def)
  next
    case (Inr u)
    then show ?thesis using assms a authorize_cases[OF a] unfolding with_auth_def by fastforce
  qed
qed

lemma with_auth_done:
  assumes "with_auth e now adm h r w = (w', rep)" "rp_result rep = Done" "w_signer w \<noteq> None"
  shows "\<exists>u. made_by e now r w u \<and> (adm \<longrightarrow> is_admin u) \<and> h u w = (w', rep)"
proof -
  from with_auth_cases[OF assms(1)] show ?thesis
  proof (elim disjE exE conjE)
    fix u w1 assume "made_by e now r w u" "adm \<longrightarrow> is_admin u" "w1 = w" "h u w1 = (w', rep)"
    then show ?thesis by blast
  qed (use assms in simp_all)
qed

lemma account_handler_change: "account_handler e now q r w = (w', rep) \<Longrightarrow> account_change w w'"
proof -
  assume h: "account_handler e now q r w = (w', rep)"
  have a: "account_change w w'" if "with_auth e now adm g r1 w = (w', rep)"
      "\<And>u w1. g u w1 = (w', rep) \<Longrightarrow> account_change w1 w'" for adm g r1
    using with_auth_cases[OF that(1)] that(2) account_change_same account_change_after by blast
  from h show ?thesis
    by (cases q) (auto simp: account_handler_def logout_def account_change_refl
      intro: setup_change login_change me_patch_change a own_password_change users_change)
qed

section \<open>Runs\<close>

inductive portal_run :: "web_env \<Rightarrow> web \<Rightarrow> web \<Rightarrow> bool" for e where
  Run_Refl: "portal_run e w w"
| Run_Step: "portal_run e w w1 \<Longrightarrow> account_handler e now q r w1 = (w2, rep) \<Longrightarrow> portal_run e w w2"

definition accounts_later :: "web \<Rightarrow> web \<Rightarrow> bool" where
  "accounts_later w w' \<longleftrightarrow>
     users_wf (w_store w') \<and> m_next_uid (w_store w) \<le> m_next_uid (w_store w')
     \<and> (w_signer w = None \<or> w_signer w' = w_signer w)
     \<and> (\<forall>k v. get_user_by_id k (w_store w') = Some v \<longrightarrow>
          (\<exists>u. get_user_by_id k (w_store w) = Some u \<and> session_order u v) \<or> m_next_uid (w_store w) < k)"

lemma session_order_refl: "session_order u u"
  by (simp add: session_order_def)

lemma accounts_later_change:
  assumes "users_wf (w_store w)" "account_change w w'"
  shows "accounts_later w w'"
proof -
  have same: ?thesis if "same_accounts (w_store w) (w_store w')"
    using that assms session_order_refl
    by (auto simp: accounts_later_def account_change_def same_accounts_facts) (simp_all add: same_accounts_def)
  have step: ?thesis if s: "same_accounts (w_store w) s" "account_step s t" "same_accounts t (w_store w')" for s t
  proof -
    have wf: "users_wf s" using assms(1) s(1) by (simp add: same_accounts_facts)
    have "users_wf t" "m_next_uid s \<le> m_next_uid t" using account_step_wf[OF s(2) wf] account_step_next[OF s(2) wf] by auto
    moreover have "m_next_uid s = m_next_uid (w_store w)" "m_next_uid (w_store w') = m_next_uid t"
      using s(1,3) by (simp_all add: same_accounts_def)
    moreover have "users_wf (w_store w') = users_wf t" "get_user_by_id k (w_store w') = get_user_by_id k t"
        "get_user_by_id k s = get_user_by_id k (w_store w)" for k
      using s(1,3) same_accounts_facts by blast+
    ultimately show ?thesis
      using account_step_user[OF s(2) wf] assms(2) by (auto simp: accounts_later_def account_change_def)
  qed
  from assms(2) show ?thesis using same step unfolding account_change_def by blast
qed

lemma accounts_later_trans:
  assumes "accounts_later w w1" "accounts_later w1 w2"
  shows "accounts_later w w2"
proof -
  have "(\<exists>u. get_user_by_id k (w_store w) = Some u \<and> session_order u v) \<or> m_next_uid (w_store w) < k"
    if v: "get_user_by_id k (w_store w2) = Some v" for k v
  proof (cases "m_next_uid (w_store w1) < k")
    case True
    then show ?thesis using assms(1) by (simp add: accounts_later_def)
  next
    case False
    then obtain x where x: "get_user_by_id k (w_store w1) = Some x" "session_order x v"
      using assms(2) v unfolding accounts_later_def by blast
    then show ?thesis using assms(1) session_order_trans[OF _ x(2)] unfolding accounts_later_def by blast
  qed
  moreover have "m_next_uid (w_store w) \<le> m_next_uid (w_store w2)"
    using assms order_trans unfolding accounts_later_def by blast
  moreover have "users_wf (w_store w2)" using assms(2) by (simp add: accounts_later_def)
  moreover have "w_signer w = None \<or> w_signer w2 = w_signer w"
    using assms unfolding accounts_later_def by metis
  ultimately show ?thesis unfolding accounts_later_def by blast
qed

lemma portal_run_later: "portal_run e w w' \<Longrightarrow> users_wf (w_store w) \<Longrightarrow> accounts_later w w'"
proof (induction rule: portal_run.induct)
  case (Run_Refl w)
  then show ?case using session_order_refl by (auto simp: accounts_later_def)
next
  case (Run_Step w w1 now q r w2 rep)
  then have "accounts_later w1 w2"
    using account_handler_change accounts_later_change by (metis accounts_later_def)
  then show ?case using Run_Step accounts_later_trans by blast
qed

lemma get_user_by_id_key: "get_user_by_id k s = Some u \<Longrightarrow> u_id u = k"
  unfolding get_user_by_id_def by (drule find_Some_in) blast

lemma session_user_stored: "session_user s t = Some u \<Longrightarrow>
    get_user_by_id (tk_user t) s = Some u \<and> \<not> u_disabled u \<and> u_gen u = tk_gen t"
  unfolding session_user_def by (simp split: option.splits if_splits)

lemma made_by_id: "made_by e now r w u \<Longrightarrow> get_user_by_id (u_id u) (w_store w) = Some u \<and> \<not> u_disabled u"
  unfolding made_by_def by (metis session_user_stored get_user_by_id_key)

lemma accounts_later_facts:
  "accounts_later w w' \<Longrightarrow> users_wf (w_store w')"
  "accounts_later w w' \<Longrightarrow> w_signer w = Some k \<Longrightarrow> w_signer w' = Some k"
  "accounts_later w w' \<Longrightarrow> get_user_by_id i (w_store w) = Some u \<Longrightarrow> i \<le> m_next_uid (w_store w) \<Longrightarrow>
   get_user_by_id i (w_store w') = Some v \<Longrightarrow> session_order u v"
  unfolding accounts_later_def by (simp_all) fastforce

lemma made_by_unique: "made_by e now r w u \<Longrightarrow> made_by e now r w v \<Longrightarrow> w_signer w \<noteq> None \<Longrightarrow> u = v"
  by (auto simp: made_by_def)

lemma own_password_done:
  assumes "change_own_password e now i r u w = (w1, rep)" "rp_result rep = Done" "users_wf (w_store w)"
    and "get_user_by_id (u_id u) (w_store w) = Some u"
  shows "\<exists>v. get_user_by_id (u_id u) (w_store w1) = Some v \<and> u_gen u < u_gen v"
proof -
  obtain h s nu where c: "change_password (u_name u) h (w_store w) = Inr (s, nu)"
      "reply_with_session e now r nu (cookie_remembers e now r w) (w\<lparr>w_store := s\<rparr>) = (w1, rep)"
    using assms(1,2) by (auto simp: change_own_password_def refused_def split: option.splits if_splits sum.splits)
  have u: "map_of (m_users (w_store w)) (u_name u) = Some u" using get_user_by_id_iff[OF assms(3)] assms(4) by blast
  then have "trim_space (u_name u) = u_name u" using assms(3) by (auto simp: users_wf_def list_all_iff dest!: map_of_SomeD)
  then have nu: "nu = u\<lparr>u_hash := h, u_must_change := False, u_gen := u_gen u + 1\<rparr>" "s = put_user (u_name u) nu (w_store w)"
    using c(1) u by (auto simp: change_password_def Let_def split: if_splits)
  have wf: "users_wf s" using account_step_wf[OF account_step.passwords[OF c(1)] assms(3)] .
  have "map_of (m_users s) (u_name nu) = Some nu" using nu by (simp add: put_user_def)
  then have "get_user_by_id (u_id u) s = Some nu" using get_user_by_id_iff[OF wf] nu(1) by simp
  moreover have "same_accounts s (w_store w1)" using reply_with_session_same[OF c(2)] by simp
  ultimately show ?thesis using nu(1) by (auto simp: same_accounts_facts)
qed

text \<open>C18: once a user has changed the own password, no cookie issued to that account before, this one included, gives
  a session again, whatever requests follow.\<close>

theorem password_change_ends_sessions:
  assumes "users_wf (w_store w)" "w_signer w = Some k" "made_by e now r w u"
    and "account_handler e now (Password_Post i) r w = (w1, rep)" "rp_result rep = Done" "portal_run e w1 w2"
    and "rq_cookie r2 = Some raw" "open_token (we_mac e) k now2 raw = Some t" "tk_user t = u_id u" "tk_gen t \<le> u_gen u"
  shows "snd (current_user e now2 r2 w2) = None"
proof -
  let ?r = "r\<lparr>rq_path := ''/api/me/password''\<rparr>"
  have h: "with_auth e now False (change_own_password e now i r) ?r w = (w1, rep)"
    using assms(4) by (simp add: account_handler_def)
  have m: "made_by e now ?r w v = made_by e now r w v" for v by (simp add: made_by_def)
  have "w_signer w \<noteq> None" using assms(2) by simp
  then obtain u' where u': "made_by e now r w u'" "change_own_password e now i r u' w = (w1, rep)"
    using with_auth_done[OF h assms(5)] unfolding m by blast
  have "u' = u" using made_by_unique[OF u'(1) assms(3)] \<open>w_signer w \<noteq> None\<close> by blast
  then obtain v where v: "get_user_by_id (u_id u) (w_store w1) = Some v" "u_gen u < u_gen v"
    using own_password_done[OF u'(2) assms(5,1)] made_by_id[OF assms(3)] by blast
  have wf1: "users_wf (w_store w1)" "accounts_later w w1"
    using accounts_later_change[OF assms(1) account_handler_change[OF assms(4)]] accounts_later_facts(1) by blast+
  have later: "accounts_later w1 w2" using portal_run_later[OF assms(6) wf1(1)] .
  have sg: "w_signer w2 = Some k" using accounts_later_facts(2)[OF later accounts_later_facts(2)[OF wf1(2) assms(2)]] .
  have n: "u_id u \<le> m_next_uid (w_store w1)"
    using stored_user[OF wf1(1), of "u_name v" v] get_user_by_id_iff[OF wf1(1), of "u_id u" v] v(1) by simp
  have "session_user (w_store w2) t = None"
  proof (cases "get_user_by_id (u_id u) (w_store w2)")
    case (Some x)
    then have "session_order v x" using accounts_later_facts(3)[OF later v(1) n] by blast
    then have "u_gen x \<noteq> tk_gen t" using v(2) assms(10) by (auto simp: session_order_def)
    then show ?thesis using Some assms(9) by (simp add: session_user_def)
  qed (simp add: session_user_def assms(9))
  then show ?thesis using assms(7,8) sg by (simp add: current_user_def read_cookie_def signer_for_def)
qed

section \<open>Who may change which account\<close>

lemma put_other: "n \<noteq> k \<Longrightarrow> map_of (m_users (put_user k u s)) n = map_of (m_users s) n"
  by (simp add: put_user_def)

lemma me_patch_own:
  assumes "me_patch e now i r w = (w', rep)"
  shows "m_users (w_store w') = m_users (w_store w)
    \<or> (\<exists>u. made_by e now r w u \<and> (\<forall>n. n \<noteq> trim_space (u_name u) \<longrightarrow>
          map_of (m_users (w_store w')) n = map_of (m_users (w_store w)) n))"
proof -
  obtain w1 v where c: "current_user e now r w = (w1, v)" by fastforce
  note k = current_user_made[OF c]
  have s: "m_users (w_store w1) = m_users (w_store w)" using k by (simp add: same_accounts_def)
  show ?thesis
  proof (cases v)
    case None
    then show ?thesis using assms c s by (simp add: me_patch_def)
  next
    case (Some u)
    have "w' = w1 \<or> (\<exists>d m t. update_profile (u_name u) d m (w_store w1) = Inr t \<and> w' = w1\<lparr>w_store := t\<rparr>)"
      using assms c Some by (auto simp: me_patch_def Let_def split: option.splits if_splits sum.splits) blast+
    moreover have "map_of (m_users t) n = map_of (m_users (w_store w)) n"
      if "update_profile (u_name u) d m (w_store w1) = Inr t" "n \<noteq> trim_space (u_name u)" for d m t n
      using that s by (auto simp: update_profile_def put_other split: option.splits)
    ultimately show ?thesis using k s Some by auto
  qed
qed

lemma own_password_own:
  assumes "change_own_password e now i r u w = (w', rep)" "n \<noteq> trim_space (u_name u)"
  shows "map_of (m_users (w_store w')) n = map_of (m_users (w_store w)) n"
proof -
  have "w' = w \<or> (\<exists>h s nu b. change_password (u_name u) h (w_store w) = Inr (s, nu)
      \<and> reply_with_session e now r nu b (w\<lparr>w_store := s\<rparr>) = (w', rep))"
    using assms(1) by (auto simp: change_own_password_def split: option.splits if_splits sum.splits)
  moreover have "map_of (m_users s) n = map_of (m_users (w_store w)) n"
    if "change_password (u_name u) h (w_store w) = Inr (s, nu)" for h s nu
    using that assms(2) by (auto simp: change_password_def Let_def put_other split: option.splits if_splits)
  ultimately show ?thesis by (auto dest!: reply_with_session_same simp: same_accounts_def)
qed

text \<open>C19: the accounts change only by the setup of a portal that has none, or at the request of a user with a valid session of
  an enabled account; unless that user is an administrator, no other account changes.\<close>

theorem accounts_guarded:
  assumes "account_handler e now q r w = (w', rep)" "m_users (w_store w') \<noteq> m_users (w_store w)"
  shows "(\<exists>i. q = Setup_Post i) \<and> needs_setup w
    \<or> (\<exists>u. made_by e now r w u \<and> \<not> u_disabled u
          \<and> (is_admin u \<or> (\<forall>n. n \<noteq> trim_space (u_name u) \<longrightarrow>
                map_of (m_users (w_store w')) n = map_of (m_users (w_store w)) n)))"
proof -
  have guarded: "\<exists>u w1. made_by e now r w u \<and> (adm \<longrightarrow> is_admin u) \<and> m_users (w_store w1) = m_users (w_store w) \<and> h u w1 = (w', rep)"
    if "with_auth e now adm h (r\<lparr>rq_path := p\<rparr>) w = (w', rep)" for adm h p
    using with_auth_cases[OF that] assms(2) by (auto simp: same_accounts_def made_by_def)
  have enabled: "made_by e now r w u \<Longrightarrow> \<not> u_disabled u" for u using made_by_id by blast
  have admin: ?thesis if "with_auth e now True h (r\<lparr>rq_path := p\<rparr>) w = (w', rep)" for h p
    using guarded[OF that] enabled by blast
  show ?thesis
  proof (cases q)
    case (Setup_Post i)
    then show ?thesis using assms by (auto simp: account_handler_def setup_post_def split: if_splits)
  next
    case (Login_Post i)
    then have "m_users (w_store w') = m_users (w_store w)" using assms(1)
      by (auto simp: account_handler_def login_post_def same_accounts_def dest!: reply_with_session_same split: option.splits if_splits)
    then show ?thesis using assms(2) by simp
  next
    case Logout
    then show ?thesis using assms by (auto simp: account_handler_def logout_def)
  next
    case (Me_Patch i)
    then show ?thesis using assms me_patch_own[of e now i r w w' rep] enabled by (auto simp: account_handler_def)
  next
    case (Password_Post i)
    then have "with_auth e now False (change_own_password e now i r) (r\<lparr>rq_path := ''/api/me/password''\<rparr>) w = (w', rep)"
      using assms(1) by (simp add: account_handler_def)
    from guarded[OF this] obtain u w1 where u: "made_by e now r w u" "m_users (w_store w1) = m_users (w_store w)"
        "change_own_password e now i r u w1 = (w', rep)" by blast
    then show ?thesis using own_password_own[OF u(3)] enabled by auto
  qed (use assms(1) admin in \<open>simp_all add: account_handler_def\<close>)
qed

section \<open>The last administrator\<close>

text \<open>C38: the check that administrators do not delete their own account compares the name as it was sent, and the store
  trims it: with a space appended the only account is deleted, the portal is back in setup, and the next
  request, with no cookie at all, makes an administrator of its choice.\<close>

theorem setup_reopened:
  assumes "users_wf (w_store w)" "m_users (w_store w) = [(u_name u, u)]"
    and "bcrypt password = Some h" "password \<noteq> []" "h \<noteq> []" "trim_space name = name" "name \<noteq> []"
  shows "\<exists>w1 w2 rep. users_delete (u_name u @ '' '') u w = (w1, ok_reply [] None) \<and> needs_setup w1
     \<and> setup_post (e\<lparr>we_bcrypt := bcrypt\<rparr>) now (Some (name, password)) r w1 = (w2, rep)
     \<and> (\<exists>v. map_of (m_users (w_store w2)) name = Some v \<and> is_admin v)"
proof -
  have n: "trim_space (u_name u) = u_name u" "u_name u \<noteq> []" using assms(1,2) by (auto simp: users_wf_def)
  let ?s = "(w_store w)\<lparr>m_users := []\<rparr>" and ?w = "w\<lparr>w_store := (w_store w)\<lparr>m_users := []\<rparr>\<rparr>"
  have d: "users_delete (u_name u @ '' '') u w = (?w, ok_reply [] None)"
    using trim_space_before[OF n] assms(2) by (simp add: users_delete_def delete_user_def)
  have su: "needs_setup ?w" by (simp add: needs_setup_def count_users_def)
  let ?u = "(new_user name h ''admin'' True False)\<lparr>u_id := m_next_uid (w_store w) + 1, u_created := now\<rparr>"
  have c: "create_user now (new_user name h ''admin'' True False) ?s
      = Inr (put_user name ?u (?s\<lparr>m_next_uid := m_next_uid (w_store w) + 1\<rparr>), ?u)"
    using assms(5-7) by (simp add: create_user_def new_user_def Let_def)
  obtain w2 rep where p: "reply_with_session (e\<lparr>we_bcrypt := bcrypt\<rparr>) now r ?u True
      (?w\<lparr>w_store := put_user name ?u (?s\<lparr>m_next_uid := m_next_uid (w_store w) + 1\<rparr>)\<rparr>) = (w2, rep)" by fastforce
  have "setup_post (e\<lparr>we_bcrypt := bcrypt\<rparr>) now (Some (name, password)) r ?w = (w2, rep)"
    using su c p assms(3,4) by (simp add: setup_post_def hash_password_def)
  moreover have "map_of (m_users (w_store w2)) name = Some ?u"
    using reply_with_session_same[OF p] by (simp add: same_accounts_def put_user_def)
  moreover have "is_admin ?u" by (simp add: is_admin_def new_user_def)
  ultimately show ?thesis using d su by blast
qed

section \<open>Witnesses\<close>

definition demo_admin :: user where
  "demo_admin = (new_user ''ann'' ''h'' ''admin'' True False)\<lparr>u_id := 1\<rparr>"

definition demo_web :: web where
  "demo_web = \<lparr>w_store = put_user ''ann'' demo_admin (new_memory\<lparr>m_next_uid := 1\<rparr>), w_signer = Some ''k''\<rparr>"

definition demo_web_env :: web_env where
  "demo_web_env = \<lparr>we_mac = demo_mac, we_bcrypt = Some, we_bcrypt_ok = (=), we_random = None\<rparr>"

lemma demo_env_fields: "we_bcrypt demo_web_env = Some" "we_bcrypt_ok demo_web_env = (=)" "we_mac demo_web_env = demo_mac"
  by (simp_all add: demo_web_env_def)

definition demo_request :: request where
  "demo_request = \<lparr>rq_cookie = seal_token demo_mac ''k'' 1 0 (90 * second) False, rq_path = [], rq_https = True\<rparr>"

lemma demo_accounts: "m_users (w_store demo_web) = [(u_name demo_admin, demo_admin)]" "u_name demo_admin = ''ann''"
    "w_signer demo_web = Some ''k''"
  by (simp_all add: demo_web_def demo_admin_def put_user_def new_memory_def new_user_def)

lemma demo_web_wf: "users_wf (w_store demo_web)"
proof -
  have "trim_space ''ann'' = ''ann''" by code_simp
  then show ?thesis unfolding users_wf_def demo_accounts
    by (simp add: demo_admin_def new_user_def demo_web_def put_user_def)
qed

definition demo_now :: int where
  "demo_now = 60 * second"

definition demo_token :: token where
  "demo_token = \<lparr>tk_user = 1, tk_gen = 0, tk_expiry = 90 * second, tk_remember = False\<rparr>"

lemma demo_cookie:
  "\<exists>raw. rq_cookie demo_request = Some raw \<and> open_token (we_mac demo_web_env) ''k'' demo_now raw = Some demo_token"
proof -
  obtain raw where r: "seal_token demo_mac ''k'' 1 0 (90 * second) False = Some raw" by (simp add: seal_token_def Let_def)
  have "open_token demo_mac ''k'' demo_now raw = Some demo_token"
    using open_sealed[OF r, of demo_now] by (simp add: demo_mac_def demo_token_def demo_now_def)
  then show ?thesis using r by (simp add: demo_request_def demo_web_env_def)
qed

lemma demo_session: "session_user (w_store demo_web) demo_token = Some demo_admin"
  unfolding session_user_def get_user_by_id_def demo_accounts by (simp add: demo_admin_def new_user_def demo_token_def)

lemma demo_read: "rq_cookie r = rq_cookie demo_request \<Longrightarrow> read_cookie demo_web_env demo_now r demo_web = (demo_web, Some demo_token)"
  using demo_cookie demo_accounts(3) by (auto simp: read_cookie_def signer_for_def)

lemma demo_authorize:
  "authorize demo_web_env demo_now adm (demo_request\<lparr>rq_path := p\<rparr>) demo_web = (demo_web, Inr demo_admin)"
  using demo_accounts(1) demo_session
  by (simp add: authorize_def needs_setup_def count_users_def current_user_def demo_read)
     (simp add: is_admin_def demo_admin_def new_user_def)

lemma demo_auth: "with_auth demo_web_env demo_now adm h (demo_request\<lparr>rq_path := p\<rparr>) demo_web = h demo_admin demo_web"
  by (simp add: with_auth_def demo_authorize)

lemma demo_made: "made_by demo_web_env demo_now demo_request demo_web demo_admin"
  using demo_cookie demo_accounts(3) demo_session unfolding made_by_def by auto

theorem setup_reopened_witness:
  "\<exists>w1 w2 rep v. users_delete ''ann '' demo_admin demo_web = (w1, ok_reply [] None)
     \<and> setup_post (demo_web_env\<lparr>we_bcrypt := Some\<rparr>) 0 (Some (''eve'', ''pw'')) \<lparr>rq_cookie = None, rq_path = [], rq_https = False\<rparr> w1 = (w2, rep)
     \<and> map_of (m_users (w_store w2)) ''eve'' = Some v \<and> is_admin v"
proof -
  have "trim_space ''eve'' = ''eve''" by code_simp
  then show ?thesis
    using setup_reopened[OF demo_web_wf demo_accounts(1), of Some "''pw''" "''pw''" "''eve''" demo_web_env 0
        "\<lparr>rq_cookie = None, rq_path = [], rq_https = False\<rparr>"] demo_accounts(2) by auto
qed

theorem password_change_ends_sessions_witness:
  "\<exists>w1 rep. account_handler demo_web_env demo_now (Password_Post (Some (''h'', ''g''))) demo_request demo_web = (w1, rep)
     \<and> rp_result rep = Done \<and> snd (current_user demo_web_env demo_now demo_request w1) = None"
proof -
  obtain w1 rep where h: "account_handler demo_web_env demo_now (Password_Post (Some (''h'', ''g''))) demo_request demo_web = (w1, rep)"
    by fastforce
  have n: "trim_space ''ann'' = ''ann''" by code_simp
  have u: "map_of (m_users (w_store demo_web)) ''ann'' = Some demo_admin" using demo_accounts(1,2) by simp
  have "change_password ''ann'' ''g'' (w_store demo_web) =
      Inr (put_user ''ann'' (demo_admin\<lparr>u_hash := ''g'', u_must_change := False, u_gen := 1\<rparr>) (w_store demo_web),
           demo_admin\<lparr>u_hash := ''g'', u_must_change := False, u_gen := 1\<rparr>)"
    unfolding change_password_def n u by (simp add: demo_admin_def new_user_def Let_def)
  then have "change_own_password demo_web_env demo_now (Some (''h'', ''g'')) demo_request demo_admin demo_web =
      reply_with_session demo_web_env demo_now demo_request (demo_admin\<lparr>u_hash := ''g'', u_must_change := False, u_gen := 1\<rparr>)
        (cookie_remembers demo_web_env demo_now demo_request demo_web)
        (demo_web\<lparr>w_store := put_user ''ann'' (demo_admin\<lparr>u_hash := ''g'', u_must_change := False, u_gen := 1\<rparr>) (w_store demo_web)\<rparr>)"
    unfolding change_own_password_def demo_accounts(2) demo_env_fields
    by (simp add: check_password_def hash_password_def) (simp add: demo_admin_def new_user_def)
  moreover have "rp_result (snd (reply_with_session e now r v rem w)) = Done" if "w_signer w = Some ''k''" for e now r v rem w
    using that by (simp add: reply_with_session_def session_cookie_def signer_for_def seal_token_def ok_reply_def Let_def)
  moreover have "w_signer (demo_web\<lparr>w_store := t\<rparr>) = Some ''k''" for t by (simp add: demo_accounts(3))
  moreover have "change_own_password demo_web_env demo_now (Some (''h'', ''g'')) demo_request demo_admin demo_web = (w1, rep)"
    using h by (simp add: account_handler_def demo_auth)
  ultimately have d: "rp_result rep = Done" by (metis snd_conv)
  obtain raw where raw: "rq_cookie demo_request = Some raw" "open_token (we_mac demo_web_env) ''k'' demo_now raw = Some demo_token"
    using demo_cookie by blast
  show ?thesis
    using password_change_ends_sessions[OF demo_web_wf demo_accounts(3) demo_made h d Run_Refl raw] h d
    by (simp add: demo_admin_def new_user_def demo_token_def)
qed

theorem accounts_guarded_witness:
  "\<exists>u. made_by demo_web_env demo_now demo_request demo_web u \<and> is_admin u"
proof -
  obtain w1 rep where h: "account_handler demo_web_env demo_now (Users_Post (Some (''bob'', ''pw'', [], None))) demo_request demo_web = (w1, rep)"
    by fastforce
  have n: "trim_space ''bob'' = ''bob''" by code_simp
  have u: "map_of (m_users (w_store demo_web)) ''bob'' = None" using demo_accounts(1,2) by simp
  have "create_user demo_now (new_user ''bob'' ''pw'' ''user'' True True) (w_store demo_web) = Inr (s, v) \<Longrightarrow>
      map_of (m_users s) ''bob'' \<noteq> None" for s v
    using n u by (auto simp: create_user_def new_user_def Let_def put_user_def split: if_splits)
  moreover have "\<exists>s v. create_user demo_now (new_user ''bob'' ''pw'' ''user'' True True) (w_store demo_web) = Inr (s, v)"
    using n u by (simp add: create_user_def new_user_def Let_def)
  ultimately have "map_of (m_users (w_store w1)) ''bob'' \<noteq> None" using h
    by (auto simp: account_handler_def demo_auth users_post_def hash_password_def demo_env_fields)
  then have "m_users (w_store w1) \<noteq> m_users (w_store demo_web)" using u by auto
  from accounts_guarded[OF h this] obtain u where "made_by demo_web_env demo_now demo_request demo_web u"
    by blast
  moreover have "is_admin demo_admin" by (simp add: is_admin_def demo_admin_def new_user_def)
  ultimately show ?thesis using demo_made by blast
qed

end
