(* ===== verification/Inn.thy ===== *)
theory Inn
  imports GoScan GoNet
begin

text \<open>
  Configuration fragments of INN, \<open>internal/inn/peer.go\<close> and \<open>parse.go\<close>: the peer object, its three fragments
  (incoming.conf, innfeed.conf, newsfeeds), and reading fragments and peering mails. The regular expressions are written
  out as functions; \<open>\s\<close> is RE2's class of ASCII white space.
\<close>

section \<open>Regular expressions\<close>

definition re_space :: "char \<Rightarrow> bool" where
  "re_space c \<longleftrightarrow> c = SP \<or> c = TAB \<or> c = LF \<or> c = CR \<or> c = CHR 0x0C"

definition skip_space :: "string \<Rightarrow> string" where
  "skip_space s = dropWhile re_space s"

text \<open>What follows a literal in lower case, without regard to case: the letters s and k also match the long s and the
  Kelvin sign.\<close>

fun fold_prefix :: "string \<Rightarrow> string \<Rightarrow> string option" where
  "fold_prefix [] s = Some s"
| "fold_prefix (c # p) s =
     (if s \<noteq> [] \<and> lower_char (hd s) = c then fold_prefix p (tl s)
      else if c = CHR ''s'' \<and> has_prefix s long_s then fold_prefix p (drop 2 s)
      else if c = CHR ''k'' \<and> has_prefix s kelvin_sign then fold_prefix p (drop 3 s)
      else None)"

text \<open>\<open>^\s*key\s*:\s*\<close>, what follows it.\<close>

definition key_rest :: "string \<Rightarrow> string \<Rightarrow> string option" where
  "key_rest key s =
     (case fold_prefix key (skip_space s) of
        None \<Rightarrow> None
      | Some r \<Rightarrow>
          (case skip_space r of [] \<Rightarrow> None | c # t \<Rightarrow> if c = CHR '':'' then Some (skip_space t) else None))"

text \<open>\<open>(\S+)\<close> and \<open>(\d+)\<close>.\<close>

definition some_of :: "(char \<Rightarrow> bool) \<Rightarrow> string \<Rightarrow> string option" where
  "some_of P s = (let t = takeWhile P s in if t = [] then None else Some t)"

definition key_word :: "string \<Rightarrow> string \<Rightarrow> string option" where
  "key_word key s = Option.bind (key_rest key s) (some_of (\<lambda>c. \<not> re_space c))"

definition re_peer_block :: "string \<Rightarrow> string option" where
  "re_peer_block s =
     (case fold_prefix ''peer'' (skip_space s) of
        None \<Rightarrow> None
      | Some r \<Rightarrow> if r = [] \<or> \<not> re_space (hd r) then None else some_of (\<lambda>c. \<not> re_space c) (skip_space r))"

definition re_hostname :: "string \<Rightarrow> string option" where
  "re_hostname s = key_word ''hostname'' s"

definition re_ip_name :: "string \<Rightarrow> string option" where
  "re_ip_name s = key_word ''ip-name'' s"

definition re_password :: "string \<Rightarrow> string option" where
  "re_password s = key_word ''password'' s"

definition re_port_number :: "string \<Rightarrow> string option" where
  "re_port_number s = Option.bind (key_rest ''port-number'' s) (some_of is_digit)"

text \<open>The lines are trimmed, so nothing but the pattern is left for \<open>(.+)\<close>; \<open>pattern\<close> stands at the start.\<close>

definition re_pattern_line :: "string \<Rightarrow> string option" where
  "re_pattern_line s =
     (if s \<noteq> [] \<and> re_space (hd s) then None
      else Option.bind (key_rest ''pattern'' s) (\<lambda>r. if r = [] then None else Some r))"

definition digits_dot :: "string \<Rightarrow> (string \<times> string) option" where
  "digits_dot s =
     (let d = takeWhile is_digit s; r = drop (length d) s
      in if 1 \<le> length d \<and> length d \<le> 3 \<and> r \<noteq> [] \<and> hd r = CHR ''.'' then Some (d @ ''.'', tl r) else None)"

definition re_ipv4_line :: "string \<Rightarrow> string option" where
  "re_ipv4_line s =
     (if s \<noteq> [] \<and> re_space (hd s) then None
      else Option.bind (key_rest ''ipv4'' s) (\<lambda>r.
           Option.bind (digits_dot r) (\<lambda>(a, r1).
           Option.bind (digits_dot r1) (\<lambda>(b, r2).
           Option.bind (digits_dot r2) (\<lambda>(c, r3).
             let d = take 3 (takeWhile is_digit r3) in if d = [] then None else Some (a @ b @ c @ d))))))"

definition re_ipv6_line :: "string \<Rightarrow> string option" where
  "re_ipv6_line s =
     (if s \<noteq> [] \<and> re_space (hd s) then None
      else Option.bind (key_rest ''ipv6'' s) (some_of (\<lambda>c. is_hex c \<or> c = CHR '':'')))"

definition alnum :: "char \<Rightarrow> bool" where
  "alnum c \<longleftrightarrow> is_digit c \<or> is_upper c \<or> is_lower c"

definition host_label :: "string \<Rightarrow> bool" where
  "host_label l \<longleftrightarrow> l \<noteq> [] \<and> length l \<le> 64 \<and> alnum (hd l) \<and> alnum (last l) \<and> list_all (\<lambda>c. alnum c \<or> c = CHR ''-'') l"

definition re_bare_host :: "string \<Rightarrow> bool" where
  "re_bare_host s = (let ls = split_on CHR ''.'' s in 2 \<le> length ls \<and> list_all host_label ls)"

definition re_newsfeeds :: "string \<Rightarrow> (string \<times> string \<times> string \<times> string) option" where
  "re_newsfeeds s =
     (case split_on CHR '':'' s of
        name # pats # fl # r # rs \<Rightarrow>
          (let rest = join '':'' (r # rs) in if name = [] \<or> rest = [] then None else Some (name, pats, fl, rest))
      | _ \<Rightarrow> None)"

definition re_host_port :: "string \<Rightarrow> (string \<times> string) option" where
  "re_host_port s =
     (let h = takeWhile (\<lambda>c. alnum c \<or> c \<in> set ''._-'') s; r = drop (length h) s
      in if h = [] then None
         else if r = [] then Some (h, [])
         else if hd r = CHR '':'' \<and> tl r \<noteq> [] \<and> list_all is_digit (tl r) then Some (h, tl r) else None)"

section \<open>The peer object\<close>

record inn_spec =
  pe_name :: string
  pe_token :: string
  pe_in :: string
  pe_out :: string
  pe_port :: int
  pe_patterns :: string
  pe_dists :: string
  pe_flags :: string
  pe_password :: string
  pe_warnings :: "string list"

definition empty_spec :: inn_spec where
  "empty_spec = \<lparr>pe_name = [], pe_token = [], pe_in = [], pe_out = [], pe_port = 0, pe_patterns = [], pe_dists = [],
     pe_flags = [], pe_password = [], pe_warnings = []\<rparr>"

definition slug_name :: "string \<Rightarrow> string" where
  "slug_name host0 =
     (let host = trim_space host0
      in if host = [] then ''peer''
         else case index_of host ''.'' of None \<Rightarrow> host | Some i \<Rightarrow> if 0 < i then take i host else host)"

definition spec_defaults :: "inn_spec \<Rightarrow> inn_spec" where
  "spec_defaults s0 =
     (let s1 = s0\<lparr>pe_name := trim_space (pe_name s0), pe_token := trim_space (pe_token s0),
                  pe_in := trim_space (pe_in s0), pe_out := trim_space (pe_out s0)\<rparr>;
          s2 = (if pe_out s1 = [] then s1\<lparr>pe_out := pe_in s1\<rparr> else s1);
          s3 = (if pe_in s2 = [] then s2\<lparr>pe_in := pe_out s2\<rparr> else s2);
          s4 = (if pe_port s3 \<le> 0 then s3\<lparr>pe_port := 119\<rparr> else s3);
          s5 = (if pe_name s4 = [] then s4\<lparr>pe_name := slug_name (pe_out s4)\<rparr> else s4);
          s6 = (if pe_patterns s5 = [] then s5\<lparr>pe_patterns := ''*''\<rparr> else s5)
      in if pe_flags s6 = [] then s6\<lparr>pe_flags := ''Tm''\<rparr> else s6)"

text \<open>\<open>appendUnique\<close>.\<close>

definition append_unique :: "string list \<Rightarrow> string list \<Rightarrow> string list" where
  "append_unique dst add = dst @ dedup_on (\<lambda>a. a) ([] # dst) (map trim_space add)"

definition trim_right_blank :: "string \<Rightarrow> string" where
  "trim_right_blank s = trim_right s [SP, TAB]"

text \<open>The lines of a text with those that end in a backslash joined to the next; the scanner's error is ignored.\<close>

fun unfold_lines :: "string \<Rightarrow> string list \<Rightarrow> string" where
  "unfold_lines pending [] = (if pending \<noteq> [] then pending @ [LF] else [])"
| "unfold_lines pending (l # ls) =
     (let l1 = trim_right_blank l;
          l2 = (if pending \<noteq> [] then pending @ trim_space l1 else l1)
      in if has_suffix l2 [CHR 0x5C] then unfold_lines (trim_right_blank (trim_suffix l2 [CHR 0x5C])) ls
         else l2 @ LF # unfold_lines [] ls)"

definition unfold_continued :: "string \<Rightarrow> string" where
  "unfold_continued s = unfold_lines [] (fst (scan_lines wide_limit s))"

definition apply_pattern_field :: "string \<Rightarrow> inn_spec \<Rightarrow> inn_spec" where
  "apply_pattern_field field s =
     (let f = trim_right (trim_prefix (trim_space field) '':'') [CHR 0x5C];
          (pats, dists) = (case index_of f ''/'' of None \<Rightarrow> (f, []) | Some i \<Rightarrow> (take i f, drop (i + 1) f));
          s1 = (if pats \<noteq> [] then s\<lparr>pe_patterns := pats\<rparr> else s)
      in if dists \<noteq> [] then s1\<lparr>pe_dists := dists\<rparr> else s1)"

text \<open>\<open>strings.SplitN(line, ":", 4)\<close> and the checks on it.\<close>

definition split_newsfeeds :: "string \<Rightarrow> (string \<times> string \<times> string \<times> string) option" where
  "split_newsfeeds line =
     (case split_on CHR '':'' line of
        site # pats # fl # p # ps \<Rightarrow>
          if trim_space site = [] then None else Some (trim_space site, pats, fl, join '':'' (p # ps))
      | _ \<Rightarrow> None)"

definition set_flags :: "string \<Rightarrow> inn_spec \<Rightarrow> inn_spec" where
  "set_flags fl s = (if trim_space fl \<noteq> [] then s\<lparr>pe_flags := trim_space fl\<rparr> else s)"

definition apply_newsfeeds_line :: "string \<Rightarrow> inn_spec \<Rightarrow> inn_spec option" where
  "apply_newsfeeds_line line s =
     (case split_newsfeeds line of
        None \<Rightarrow> None
      | Some (site, pats, fl, param) \<Rightarrow>
          let (name, tok) = (case index_of site ''/'' of None \<Rightarrow> (site, []) | Some i \<Rightarrow> (take i site, drop (i + 1) site));
              fed = contains (to_lower param) ''innfeed''
          in if equal_fold name ''ME'' then
               (let s1 = set_flags fl (apply_pattern_field pats s) in Some (if tok \<noteq> [] then s1\<lparr>pe_token := tok\<rparr> else s1))
             else if has_suffix name ''!'' \<and> \<not> fed then None
             else if \<not> contains param ''!'' \<and> \<not> fed then None
             else
               let s1 = (if name \<noteq> [] then s\<lparr>pe_name := name\<rparr> else s);
                   s2 = (if tok \<noteq> [] then s1\<lparr>pe_token := tok\<rparr> else s1)
               in Some (set_flags fl (apply_pattern_field pats s2)))"

definition is_ip_literal :: "string \<Rightarrow> bool" where
  "is_ip_literal host =
     (if CHR '':'' \<in> set host then True
      else if host = [] \<or> list_ex (\<lambda>c. is_upper c \<or> is_lower c) host then False
      else count_char host CHR ''.'' = 3)"

section \<open>Reading a mixed paste\<close>

record paste =
  pa_spec :: inn_spec
  pa_peer :: string
  pa_present :: "string list"
  pa_warns :: "string list"

definition mark :: "string \<Rightarrow> paste \<Rightarrow> paste" where
  "mark f p = (if f \<in> set (pa_present p) then p else p\<lparr>pa_present := pa_present p @ [f]\<rparr>)"

definition warn :: "string \<Rightarrow> paste \<Rightarrow> paste" where
  "warn w p = p\<lparr>pa_warns := append_unique (pa_warns p) [w]\<rparr>"

definition feed_warning :: string where
  "feed_warning = ''patterns/flags applied on offer''"

definition unquote :: "string \<Rightarrow> string" where
  "unquote v = trim_cutset v [CHR 0x22, CHR '';'']"

definition set_spec :: "(inn_spec \<Rightarrow> inn_spec) \<Rightarrow> paste \<Rightarrow> paste" where
  "set_spec f p = p\<lparr>pa_spec := f (pa_spec p)\<rparr>"

definition paste_in_peer :: "string \<Rightarrow> paste \<Rightarrow> paste" where
  "paste_in_peer line p =
     (if has_prefix line ''}'' then p\<lparr>pa_peer := []\<rparr>
      else case re_ip_name line of
        Some v \<Rightarrow> mark ''host'' (set_spec (pe_out_update (\<lambda>_. unquote v)) p)
      | None \<Rightarrow>
      (case re_hostname line of
        Some v \<Rightarrow> mark ''incoming_host'' (set_spec (pe_in_update (\<lambda>_. unquote v)) p)
      | None \<Rightarrow>
      (case re_port_number line of
        Some v \<Rightarrow> mark ''port'' (set_spec (pe_port_update (\<lambda>_. atoi_value v)) p)
      | None \<Rightarrow>
      (case re_password line of
        Some v \<Rightarrow> mark ''incoming_password'' (set_spec (pe_password_update (\<lambda>_. unquote v)) p)
      | None \<Rightarrow> p))))"

definition mark_dists :: "paste \<Rightarrow> paste" where
  "mark_dists p = (if pe_dists (pa_spec p) \<noteq> [] then mark ''distributions'' p else p)"

definition paste_host :: "string \<Rightarrow> paste \<Rightarrow> paste" where
  "paste_host line p =
     (if \<not> re_bare_host line then p
      else
        let p1 = (if pe_name (pa_spec p) = [] then mark ''name'' (set_spec (pe_name_update (\<lambda>_. line)) p) else p);
            p2 = (if pe_in (pa_spec p1) = [] \<or> is_ip_literal (pe_in (pa_spec p1))
                  then mark ''incoming_host'' (set_spec (pe_in_update (\<lambda>_. line)) p1) else p1)
        in if pe_out (pa_spec p2) = [] \<or> is_ip_literal (pe_out (pa_spec p2))
           then mark ''host'' (set_spec (pe_out_update (\<lambda>_. line)) p2) else p2)"

definition paste_outside :: "string \<Rightarrow> paste \<Rightarrow> paste" where
  "paste_outside line p =
     (case re_pattern_line line of
        Some v \<Rightarrow> warn feed_warning (mark_dists (mark ''patterns'' (set_spec (apply_pattern_field v) p)))
      | None \<Rightarrow>
      (case re_ipv4_line line of
        Some v \<Rightarrow>
          warn (''IPV4 '' @ v)
            (if pe_out (pa_spec p) = [] \<and> pe_in (pa_spec p) = []
             then mark ''host'' (set_spec (pe_out_update (\<lambda>_. v)) p) else p)
      | None \<Rightarrow>
      (case re_ipv6_line line of
        Some v \<Rightarrow> warn (''IPV6 '' @ v) p
      | None \<Rightarrow>
      (case apply_newsfeeds_line line (pa_spec p) of
        Some s \<Rightarrow>
          let old = pa_spec p; p0 = p\<lparr>pa_spec := s\<rparr>;
              p1 = (if pe_name s \<noteq> [] \<and> pe_name s \<noteq> pe_name old then mark ''name'' p0 else p0);
              p2 = (if pe_token s \<noteq> [] \<and> pe_token s \<noteq> pe_token old then mark ''path_token'' p1 else p1);
              p3 = mark_dists (mark ''patterns'' p2)
          in warn feed_warning (if pe_flags s \<noteq> [] then mark ''flags'' p3 else p3)
      | None \<Rightarrow> paste_host line p))))"

definition paste_line :: "string \<Rightarrow> paste \<Rightarrow> paste" where
  "paste_line raw p =
     (let line = trim_space raw
      in if line = [] \<or> has_prefix line ''#'' \<or> has_prefix line ''//'' then p
         else case re_peer_block line of
           Some v \<Rightarrow>
             let n = trim_cutset v [CHR 0x22]; p1 = p\<lparr>pa_peer := n\<rparr>
             in if pe_name (pa_spec p) = [] then mark ''name'' (set_spec (pe_name_update (\<lambda>_. n)) p1) else p1
         | None \<Rightarrow> if pa_peer p \<noteq> [] then paste_in_peer line p else paste_outside line p)"

definition empty_paste :: paste where
  "empty_paste = \<lparr>pa_spec = empty_spec, pa_peer = [], pa_present = [], pa_warns = []\<rparr>"

text \<open>\<open>ParsePaste\<close>: the peer, the warnings, and the fields the paste holds. Nothing is found exactly if no field is.\<close>

definition parse_paste :: "string \<Rightarrow> inn_spec option \<times> string list \<times> string list" where
  "parse_paste inp =
     (let p = fold paste_line (fst (scan_lines wide_limit (unfold_continued inp))) empty_paste
      in if pa_present p = [] then (None, [''no peer found in paste''], [])
         else (Some (spec_defaults ((pa_spec p)\<lparr>pe_warnings := pa_warns p\<rparr>)), pa_warns p, pa_present p))"

section \<open>Reading one file\<close>

text \<open>The block of a peer in incoming.conf: the block's name with the last host and the last password of it. Reading ends at
  the closing brace.\<close>

record file_peer =
  fp_block :: string
  fp_name :: string
  fp_host :: string
  fp_password :: string
  fp_port :: int

definition empty_peer :: file_peer where
  "empty_peer = \<lparr>fp_block = [], fp_name = [], fp_host = [], fp_password = [], fp_port = 0\<rparr>"

definition skipped_line :: "string \<Rightarrow> bool" where
  "skipped_line line \<longleftrightarrow> line = [] \<or> has_prefix line ''#''"

fun incoming_loop :: "string list \<Rightarrow> file_peer \<Rightarrow> file_peer" where
  "incoming_loop [] f = f"
| "incoming_loop (raw # ls) f =
     (let line = trim_space raw
      in if skipped_line line then incoming_loop ls f
         else case re_peer_block line of
           Some v \<Rightarrow> incoming_loop ls (f\<lparr>fp_block := trim_cutset v [CHR 0x22]\<rparr>)
         | None \<Rightarrow>
             if fp_block f = [] then incoming_loop ls f
             else if has_prefix line ''}'' then f
             else case re_hostname line of
               Some v \<Rightarrow> incoming_loop ls (f\<lparr>fp_host := unquote v, fp_name := fp_block f\<rparr>)
             | None \<Rightarrow>
                 (case re_password line of
                    Some v \<Rightarrow> incoming_loop ls (f\<lparr>fp_password := unquote v\<rparr>)
                  | None \<Rightarrow> incoming_loop ls f))"

fun innfeed_loop :: "string list \<Rightarrow> file_peer \<Rightarrow> file_peer" where
  "innfeed_loop [] f = f"
| "innfeed_loop (raw # ls) f =
     (let line = trim_space raw
      in if skipped_line line then innfeed_loop ls f
         else case re_peer_block line of
           Some v \<Rightarrow> innfeed_loop ls (f\<lparr>fp_block := trim_cutset v [CHR 0x22]\<rparr>)
         | None \<Rightarrow>
             if fp_block f = [] then innfeed_loop ls f
             else if has_prefix line ''}'' then f
             else case re_ip_name line of
               Some v \<Rightarrow> innfeed_loop ls (f\<lparr>fp_host := unquote v, fp_name := fp_block f\<rparr>)
             | None \<Rightarrow>
                 (case re_port_number line of
                    Some v \<Rightarrow> innfeed_loop ls (f\<lparr>fp_port := atoi_value v\<rparr>)
                  | None \<Rightarrow> innfeed_loop ls f))"

definition parse_incoming_file :: "string \<Rightarrow> inn_spec option \<times> string list" where
  "parse_incoming_file inp =
     (let f = incoming_loop (fst (scan_lines scan_limit inp)) empty_peer
      in if fp_host f = [] then (None, [''incoming.conf: no hostname found''])
         else (Some (spec_defaults (empty_spec\<lparr>pe_name := fp_name f, pe_in := fp_host f, pe_out := fp_host f, pe_port := 119,
                 pe_patterns := ''*'', pe_flags := ''Tm'', pe_password := fp_password f\<rparr>)), []))"

definition parse_innfeed_file :: "string \<Rightarrow> inn_spec option \<times> string list" where
  "parse_innfeed_file inp =
     (let f = innfeed_loop (fst (scan_lines scan_limit inp)) empty_peer
      in if fp_host f = [] then (None, [''innfeed.conf: no ip-name found''])
         else (Some (spec_defaults (empty_spec\<lparr>pe_name := fp_name f, pe_in := fp_host f, pe_out := fp_host f, pe_port := fp_port f,
                 pe_patterns := ''*'', pe_flags := ''Tm''\<rparr>)), []))"

definition newsfeeds_line :: "string \<Rightarrow> inn_spec \<times> bool \<times> string list \<Rightarrow> inn_spec \<times> bool \<times> string list" where
  "newsfeeds_line raw st =
     (let line = trim_space raw
      in if skipped_line line then st
         else case apply_newsfeeds_line line (fst st) of
           None \<Rightarrow> st
         | Some s \<Rightarrow> (s, True, append_unique (snd (snd st)) [feed_warning]))"

definition parse_newsfeeds_file :: "string \<Rightarrow> inn_spec option \<times> string list" where
  "parse_newsfeeds_file inp =
     (case fold newsfeeds_line (fst (scan_lines wide_limit inp)) (empty_spec, False, []) of
        (s, found, warns) \<Rightarrow>
          if \<not> found then (None, [''newsfeeds: no feed line found''])
          else (Some (spec_defaults (s\<lparr>pe_warnings := warns\<rparr>)), warns))"

definition parse_file :: "string \<Rightarrow> string \<Rightarrow> inn_spec option \<times> string list" where
  "parse_file inp kind0 =
     (let kind = to_lower (trim_space kind0)
      in if kind \<in> {''incoming'', ''incoming.conf''} then parse_incoming_file (unfold_continued inp)
         else if kind \<in> {''innfeed'', ''innfeed.conf''} then parse_innfeed_file (unfold_continued inp)
         else if kind \<in> {''newsfeeds'', ''newsfeed''} then parse_newsfeeds_file (unfold_continued inp)
         else case parse_paste inp of (s, warns, present) \<Rightarrow> (s, warns))"

section \<open>Writing fragments\<close>

definition format_incoming :: "inn_spec \<Rightarrow> string" where
  "format_incoming s0 =
     (let s = spec_defaults s0
      in ''peer '' @ pe_name s @ '' {'' @ [LF] @ ''    hostname:       '' @ pe_in s @ [LF]
         @ (if trim_space (pe_password s) \<noteq> [] then ''    password:       '' @ pe_password s @ [LF] else [])
         @ ''}'' @ [LF])"

definition format_innfeed :: "inn_spec \<Rightarrow> string" where
  "format_innfeed s0 =
     (let s = spec_defaults s0
      in ''peer '' @ pe_name s @ '' {'' @ [LF] @ ''    ip-name:        '' @ pe_out s @ [LF]
         @ ''    port-number:    '' @ format_int (pe_port s) @ [LF] @ ''}'' @ [LF])"

definition format_newsfeeds :: "inn_spec \<Rightarrow> string" where
  "format_newsfeeds s0 =
     (let s = spec_defaults s0;
          site = (if pe_token s \<noteq> [] then pe_name s @ ''/'' @ pe_token s else pe_name s);
          dist = (if pe_dists s \<noteq> [] then ''/'' @ pe_dists s else [])
      in site @ '':'' @ pe_patterns s @ dist @ '':'' @ pe_flags s @ '':innfeed!'' @ [LF])"

definition snippets :: "inn_spec \<Rightarrow> (string \<times> string) list" where
  "snippets s0 =
     (let s = spec_defaults s0
      in [(''incoming'', format_incoming s), (''innfeed'', format_innfeed s), (''newsfeeds'', format_newsfeeds s)])"

record export_opts =
  xo_patterns :: string
  xo_dists :: string
  xo_flags :: string
  xo_port :: int
  xo_pathhost :: string
  xo_password :: string

definition our_side :: "string \<Rightarrow> string \<Rightarrow> int \<Rightarrow> export_opts \<Rightarrow> (string \<times> string) list" where
  "our_side host path0 port0 xo =
     (let path = (if path0 = [] then host else path0);
          port1 = (if port0 \<le> 0 then 119 else port0);
          port = (if 0 < xo_port xo then xo_port xo else port1);
          name = (case index_of path ''.'' of None \<Rightarrow> path | Some i \<Rightarrow> if 0 < i then take i path else path);
          pats = trim_space (xo_patterns xo); fl = trim_space (xo_flags xo)
      in snippets \<lparr>pe_name = name, pe_token = host, pe_in = host, pe_out = host, pe_port = port,
           pe_patterns = (if pats = [] then ''*'' else pats), pe_dists = trim_space (xo_dists xo),
           pe_flags = (if fl = [] then ''Ap,Tm'' else fl), pe_password = trim_space (xo_password xo), pe_warnings = []\<rparr>)"

definition over :: "string \<Rightarrow> string \<Rightarrow> string" where
  "over src dst = (if src \<noteq> [] then src else dst)"

definition merge_spec :: "inn_spec \<Rightarrow> inn_spec \<Rightarrow> inn_spec" where
  "merge_spec dst src =
     \<lparr>pe_name = over (pe_name src) (pe_name dst), pe_token = over (pe_token src) (pe_token dst),
      pe_in = over (pe_in src) (pe_in dst), pe_out = over (pe_out src) (pe_out dst),
      pe_port = (if 0 < pe_port src then pe_port src else pe_port dst),
      pe_patterns = over (pe_patterns src) (pe_patterns dst), pe_dists = over (pe_dists src) (pe_dists dst),
      pe_flags = over (pe_flags src) (pe_flags dst), pe_password = over (pe_password src) (pe_password dst),
      pe_warnings = append_unique (pe_warnings dst) (pe_warnings src)\<rparr>"

section \<open>Drafts\<close>

text \<open>\<open>Parse\<close> of \<open>parse.go\<close>: peers by host and port, in the order they were found.\<close>

record draft =
  dr_host :: string
  dr_port :: int
  dr_notes :: string
  dr_warnings :: "string list"

definition draft_key :: "string \<Rightarrow> int \<Rightarrow> string" where
  "draft_key host port = to_lower host @ ''|'' @ format_int port"

definition add_draft ::
    "string \<Rightarrow> int \<Rightarrow> string \<Rightarrow> string list \<Rightarrow> (string \<times> draft) list \<Rightarrow> (string \<times> draft) list" where
  "add_draft host0 port0 notes ws ds =
     (let h = trim_space host0
      in if h = [] \<or> equal_fold h ''ME'' then ds
         else
           let port = (if port0 \<le> 0 then 119 else port0);
               host = (case split_host_port h of None \<Rightarrow> h | Some x \<Rightarrow> x);
               k = draft_key host port;
               d = (case map_of ds k of None \<Rightarrow> \<lparr>dr_host = host, dr_port = port, dr_notes = [], dr_warnings = []\<rparr> | Some d \<Rightarrow> d);
               d1 = (if notes \<noteq> [] \<and> dr_notes d = [] then d\<lparr>dr_notes := notes\<rparr> else d)
           in AList.update k (d1\<lparr>dr_warnings := append_unique (dr_warnings d1) ws\<rparr>) ds)"

definition draft_line :: "string \<Rightarrow> string \<times> (string \<times> draft) list \<Rightarrow> string \<times> (string \<times> draft) list" where
  "draft_line raw st =
     (let line = trim_space raw; blk = fst st; ds = snd st
      in if line = [] \<or> has_prefix line ''#'' \<or> has_prefix line ''//'' then st
         else case re_peer_block line of
           Some v \<Rightarrow> (trim_cutset v [CHR 0x22], ds)
         | None \<Rightarrow>
             if blk \<noteq> [] then
               (if has_prefix line ''}'' then ([], ds)
                else case re_hostname line of
                  Some v \<Rightarrow> (blk, add_draft (unquote v) 119 (''incoming.conf peer '' @ blk) [] ds)
                | None \<Rightarrow>
                    let lo = to_lower line
                    in if contains lo ''streaming:'' \<or> contains lo ''max-size:'' \<or> contains lo ''patterns:''
                       then (blk, add_draft blk 119 (''incoming.conf peer '' @ blk) [''ignored INN field: '' @ line] ds)
                       else (blk, ds))
             else case re_newsfeeds line of
               Some (name, pats, fl, rest) \<Rightarrow>
                 let host = trim_space rest
                 in (blk, add_draft (takeWhile (\<lambda>c. c \<noteq> SP \<and> c \<noteq> TAB) host) 119 (''newsfeeds:'' @ name)
                       [''patterns/flags applied on offer ('' @ pats @ '')''] ds)
             | None \<Rightarrow>
                 (case re_host_port line of
                    Some (h, n) \<Rightarrow> (blk, add_draft h (if n = [] then 119 else atoi_value n) ''plain host line'' [] ds)
                  | None \<Rightarrow> st))"

definition parse_drafts :: "string \<Rightarrow> draft list" where
  "parse_drafts inp = map snd (snd (fold draft_line (fst (scan_lines scan_limit inp)) ([], [])))"

end
