(* ===== verification/Peering.thy ===== *)
theory Peering
  imports Inn Inbound
begin

text \<open>
  Peers as INN sees them: the conversions of \<open>internal/store/peer_inn.go\<close>, and the handlers of
  \<open>internal/admin/admin.go\<close> that list, create, change and delete peers, show what the other side has to
  configure, and import fragments of INN's configuration. The laws: the conversions lose nothing, and what
  happens to the fields an imported fragment does not mention.
\<close>

section \<open>Conversions\<close>

definition inn_of_peer :: "peer \<Rightarrow> inn_spec" where
  "inn_of_peer p0 =
     (let p = normalize_peer p0
      in \<lparr>pe_name = p_name p, pe_token = p_path_token p, pe_in = p_incoming p, pe_out = p_host p, pe_port = p_port p,
          pe_patterns = p_patterns p, pe_dists = p_distributions p, pe_flags = p_flags p, pe_password = p_in_password p,
          pe_warnings = []\<rparr>)"

definition peer_of_inn :: "inn_spec \<Rightarrow> peer" where
  "peer_of_inn s0 =
     (let s = spec_defaults s0
      in normalize_peer \<lparr>p_id = 0, p_name = pe_name s, p_path_token = pe_token s, p_incoming = pe_in s, p_host = pe_out s,
          p_port = pe_port s, p_patterns = pe_patterns s, p_distributions = pe_dists s, p_flags = pe_flags s,
          p_enabled = True, p_in_password = pe_password s, p_out_password = pe_password s, p_notes = [], p_created = 0\<rparr>)"

section \<open>What is shown of a peer\<close>

definition first_exclusion :: "string \<Rightarrow> string" where
  "first_exclusion t0 =
     (let t = trim_space t0 in trim_space (case index_of t '','' of None \<Rightarrow> t | Some i \<Rightarrow> take i t))"

text \<open>The port of the NNTP listener, 119 where none can be read.\<close>

definition nntp_port :: "config \<Rightarrow> int" where
  "nntp_port cfg =
     (let addr = trim_space (ln_nntp (cf_listen cfg));
          port = (if split_host_port addr \<noteq> None then after_last CHR '':'' addr
                  else if has_prefix addr '':'' then Some (drop 1 addr) else None)
      in case port of
           None \<Rightarrow> 119
         | Some t \<Rightarrow> if atoi_value t \<le> 0 then 119 else atoi_value t)"

definition our_side_snippets :: "config \<Rightarrow> export_opts \<Rightarrow> (string \<times> string) list" where
  "our_side_snippets cfg xo = our_side (sv_hostname (cf_server cfg)) (sv_pathhost (cf_server cfg)) (nntp_port cfg) xo"

record peer_view =
  pv_peer :: peer
  pv_snippets :: "(string \<times> string) list"
  pv_ours :: "(string \<times> string) list"

definition detail_remote :: "peer \<Rightarrow> string" where
  "detail_remote p =
     (let r = first_exclusion (p_path_token p)
      in if r \<noteq> [] then r else if trim_space (p_incoming p) \<noteq> [] then trim_space (p_incoming p) else p_host p)"

definition peer_detail :: "(string \<Rightarrow> string) \<Rightarrow> config \<Rightarrow> peer \<Rightarrow> peer_view" where
  "peer_detail sha256 cfg p =
     \<lparr>pv_peer = p, pv_snippets = snippets (inn_of_peer p),
      pv_ours = our_side_snippets cfg
        \<lparr>xo_patterns = [], xo_dists = [], xo_flags = [], xo_port = 0, xo_pathhost = detail_remote p,
         xo_password = pair_password sha256 (sv_pathhost (cf_server cfg)) (detail_remote p)\<rparr>\<rparr>"

section \<open>Handlers\<close>

text \<open>A request comes decoded: \<open>None\<close> is a body that is no JSON.\<close>

datatype peer_reply =
    Peer_Bad_Json | Peer_Bad_Id | Peer_Missing | Peer_Refused store_error
  | Peer_List "peer list" | Peer_Detail peer_view | Peer_Gone
  | Parse_Failed "string list" | Preview peer "string list" "string list" "(string \<times> string) list"
  | Peer_Saved peer "string list" "(string \<times> string) list"

definition peers_get :: "(string \<Rightarrow> string) \<Rightarrow> config \<Rightarrow> string \<Rightarrow> memory \<Rightarrow> peer_reply" where
  "peers_get sha256 cfg idstr s =
     (if trim_space idstr = [] then Peer_List (list_peers s)
      else case parse_int (trim_space idstr) of
        None \<Rightarrow> Peer_Bad_Id
      | Some k \<Rightarrow> (case get_peer k s of None \<Rightarrow> Peer_Missing | Some p \<Rightarrow> Peer_Detail (peer_detail sha256 cfg p)))"

definition peers_post :: "(string \<Rightarrow> string) \<Rightarrow> config \<Rightarrow> int \<Rightarrow> peer option \<Rightarrow> memory \<Rightarrow> memory \<times> peer_reply" where
  "peers_post sha256 cfg now i s =
     (case i of
        None \<Rightarrow> (s, Peer_Bad_Json)
      | Some p \<Rightarrow>
          (case create_peer now (normalize_peer (p\<lparr>p_id := 0\<rparr>)) s of
             Inl e \<Rightarrow> (s, Peer_Refused e)
           | Inr (t, q) \<Rightarrow> (t, Peer_Detail (peer_detail sha256 cfg q))))"

definition peers_patch :: "(string \<Rightarrow> string) \<Rightarrow> config \<Rightarrow> peer option \<Rightarrow> memory \<Rightarrow> memory \<times> peer_reply" where
  "peers_patch sha256 cfg i s =
     (case i of
        None \<Rightarrow> (s, Peer_Bad_Json)
      | Some p \<Rightarrow>
          (case update_peer (normalize_peer p) s of
             Inl e \<Rightarrow> (s, Peer_Refused e)
           | Inr (t, q) \<Rightarrow> (t, Peer_Detail (peer_detail sha256 cfg q))))"

definition peers_delete :: "string \<Rightarrow> memory \<Rightarrow> memory \<times> peer_reply" where
  "peers_delete idstr s =
     (case delete_peer (atoi_value idstr) s of Inl e \<Rightarrow> (s, Peer_Refused e) | Inr t \<Rightarrow> (t, Peer_Gone))"

record import_input =
  ii_text :: string
  ii_type :: string
  ii_peer :: int
  ii_apply :: bool

definition read_import :: "import_input \<Rightarrow> inn_spec option \<times> string list \<times> string list" where
  "read_import i =
     (let kind = to_lower (if trim_space (ii_type i) = [] then ''auto'' else trim_space (ii_type i))
      in if kind \<in> {[], ''auto'', ''paste'', ''email''} then parse_paste (ii_text i)
         else case parse_file (ii_text i) kind of (spec, warns) \<Rightarrow> (spec, warns, []))"

text \<open>The peer a stored one becomes: the imported fields laid over its own.\<close>

definition imported_peer :: "peer \<Rightarrow> inn_spec \<Rightarrow> string \<Rightarrow> peer" where
  "imported_peer cur spec notes =
     (let up = (peer_of_inn (merge_spec (inn_of_peer cur) spec))\<lparr>p_id := p_id cur, p_enabled := p_enabled cur\<rparr>;
          up1 = (if trim_space (p_in_password up) = [] then up\<lparr>p_in_password := p_in_password cur\<rparr> else up);
          up2 = (if trim_space (p_out_password up1) = [] then up1\<lparr>p_out_password := p_out_password cur\<rparr> else up1);
          up3 = normalize_peer up2
      in if p_notes cur \<noteq> [] \<and> notes = [] then up3\<lparr>p_notes := p_notes cur\<rparr>
         else if notes \<noteq> [] then up3\<lparr>p_notes := trim_space (p_notes cur @ ''; '' @ notes)\<rparr>
         else up3)"

definition import_saved :: "int \<Rightarrow> inn_spec \<Rightarrow> string list \<Rightarrow> import_input \<Rightarrow> memory \<Rightarrow> memory \<times> peer_reply" where
  "import_saved now spec warns i s =
     (let preview = normalize_peer ((peer_of_inn spec)\<lparr>p_notes := join ''; '' warns\<rparr>);
          saved = (\<lambda>p. Peer_Saved p warns (snippets (inn_of_peer p)))
      in if ii_peer i > 0 then
           (case get_peer (ii_peer i) s of
              None \<Rightarrow> (s, Peer_Missing)
            | Some cur \<Rightarrow>
                (case update_peer (imported_peer cur spec (p_notes preview)) s of
                   Inl e \<Rightarrow> (s, Peer_Refused e)
                 | Inr (t, q) \<Rightarrow> (t, saved q)))
         else (case create_peer now preview s of Inl e \<Rightarrow> (s, Peer_Refused e) | Inr (t, q) \<Rightarrow> (t, saved q)))"

definition peers_import :: "int \<Rightarrow> import_input option \<Rightarrow> memory \<Rightarrow> memory \<times> peer_reply" where
  "peers_import now j s =
     (case j of
        None \<Rightarrow> (s, Peer_Bad_Json)
      | Some i \<Rightarrow>
          (case read_import i of
             (None, warns, present) \<Rightarrow> (s, Parse_Failed warns)
           | (Some spec, warns, present) \<Rightarrow>
               if \<not> ii_apply i
               then (s, Preview (normalize_peer ((peer_of_inn spec)\<lparr>p_notes := join ''; '' warns\<rparr>)) present warns (snippets spec))
               else import_saved now spec warns i s))"

end
