(* ===== verification/InnLaws.thy ===== *)
theory InnLaws
  imports Inn
begin

text \<open>
  What a peer writes as three fragments of INN's configuration reads back as the same peer, and what a paste
  does not mention is filled with defaults.
\<close>

section \<open>Matching\<close>

lemma word_not_re_space: "is_word w \<Longrightarrow> c \<in> set w \<Longrightarrow> \<not> re_space c"
  using word_chars[of w c] by (auto simp: re_space_def ascii_space_def)

lemma skip_space_id: "s = [] \<or> \<not> re_space (hd s) \<Longrightarrow> skip_space s = s"
  by (cases s) (auto simp: skip_space_def)

lemma skip_space_word [simp]: "is_word w \<Longrightarrow> skip_space w = w"
  using word_not_re_space[of w "hd w"] by (intro skip_space_id) (auto simp: is_word_def)

lemma skip_space_blank [simp]: "skip_space (SP # s) = skip_space s"
  by (simp add: skip_space_def re_space_def)

lemma some_of_all: "w \<noteq> [] \<Longrightarrow> \<forall>c \<in> set w. P c \<Longrightarrow> t = [] \<or> \<not> P (hd t) \<Longrightarrow> some_of P (w @ t) = Some w"
proof -
  assume h: "w \<noteq> []" "\<forall>c \<in> set w. P c" "t = [] \<or> \<not> P (hd t)"
  then have "takeWhile P (w @ t) = w" by (cases t) (auto simp: takeWhile_eq_all_conv)
  then show ?thesis using h(1) by (simp add: some_of_def)
qed

lemma some_of_word: "is_word w \<Longrightarrow> some_of (\<lambda>c. \<not> re_space c) w = Some w"
  using some_of_all[of w "\<lambda>c. \<not> re_space c" "[]"] word_not_re_space by (auto simp: is_word_def)

lemma fold_prefix_ascii: "list_all ascii s \<Longrightarrow> list_all ascii p \<Longrightarrow> fold_prefix p s =
    (if length p \<le> length s \<and> map lower_char (take (length p) s) = p then Some (drop (length p) s) else None)"
proof (induction p s rule: fold_prefix.induct)
  case (2 c p s)
  then have "\<not> has_prefix s long_s" "\<not> has_prefix s kelvin_sign"
    by (auto simp: has_prefix_iff long_s_def kelvin_sign_def ascii_def)
  with 2 show ?case by (cases s) auto
qed simp

lemma fold_prefix_literal:
  "fold_prefix ''peer'' (''peer '' @ s) = Some (SP # s)"
  "fold_prefix ''hostname'' (''hostname:       '' @ s) = Some ('':       '' @ s)"
  "fold_prefix ''ip-name'' (''ip-name:        '' @ s) = Some ('':        '' @ s)"
  "fold_prefix ''port-number'' (''port-number:    '' @ s) = Some ('':    '' @ s)"
  "fold_prefix ''password'' (''password:       '' @ s) = Some ('':       '' @ s)"
  "fold_prefix ''ip-name'' (''hostname:       '' @ s) = None"
  "fold_prefix ''ip-name'' (''port-number:    '' @ s) = None"
  "fold_prefix ''ip-name'' (''password:       '' @ s) = None"
  "fold_prefix ''hostname'' (''ip-name:        '' @ s) = None"
  "fold_prefix ''hostname'' (''port-number:    '' @ s) = None"
  "fold_prefix ''hostname'' (''password:       '' @ s) = None"
  "fold_prefix ''port-number'' (''password:       '' @ s) = None"
  "fold_prefix ''peer'' (''hostname:       '' @ s) = None"
  "fold_prefix ''peer'' (''ip-name:        '' @ s) = None"
  "fold_prefix ''peer'' (''port-number:    '' @ s) = None"
  "fold_prefix ''peer'' (''password:       '' @ s) = None"
  "fold_prefix ''peer'' ''}'' = None"
  by (simp_all add: lower_char_def is_upper_def long_s_def kelvin_sign_def)

lemma key_line:
  assumes "is_word w"
  shows "key_word ''hostname'' (''hostname:       '' @ w) = Some w" "key_word ''ip-name'' (''ip-name:        '' @ w) = Some w"
    and "key_word ''password'' (''password:       '' @ w) = Some w"
    and "list_all is_digit w \<Longrightarrow> re_port_number (''port-number:    '' @ w) = Some w"
proof -
  have h: "skip_space (c # s) = c # s" if "\<not> re_space c" for c s using that by (simp add: skip_space_id)
  have c: "\<not> re_space CHR '':''" "\<not> re_space CHR ''h''" "\<not> re_space CHR ''i''" "\<not> re_space CHR ''p''" by (simp_all add: re_space_def)
  have p: "skip_space (''hostname:       '' @ w) = ''hostname:       '' @ w" "skip_space (''ip-name:        '' @ w) = ''ip-name:        '' @ w"
    "skip_space (''password:       '' @ w) = ''password:       '' @ w" "skip_space (''port-number:    '' @ w) = ''port-number:    '' @ w"
    by (simp_all add: h c)
  show "key_word ''hostname'' (''hostname:       '' @ w) = Some w" "key_word ''ip-name'' (''ip-name:        '' @ w) = Some w"
    "key_word ''password'' (''password:       '' @ w) = Some w"
    unfolding key_word_def key_rest_def p fold_prefix_literal by (simp_all add: h c assms some_of_word)
  show "list_all is_digit w \<Longrightarrow> re_port_number (''port-number:    '' @ w) = Some w"
    unfolding re_port_number_def key_rest_def p fold_prefix_literal
    using assms some_of_all[of w is_digit "[]"] by (simp add: h c list_all_iff is_word_def)
qed

lemma key_line_other:
  "key_word ''ip-name'' (''hostname:       '' @ s) = None" "key_word ''ip-name'' (''port-number:    '' @ s) = None"
  "key_word ''ip-name'' (''password:       '' @ s) = None" "key_word ''hostname'' (''port-number:    '' @ s) = None"
  "key_word ''hostname'' (''password:       '' @ s) = None" "re_port_number (''password:       '' @ s) = None"
  "re_peer_block (''hostname:       '' @ s) = None" "re_peer_block (''ip-name:        '' @ s) = None"
  "re_peer_block (''port-number:    '' @ s) = None" "re_peer_block (''password:       '' @ s) = None"
  "re_peer_block ''}'' = None"
proof -
  have h: "skip_space (c # s) = c # s" if "\<not> re_space c" for c s using that by (simp add: skip_space_id)
  have c: "\<not> re_space CHR ''}''" "\<not> re_space CHR ''h''" "\<not> re_space CHR ''i''" "\<not> re_space CHR ''p''" by (simp_all add: re_space_def)
  have p: "skip_space (''hostname:       '' @ s) = ''hostname:       '' @ s" "skip_space (''ip-name:        '' @ s) = ''ip-name:        '' @ s"
    "skip_space (''password:       '' @ s) = ''password:       '' @ s" "skip_space (''port-number:    '' @ s) = ''port-number:    '' @ s"
    "skip_space ''}'' = ''}''"
    by (simp_all add: h c)
  show "key_word ''ip-name'' (''hostname:       '' @ s) = None" "key_word ''ip-name'' (''port-number:    '' @ s) = None"
    "key_word ''ip-name'' (''password:       '' @ s) = None" "key_word ''hostname'' (''port-number:    '' @ s) = None"
    "key_word ''hostname'' (''password:       '' @ s) = None" "re_port_number (''password:       '' @ s) = None"
    "re_peer_block (''hostname:       '' @ s) = None" "re_peer_block (''ip-name:        '' @ s) = None"
    "re_peer_block (''port-number:    '' @ s) = None" "re_peer_block (''password:       '' @ s) = None"
    "re_peer_block ''}'' = None"
    unfolding key_word_def re_port_number_def re_peer_block_def key_rest_def p fold_prefix_literal by simp_all
qed

lemma peer_line: "is_word n \<Longrightarrow> re_peer_block (''peer '' @ n @ '' {'') = Some n"
proof -
  assume n: "is_word n"
  have s: "skip_space (n @ '' {'') = n @ '' {''"
    using n word_not_re_space[OF n, of "hd n"] by (intro skip_space_id) (auto simp: is_word_def hd_append)
  have p: "skip_space (''peer '' @ n @ '' {'') = ''peer '' @ n @ '' {''" by (intro skip_space_id) (simp add: re_space_def)
  have w: "some_of (\<lambda>c. \<not> re_space c) (n @ '' {'') = Some n"
    using n word_not_re_space[OF n] by (intro some_of_all) (auto simp: is_word_def re_space_def)
  show ?thesis unfolding re_peer_block_def p fold_prefix_literal(1)[of "n @ '' {''"] option.case
    by (simp only: skip_space_blank s w) (simp add: re_space_def)
qed

section \<open>What a peer writes\<close>

text \<open>A peer whose fields are plain words, so that INN's format can carry them.\<close>

definition unquoted :: "string \<Rightarrow> bool" where
  "unquoted w \<longleftrightarrow> is_word w \<and> hd w \<notin> {CHR 0x22, CHR '';''} \<and> last w \<notin> {CHR 0x22, CHR '';'', CHR 0x5C}"

definition field_word :: "string \<Rightarrow> bool" where
  "field_word w \<longleftrightarrow> is_word w \<and> CHR '':'' \<notin> set w"

definition portable_spec :: "inn_spec \<Rightarrow> bool" where
  "portable_spec s \<longleftrightarrow>
     field_word (pe_name s) \<and> unquoted (pe_name s) \<and> CHR ''/'' \<notin> set (pe_name s) \<and> hd (pe_name s) \<noteq> CHR ''#''
     \<and> map lower_char (pe_name s) \<notin> {''me'', ''pattern'', ''ipv4'', ''ipv6''}
     \<and> (pe_token s = [] \<or> field_word (pe_token s))
     \<and> unquoted (pe_in s) \<and> unquoted (pe_out s) \<and> (pe_password s = [] \<or> unquoted (pe_password s))
     \<and> 0 < pe_port s \<and> pe_port s < 2 ^ 63
     \<and> field_word (pe_patterns s) \<and> CHR ''/'' \<notin> set (pe_patterns s) \<and> last (pe_patterns s) \<noteq> CHR 0x5C
     \<and> (pe_dists s = [] \<or> field_word (pe_dists s) \<and> last (pe_dists s) \<noteq> CHR 0x5C) \<and> field_word (pe_flags s)
     \<and> length (pe_name s) + length (pe_token s) + length (pe_patterns s) + length (pe_dists s) + length (pe_flags s) < 1000000
     \<and> length (pe_in s) < 1000000 \<and> length (pe_out s) < 1000000 \<and> length (pe_password s) < 1000000"

lemma trim_right_keep: "last s \<notin> set cs \<Longrightarrow> trim_right s cs = s"
  by (cases s rule: rev_cases) (auto simp: trim_right_def)

lemma trim_cutset_edges: "s \<noteq> [] \<Longrightarrow> hd s \<notin> set cs \<Longrightarrow> last s \<notin> set cs \<Longrightarrow> trim_cutset s cs = s"
  by (cases s) (auto simp: trim_cutset_def trim_right_keep)

lemma unquote_word: "unquoted w \<Longrightarrow> unquote w = w" "unquoted w \<Longrightarrow> trim_cutset w [CHR 0x22] = w"
  by (auto simp: unquoted_def unquote_def is_word_def intro!: trim_cutset_edges)

lemma portable_fields:
  assumes "portable_spec s"
  shows "trim_space (pe_name s) = pe_name s" "trim_space (pe_token s) = pe_token s" "trim_space (pe_in s) = pe_in s"
    "trim_space (pe_out s) = pe_out s" "trim_space (pe_password s) = pe_password s"
    "pe_name s \<noteq> []" "pe_in s \<noteq> []" "pe_out s \<noteq> []" "pe_patterns s \<noteq> []" "pe_flags s \<noteq> []" "\<not> pe_port s \<le> 0"
  using assms by (auto simp: portable_spec_def field_word_def unquoted_def) (simp_all add: is_word_def)

lemma portable_defaults: "portable_spec s \<Longrightarrow> spec_defaults s = s"
  using portable_fields[of s] by (simp add: spec_defaults_def)

definition site_field :: "inn_spec \<Rightarrow> string" where
  "site_field s = (if pe_token s \<noteq> [] then pe_name s @ ''/'' @ pe_token s else pe_name s)"

definition pattern_field :: "inn_spec \<Rightarrow> string" where
  "pattern_field s = pe_patterns s @ (if pe_dists s \<noteq> [] then ''/'' @ pe_dists s else [])"

definition feed_line :: "inn_spec \<Rightarrow> string" where
  "feed_line s = site_field s @ '':'' @ pattern_field s @ '':'' @ pe_flags s @ '':innfeed!''"

definition peer_head :: "inn_spec \<Rightarrow> string" where
  "peer_head s = ''peer '' @ pe_name s @ '' {''"

definition password_lines :: "inn_spec \<Rightarrow> string list" where
  "password_lines s = (if pe_password s = [] then [] else [''    password:       '' @ pe_password s])"

definition fragment_lines :: "inn_spec \<Rightarrow> string list" where
  "fragment_lines s =
     [peer_head s, ''    hostname:       '' @ pe_in s] @ password_lines s
     @ [''}'', peer_head s, ''    ip-name:        '' @ pe_out s, ''    port-number:    '' @ format_int (pe_port s), ''}'', feed_line s]"

lemma fragments_text:
  "portable_spec s \<Longrightarrow> format_incoming s @ format_innfeed s @ format_newsfeeds s = concat (map (\<lambda>l. l @ [LF]) (fragment_lines s))"
proof -
  assume p: "portable_spec s"
  then show ?thesis
    using portable_fields(5)[OF p] by (simp add: format_incoming_def format_innfeed_def format_newsfeeds_def Let_def portable_defaults[OF p]
        fragment_lines_def feed_line_def site_field_def pattern_field_def peer_head_def password_lines_def)
qed

section \<open>Lines\<close>

text \<open>Lines that nothing is cut from, and that are not continued.\<close>

definition whole_line :: "string \<Rightarrow> bool" where
  "whole_line l \<longleftrightarrow> clean_line wide_limit l \<and> l \<noteq> [] \<and> last l \<notin> {SP, TAB, CHR 0x5C}"

lemma has_suffix_last: "s \<noteq> [] \<Longrightarrow> has_suffix s [c] \<longleftrightarrow> last s = c"
  by (cases s rule: rev_cases) (auto simp: has_suffix_def)

lemma unfold_whole: "\<forall>l \<in> set ls. whole_line l \<Longrightarrow> unfold_lines [] ls = concat (map (\<lambda>l. l @ [LF]) ls)"
  by (induction ls) (auto simp: whole_line_def trim_right_blank_def trim_right_keep has_suffix_last)

lemma scan_unfolded: "\<forall>l \<in> set ls. whole_line l \<Longrightarrow>
    fst (scan_lines wide_limit (unfold_continued (concat (map (\<lambda>l. l @ [LF]) ls)))) = ls"
proof -
  assume w: "\<forall>l \<in> set ls. whole_line l"
  have "scan_lines wide_limit (concat (map (\<lambda>l. l @ [LF]) ls)) = (ls, False)"
    using w by (intro scan_clean_lines) (auto simp: whole_line_def wide_limit_def)
  then show ?thesis using unfold_whole[OF w] by (simp add: unfold_continued_def)
qed

lemma whole_append: "is_word w \<Longrightarrow> last w \<noteq> CHR 0x5C \<Longrightarrow> LF \<notin> set p \<Longrightarrow> length p + length w < 1048576 \<Longrightarrow> whole_line (p @ w)"
  using word_chars[of w "last w"] word_chars[of w LF] by (auto simp: whole_line_def clean_line_def is_word_def wide_limit_def)

lemma word_append: "is_word a \<Longrightarrow> is_word b \<Longrightarrow> is_word (a @ b)"
  by (auto simp: is_word_def)

lemma feed_line_word: "portable_spec s \<Longrightarrow> is_word (feed_line s)"
  unfolding portable_spec_def feed_line_def site_field_def pattern_field_def field_word_def is_word_def
  by (auto simp: ascii_def ascii_space_def)

lemma digits_last: "0 < n \<Longrightarrow> list_all is_digit (format_int n)"
  by (simp add: format_int_def digits_of_digits)

lemma digit_end: "is_digit c \<Longrightarrow> c \<noteq> CHR 0x5C"
  by (auto simp: is_digit_def)

lemma digits_of_length: "n < 10 ^ Suc k \<Longrightarrow> length (digits_of n) \<le> Suc k"
proof (induction k arbitrary: n)
  case (Suc k)
  have "n div 10 < 10 ^ Suc k" using Suc.prems by (simp add: less_mult_imp_div_less)
  then show ?case using Suc.IH[of "n div 10"] by (subst digits_of.simps) simp
qed (simp add: digits_of.simps)

lemma port_length: "0 < n \<Longrightarrow> n < 2 ^ 63 \<Longrightarrow> length (format_int n) < 1000"
proof -
  assume "0 < n" "n < 2 ^ 63"
  then show ?thesis using digits_of_length[of "nat n" 18] by (simp add: format_int_def nat_less_iff)
qed

lemma fragment_whole: "portable_spec s \<Longrightarrow> l \<in> set (fragment_lines s) \<Longrightarrow> whole_line l"
proof -
  assume p: "portable_spec s" and l: "l \<in> set (fragment_lines s)"
  then have n: "length (format_int (pe_port s)) < 1000" using port_length by (simp add: portable_spec_def)
  have nm: "is_word (pe_name s)" "length (pe_name s) < 1000000" using p by (auto simp: portable_spec_def field_word_def)
  have "whole_line (peer_head s)"
    using nm word_chars[of "pe_name s" LF] by (auto simp: whole_line_def peer_head_def clean_line_def wide_limit_def)
  moreover have "whole_line ''}''" by (simp add: whole_line_def clean_line_def wide_limit_def)
  moreover have u: "whole_line (q @ w)" if "unquoted w" "length w < 1000000" "LF \<notin> set q" "length q < 48000" for q w
    using that by (intro whole_append) (simp_all add: unquoted_def)
  have "whole_line (''    hostname:       '' @ pe_in s)" "whole_line (''    ip-name:        '' @ pe_out s)"
    using p by (intro u; simp add: portable_spec_def)+
  moreover have "pe_password s \<noteq> [] \<Longrightarrow> whole_line (''    password:       '' @ pe_password s)"
    using p by (intro u; simp add: portable_spec_def)
  moreover have "whole_line (''    port-number:    '' @ format_int (pe_port s))"
  proof -
    have "list_all is_digit (format_int (pe_port s))" using p digits_last by (simp add: portable_spec_def)
    then have "last (format_int (pe_port s)) \<noteq> CHR 0x5C" by (metis digit_end format_int_neq_Nil last_in_set list_all_iff)
    then show ?thesis using n by (intro whole_append) simp_all
  qed
  moreover have "whole_line ([] @ feed_line s)"
    using p by (intro whole_append feed_line_word) (auto simp: portable_spec_def feed_line_def site_field_def pattern_field_def)
  ultimately show ?thesis using l by (auto simp: fragment_lines_def password_lines_def split: if_splits)
qed

section \<open>Reading them\<close>

lemma trim_lead: "trim_space (SP # s) = trim_space s"
proof -
  have "trim_by space_len (SP # s) = trim_by space_len s" by (subst trim_by.simps) simp
  then show ?thesis by (simp add: trim_space_def trim_left_space_def)
qed

lemma trim_head_word: "is_word w \<Longrightarrow> ascii c \<Longrightarrow> \<not> ascii_space c \<Longrightarrow> trim_space (c # s @ w) = c # s @ w"
  using word_chars[of w "last w"] by (intro trim_space_id) (auto simp: is_word_def)

lemma visible_letters [simp]:
  "ascii CHR ''h''" "\<not> ascii_space CHR ''h''" "ascii CHR ''i''" "\<not> ascii_space CHR ''i''" "ascii CHR ''p''" "\<not> ascii_space CHR ''p''"
  by (simp_all add: ascii_def ascii_space_def)

lemma trim_fields:
  assumes "is_word w"
  shows "trim_space (''    hostname:       '' @ w) = ''hostname:       '' @ w"
    and "trim_space (''    ip-name:        '' @ w) = ''ip-name:        '' @ w"
    and "trim_space (''    port-number:    '' @ w) = ''port-number:    '' @ w"
    and "trim_space (''    password:       '' @ w) = ''password:       '' @ w"
  using trim_head_word[OF assms, of _ "''ostname:       ''"] trim_head_word[OF assms, of _ "''p-name:        ''"]
    trim_head_word[OF assms, of _ "''ort-number:    ''"] trim_head_word[OF assms, of _ "''assword:       ''"]
  by (simp_all add: trim_lead)

lemma paste_field:
  assumes "pa_peer p \<noteq> []"
  shows "unquoted w \<Longrightarrow> paste_line (''    hostname:       '' @ w) p = mark ''incoming_host'' (set_spec (pe_in_update (\<lambda>_. w)) p)"
    and "unquoted w \<Longrightarrow> paste_line (''    ip-name:        '' @ w) p = mark ''host'' (set_spec (pe_out_update (\<lambda>_. w)) p)"
    and "unquoted w \<Longrightarrow> paste_line (''    password:       '' @ w) p = mark ''incoming_password'' (set_spec (pe_password_update (\<lambda>_. w)) p)"
    and "0 < n \<Longrightarrow> n < 2 ^ 63 \<Longrightarrow> paste_line (''    port-number:    '' @ format_int n) p = mark ''port'' (set_spec (pe_port_update (\<lambda>_. n)) p)"
    and "paste_line ''}'' p = p\<lparr>pa_peer := []\<rparr>"
proof -
  have w: "is_word w" if "unquoted w" for w using that by (simp add: unquoted_def)
  show "unquoted w \<Longrightarrow> paste_line (''    hostname:       '' @ w) p = mark ''incoming_host'' (set_spec (pe_in_update (\<lambda>_. w)) p)"
    unfolding paste_line_def Let_def trim_fields[OF w] key_line_other paste_in_peer_def re_ip_name_def re_hostname_def
      key_line(1)[OF w] using assms by (simp add: unquote_word)
  show "unquoted w \<Longrightarrow> paste_line (''    ip-name:        '' @ w) p = mark ''host'' (set_spec (pe_out_update (\<lambda>_. w)) p)"
    unfolding paste_line_def Let_def trim_fields[OF w] key_line_other paste_in_peer_def re_ip_name_def
      key_line(2)[OF w] using assms by (simp add: unquote_word)
  show "unquoted w \<Longrightarrow> paste_line (''    password:       '' @ w) p = mark ''incoming_password'' (set_spec (pe_password_update (\<lambda>_. w)) p)"
    unfolding paste_line_def Let_def trim_fields[OF w] key_line_other paste_in_peer_def re_ip_name_def re_hostname_def re_password_def
      key_line(3)[OF w] using assms by (simp add: unquote_word)
  show "0 < n \<Longrightarrow> n < 2 ^ 63 \<Longrightarrow> paste_line (''    port-number:    '' @ format_int n) p = mark ''port'' (set_spec (pe_port_update (\<lambda>_. n)) p)"
    unfolding paste_line_def Let_def trim_fields[OF word_format_int] key_line_other paste_in_peer_def re_ip_name_def re_hostname_def
      key_line(4)[OF word_format_int digits_last] using assms by (simp add: atoi_value_format_int)
  have "trim_space ''}'' = ''}''" by (rule trim_space_id) (simp_all add: ascii_def ascii_space_def)
  then show "paste_line ''}'' p = p\<lparr>pa_peer := []\<rparr>"
    unfolding paste_line_def Let_def using assms by (simp only: key_line_other) (simp add: paste_in_peer_def)
qed

lemma paste_head:
  assumes "portable_spec s"
  shows "paste_line (peer_head s) p =
    (let p1 = p\<lparr>pa_peer := pe_name s\<rparr>
     in if pe_name (pa_spec p) = [] then mark ''name'' (set_spec (pe_name_update (\<lambda>_. pe_name s)) p1) else p1)"
proof -
  have n: "is_word (pe_name s)" "unquoted (pe_name s)" using assms by (simp_all add: portable_spec_def field_word_def)
  have t: "trim_space (peer_head s) = peer_head s"
    unfolding peer_head_def by (rule trim_space_id) (simp_all add: ascii_def ascii_space_def)
  have "peer_head s \<noteq> []" "\<not> has_prefix (peer_head s) ''#''" "\<not> has_prefix (peer_head s) ''//''" by (simp_all add: peer_head_def)
  then show ?thesis unfolding paste_line_def t Let_def
    unfolding peer_head_def peer_line[OF n(1)] using unquote_word(2)[OF n(2)] by simp
qed

section \<open>The line of newsfeeds\<close>

lemma lower_slash: "lower_char c = CHR ''/'' \<longleftrightarrow> c = CHR ''/''"
proof
  assume h: "lower_char c = CHR ''/''"
  show "c = CHR ''/''"
  proof (cases "is_upper c")
    case True
    then have "byte (lower_char c) = byte c + 32" by (auto simp: lower_char_def is_upper_def of_char_of)
    then have "byte c + 32 = 47" using h by simp
    then show ?thesis using True by (simp add: is_upper_def)
  qed (use h in \<open>simp add: lower_char_def\<close>)
qed (simp add: lower_char_def is_upper_def)

lemma feed_split:
  assumes "portable_spec s"
  shows "split_on CHR '':'' (feed_line s) = [site_field s, pattern_field s, pe_flags s, ''innfeed!'']"
proof -
  have "CHR '':'' \<notin> set (site_field s)" "CHR '':'' \<notin> set (pattern_field s)" "CHR '':'' \<notin> set (pe_flags s)"
    using assms by (auto simp: site_field_def pattern_field_def portable_spec_def field_word_def)
  then show ?thesis using split_on_append[of "CHR '':''"] by (simp add: feed_line_def split_on_single)
qed

lemma feed_no_key:
  assumes "portable_spec s" "key \<in> {''pattern'', ''ipv4'', ''ipv6''}"
  shows "key_rest key (feed_line s) = None"
proof (rule ccontr)
  assume h: "key_rest key (feed_line s) \<noteq> None"
  note w = feed_line_word[OF assms(1)]
  have a: "list_all ascii (feed_line s)" using w by (auto simp: is_word_def list_all_iff)
  have k: "list_all ascii key" "CHR ''/'' \<notin> set key" using assms(2) by (auto simp: ascii_def)
  obtain t where t: "map lower_char (take (length key) (feed_line s)) = key" "skip_space (drop (length key) (feed_line s)) = CHR '':'' # t"
    using h fold_prefix_ascii[OF a k(1)] w by (auto simp: key_rest_def split: if_splits option.splits list.splits)
  have "drop (length key) (feed_line s) \<noteq> []" using t(2) by (auto simp: skip_space_def)
  then have "\<not> re_space (hd (drop (length key) (feed_line s)))" using word_not_re_space[OF w] by (meson hd_in_set in_set_dropD)
  then have d: "drop (length key) (feed_line s) = CHR '':'' # t" using t(2) skip_space_id by metis
  have "CHR '':'' \<notin> set (take (length key) (feed_line s))"
  proof
    assume "CHR '':'' \<in> set (take (length key) (feed_line s))"
    then have "lower_char CHR '':'' \<in> set key" using t(1) by (metis image_eqI list.set_map)
    then show False using assms(2) by (auto simp: lower_char_def is_upper_def)
  qed
  then have "hd (split_on CHR '':'' (take (length key) (feed_line s) @ CHR '':'' # t)) = take (length key) (feed_line s)"
    by (simp add: split_on_append)
  then have "take (length key) (feed_line s) = site_field s"
    using feed_split[OF assms(1)] by (metis append_take_drop_id d list.sel(1))
  then have n: "map lower_char (site_field s) = key" using t(1) by simp
  then have "CHR ''/'' \<notin> set (site_field s)" using k(2) lower_slash by (metis image_eqI list.set_map)
  then have "site_field s = pe_name s" by (auto simp: site_field_def split: if_splits)
  then show False using n assms by (auto simp: portable_spec_def)
qed

lemma take_field: "CHR ''/'' \<notin> set a \<Longrightarrow> index_of (a @ CHR ''/'' # b) ''/'' = Some (length a)"
  using index_of_single_append[of "CHR ''/''" a b] by simp

lemma apply_pattern:
  assumes "portable_spec s"
  shows "apply_pattern_field (pattern_field s) r =
    r\<lparr>pe_patterns := pe_patterns s, pe_dists := (if pe_dists s = [] then pe_dists r else pe_dists s)\<rparr>"
proof -
  have w: "field_word (pe_patterns s)" "CHR ''/'' \<notin> set (pe_patterns s)" "last (pe_patterns s) \<noteq> CHR 0x5C"
    "pe_dists s \<noteq> [] \<Longrightarrow> field_word (pe_dists s) \<and> last (pe_dists s) \<noteq> CHR 0x5C"
    using assms by (auto simp: portable_spec_def)
  have "is_word (pattern_field s)" using w by (auto simp: pattern_field_def field_word_def is_word_def ascii_def ascii_space_def)
  moreover have "hd (pe_patterns s) \<noteq> CHR '':''" using w(1) by (metis field_word_def hd_in_set is_word_def)
  then have "pattern_field s \<noteq> []" "hd (pattern_field s) \<noteq> CHR '':''" "last (pattern_field s) \<noteq> CHR 0x5C"
    using w by (auto simp: pattern_field_def field_word_def is_word_def hd_append)
  ultimately have "trim_right (trim_prefix (trim_space (pattern_field s)) '':'') [CHR 0x5C] = pattern_field s"
    by (cases "pattern_field s") (simp_all add: trim_prefix_no trim_right_keep)
  moreover have "pe_patterns s \<noteq> []" "index_of (pe_patterns s) ''/'' = None" using w by (auto simp: field_word_def is_word_def index_of_single)
  ultimately show ?thesis using w(2) by (simp add: apply_pattern_field_def pattern_field_def take_field)
qed

lemma apply_feed_line:
  assumes "portable_spec s" "pe_dists r = []" "pe_token r = []"
  shows "apply_newsfeeds_line (feed_line s) r =
    Some (r\<lparr>pe_name := pe_name s, pe_token := pe_token s, pe_patterns := pe_patterns s, pe_dists := pe_dists s, pe_flags := pe_flags s\<rparr>)"
proof -
  have w: "is_word (pe_name s)" "CHR ''/'' \<notin> set (pe_name s)" "map lower_char (pe_name s) \<noteq> ''me''" "is_word (pe_flags s)"
    "pe_token s \<noteq> [] \<Longrightarrow> is_word (pe_token s)"
    using assms(1) by (auto simp: portable_spec_def field_word_def)
  have "is_word (site_field s)" using w by (auto simp: site_field_def is_word_def ascii_def ascii_space_def)
  then have sp: "split_newsfeeds (feed_line s) = Some (site_field s, pattern_field s, pe_flags s, ''innfeed!'')"
    using feed_split[OF assms(1)] by (simp add: split_newsfeeds_def is_word_def)
  have "list_all ascii (pe_name s)" using w(1) by (auto simp: is_word_def list_all_iff)
  moreover have "fold_case ''ME'' = ''me''" by code_simp
  ultimately have me: "\<not> equal_fold (pe_name s) ''ME''" using w(3) by (simp add: equal_fold_def fold_case_def)
  have fed: "contains (to_lower ''innfeed!'') ''innfeed''" by code_simp
  have site: "(case index_of (site_field s) ''/'' of None \<Rightarrow> (site_field s, []) | Some i \<Rightarrow> (take i (site_field s), drop (i + 1) (site_field s)))
      = (pe_name s, pe_token s)"
    using w(2) take_field[of "pe_name s" "pe_token s"] index_of_single[of "pe_name s" "CHR ''/''"]
    by (cases "pe_token s = []") (simp_all add: site_field_def)
  have ne: "pe_name s \<noteq> []" "pe_flags s \<noteq> []" "trim_space (pe_flags s) = pe_flags s" using w by (auto simp: is_word_def)
  show ?thesis
    unfolding apply_newsfeeds_line_def sp option.case prod.case site Let_def
    using me fed ne assms(2,3) by (simp add: apply_pattern[OF assms(1)] set_flags_def)
qed

lemma feed_line_start:
  assumes "portable_spec s"
  shows "trim_space (feed_line s) = feed_line s" "feed_line s \<noteq> []" "\<not> has_prefix (feed_line s) ''#''" "\<not> has_prefix (feed_line s) ''//''"
    "re_peer_block (feed_line s) = None" "\<not> re_space (hd (feed_line s))"
proof -
  note w = feed_line_word[OF assms]
  have n: "is_word (pe_name s)" "CHR ''/'' \<notin> set (pe_name s)" "hd (pe_name s) \<noteq> CHR ''#''"
    using assms by (auto simp: portable_spec_def field_word_def)
  then obtain c q where q: "pe_name s = c # q" "c \<noteq> CHR ''#''" "c \<noteq> CHR ''/''"
    by (cases "pe_name s") (auto simp: is_word_def)
  then have "\<exists>r. feed_line s = c # r" by (simp add: feed_line_def site_field_def)
  then obtain r where c: "feed_line s = c # r" by blast
  show "trim_space (feed_line s) = feed_line s" using w by simp
  show "feed_line s \<noteq> []" "\<not> has_prefix (feed_line s) ''#''" "\<not> has_prefix (feed_line s) ''//''" using c q by simp_all
  show "\<not> re_space (hd (feed_line s))" using word_not_re_space[OF w, of c] c by simp
  have a: "list_all ascii (feed_line s)" using w by (auto simp: is_word_def list_all_iff)
  have "r = [] \<or> \<not> re_space (hd r)" if "fold_prefix ''peer'' (feed_line s) = Some r" for r
  proof -
    have "list_all ascii ''peer''" by (simp add: ascii_def)
    then have "r = drop (length ''peer'') (feed_line s)"
      using that fold_prefix_ascii[OF a, of "''peer''"] by (metis option.distinct(1) option.inject)
    then show ?thesis using word_not_re_space[OF w] by (meson hd_in_set in_set_dropD)
  qed
  then show "re_peer_block (feed_line s) = None" using w unfolding re_peer_block_def by (auto split: option.splits)
qed

lemma paste_feed:
  assumes "portable_spec s" "pa_peer p = []" "pe_dists (pa_spec p) = []" "pe_token (pa_spec p) = []"
  shows "pa_spec (paste_line (feed_line s) p) = (pa_spec p)\<lparr>pe_name := pe_name s, pe_token := pe_token s, pe_patterns := pe_patterns s,
      pe_dists := pe_dists s, pe_flags := pe_flags s\<rparr>"
    and "pa_warns (paste_line (feed_line s) p) = append_unique (pa_warns p) [feed_warning]"
    and "pa_present (paste_line (feed_line s) p) \<noteq> []"
proof -
  have "re_pattern_line (feed_line s) = None" "re_ipv4_line (feed_line s) = None" "re_ipv6_line (feed_line s) = None"
    using feed_no_key[OF assms(1)] by (simp_all add: re_pattern_line_def re_ipv4_line_def re_ipv6_line_def)
  note o = this apply_feed_line[OF assms(1,3,4)]
  have l: "paste_line (feed_line s) p = paste_outside (feed_line s) p"
    using feed_line_start[OF assms(1)] assms(2) by (simp add: paste_line_def)
  have m: "pa_spec (mark f q) = pa_spec q" "pa_warns (mark f q) = pa_warns q" "pa_spec (mark_dists q) = pa_spec q"
      "pa_warns (mark_dists q) = pa_warns q" for f q by (simp_all add: mark_def mark_dists_def)
  show "pa_spec (paste_line (feed_line s) p) = (pa_spec p)\<lparr>pe_name := pe_name s, pe_token := pe_token s, pe_patterns := pe_patterns s,
      pe_dists := pe_dists s, pe_flags := pe_flags s\<rparr>"
    unfolding l paste_outside_def o option.case Let_def by (simp add: m warn_def)
  show "pa_warns (paste_line (feed_line s) p) = append_unique (pa_warns p) [feed_warning]"
    unfolding l paste_outside_def o option.case Let_def by (simp add: m warn_def)
  have k: "pa_present (mark f q) \<noteq> []" "pa_present (warn v q) = pa_present q" for f v q by (auto simp: mark_def warn_def)
  then have "pa_present (mark_dists (mark f q)) \<noteq> []" for f q by (simp add: mark_dists_def)
  then show "pa_present (paste_line (feed_line s) p) \<noteq> []"
    unfolding l paste_outside_def o option.case Let_def by (simp add: k)
qed

section \<open>The round trip\<close>

text \<open>What a paste holds after the first two fragments, apart from the fields it marks.\<close>

lemma paste_marks: "pa_spec (mark f p) = pa_spec p" "pa_peer (mark f p) = pa_peer p" "pa_warns (mark f p) = pa_warns p"
    "pa_present (set_spec g p) = pa_present p" "pa_spec (set_spec g p) = g (pa_spec p)" "pa_peer (set_spec g p) = pa_peer p"
    "pa_warns (set_spec g p) = pa_warns p" "f \<in> set (pa_present (mark f p))" "pa_present (mark f p) \<noteq> []"
  by (auto simp: mark_def set_spec_def)

definition paste_at :: "paste \<Rightarrow> inn_spec \<Rightarrow> string \<Rightarrow> bool" where
  "paste_at p sp pr \<longleftrightarrow> pa_spec p = sp \<and> pa_peer p = pr \<and> pa_warns p = [] \<and> pa_present p \<noteq> []"

lemma paste_at_first:
  "portable_spec s \<Longrightarrow> paste_at (paste_line (peer_head s) empty_paste) (empty_spec\<lparr>pe_name := pe_name s\<rparr>) (pe_name s)"
  by (simp add: paste_head paste_at_def empty_paste_def empty_spec_def paste_marks)

lemma paste_at_step:
  assumes "paste_at p sp pr"
  shows "pr \<noteq> [] \<Longrightarrow> unquoted w \<Longrightarrow> paste_at (paste_line (''    hostname:       '' @ w) p) (sp\<lparr>pe_in := w\<rparr>) pr"
    and "pr \<noteq> [] \<Longrightarrow> unquoted w \<Longrightarrow> paste_at (paste_line (''    ip-name:        '' @ w) p) (sp\<lparr>pe_out := w\<rparr>) pr"
    and "pr \<noteq> [] \<Longrightarrow> unquoted w \<Longrightarrow> paste_at (paste_line (''    password:       '' @ w) p) (sp\<lparr>pe_password := w\<rparr>) pr"
    and "pr \<noteq> [] \<Longrightarrow> 0 < n \<Longrightarrow> n < 2 ^ 63 \<Longrightarrow> paste_at (paste_line (''    port-number:    '' @ format_int n) p) (sp\<lparr>pe_port := n\<rparr>) pr"
    and "pr \<noteq> [] \<Longrightarrow> paste_at (paste_line ''}'' p) sp []"
    and "portable_spec s \<Longrightarrow> pe_name sp \<noteq> [] \<Longrightarrow> paste_at (paste_line (peer_head s) p) sp (pe_name s)"
proof -
  have p: "pa_spec p = sp" "pa_peer p = pr" "pa_warns p = []" "pa_present p \<noteq> []" using assms by (simp_all add: paste_at_def)
  have m: "paste_at (mark f (set_spec g p)) (g sp) pr" for f g unfolding paste_at_def by (simp add: paste_marks p)
  show "paste_at (paste_line (''    hostname:       '' @ w) p) (sp\<lparr>pe_in := w\<rparr>) pr" if "pr \<noteq> []" "unquoted w"
    using m that paste_field(1)[of p w] p(2) by metis
  show "paste_at (paste_line (''    ip-name:        '' @ w) p) (sp\<lparr>pe_out := w\<rparr>) pr" if "pr \<noteq> []" "unquoted w"
    using m that paste_field(2)[of p w] p(2) by metis
  show "paste_at (paste_line (''    password:       '' @ w) p) (sp\<lparr>pe_password := w\<rparr>) pr" if "pr \<noteq> []" "unquoted w"
    using m that paste_field(3)[of p w] p(2) by metis
  show "paste_at (paste_line (''    port-number:    '' @ format_int n) p) (sp\<lparr>pe_port := n\<rparr>) pr" if "pr \<noteq> []" "0 < n" "n < 2 ^ 63"
    using m that paste_field(4)[of p n] p(2) by metis
  show "paste_at (paste_line ''}'' p) sp []" if "pr \<noteq> []"
    using that paste_field(5)[of p] p by (simp add: paste_at_def)
  show "paste_at (paste_line (peer_head s) p) sp (pe_name s)" if "portable_spec s" "pe_name sp \<noteq> []"
    using that p by (simp add: paste_head paste_at_def)
qed

lemma paste_blocks:
  assumes "portable_spec s"
  shows "paste_at (fold paste_line (butlast (fragment_lines s)) empty_paste)
    (s\<lparr>pe_token := [], pe_patterns := [], pe_dists := [], pe_flags := [], pe_warnings := []\<rparr>) []"
proof -
  have n: "pe_name s \<noteq> []" using portable_fields[OF assms] by simp
  have h: "unquoted (pe_in s)" "unquoted (pe_out s)" "0 < pe_port s" "pe_port s < 2 ^ 63" "pe_password s \<noteq> [] \<Longrightarrow> unquoted (pe_password s)"
    using assms by (auto simp: portable_spec_def)
  let ?p2 = "paste_line (''    hostname:       '' @ pe_in s) (paste_line (peer_head s) empty_paste)"
  let ?p3 = "fold paste_line (password_lines s) ?p2"
  let ?p5 = "paste_line (peer_head s) (paste_line ''}'' ?p3)"
  let ?p8 = "paste_line ''}'' (paste_line (''    port-number:    '' @ format_int (pe_port s)) (paste_line (''    ip-name:        '' @ pe_out s) ?p5))"
  note p2 = paste_at_step(1)[OF paste_at_first[OF assms] n h(1)]
  have p3: "paste_at ?p3 (empty_spec\<lparr>pe_name := pe_name s, pe_in := pe_in s, pe_password := pe_password s\<rparr>) (pe_name s)"
  proof (cases "pe_password s = []")
    case True
    then have "password_lines s = []" by (simp add: password_lines_def)
    then show ?thesis using p2 True by (simp add: empty_spec_def)
  next
    case False
    then have "password_lines s = [''    password:       '' @ pe_password s]" by (simp add: password_lines_def)
    then show ?thesis using paste_at_step(3)[OF p2 n h(5)[OF False]] by simp
  qed
  note p5 = paste_at_step(6)[OF paste_at_step(5)[OF p3 n] assms]
  have "pe_name (empty_spec\<lparr>pe_name := pe_name s, pe_in := pe_in s, pe_password := pe_password s\<rparr>) \<noteq> []" using n by simp
  note p8 = paste_at_step(5)[OF paste_at_step(4)[OF paste_at_step(2)[OF p5[OF this] n h(2)] n h(3,4)] n]
  have "fold paste_line (butlast (fragment_lines s)) empty_paste = ?p8" by (simp add: fragment_lines_def butlast_append)
  moreover have "s\<lparr>pe_token := [], pe_patterns := [], pe_dists := [], pe_flags := [], pe_warnings := []\<rparr>
      = empty_spec\<lparr>pe_name := pe_name s, pe_in := pe_in s, pe_password := pe_password s, pe_out := pe_out s, pe_port := pe_port s\<rparr>"
    by (cases s) (simp add: empty_spec_def)
  ultimately show ?thesis using p8 by (simp only:)
qed

lemma fold_butlast: "xs \<noteq> [] \<Longrightarrow> fold f xs a = f (last xs) (fold f (butlast xs) a)"
  by (induction xs rule: rev_induct) auto

lemma fragments_read:
  assumes "portable_spec s"
  shows "\<exists>present. parse_paste (format_incoming s @ format_innfeed s @ format_newsfeeds s)
    = (Some (s\<lparr>pe_warnings := [feed_warning]\<rparr>), [feed_warning], present)"
proof -
  have l: "fst (scan_lines wide_limit (unfold_continued (format_incoming s @ format_innfeed s @ format_newsfeeds s))) = fragment_lines s"
    unfolding fragments_text[OF assms] using fragment_whole[OF assms] by (intro scan_unfolded) blast
  define p where "p = fold paste_line (butlast (fragment_lines s)) empty_paste"
  have b: "pa_spec p = s\<lparr>pe_token := [], pe_patterns := [], pe_dists := [], pe_flags := [], pe_warnings := []\<rparr>"
    "pa_peer p = []" "pa_warns p = []" "pa_present p \<noteq> []"
    using paste_blocks[OF assms] by (simp_all add: p_def paste_at_def)
  have "fragment_lines s \<noteq> []" "last (fragment_lines s) = feed_line s" by (simp_all add: fragment_lines_def)
  then have q: "fold paste_line (fragment_lines s) empty_paste = paste_line (feed_line s) p"
    using fold_butlast[of "fragment_lines s"] by (simp add: p_def)
  have "append_unique [] [feed_warning] = [feed_warning]" by code_simp
  then have r: "pa_spec (paste_line (feed_line s) p) = s\<lparr>pe_warnings := []\<rparr>" "pa_warns (paste_line (feed_line s) p) = [feed_warning]"
    using paste_feed[OF assms b(2)] b by simp_all
  have "pa_present (paste_line (feed_line s) p) \<noteq> []" by (rule paste_feed(3)[OF assms b(2)]) (simp_all add: b)
  moreover have "portable_spec (s\<lparr>pe_warnings := [feed_warning]\<rparr>)" using assms by (simp add: portable_spec_def)
  ultimately show ?thesis
    using portable_defaults[of "s\<lparr>pe_warnings := [feed_warning]\<rparr>"] unfolding parse_paste_def l q by (simp add: r)
qed

end
