(* ===== verification/PeeringLaws.thy ===== *)
theory PeeringLaws
  imports Peering InnLaws
begin

text \<open>
  Import and export of peers: what one server shows of a peer, pasted into the portal of another, creates the
  same peer; and an import onto a peer that exists fills every field the paste does not mention with a default.
\<close>

section \<open>Conversion\<close>

lemma peer_of_portable:
  assumes "portable_spec s"
  shows "peer_of_inn (s\<lparr>pe_warnings := ws\<rparr>) = \<lparr>p_id = 0, p_name = pe_name s, p_path_token = pe_token s, p_incoming = pe_in s,
    p_host = pe_out s, p_port = pe_port s, p_patterns = pe_patterns s, p_distributions = pe_dists s, p_flags = pe_flags s,
    p_enabled = True, p_in_password = pe_password s, p_out_password = pe_password s, p_notes = [], p_created = 0\<rparr>"
proof -
  have d: "spec_defaults (s\<lparr>pe_warnings := ws\<rparr>) = s\<lparr>pe_warnings := ws\<rparr>"
    using assms by (intro portable_defaults) (simp add: portable_spec_def)
  have t: "trim_space (pe_patterns s) = pe_patterns s" "trim_space (pe_dists s) = pe_dists s" "trim_space (pe_flags s) = pe_flags s"
    using assms by (auto simp: portable_spec_def field_word_def)
  show ?thesis unfolding peer_of_inn_def d using portable_fields[OF assms] t by (simp add: normalize_peer_def trim_peer_def)
qed

text \<open>The fields of a peer that INN's configuration carries.\<close>

definition same_peering :: "peer \<Rightarrow> inn_spec \<Rightarrow> bool" where
  "same_peering p s \<longleftrightarrow> p_name p = pe_name s \<and> p_path_token p = pe_token s \<and> p_incoming p = pe_in s \<and> p_host p = pe_out s
     \<and> p_port p = pe_port s \<and> p_patterns p = pe_patterns s \<and> p_distributions p = pe_dists s \<and> p_flags p = pe_flags s
     \<and> p_in_password p = pe_password s"

lemma normalize_portable:
  assumes "portable_spec s" "same_peering p s" "p_out_password p = pe_password s"
  shows "normalize_peer p = p"
proof -
  have t: "trim_space (pe_patterns s) = pe_patterns s" "trim_space (pe_dists s) = pe_dists s" "trim_space (pe_flags s) = pe_flags s"
    using assms(1) by (auto simp: portable_spec_def field_word_def)
  show ?thesis using portable_fields[OF assms(1)] t assms(2,3) by (cases p) (simp add: normalize_peer_def trim_peer_def same_peering_def)
qed

lemma normal_fields:
  "p_port (normalize_peer p) = (if p_port p \<le> 0 then 119 else p_port p)"
  "p_patterns (normalize_peer p) = (if trim_space (p_patterns p) = [] then ''*'' else trim_space (p_patterns p))"
  "p_flags (normalize_peer p) = (if trim_space (p_flags p) = [] then ''Tm'' else trim_space (p_flags p))"
proof -
  define p1 where "p1 = trim_peer p"
  define p2 where "p2 = (if p_incoming p1 = [] then p1\<lparr>p_incoming := p_host p1\<rparr> else p1)"
  define p3 where "p3 = (if p_host p2 = [] then p2\<lparr>p_host := p_incoming p2\<rparr> else p2)"
  define p4 where "p4 = (if p_port p3 \<le> 0 then p3\<lparr>p_port := 119\<rparr> else p3)"
  define p5 where "p5 = (if p_patterns p4 = [] then p4\<lparr>p_patterns := ''*''\<rparr> else p4)"
  define p6 where "p6 = (if p_flags p5 = [] then p5\<lparr>p_flags := ''Tm''\<rparr> else p5)"
  have d: "normalize_peer p = (if p_name p6 = [] \<and> p_host p6 \<noteq> [] then p6\<lparr>p_name := default_peer_name (p_host p6)\<rparr> else p6)"
    unfolding normalize_peer_def Let_def p6_def p5_def p4_def p3_def p2_def p1_def by (rule refl)
  have "p_port p3 = p_port p" "p_patterns p4 = trim_space (p_patterns p)" "p_flags p5 = trim_space (p_flags p)"
    by (simp_all add: p1_def p2_def p3_def p4_def p5_def trim_peer_def)
  then show "p_port (normalize_peer p) = (if p_port p \<le> 0 then 119 else p_port p)"
    "p_patterns (normalize_peer p) = (if trim_space (p_patterns p) = [] then ''*'' else trim_space (p_patterns p))"
    "p_flags (normalize_peer p) = (if trim_space (p_flags p) = [] then ''Tm'' else trim_space (p_flags p))"
    unfolding d by (simp_all add: p4_def p5_def p6_def)
qed

section \<open>Exchange of configurations\<close>

definition shown_snippets :: "peer \<Rightarrow> string" where
  "shown_snippets p = concat (map snd (snippets (inn_of_peer p)))"

lemma shown_text: "portable_spec (inn_of_peer p) \<Longrightarrow> shown_snippets p =
    format_incoming (inn_of_peer p) @ format_innfeed (inn_of_peer p) @ format_newsfeeds (inn_of_peer p)"
  by (simp add: shown_snippets_def snippets_def portable_defaults Let_def)

lemma create_portable:
  assumes "portable_spec s"
  shows "\<exists>t q. create_peer now (normalize_peer ((peer_of_inn (s\<lparr>pe_warnings := ws\<rparr>))\<lparr>p_notes := n\<rparr>)) m = Inr (t, q)
    \<and> get_peer (p_id q) t = Some q \<and> same_peering q s \<and> p_enabled q"
proof -
  let ?p = "(peer_of_inn (s\<lparr>pe_warnings := ws\<rparr>))\<lparr>p_notes := n\<rparr>"
  have "same_peering ?p s" "p_out_password ?p = pe_password s" "p_enabled ?p" unfolding peer_of_portable[OF assms] same_peering_def by simp_all
  then have "normalize_peer ?p = ?p" "p_host ?p \<noteq> []" "same_peering ?p s" "p_enabled ?p"
    using normalize_portable[OF assms] portable_fields(8)[OF assms] by (auto simp: same_peering_def)
  then show ?thesis by (simp add: create_peer_def get_peer_def map_of_update same_peering_def Let_def)
qed

text \<open>C37: a peer is exchanged without loss: the snippets a server shows of a peer, pasted into the portal of
  another server, create there an enabled peer with the same name, exclusions, hosts, port, patterns,
  distributions, flags and password, whatever else that server stores.\<close>

theorem shown_peer_imports:
  assumes "portable_spec (inn_of_peer p)"
  shows "\<exists>t q ws sn. peers_import now (Some \<lparr>ii_text = shown_snippets p, ii_type = [], ii_peer = 0, ii_apply = True\<rparr>) m
      = (t, Peer_Saved q ws sn)
    \<and> get_peer (p_id q) t = Some q \<and> same_peering q (inn_of_peer p) \<and> p_enabled q"
proof -
  obtain present where r: "parse_paste (shown_snippets p) = (Some ((inn_of_peer p)\<lparr>pe_warnings := [feed_warning]\<rparr>), [feed_warning], present)"
    using fragments_read[OF assms] unfolding shown_text[OF assms] by blast
  have "to_lower ''auto'' = ''auto''" by code_simp
  then have i: "read_import \<lparr>ii_text = shown_snippets p, ii_type = [], ii_peer = 0, ii_apply = True\<rparr>
      = (Some ((inn_of_peer p)\<lparr>pe_warnings := [feed_warning]\<rparr>), [feed_warning], present)"
    using r by (simp add: read_import_def)
  obtain t q where c: "create_peer now (normalize_peer ((peer_of_inn ((inn_of_peer p)\<lparr>pe_warnings := [feed_warning]\<rparr>))
        \<lparr>p_notes := join ''; '' [feed_warning]\<rparr>)) m = Inr (t, q)"
      "get_peer (p_id q) t = Some q" "same_peering q (inn_of_peer p)" "p_enabled q"
    using create_portable[OF assms] by blast
  have "peers_import now (Some \<lparr>ii_text = shown_snippets p, ii_type = [], ii_peer = 0, ii_apply = True\<rparr>) m
      = (t, Peer_Saved q [feed_warning] (snippets (inn_of_peer q)))"
    unfolding peers_import_def option.case i prod.case import_saved_def Let_def c(1) sum.case by simp
  then show ?thesis using c(2-4) by blast
qed

definition demo_far :: peer where
  "demo_far = \<lparr>p_id = 3, p_name = ''far'', p_path_token = ''far.example'', p_incoming = ''in.far.example'', p_host = ''news.far.example'',
     p_port = 433, p_patterns = ''comp.*,!comp.bin.*'', p_distributions = ''world'', p_flags = ''Ap'', p_enabled = False,
     p_in_password = ''secret'', p_out_password = [], p_notes = ''old'', p_created = 0\<rparr>"

lemma demo_far_spec: "inn_of_peer demo_far = \<lparr>pe_name = ''far'', pe_token = ''far.example'', pe_in = ''in.far.example'',
    pe_out = ''news.far.example'', pe_port = 433, pe_patterns = ''comp.*,!comp.bin.*'', pe_dists = ''world'', pe_flags = ''Ap'',
    pe_password = ''secret'', pe_warnings = []\<rparr>"
  by code_simp

lemma demo_far_portable: "portable_spec (inn_of_peer demo_far)"
  unfolding demo_far_spec
  by (simp add: portable_spec_def field_word_def unquoted_def is_word_def ascii_def ascii_space_def lower_char_def is_upper_def)

theorem shown_peer_imports_witness:
  "\<exists>t q ws sn. peers_import 0 (Some \<lparr>ii_text = shown_snippets demo_far, ii_type = [], ii_peer = 0, ii_apply = True\<rparr>) new_memory
      = (t, Peer_Saved q ws sn) \<and> get_peer (p_id q) t = Some q \<and> p_port q = 433 \<and> p_patterns q = ''comp.*,!comp.bin.*''"
  using shown_peer_imports[OF demo_far_portable, of 0 new_memory] unfolding same_peering_def demo_far_spec by auto

section \<open>Fields a paste does not mention\<close>

definition unmentioned :: "paste \<Rightarrow> bool" where
  "unmentioned p \<longleftrightarrow> (''port'' \<notin> set (pa_present p) \<longrightarrow> pe_port (pa_spec p) = 0)
     \<and> (''patterns'' \<notin> set (pa_present p) \<longrightarrow> pe_patterns (pa_spec p) = [])
     \<and> (''flags'' \<notin> set (pa_present p) \<longrightarrow> pe_flags (pa_spec p) = [])"

lemma mark_present [simp]: "set (pa_present (mark f p)) = insert f (set (pa_present p))" "pa_spec (mark f p) = pa_spec p"
  by (auto simp: mark_def)

lemma warn_present [simp]: "pa_present (warn w p) = pa_present p" "pa_spec (warn w p) = pa_spec p"
  by (simp_all add: warn_def)

lemma spec_present [simp]: "pa_present (set_spec f p) = pa_present p" "pa_spec (set_spec f p) = f (pa_spec p)"
  by (simp_all add: set_spec_def)

lemma dists_present: "set (pa_present p) \<subseteq> set (pa_present (mark_dists p))" "pa_spec (mark_dists p) = pa_spec p"
  by (auto simp: mark_dists_def)

lemma pattern_keeps: "pe_port (apply_pattern_field f s) = pe_port s" "pe_flags (apply_pattern_field f s) = pe_flags s"
  by (simp_all add: apply_pattern_field_def Let_def split: option.splits)

lemma feed_keeps: "apply_newsfeeds_line l s = Some t \<Longrightarrow> pe_port t = pe_port s"
  by (auto simp: apply_newsfeeds_line_def set_flags_def pattern_keeps Let_def split: option.splits prod.splits if_splits)

lemma mark_unmentioned: "unmentioned p \<Longrightarrow> unmentioned (mark f p)"
  by (auto simp: unmentioned_def)

lemma other_unmentioned: "unmentioned p \<Longrightarrow> (\<And>s. pe_port (f s) = pe_port s \<and> pe_patterns (f s) = pe_patterns s \<and> pe_flags (f s) = pe_flags s)
    \<Longrightarrow> unmentioned (set_spec f p)"
  by (simp add: unmentioned_def)

lemma in_peer_unmentioned: "unmentioned p \<Longrightarrow> unmentioned (paste_in_peer l p)"
  unfolding paste_in_peer_def by (auto simp: unmentioned_def split: option.splits)

lemma host_unmentioned: "unmentioned p \<Longrightarrow> unmentioned (paste_host l p)"
  by (auto simp: paste_host_def Let_def intro!: mark_unmentioned other_unmentioned)

lemma outside_unmentioned: "unmentioned p \<Longrightarrow> unmentioned (paste_outside l p)"
proof -
  assume u: "unmentioned p"
  have w: "unmentioned (warn v q) = unmentioned q" for v q by (simp add: unmentioned_def)
  have pat: "unmentioned (mark_dists (mark ''patterns'' (set_spec (apply_pattern_field v) p)))" for v
    using u dists_present[of "mark ''patterns'' (set_spec (apply_pattern_field v) p)"] by (auto simp: unmentioned_def pattern_keeps)
  have nf: "unmentioned (if pe_flags s \<noteq> [] then mark ''flags'' q else q)"
    if "apply_newsfeeds_line l (pa_spec p) = Some s" "pa_spec q = s" "insert ''patterns'' (set (pa_present p)) \<subseteq> set (pa_present q)" for s q
    using u that feed_keeps[OF that(1)] by (auto simp: unmentioned_def)
  have feed: "unmentioned (if pe_flags s \<noteq> [] then mark ''flags'' (mark_dists (mark ''patterns'' q)) else mark_dists (mark ''patterns'' q))"
    if "apply_newsfeeds_line l (pa_spec p) = Some s" "pa_spec q = s" "set (pa_present p) \<subseteq> set (pa_present q)" for s q
    using dists_present[of "mark ''patterns'' q"] that by (intro nf[OF that(1)]) auto
  show ?thesis
  proof (cases "re_pattern_line l")
    case (Some v)
    then show ?thesis using pat unfolding paste_outside_def by (simp add: w)
  next
    case p: None
    show ?thesis
    proof (cases "re_ipv4_line l")
      case (Some v)
      then show ?thesis using p u unfolding paste_outside_def by (auto simp: w intro!: mark_unmentioned other_unmentioned)
    next
      case v4: None
      show ?thesis
      proof (cases "re_ipv6_line l")
        case (Some v)
        then show ?thesis using p v4 u unfolding paste_outside_def by (simp add: w)
      next
        case None
        note n = p v4 None
        show ?thesis
        proof (cases "apply_newsfeeds_line l (pa_spec p)")
          case None
          then show ?thesis using n u host_unmentioned unfolding paste_outside_def by simp
        next
          case (Some s)
          let ?p1 = "if pe_name s \<noteq> [] \<and> pe_name s \<noteq> pe_name (pa_spec p) then mark ''name'' (p\<lparr>pa_spec := s\<rparr>) else p\<lparr>pa_spec := s\<rparr>"
          let ?p2 = "if pe_token s \<noteq> [] \<and> pe_token s \<noteq> pe_token (pa_spec p) then mark ''path_token'' ?p1 else ?p1"
          have "unmentioned (if pe_flags s \<noteq> [] then mark ''flags'' (mark_dists (mark ''patterns'' ?p2)) else mark_dists (mark ''patterns'' ?p2))"
            by (rule feed[OF Some]) auto
          then show ?thesis unfolding paste_outside_def n Some option.case Let_def w .
        qed
      qed
    qed
  qed
qed

lemma line_unmentioned: "unmentioned p \<Longrightarrow> unmentioned (paste_line l p)"
proof -
  assume u: "unmentioned p"
  then have "unmentioned (p\<lparr>pa_peer := n\<rparr>)" for n by (simp add: unmentioned_def)
  then show ?thesis using u in_peer_unmentioned outside_unmentioned unfolding paste_line_def Let_def
    by (auto split: option.splits intro!: mark_unmentioned other_unmentioned)
qed

lemma paste_unmentioned: "unmentioned p \<Longrightarrow> unmentioned (fold paste_line ls p)"
  by (induction ls arbitrary: p) (simp_all add: line_unmentioned)

lemma defaults_fields:
  "pe_port (spec_defaults s) = (if pe_port s \<le> 0 then 119 else pe_port s)"
  "pe_patterns (spec_defaults s) = (if pe_patterns s = [] then ''*'' else pe_patterns s)"
  "pe_flags (spec_defaults s) = (if pe_flags s = [] then ''Tm'' else pe_flags s)"
proof -
  define s1 where "s1 = s\<lparr>pe_name := trim_space (pe_name s), pe_token := trim_space (pe_token s),
    pe_in := trim_space (pe_in s), pe_out := trim_space (pe_out s)\<rparr>"
  define s2 where "s2 = (if pe_out s1 = [] then s1\<lparr>pe_out := pe_in s1\<rparr> else s1)"
  define s3 where "s3 = (if pe_in s2 = [] then s2\<lparr>pe_in := pe_out s2\<rparr> else s2)"
  define s4 where "s4 = (if pe_port s3 \<le> 0 then s3\<lparr>pe_port := 119\<rparr> else s3)"
  define s5 where "s5 = (if pe_name s4 = [] then s4\<lparr>pe_name := slug_name (pe_out s4)\<rparr> else s4)"
  define s6 where "s6 = (if pe_patterns s5 = [] then s5\<lparr>pe_patterns := ''*''\<rparr> else s5)"
  have d: "spec_defaults s = (if pe_flags s6 = [] then s6\<lparr>pe_flags := ''Tm''\<rparr> else s6)"
    unfolding spec_defaults_def Let_def s6_def s5_def s4_def s3_def s2_def s1_def by (rule refl)
  have "pe_port s3 = pe_port s" "pe_patterns s4 = pe_patterns s" "pe_flags s5 = pe_flags s"
    by (simp_all add: s1_def s2_def s3_def s4_def s5_def)
  then show "pe_port (spec_defaults s) = (if pe_port s \<le> 0 then 119 else pe_port s)"
    "pe_patterns (spec_defaults s) = (if pe_patterns s = [] then ''*'' else pe_patterns s)"
    "pe_flags (spec_defaults s) = (if pe_flags s = [] then ''Tm'' else pe_flags s)"
    unfolding d by (simp_all add: s4_def s5_def s6_def)
qed

lemma parse_unmentioned:
  assumes "parse_paste inp = (Some spec, ws, present)"
  shows "(''port'' \<notin> set present \<longrightarrow> pe_port spec = 119) \<and> (''patterns'' \<notin> set present \<longrightarrow> pe_patterns spec = ''*'')
    \<and> (''flags'' \<notin> set present \<longrightarrow> pe_flags spec = ''Tm'')"
proof -
  let ?p = "fold paste_line (fst (scan_lines wide_limit (unfold_continued inp))) empty_paste"
  have "unmentioned ?p" by (rule paste_unmentioned) (simp add: unmentioned_def empty_paste_def empty_spec_def)
  moreover have "present = pa_present ?p" "spec = spec_defaults ((pa_spec ?p)\<lparr>pe_warnings := pa_warns ?p\<rparr>)"
    using assms by (auto simp: parse_paste_def Let_def split: if_splits)
  ultimately show ?thesis by (simp add: unmentioned_def defaults_fields)
qed

lemma peer_of_inn_fields:
  "0 < pe_port s \<Longrightarrow> p_port (peer_of_inn s) = pe_port s"
  "trim_space (pe_patterns s) \<noteq> [] \<Longrightarrow> p_patterns (peer_of_inn s) = trim_space (pe_patterns s)"
  "trim_space (pe_flags s) \<noteq> [] \<Longrightarrow> p_flags (peer_of_inn s) = trim_space (pe_flags s)"
  by (auto simp: peer_of_inn_def Let_def normal_fields defaults_fields)

lemma imported_fields:
  "0 < pe_port spec \<Longrightarrow> p_port (imported_peer cur spec n) = pe_port spec"
  "trim_space (pe_patterns spec) = pe_patterns spec \<Longrightarrow> pe_patterns spec \<noteq> [] \<Longrightarrow> p_patterns (imported_peer cur spec n) = pe_patterns spec"
  "trim_space (pe_flags spec) = pe_flags spec \<Longrightarrow> pe_flags spec \<noteq> [] \<Longrightarrow> p_flags (imported_peer cur spec n) = pe_flags spec"
proof -
  define up where "up = (peer_of_inn (merge_spec (inn_of_peer cur) spec))\<lparr>p_id := p_id cur, p_enabled := p_enabled cur\<rparr>"
  define up1 where "up1 = (if trim_space (p_in_password up) = [] then up\<lparr>p_in_password := p_in_password cur\<rparr> else up)"
  define up2 where "up2 = (if trim_space (p_out_password up1) = [] then up1\<lparr>p_out_password := p_out_password cur\<rparr> else up1)"
  have d: "imported_peer cur spec n = (if p_notes cur \<noteq> [] \<and> n = [] then (normalize_peer up2)\<lparr>p_notes := p_notes cur\<rparr>
         else if n \<noteq> [] then (normalize_peer up2)\<lparr>p_notes := trim_space (p_notes cur @ ''; '' @ n)\<rparr> else normalize_peer up2)"
    unfolding imported_peer_def Let_def up2_def up1_def up_def by (rule refl)
  have f: "p_port up2 = p_port up" "p_patterns up2 = p_patterns up" "p_flags up2 = p_flags up" by (simp_all add: up2_def up1_def)
  have m: "0 < pe_port spec \<Longrightarrow> pe_port (merge_spec (inn_of_peer cur) spec) = pe_port spec"
    "pe_patterns spec \<noteq> [] \<Longrightarrow> pe_patterns (merge_spec (inn_of_peer cur) spec) = pe_patterns spec"
    "pe_flags spec \<noteq> [] \<Longrightarrow> pe_flags (merge_spec (inn_of_peer cur) spec) = pe_flags spec"
    by (simp_all add: merge_spec_def over_def)
  show "0 < pe_port spec \<Longrightarrow> p_port (imported_peer cur spec n) = pe_port spec"
    unfolding d using m(1) peer_of_inn_fields(1)[of "merge_spec (inn_of_peer cur) spec"] by (simp add: normal_fields f up_def)
  show "trim_space (pe_patterns spec) = pe_patterns spec \<Longrightarrow> pe_patterns spec \<noteq> [] \<Longrightarrow> p_patterns (imported_peer cur spec n) = pe_patterns spec"
    unfolding d using m(2) peer_of_inn_fields(2)[of "merge_spec (inn_of_peer cur) spec"] by (simp add: normal_fields f up_def)
  show "trim_space (pe_flags spec) = pe_flags spec \<Longrightarrow> pe_flags spec \<noteq> [] \<Longrightarrow> p_flags (imported_peer cur spec n) = pe_flags spec"
    unfolding d using m(3) peer_of_inn_fields(3)[of "merge_spec (inn_of_peer cur) spec"] by (simp add: normal_fields f up_def)
qed

lemma visible_defaults: "trim_space ''*'' = ''*''" "trim_space ''Tm'' = ''Tm''"
  by code_simp+

text \<open>An import wipes what it does not mention: a mixed paste applied to a peer that exists sets its port
  to 119, its patterns to an asterisk and its flags to Tm whenever the paste holds no such field, although
  the parser reports which fields the paste held.\<close>

theorem import_wipes_unmentioned:
  assumes "parse_paste (ii_text i) = (Some spec, ws, present)" "trim_space (ii_type i) = []" "ii_apply i" "0 < ii_peer i"
    and "peers_import now (Some i) m = (t, Peer_Saved q ws' sn)"
  shows "get_peer (ii_peer i) m \<noteq> None \<and> (''port'' \<notin> set present \<longrightarrow> p_port q = 119)
    \<and> (''patterns'' \<notin> set present \<longrightarrow> p_patterns q = ''*'') \<and> (''flags'' \<notin> set present \<longrightarrow> p_flags q = ''Tm'')"
proof -
  have "to_lower ''auto'' = ''auto''" by code_simp
  then have r: "read_import i = (Some spec, ws, present)" using assms(1,2) by (simp add: read_import_def)
  obtain cur n where c: "get_peer (ii_peer i) m = Some cur" "update_peer (imported_peer cur spec n) m = Inr (t, q)"
    using assms(3-5) by (auto simp: peers_import_def r import_saved_def Let_def split: option.splits sum.splits if_splits)
  then have q: "q = normalize_peer (imported_peer cur spec n)" by (auto simp: update_peer_def Let_def split: if_splits)
  note u = parse_unmentioned[OF assms(1)]
  have "''port'' \<notin> set present \<Longrightarrow> p_port q = 119" using u imported_fields(1)[of spec cur n] by (simp add: q normal_fields)
  moreover have "''patterns'' \<notin> set present \<Longrightarrow> p_patterns q = ''*''"
    using u imported_fields(2)[of spec cur n] by (simp add: q normal_fields visible_defaults)
  moreover have "''flags'' \<notin> set present \<Longrightarrow> p_flags q = ''Tm''"
    using u imported_fields(3)[of spec cur n] by (simp add: q normal_fields visible_defaults)
  ultimately show ?thesis using c(1) by blast
qed

definition demo_paste :: import_input where
  "demo_paste = \<lparr>ii_text = ''mx.far.example'' @ [LF], ii_type = [], ii_peer = 3, ii_apply = True\<rparr>"

lemma demo_paste_read:
  "parse_paste (ii_text demo_paste) = (Some \<lparr>pe_name = ''mx.far.example'', pe_token = [], pe_in = ''mx.far.example'',
     pe_out = ''mx.far.example'', pe_port = 119, pe_patterns = ''*'', pe_dists = [], pe_flags = ''Tm'', pe_password = [], pe_warnings = []\<rparr>,
     [], [''name'', ''incoming_host'', ''host''])"
proof -
  have "whole_line ''mx.far.example''" by (simp add: whole_line_def clean_line_def wide_limit_def)
  then have l: "fst (scan_lines wide_limit (unfold_continued (ii_text demo_paste))) = [''mx.far.example'']"
    using scan_unfolded[of "[''mx.far.example'']"] by (simp add: demo_paste_def)
  have "paste_line ''mx.far.example'' empty_paste = \<lparr>pa_spec = empty_spec\<lparr>pe_name := ''mx.far.example'', pe_in := ''mx.far.example'',
      pe_out := ''mx.far.example''\<rparr>, pa_peer = [], pa_present = [''name'', ''incoming_host'', ''host''], pa_warns = []\<rparr>"
    by code_simp
  moreover have "spec_defaults (empty_spec\<lparr>pe_name := ''mx.far.example'', pe_in := ''mx.far.example'', pe_out := ''mx.far.example'',
      pe_warnings := []\<rparr>) = \<lparr>pe_name = ''mx.far.example'', pe_token = [], pe_in = ''mx.far.example'',
     pe_out = ''mx.far.example'', pe_port = 119, pe_patterns = ''*'', pe_dists = [], pe_flags = ''Tm'', pe_password = [], pe_warnings = []\<rparr>"
    by code_simp
  ultimately show ?thesis unfolding parse_paste_def l by (simp add: empty_spec_def)
qed

theorem import_wipes_unmentioned_witness:
  "\<exists>t q ws sn. peers_import 0 (Some demo_paste) (new_memory\<lparr>m_peers := [(3, demo_far)]\<rparr>) = (t, Peer_Saved q ws sn)
     \<and> p_port demo_far = 433 \<and> p_port q = 119 \<and> p_patterns q = ''*'' \<and> p_flags q = ''Tm''"
proof -
  let ?m = "new_memory\<lparr>m_peers := [(3, demo_far)]\<rparr>"
  let ?s = "\<lparr>pe_name = ''mx.far.example'', pe_token = [], pe_in = ''mx.far.example'',
     pe_out = ''mx.far.example'', pe_port = 119, pe_patterns = ''*'', pe_dists = [], pe_flags = ''Tm'', pe_password = [], pe_warnings = []\<rparr>"
  have "to_lower ''auto'' = ''auto''" by code_simp
  then have r: "read_import demo_paste = (Some ?s, [], [''name'', ''incoming_host'', ''host''])"
    using demo_paste_read by (simp add: read_import_def) (simp add: demo_paste_def)
  have i: "ii_apply demo_paste" "0 < ii_peer demo_paste" "trim_space (ii_type demo_paste) = []" "ii_peer demo_paste = 3"
    by (simp_all add: demo_paste_def)
  have g: "get_peer 3 ?m = Some demo_far" by (simp add: get_peer_def)
  obtain t q where u: "update_peer (imported_peer demo_far ?s (p_notes (normalize_peer ((peer_of_inn ?s)\<lparr>p_notes := join ''; '' []\<rparr>)))) ?m = Inr (t, q)"
  proof -
    have "p_id (imported_peer demo_far ?s n) = 3 \<and> p_host (normalize_peer (imported_peer demo_far ?s n)) \<noteq> []"
      if "n = p_notes (normalize_peer ((peer_of_inn ?s)\<lparr>p_notes := join ''; '' []\<rparr>))" for n
      unfolding that by code_simp
    then show ?thesis using that by (simp add: update_peer_def Let_def)
  qed
  have p: "peers_import 0 (Some demo_paste) ?m = (t, Peer_Saved q [] (snippets (inn_of_peer q)))"
    unfolding peers_import_def r import_saved_def option.case prod.case Let_def i(4) g u using i by simp
  have "p_port demo_far = 433" by (simp add: demo_far_def)
  then show ?thesis using import_wipes_unmentioned[OF demo_paste_read i(3,1,2) p] p by auto
qed

end
