(* ===== verification/Isc.thy ===== *)
theory Isc
  imports GoScan Article StoreArticles
begin

text \<open>
  The list of groups of the ISC, \<open>internal/isc/isc.go\<close>: the lines of the files active and newsgroups, the
  download, and what is handed to the store. What the web answers and what gunzip makes of a file are the
  arguments \<open>http\<close> and \<open>gunzip\<close>; the limit of a scanner is one MiB.
\<close>

section \<open>The two files\<close>

definition known_status :: "string \<Rightarrow> bool" where
  "known_status st \<longleftrightarrow> st \<in> {''y'', ''n'', ''m'', ''j'', ''x''}"

definition active_entry :: "string \<Rightarrow> (string \<times> string) option" where
  "active_entry raw =
     (let line = trim_space raw; f = str_fields line
      in if line = [] \<or> has_prefix line ''#'' then None
         else if length f < 4 then None
         else if f ! 3 = [] \<or> hd (f ! 3) = CHR ''='' then None
         else let st = take 1 (f ! 3) in if known_status st then Some (f ! 0, st) else None)"

definition put_entry :: "(string \<times> string) option \<Rightarrow> (string \<times> string) list \<Rightarrow> (string \<times> string) list" where
  "put_entry x m = (case x of None \<Rightarrow> m | Some (k, v) \<Rightarrow> AList.update k v m)"

text \<open>The entries, and whether a line was too long for the scanner.\<close>

definition parse_active :: "string \<Rightarrow> (string \<times> string) list \<times> bool" where
  "parse_active inp = (case scan_lines wide_limit inp of (ls, bad) \<Rightarrow> (fold (\<lambda>l. put_entry (active_entry l)) ls [], bad))"

definition newsgroups_entry :: "string \<Rightarrow> (string \<times> string) option" where
  "newsgroups_entry line =
     (if line = [] \<or> has_prefix line ''#'' then None
      else
        case cut line [TAB] of (a, b, ok) \<Rightarrow>
          let f = str_fields line
          in if \<not> ok \<and> length f < 2 then None
             else
               let name = trim_space (if ok then a else hd f);
                   desc = (if ok then trim_space b else join '' '' (tl f))
               in if name = [] then None else Some (name, sanitize_utf8 desc))"

definition parse_newsgroups :: "string \<Rightarrow> (string \<times> string) list \<times> bool" where
  "parse_newsgroups inp = (case scan_lines wide_limit inp of (ls, bad) \<Rightarrow> (fold (\<lambda>l. put_entry (newsgroups_entry l)) ls [], bad))"

section \<open>The download\<close>

definition default_isc_url :: string where
  "default_isc_url = ''https://ftp.isc.org/usenet/CONFIG''"

text \<open>A status other than 200 is an error, and no more than 16 MiB are read.\<close>

definition get_url :: "(string \<Rightarrow> (int \<times> string) option) \<Rightarrow> string \<Rightarrow> string option" where
  "get_url http url =
     (case http url of None \<Rightarrow> None | Some (code, bdy) \<Rightarrow> if code \<noteq> 200 then None else Some (take 16777216 bdy))"

definition gunzip_if_needed :: "(string \<Rightarrow> string option) \<Rightarrow> string \<Rightarrow> string option" where
  "gunzip_if_needed gunzip b = (if has_prefix b [CHR 0x1F, CHR 0x8B] then gunzip b else Some b)"

definition get_file :: "(string \<Rightarrow> (int \<times> string) option) \<Rightarrow> (string \<Rightarrow> string option) \<Rightarrow> string \<Rightarrow> string \<Rightarrow> string option" where
  "get_file http gunzip url name =
     (case get_url http (url @ ''/'' @ name @ ''.gz'') of
        Some b \<Rightarrow> gunzip_if_needed gunzip b
      | None \<Rightarrow> Option.bind (get_url http (url @ ''/'' @ name)) (gunzip_if_needed gunzip))"

definition isc_group :: "(string \<times> string) list \<Rightarrow> string \<Rightarrow> string \<Rightarrow> group_info" where
  "isc_group descs name status =
     \<lparr>g_name = name, g_desc = (case map_of descs name of None \<Rightarrow> [] | Some d \<Rightarrow> d), g_status = status, g_low = 0,
      g_high = 0, g_count = 0, g_created = zero_time, g_ret_days = None, g_ret_mode = [], g_origin = []\<rparr>"

text \<open>\<open>None\<close> is an error. The groups come in the order the file names them, where the source has the order of
  a map.\<close>

definition fetch_groups :: "(string \<Rightarrow> (int \<times> string) option) \<Rightarrow> (string \<Rightarrow> string option) \<Rightarrow> string \<Rightarrow> group_info list option" where
  "fetch_groups http gunzip url0 =
     (let u = trim_right (trim_space url0) ''/''; url = (if u = [] then default_isc_url else u)
      in Option.bind (get_file http gunzip url ''active'') (\<lambda>active.
           case parse_active active of (statuses, bad) \<Rightarrow>
             if bad then None
             else Option.bind (get_file http gunzip url ''newsgroups'') (\<lambda>newsgroups.
               case parse_newsgroups newsgroups of (descs, bad2) \<Rightarrow>
                 if bad2 then None
                 else Some (map (\<lambda>(n, st). isc_group descs n st) (filter (\<lambda>(n, st). valid_group_name n) statuses)))))"

text \<open>The portal's handler: what was fetched is added to the store.\<close>

definition load_isc :: "(string \<Rightarrow> (int \<times> string) option) \<Rightarrow> (string \<Rightarrow> string option) \<Rightarrow> string \<Rightarrow> int \<Rightarrow> memory \<Rightarrow> memory \<times> nat option" where
  "load_isc http gunzip url now s =
     (case fetch_groups http gunzip url of
        None \<Rightarrow> (s, None)
      | Some gs \<Rightarrow> (ensure_groups now gs s, Some (length gs)))"

end
