(* ===== verification/IscLaws.thy ===== *)
theory IscLaws
  imports Isc InnLaws Session StoreInv
begin

text \<open>
  One server's list of groups seeds another: what LIST ACTIVE sends is read back as the same groups.
\<close>

lemma valid_name_word: "valid_group_name g \<Longrightarrow> is_word g \<and> hd g \<noteq> CHR ''#''"
proof -
  assume v: "valid_group_name g"
  then have c: "list_all group_char g" "g \<noteq> []" by (simp_all add: valid_group_name_def group_runes_chars)
  have "ascii c \<and> \<not> ascii_space c \<and> c \<noteq> CHR ''#''" if "group_char c" for c
    using that by (auto simp: group_char_def is_upper_def is_lower_def is_digit_def ascii_def ascii_space_def)
  then show ?thesis using c by (cases g) (auto simp: is_word_def list_all_iff)
qed

lemma status_word: "known_status st \<Longrightarrow> is_word st \<and> take 1 st = st \<and> st \<noteq> [] \<and> hd st \<noteq> CHR ''=''"
  by (auto simp: known_status_def is_word_def ascii_def ascii_space_def)

definition listable :: "group_info \<Rightarrow> bool" where
  "listable g \<longleftrightarrow> valid_group_name (g_name g) \<and> known_status (g_status g)
     \<and> 0 \<le> g_high g \<and> g_high g < 2 ^ 63 \<and> 0 \<le> g_low g \<and> g_low g < 2 ^ 63"

lemma active_line_words: "active_line g = join [SP] [g_name g, format_int (g_high g), format_int (g_low g), g_status g]"
  by (simp add: active_line_def)

lemma active_entry_line: "listable g \<Longrightarrow> active_entry (active_line g) = Some (g_name g, g_status g)"
proof -
  assume l: "listable g"
  let ?ws = "[g_name g, format_int (g_high g), format_int (g_low g), g_status g]"
  have w: "\<forall>w \<in> set ?ws. is_word w" using l valid_name_word status_word by (auto simp: listable_def)
  have t: "trim_space (active_line g) = active_line g" "str_fields (active_line g) = ?ws"
    unfolding active_line_words by (rule trim_join_words[OF w], rule fields_join_words[OF w])
  have n: "g_name g \<noteq> []" "hd (g_name g) \<noteq> CHR ''#''" using l valid_name_word by (auto simp: listable_def is_word_def)
  then have "active_line g \<noteq> []" "\<not> has_prefix (active_line g) ''#''" by (cases "g_name g"; simp add: active_line_def)+
  then show ?thesis using l status_word[of "g_status g"] unfolding active_entry_def Let_def t by (simp add: listable_def)
qed

lemma digits_bound: "0 \<le> n \<Longrightarrow> n < 2 ^ 63 \<Longrightarrow> length (format_int n) < 1000"
proof -
  assume "0 \<le> n" "n < 2 ^ 63"
  then have "nat n < 10 ^ Suc 18" by (simp add: nat_less_iff)
  then show ?thesis using digits_of_length[of "nat n" 18] \<open>0 \<le> n\<close> by (simp add: format_int_def)
qed

lemma active_line_clean: "listable g \<Longrightarrow> clean_line 900000 (active_line g)"
proof -
  assume l: "listable g"
  let ?ws = "[g_name g, format_int (g_high g), format_int (g_low g), g_status g]"
  have w: "\<forall>w \<in> set ?ws. is_word w" using l valid_name_word status_word by (auto simp: listable_def)
  have "length (g_name g) \<le> 255" "length (g_status g) = 1" using l by (auto simp: listable_def valid_group_name_def known_status_def)
  then have "length (active_line g) < 900000"
    using l digits_bound[of "g_high g"] digits_bound[of "g_low g"] by (simp add: active_line_def listable_def)
  moreover have "last (active_line g) \<noteq> CR" using join_words_edges[OF _ w] word_last_not_CR[of "g_status g"] w by (simp add: active_line_words)
  ultimately show ?thesis using join_words_no_LF[OF w] by (simp add: clean_line_def active_line_words)
qed

text \<open>A line of a protocol block, read by a scanner.\<close>

lemma scan_crlf_lines: "\<forall>l \<in> set ls. clean_line 900000 l \<Longrightarrow> GoScan.scan_lines wide_limit (crlf_lines ls) = (ls, False)"
proof (induction ls)
  case (Cons l ls)
  then have "GoScan.scan_lines wide_limit ((l @ [CR]) @ LF # crlf_lines ls) = (l # ls, False)"
    by (subst scan_lines_append) (auto simp: clean_line_def GoScan.drop_cr_def wide_limit_def)
  then show ?case by (simp add: crlf_lines_def)
qed (simp add: crlf_lines_def wide_limit_def)

lemma put_entries:
  "\<forall>g \<in> set gs. e (f g) = Some (k g, v g) \<Longrightarrow> distinct (map k gs) \<Longrightarrow> set (map k gs) \<inter> fst ` set m = {} \<Longrightarrow>
   fold (\<lambda>l. put_entry (e l)) (map f gs) m = m @ map (\<lambda>g. (k g, v g)) gs"
proof (induction gs arbitrary: m)
  case (Cons g gs)
  have "AList.update (k g) (v g) m = m @ [(k g, v g)]" using Cons.prems(3) by (intro update_new) auto
  then show ?case using Cons.prems Cons.IH[of "m @ [(k g, v g)]"] by (auto simp: put_entry_def)
qed simp

lemma active_read:
  assumes "\<forall>g \<in> set gs. listable g" "distinct (map g_name gs)"
  shows "parse_active (crlf_lines (map active_line gs)) = (map (\<lambda>g. (g_name g, g_status g)) gs, False)"
  using scan_crlf_lines[of "map active_line gs"] put_entries[of gs active_entry active_line g_name g_status "[]"]
    assms active_entry_line active_line_clean by (simp add: parse_active_def)

section \<open>Groups of the store\<close>

lemma listed_groups:
  assumes "store_inv s"
  shows "distinct (map g_name (list_groups [] s))"
    and "map_of (map (\<lambda>g. (g_name g, g_status g)) (list_groups [] s)) n = map_option g_status (grp s n)"
proof -
  note inv = store_invD[OF assms]
  have names: "g_name mg = g" if "(g, mg) \<in> set (m_groups s)" for g mg
    using inv(5,6) that by (auto simp: names_good_def keys_good_def grp_def)
  then have m: "map g_name (group_values s) = map fst (m_groups s)"
    by (auto simp: group_values_def group_info.truncate_def)
  then have d: "distinct (map g_name (group_values s))" using inv(6) by (simp add: keys_good_def)
  then show e: "distinct (map g_name (list_groups [] s))"
    by (simp add: list_groups_def distinct_map)
  have "map (\<lambda>g. (g_name g, g_status g)) (group_values s) = map (\<lambda>(g, mg). (g, g_status mg)) (m_groups s)"
    using names by (auto simp: group_values_def group_info.truncate_def)
  then have "map_of (map (\<lambda>g. (g_name g, g_status g)) (group_values s)) n = map_option g_status (grp s n)"
    by (simp add: grp_def map_of_map)
  moreover have "map_of (map (\<lambda>g. (g_name g, g_status g)) (list_groups [] s)) = map_of (map (\<lambda>g. (g_name g, g_status g)) (group_values s))"
    using d e by (intro map_of_inject_set[THEN iffD2]) (simp_all add: comp_def list_groups_def)
  ultimately show "map_of (map (\<lambda>g. (g_name g, g_status g)) (list_groups [] s)) n = map_option g_status (grp s n)" by simp
qed

lemma isc_adds:
  "grp s (g_name gi) = None \<Longrightarrow> map_option g_status (grp (ensure_group_isc now gi s) n)
    = (if n = g_name gi then Some (default_status (g_status gi)) else map_option g_status (grp s n))"
  by (simp add: ensure_group_isc_def Let_def add_group_def put_group_def fresh_group_def grp_def map_of_update)

lemma isc_adds_all:
  "distinct (map g_name gis) \<Longrightarrow> \<forall>gi \<in> set gis. grp s (g_name gi) = None \<Longrightarrow>
   map_option g_status (grp (fold (ensure_group_isc now) gis s) n)
   = (case map_of (map (\<lambda>g. (g_name g, default_status (g_status g))) gis) n of None \<Rightarrow> map_option g_status (grp s n) | Some st \<Rightarrow> Some st)"
proof (induction gis arbitrary: s)
  case (Cons gi gis)
  have a: "map_option g_status (grp (ensure_group_isc now gi s) m)
      = (if m = g_name gi then Some (default_status (g_status gi)) else map_option g_status (grp s m))" for m
    using Cons.prems(2) by (intro isc_adds) simp
  have "grp (ensure_group_isc now gi s) (g_name h) = None" if "h \<in> set gis" for h
    
  proof -
    have "g_name h \<noteq> g_name gi" using that Cons.prems(1) by (metis distinct.simps(2) image_eqI list.set_map list.simps(9))
    then show ?thesis using a[of "g_name h"] that Cons.prems(2) by simp
  qed
  then have i: "map_option g_status (grp (fold (ensure_group_isc now) gis (ensure_group_isc now gi s)) n)
      = (case map_of (map (\<lambda>g. (g_name g, default_status (g_status g))) gis) n of
           None \<Rightarrow> map_option g_status (grp (ensure_group_isc now gi s) n) | Some st \<Rightarrow> Some st)"
    using Cons.prems by (intro Cons.IH) simp_all
  have "map_of (map (\<lambda>g. (g_name g, default_status (g_status g))) gis) (g_name gi) = None"
    using Cons.prems(1) by (auto simp: map_of_eq_None_iff)
  then show ?case using i a[of n] by (cases "n = g_name gi") (simp_all split: option.split)
qed simp

lemma known_status_default: "known_status st \<Longrightarrow> default_status st = st"
  by (auto simp: known_status_def default_status_def)

text \<open>The groups of a file that holds the lines of LIST ACTIVE.\<close>

lemma fetched_groups:
  assumes gs: "\<forall>g \<in> set gs. listable g" "distinct (map g_name gs)"
    and a: "http (url @ ''/active.gz'') = Some (200, crlf_lines (map active_line gs))"
      "length (crlf_lines (map active_line gs)) \<le> 16777216"
    and n: "get_file http gunzip url ''newsgroups'' = Some nb" "\<not> snd (parse_newsgroups nb)"
    and u: "trim_right (trim_space url) ''/'' = url" "url \<noteq> []"
  shows "fetch_groups http gunzip url
    = Some (map (\<lambda>g. isc_group (fst (parse_newsgroups nb)) (g_name g) (g_status g)) gs)"
proof -
  have "\<not> has_prefix (crlf_lines (map active_line gs)) [CHR 0x1F, CHR 0x8B]"
  proof (cases gs)
    case (Cons g gs')
    have v: "valid_group_name (g_name g)" using gs(1) Cons by (simp add: listable_def)
    have "list_all group_char (g_name g)" "g_name g \<noteq> []" using v by (simp_all add: valid_group_name_def group_runes_chars)
    then have "hd (g_name g) \<noteq> CHR 0x1F" "g_name g \<noteq> []"
      by (cases "g_name g"; auto simp: group_char_def is_upper_def is_lower_def is_digit_def)+
    then show ?thesis by (cases "g_name g") (auto simp: Cons crlf_lines_def active_line_def has_prefix_def)
  qed (simp add: crlf_lines_def has_prefix_def)
  then have f: "get_file http gunzip url ''active'' = Some (crlf_lines (map active_line gs))"
    using a by (simp add: get_file_def get_url_def gunzip_if_needed_def)
  obtain ds where d: "parse_newsgroups nb = (ds, False)" using n(2) by (cases "parse_newsgroups nb") auto
  have v: "filter (\<lambda>(n, st). valid_group_name n) (map (\<lambda>g. (g_name g, g_status g)) gs) = map (\<lambda>g. (g_name g, g_status g)) gs"
    using gs(1) by (auto simp: filter_id_conv listable_def)
  show ?thesis using active_read[OF gs]
    by (simp add: fetch_groups_def Let_def u f n(1) d v comp_def del: filter_map)
qed

text \<open>C30: A server whose list of groups is what another server's LIST ACTIVE sends (a file active.gz that is not
  compressed) ends up with the same groups in the same states: loading it into an empty store adds every group of
  the other store with its status and nothing else, and the number the portal reports is the number of groups.\<close>

theorem list_active_loads:
  assumes "store_inv s" "\<forall>g \<in> set (list_groups [] s). listable g"
    and "http (url @ ''/active.gz'') = Some (200, crlf_lines (map active_line (list_groups [] s)))"
    and "length (crlf_lines (map active_line (list_groups [] s))) \<le> 16777216"
    and "get_file http gunzip url ''newsgroups'' = Some nb" "\<not> snd (parse_newsgroups nb)"
    and "trim_right (trim_space url) ''/'' = url" "url \<noteq> []"
  shows "map_option g_status (grp (fst (load_isc http gunzip url now new_memory)) n) = map_option g_status (grp s n)
    \<and> snd (load_isc http gunzip url now new_memory) = Some (length (list_groups [] s))"
proof -
  let ?gs = "map (\<lambda>g. isc_group (fst (parse_newsgroups nb)) (g_name g) (g_status g)) (list_groups [] s)"
  note l = listed_groups[OF assms(1)]
  have f: "fetch_groups http gunzip url = Some ?gs" by (rule fetched_groups[OF assms(2) l(1) assms(3-8)])
  have m: "map (\<lambda>g. (g_name g, default_status (g_status g))) ?gs = map (\<lambda>g. (g_name g, g_status g)) (list_groups [] s)"
    using assms(2) by (auto simp: isc_group_def listable_def known_status_default)
  have k: "map g_name ?gs = map g_name (list_groups [] s)" by (simp add: isc_group_def)
  have e: "grp new_memory k = None" for k by (simp add: grp_def new_memory_def)
  have "map_option g_status (grp (fold (ensure_group_isc now) ?gs new_memory) n) = map_option g_status (grp s n)"
    using isc_adds_all[of ?gs new_memory now n] l unfolding m k by (simp add: e split: option.splits)
  then show ?thesis using f by (simp add: load_isc_def ensure_groups_def)
qed

lemma demo_list: "list_groups [] (ensure_group 5 ''misc.test'' [] ''m'' new_memory)
    = [\<lparr>g_name = ''misc.test'', g_desc = [], g_status = ''m'', g_low = 0, g_high = 0, g_count = 0, g_created = 5,
        g_ret_days = None, g_ret_mode = [], g_origin = ''local''\<rparr>]"
  by code_simp

theorem list_active_loads_witness:
  "map_option g_status (grp (fst (load_isc (\<lambda>u. if u = ''http://a/active.gz'' then Some (200, ''misc.test 0 0 m'' @ CRLF) else Some (200, [])) Some
      ''http://a'' 7 new_memory)) ''misc.test'') = Some ''m''"
proof -
  let ?s = "ensure_group 5 ''misc.test'' [] ''m'' new_memory"
  let ?h = "\<lambda>u. if u = ''http://a/active.gz'' then Some (200, ''misc.test 0 0 m'' @ CRLF) else Some (200, [])"
  have b: "crlf_lines (map active_line (list_groups [] ?s)) = ''misc.test 0 0 m'' @ CRLF" unfolding demo_list by code_simp
  have i: "store_inv ?s" by (intro ensure_group_inv new_memory_inv)
  have v: "\<forall>g \<in> set (list_groups [] ?s). listable g" unfolding demo_list listable_def
    by (simp add: known_status_def) code_simp
  have u: "trim_right (trim_space ''http://a'') ''/'' = ''http://a''" by code_simp
  have n: "get_file ?h Some ''http://a'' ''newsgroups'' = Some []"
    by (simp add: get_file_def get_url_def gunzip_if_needed_def has_prefix_def)
  have p: "\<not> snd (parse_newsgroups [])" using scan_crlf_lines[of "[]"] by (simp add: parse_newsgroups_def crlf_lines_def)
  have g: "map_option g_status (grp ?s ''misc.test'') = Some ''m''" by code_simp
  show ?thesis
    using list_active_loads[of ?s ?h "''http://a''" Some "[]" 7 "''misc.test''", OF i v _ _ n p u] unfolding b g
    by simp
qed

end
