(* ===== verification/Display.thy ===== *)
theory Display
  imports Article Auth
begin

text \<open>
  What the web reader shows of an article: \<open>internal/article/rfc2047.go\<close>, \<open>charset.go\<close> and \<open>display.go\<close>. The parsers of
  Go's \<open>mime\<close> packages and the tables of character sets are arguments: \<open>dm_words\<close> decodes the encoded words of a
  header with a reader of character sets, \<open>dm_media\<close> parses a media type, \<open>dm_quoted\<close> decodes quoted-printable,
  \<open>dm_parts\<close> lists the parts of a multipart body (a part that cannot be read has no text), and \<open>dm_mime\<close>, \<open>dm_iana\<close>,
  \<open>dm_html\<close> look a character set up and give its decoder. Everywhere \<open>None\<close> is an error.
\<close>

section \<open>Character sets\<close>

record part =
  pt_type :: string
  pt_encoding :: string
  pt_text :: "string option"

type_synonym decoder = "string \<Rightarrow> string option"

datatype charset = Nop | Decoded_By decoder

record mime_env =
  dm_words :: "(string \<Rightarrow> charset option) \<Rightarrow> string \<Rightarrow> string option"
  dm_media :: "string \<Rightarrow> (string \<times> (string \<times> string) list) option"
  dm_quoted :: decoder
  dm_parts :: "string \<Rightarrow> string \<Rightarrow> part list"
  dm_mime :: "string \<Rightarrow> decoder option"
  dm_iana :: "string \<Rightarrow> decoder option"
  dm_html :: "string \<Rightarrow> decoder option"

definition first_of :: "('a \<Rightarrow> 'b option) list \<Rightarrow> 'a \<Rightarrow> 'b option" where
  "first_of fs x = (case find (\<lambda>f. f x \<noteq> None) fs of None \<Rightarrow> None | Some f \<Rightarrow> f x)"

definition encoding_for :: "mime_env \<Rightarrow> string \<Rightarrow> charset option" where
  "encoding_for e name0 =
     (let name = trim_cutset (trim_space name0) [CHR 0x22, CHR 0x27]; lower = to_lower name
      in if name = [] \<or> lower \<in> {''utf-8'', ''utf8'', ''us-ascii'', ''ascii''} then Some Nop
         else
           let tries = [name, lower] @ (if has_prefix lower ''x-'' then [drop 2 lower] else [])
           in map_option Decoded_By
                (case find (\<lambda>t. first_of [dm_mime e, dm_iana e, dm_html e] t \<noteq> None) tries of
                   None \<Rightarrow> None | Some t \<Rightarrow> first_of [dm_mime e, dm_iana e, dm_html e] t))"

definition decode_charset :: "mime_env \<Rightarrow> string \<Rightarrow> string \<Rightarrow> string" where
  "decode_charset e s charset =
     (case encoding_for e charset of
        Some (Decoded_By d) \<Rightarrow> (case d s of None \<Rightarrow> sanitize_utf8 s | Some t \<Rightarrow> sanitize_utf8 t)
      | _ \<Rightarrow> sanitize_utf8 s)"

section \<open>Headers\<close>

definition decode_words :: "mime_env \<Rightarrow> string \<Rightarrow> string" where
  "decode_words e s =
     (if \<not> contains s ''=?'' then s
      else case dm_words e (encoding_for e) s of None \<Rightarrow> s | Some t \<Rightarrow> t)"

text \<open>The logical lines of a header block; \<open>cur\<close> is the line being collected.\<close>

fun unfold_lines :: "string list \<Rightarrow> string \<Rightarrow> string list" where
  "unfold_lines [] cur = (if cur = [] then [] else [cur])"
| "unfold_lines (l # ls) cur =
     (if l = [] then unfold_lines ls cur
      else if (hd l = SP \<or> hd l = TAB) \<and> cur \<noteq> [] then unfold_lines ls (cur @ SP # trim_space l)
      else (if cur = [] then [] else [cur]) @ unfold_lines ls l)"

definition decode_field :: "mime_env \<Rightarrow> string \<Rightarrow> string" where
  "decode_field e line = (case cut line '':'' of (n, v, ok) \<Rightarrow> if ok then n @ '':'' @ decode_words e v else line)"

definition decode_header_block :: "mime_env \<Rightarrow> string \<Rightarrow> string" where
  "decode_header_block e head =
     (if \<not> contains head ''=?'' then head
      else join [LF] (map (decode_field e)
             (unfold_lines (split_on LF (replace_all (replace_all head CRLF [LF]) [CR] [LF])) [])))"

section \<open>Transfer encodings\<close>

text \<open>\<open>base64.StdEncoding\<close> and \<open>RawStdEncoding\<close>, through the alphabet of the cookies.\<close>

definition url_char :: "char \<Rightarrow> char" where
  "url_char c =
     (if c = CHR ''+'' then CHR ''-'' else if c = CHR ''/'' then CHR ''_''
      else if c = CHR ''-'' \<or> c = CHR ''_'' then CHR ''?'' else c)"

definition std64_raw :: decoder where
  "std64_raw s = b64_decode (map url_char s)"

definition std64_padded :: decoder where
  "std64_padded s =
     (let t = filter (\<lambda>c. c \<noteq> CR \<and> c \<noteq> LF) s; core = trim_right t ''=''
      in if length t - length core = (4 - length core mod 4) mod 4 then std64_raw core else None)"

function drop_spaces :: "string \<Rightarrow> string" where
  "drop_spaces [] = []"
| "drop_spaces (c # s) =
     (if space_len (c # s) = 0 then c # drop_spaces s else drop_spaces (drop (space_len (c # s) - 1) s))"
  by pat_completeness auto
termination by (relation "measure length") auto

definition decode_transfer :: "mime_env \<Rightarrow> string \<Rightarrow> string \<Rightarrow> string option" where
  "decode_transfer e bdy cte =
     (let k = to_lower (trim_space cte)
      in if k = ''quoted-printable'' then dm_quoted e bdy
         else if k = ''base64'' then
           (case std64_padded (drop_spaces bdy) of None \<Rightarrow> std64_raw (drop_spaces bdy) | Some b \<Rightarrow> Some b)
         else Some bdy)"

definition transferred :: "mime_env \<Rightarrow> string \<Rightarrow> string \<Rightarrow> string" where
  "transferred e bdy cte = (case decode_transfer e bdy cte of None \<Rightarrow> bdy | Some b \<Rightarrow> b)"

section \<open>Bodies\<close>

definition parse_content_type :: "mime_env \<Rightarrow> string \<Rightarrow> string \<times> (string \<times> string) list" where
  "parse_content_type e ct0 =
     (let ct = trim_space ct0
      in if ct = [] then (''text/plain'', [])
         else case dm_media e ct of
           None \<Rightarrow> (to_lower (trim_space (hd (split_on CHR '';'' ct))), [])
         | Some (media, params) \<Rightarrow> (to_lower media, params))"

definition param_of :: "(string \<times> string) list \<Rightarrow> string \<Rightarrow> string" where
  "param_of params k = (case map_of params k of None \<Rightarrow> [] | Some v \<Rightarrow> v)"

text \<open>The loop over the parts, with the first text that is not plain in \<open>html\<close>. The inner option is the second result
  of \<open>decodeMultipartPart\<close>; a nested multipart body is a call of its own, and with an empty boundary that call
  finds nothing.\<close>

partial_function (option) decode_parts :: "mime_env \<Rightarrow> part list \<Rightarrow> string \<Rightarrow> string option option" where
  "decode_parts e ps html =
     (case ps of
        [] \<Rightarrow> Some (if html \<noteq> [] then Some html else None)
      | p # rest \<Rightarrow>
          (case pt_text p of
             None \<Rightarrow> decode_parts e rest html
           | Some slurp \<Rightarrow>
               let decoded = transferred e slurp (pt_encoding p);
                   media = fst (parse_content_type e (pt_type p)); params = snd (parse_content_type e (pt_type p)) in
               if has_prefix media ''multipart/'' then
                 if param_of params ''boundary'' = [] then decode_parts e rest html
                 else Option.bind (decode_parts e (dm_parts e decoded (param_of params ''boundary'')) [])
                   (\<lambda>inner. if inner \<noteq> None then Some inner else decode_parts e rest html)
               else
                 let text = decode_charset e decoded (param_of params ''charset'') in
                 if media = ''text/plain'' \<or> media = [] then Some (Some text)
                 else decode_parts e rest (if html = [] \<and> has_prefix media ''text/'' then text else html)))"

definition decode_multipart :: "mime_env \<Rightarrow> string \<Rightarrow> string \<Rightarrow> string option option" where
  "decode_multipart e bdy boundary = (if boundary = [] then Some None else decode_parts e (dm_parts e bdy boundary) [])"

definition shown_text :: "mime_env \<Rightarrow> string \<Rightarrow> (string \<times> string) list \<Rightarrow> string \<Rightarrow> string" where
  "shown_text e media params raw =
     (if has_prefix media ''text/'' \<or> media = [] \<or> media = ''application/octet-stream''
      then decode_charset e raw (param_of params ''charset'') else sanitize_utf8 raw)"

definition decode_display_body :: "mime_env \<Rightarrow> string \<Rightarrow> string \<Rightarrow> string \<Rightarrow> string option" where
  "decode_display_body e content_type cte bdy =
     (case parse_content_type e content_type of
        (media, params) \<Rightarrow>
          let raw = transferred e bdy cte in
          if has_prefix media ''multipart/'' then
            Option.bind (decode_multipart e raw (param_of params ''boundary''))
              (\<lambda>found. Some (case found of Some t \<Rightarrow> t | None \<Rightarrow> shown_text e media params raw))
          else Some (shown_text e media params raw))"

definition body_for_display :: "mime_env \<Rightarrow> string \<Rightarrow> string \<Rightarrow> string option" where
  "body_for_display e head bdy =
     (case parse_article (trim_right head CRLF @ CRLF @ CRLF @ bdy) of
        Inl err \<Rightarrow> Some (sanitize_utf8 bdy)
      | Inr a \<Rightarrow> decode_display_body e (get_header a ''Content-Type'') (get_header a ''Content-Transfer-Encoding'') (body a))"

end
