(* ===== verification/DisplayLaws.thy ===== *)
theory DisplayLaws
  imports Display
begin

text \<open>
  What the web reader shows: a body in base64 with any line breaks is shown decoded, and the search through nested
  multipart bodies ends.
\<close>

section \<open>Base64\<close>

text \<open>The text \<open>base64.StdEncoding\<close> writes.\<close>

definition std_char :: "char \<Rightarrow> char" where
  "std_char c = (if c = CHR ''-'' then CHR ''+'' else if c = CHR ''_'' then CHR ''/'' else c)"

definition std64_encode :: "string \<Rightarrow> string" where
  "std64_encode s =
     (let t = map std_char (b64_encode s) in t @ replicate ((4 - length t mod 4) mod 4) CHR ''='')"

lemma std_chars: "list_all (\<lambda>n. url_char (std_char (b64_char n)) = b64_char n \<and> std_char (b64_char n) \<noteq> CHR ''=''
    \<and> ascii (std_char (b64_char n)) \<and> \<not> ascii_space (std_char (b64_char n))) [0..<64]"
  by code_simp

lemma std_char_facts:
  assumes "c \<in> set (b64_encode s)"
  shows "url_char (std_char c) = c" "std_char c \<noteq> CHR ''=''" "ascii (std_char c)" "\<not> ascii_space (std_char c)"
  using b64_encode_char[OF assms] std_chars unfolding list_all_iff by auto

lemma std64_decode: "std64_padded (std64_encode s) = Some s"
proof -
  let ?t = "map std_char (b64_encode s)" and ?k = "(4 - length (b64_encode s) mod 4) mod 4"
  have f: "filter (\<lambda>c. c \<noteq> CR \<and> c \<noteq> LF) (std64_encode s) = std64_encode s"
  proof -
    have "c \<noteq> CR \<and> c \<noteq> LF" if "c \<in> set (std64_encode s)" for c
      using that std_char_facts(4)[of _ s] by (auto simp: std64_encode_def Let_def ascii_space_def split: if_splits)
    then show ?thesis by (simp add: filter_id_conv)
  qed
  have "dropWhile (\<lambda>c. c \<in> set ''='') (rev ?t) = rev ?t"
  proof -
    have "\<forall>c \<in> set (rev ?t). c \<notin> set ''=''" using std_char_facts(2)[of _ s] by auto
    then show ?thesis by (cases "rev ?t") simp_all
  qed
  then have c: "trim_right (std64_encode s) ''='' = ?t"
    by (simp add: trim_right_def std64_encode_def Let_def dropWhile_append)
  have "map url_char ?t = b64_encode s" using std_char_facts(1)[of _ s] by (simp add: map_idI)
  then have r: "std64_raw ?t = Some s" by (simp add: std64_raw_def b64_decode_encode)
  have "length (std64_encode s) - length ?t = ?k" by (simp add: std64_encode_def Let_def)
  then show ?thesis using f c r by (simp add: std64_padded_def Let_def)
qed

text \<open>A body in base64 is shown decoded, however white space breaks it into lines: what is left of it without white
  space is what the encoder wrote.\<close>

theorem base64_body_shown:
  assumes "drop_spaces bdy = std64_encode s" "to_lower (trim_space cte) = ''base64''"
  shows "transferred e bdy cte = s"
  using assms by (simp add: transferred_def decode_transfer_def std64_decode)

theorem base64_body_shown_witness:
  "\<forall>e. transferred e ''SGVs'' ''base64'' = ''Hel'' \<and> transferred e (''SGVs'' @ CRLF @ ''bG8='' @ CRLF) ''Base64'' = ''Hello''"
proof -
  have "drop_spaces (''SGVs'' @ CRLF @ ''bG8='' @ CRLF) = std64_encode ''Hello''" "to_lower (trim_space ''Base64'') = ''base64''"
    "drop_spaces ''SGVs'' = std64_encode ''Hel''" "to_lower (trim_space ''base64'') = ''base64''"
    by code_simp+
  then show ?thesis
    using base64_body_shown[of "''SGVs'' @ CRLF @ ''bG8='' @ CRLF" "''Hello''" "''Base64''"]
      base64_body_shown[of "''SGVs''" "''Hel''" "''base64''"] by simp
qed

section \<open>Nested bodies\<close>

lemma b64_groups_length: "b64_groups vs = Some b \<Longrightarrow> length b \<le> length vs"
  by (induction vs arbitrary: b rule: b64_groups.induct) auto

lemma std64_raw_length: "std64_raw s = Some b \<Longrightarrow> length b \<le> length s"
proof -
  assume "std64_raw s = Some b"
  then have "length b \<le> length (filter (\<lambda>c. c \<noteq> CR \<and> c \<noteq> LF) (map url_char s))"
    by (auto simp: std64_raw_def b64_decode_def Let_def split: if_splits dest: b64_groups_length)
  also have "\<dots> \<le> length (map url_char s)" by (rule length_filter_le)
  finally show ?thesis by simp
qed

lemma trim_right_length: "length (trim_right s cs) \<le> length s"
  using length_dropWhile_le[of "\<lambda>c. c \<in> set cs" "rev s"] by (simp add: trim_right_def)

lemma std64_padded_length: "std64_padded s = Some b \<Longrightarrow> length b \<le> length s"
proof -
  let ?t = "filter (\<lambda>c. c \<noteq> CR \<and> c \<noteq> LF) s"
  assume "std64_padded s = Some b"
  then have "std64_raw (trim_right ?t ''='') = Some b" by (auto simp: std64_padded_def Let_def split: if_splits)
  from std64_raw_length[OF this] show ?thesis
    using trim_right_length[of ?t "''=''"] length_filter_le[of "\<lambda>c. c \<noteq> CR \<and> c \<noteq> LF" s] by linarith
qed

lemma drop_spaces_length: "length (drop_spaces s) \<le> length s"
  by (induction s rule: drop_spaces.induct) (auto simp: le_SucI)

text \<open>Quoted-printable does not make a text longer.\<close>

lemma transferred_length:
  assumes "\<And>x y. dm_quoted e x = Some y \<Longrightarrow> length y \<le> length x"
  shows "length (transferred e bdy cte) \<le> length bdy"
  using assms[of bdy] std64_padded_length[of "drop_spaces bdy"] std64_raw_length[of "drop_spaces bdy"] drop_spaces_length[of bdy]
  by (auto simp: transferred_def decode_transfer_def Let_def split: option.splits)

definition part_size :: "part \<Rightarrow> nat" where
  "part_size p = Suc (case pt_text p of None \<Rightarrow> 0 | Some t \<Rightarrow> length t)"

lemma decode_parts_ends:
  assumes q: "\<And>x y. dm_quoted e x = Some y \<Longrightarrow> length y \<le> length x"
    and d: "\<And>x b. sum_list (map part_size (dm_parts e x b)) \<le> length x"
  shows "decode_parts e ps html \<noteq> None"
proof (induction "sum_list (map part_size ps)" arbitrary: ps html rule: less_induct)
  case less
  show ?case
  proof (cases ps)
    case Nil
    then show ?thesis by (subst decode_parts.simps) simp
  next
    case (Cons p rest)
    have rest: "decode_parts e rest h \<noteq> None" for h using Cons by (intro less) (simp add: part_size_def)
    have inner: "decode_parts e (dm_parts e (transferred e slurp cte) b) [] \<noteq> None" if "pt_text p = Some slurp" for slurp cte b
      using Cons that d[of "transferred e slurp cte" b] transferred_length[of e slurp cte, OF q] by (intro less) (simp add: part_size_def)
    show ?thesis
    proof (cases "pt_text p")
      case None
      then show ?thesis using rest Cons by (subst decode_parts.simps) simp
    next
      case (Some slurp)
      let ?i = "decode_parts e (dm_parts e (transferred e slurp (pt_encoding p)) (param_of (snd (parse_content_type e (pt_type p))) ''boundary'')) []"
      obtain r where "?i = Some r" using inner[OF Some] by blast
      then show ?thesis using rest Cons Some by (subst decode_parts.simps) (simp add: Let_def)
    qed
  qed
qed

text \<open>C31: Showing an article ends, however its multipart bodies are nested, as long as the parts of a body together are
  shorter than the body and quoted-printable does not make a text longer.\<close>

theorem display_ends:
  assumes "\<And>x y. dm_quoted e x = Some y \<Longrightarrow> length y \<le> length x"
    and "\<And>x b. sum_list (map part_size (dm_parts e x b)) \<le> length x"
  shows "\<exists>t. body_for_display e head bdy = Some t"
proof -
  have m: "decode_multipart e x b \<noteq> None" for x b using decode_parts_ends[OF assms] by (simp add: decode_multipart_def)
  have "decode_display_body e ct cte x \<noteq> None" for ct cte x
  proof -
    obtain mt ps where p: "parse_content_type e ct = (mt, ps)" by fastforce
    obtain r where "decode_multipart e (transferred e x cte) (param_of ps ''boundary'') = Some r" using m by blast
    then show ?thesis by (simp add: decode_display_body_def Let_def p)
  qed
  then show ?thesis by (auto simp: body_for_display_def split: sum.splits)
qed

definition demo_mime :: mime_env where
  "demo_mime = \<lparr>dm_words = (\<lambda>f s. None), dm_media = (\<lambda>s. if s = ''multipart/mixed'' then Some (s, [(''boundary'', ''b'')]) else None),
     dm_quoted = Some, dm_parts = (\<lambda>x b. if x = [] then [] else [\<lparr>pt_type = ''multipart/mixed'', pt_encoding = [], pt_text = Some (tl x)\<rparr>]),
     dm_mime = (\<lambda>s. None), dm_iana = (\<lambda>s. None), dm_html = (\<lambda>s. None)\<rparr>"

theorem display_ends_witness: "\<exists>t. body_for_display demo_mime ''Content-Type: multipart/mixed'' ''abc'' = Some t"
proof (rule display_ends)
  show "length y \<le> length x" if "dm_quoted demo_mime x = Some y" for x y using that by (simp add: demo_mime_def)
  show "sum_list (map part_size (dm_parts demo_mime x b)) \<le> length x" for x b
    by (cases x) (simp_all add: demo_mime_def part_size_def)
qed

end
