(* ===== verification/Reader.thy ===== *)
theory Reader
  imports Posting Ops GoScan Display
begin

text \<open>
  The web newsreader, \<open>internal/admin/reader.go\<close>: subscriptions, read marks, overview, articles and posting of the
  account that is logged in. A request comes with its path, method and query; the fields of its body are decoded, and
  \<open>None\<close> in their place is a body that is no JSON.
\<close>

record reader_request =
  rr_path :: string
  rr_method :: string
  rr_query :: "(string \<times> string) list"
  rr_group :: "string option"
  rr_mark :: "(int option \<times> bool) option"
  rr_draft :: "post_input option"

datatype reader_error =
    Nothing_There | Unknown_Group | Body_Not_Json | Number_Required | Bad_Number | Through_Required | May_Not_Post
  | Closed string | Draft_Refused post_failure | Store_Refused store_error

text \<open>\<open>Crashed\<close> is the panic of the store on a dangling number.\<close>

datatype reader_reply =
    Rr_Error nat reader_error
  | Bad_Method
  | Crashed
  | Subscriptions "subscription list"
  | Ok_Group string
  | Found_Groups "group_info list"
  | Found_Articles "search_hit list" string string
  | Stats content_stats
  | Group_Meta group_info int int
  | Overview_Rows string int int int "overview_row list"
  | Shown_Article string stored_article string string int int
  | Marked int
  | Posted_As post_outcome

definition query_of :: "reader_request \<Rightarrow> string \<Rightarrow> string" where
  "query_of r k = (case map_of (rr_query r) k of None \<Rightarrow> [] | Some v \<Rightarrow> v)"

section \<open>Subscriptions and search\<close>

definition reader_subscribe :: "int \<Rightarrow> reader_request \<Rightarrow> user \<Rightarrow> portal \<Rightarrow> portal \<times> reader_reply" where
  "reader_subscribe now r u p =
     (case rr_group r of
        None \<Rightarrow> (p, Rr_Error 400 Body_Not_Json)
      | Some g \<Rightarrow>
          (case subscribe now (u_id u) g (po_store p) of
             Inl No_Group \<Rightarrow> (p, Rr_Error 404 Unknown_Group)
           | Inl err \<Rightarrow> (p, Rr_Error 500 (Store_Refused err))
           | Inr s \<Rightarrow> (p\<lparr>po_store := s\<rparr>, Ok_Group g)))"

definition reader_unsubscribe :: "reader_request \<Rightarrow> user \<Rightarrow> portal \<Rightarrow> portal \<times> reader_reply" where
  "reader_unsubscribe r u p =
     (let g = query_of r ''group'' in (p\<lparr>po_store := unsubscribe (u_id u) g (po_store p)\<rparr>, Ok_Group g))"

definition reader_search_groups :: "reader_request \<Rightarrow> memory \<Rightarrow> reader_reply" where
  "reader_search_groups r s =
     Found_Groups (search_groups (query_of r ''q'') (query_of r ''busy'' = ''1'') (atoi_value (query_of r ''limit'')) s)"

definition decode_hit :: "mime_env \<Rightarrow> search_hit \<Rightarrow> search_hit" where
  "decode_hit me h = h\<lparr>hit_subject := decode_words me (hit_subject h), hit_from := decode_words me (hit_from h)\<rparr>"

definition reader_search_articles :: "mime_env \<Rightarrow> reader_request \<Rightarrow> memory \<Rightarrow> reader_reply" where
  "reader_search_articles me r s =
     (let q = trim_space (query_of r ''q'') in
      if q = [] then Found_Articles [] q []
      else
        let g = trim_space (query_of r ''group'') in
        Found_Articles (map (decode_hit me)
            (search_articles q g (atoi_value (query_of r ''limit'')) (atoi_value (query_of r ''offset'')) s)) q g)"

definition reader_stats :: "int \<Rightarrow> portal \<Rightarrow> portal \<times> reader_reply" where
  "reader_stats now p = (case content_stats now (po_store p) of (s, st) \<Rightarrow> (p\<lparr>po_store := s\<rparr>, Stats st))"

section \<open>Groups and articles\<close>

definition reader_group_meta :: "user \<Rightarrow> string \<Rightarrow> memory \<Rightarrow> reader_reply" where
  "reader_group_meta u name s =
     (case get_group name s of
        None \<Rightarrow> Rr_Error 404 Unknown_Group
      | Some g \<Rightarrow>
          let seen = get_read_state (u_id u) name s
          in Group_Meta g seen (if g_high g > seen then g_high g - seen else 0))"

definition overview_limit :: "int \<Rightarrow> int" where
  "overview_limit n = (let l = (if n \<le> 0 then 500 else n) in if l > 2000 then 2000 else l)"

definition overview_window :: "int \<Rightarrow> int \<Rightarrow> int \<Rightarrow> group_info \<Rightarrow> int \<times> int" where
  "overview_window lo hi limit g =
     (if lo \<le> 0 \<and> hi \<le> 0 then
        let l = g_high g - limit + 1; l1 = (if l < g_low g then g_low g else l)
        in (if l1 \<le> 0 then 1 else l1, g_high g)
      else (lo, hi))"

definition decode_row :: "mime_env \<Rightarrow> overview_row \<Rightarrow> overview_row" where
  "decode_row me row = row\<lparr>o_subject := decode_words me (o_subject row), o_from := decode_words me (o_from row)\<rparr>"

definition reader_overview :: "mime_env \<Rightarrow> reader_request \<Rightarrow> user \<Rightarrow> string \<Rightarrow> memory \<Rightarrow> reader_reply" where
  "reader_overview me r u name s =
     (case get_group name s of
        None \<Rightarrow> Rr_Error 404 Unknown_Group
      | Some g \<Rightarrow>
          let limit = overview_limit (atoi_value (query_of r ''limit''));
              (lo, hi) = overview_window (atoi_value (query_of r ''lo'')) (atoi_value (query_of r ''hi'')) limit g in
          (case overview name lo hi s of
             None \<Rightarrow> Crashed
           | Some rows \<Rightarrow>
               let rows1 = (if int (length rows) > limit then drop (length rows - nat limit) rows else rows)
               in Overview_Rows name (g_low g) (g_high g) (get_read_state (u_id u) name s) (map (decode_row me) rows1)))"

definition num_of :: "stored_article option \<Rightarrow> int" where
  "num_of a = (case a of None \<Rightarrow> 0 | Some x \<Rightarrow> s_num x)"

text \<open>The number is read, and with it everything before it. The decoded header block and body are part of the
  reply; Subject and From are decoded in the article itself.\<close>

definition reader_article :: "mime_env \<Rightarrow> user \<Rightarrow> string \<Rightarrow> int \<Rightarrow> portal \<Rightarrow> portal \<times> reader_reply" where
  "reader_article me u name num p =
     (let s = po_store p in
      case get_by_number name num s of
        None \<Rightarrow> (p, Rr_Error 404 Nothing_There)
      | Some a \<Rightarrow>
          (case (next_article name num s, prev_article name num s, body_for_display me (s_headers a) (s_body a)) of
             (Some nx, Some pv, Some shown) \<Rightarrow>
               (p\<lparr>po_store := set_read_state (u_id u) name num s\<rparr>,
                Shown_Article name (a\<lparr>s_subject := decode_words me (s_subject a), s_from := decode_words me (s_from a)\<rparr>)
                  (decode_header_block me (s_headers a)) shown (num_of nx) (num_of pv))
           | _ \<Rightarrow> (p, Crashed)))"

definition reader_mark_read :: "reader_request \<Rightarrow> user \<Rightarrow> string \<Rightarrow> portal \<Rightarrow> portal \<times> reader_reply" where
  "reader_mark_read r u name p =
     (let s = po_store p; mark = (\<lambda>n. (p\<lparr>po_store := set_read_state (u_id u) name n s\<rparr>, Marked n)) in
      case rr_mark r of
        None \<Rightarrow> (p, Rr_Error 400 Body_Not_Json)
      | Some (through, everything) \<Rightarrow>
          if everything then
            (case get_group name s of None \<Rightarrow> (p, Rr_Error 404 Unknown_Group) | Some g \<Rightarrow> mark (g_high g))
          else (case through of None \<Rightarrow> (p, Rr_Error 400 Through_Required) | Some n \<Rightarrow> mark n))"

section \<open>Posting\<close>

definition reader_from :: "user \<Rightarrow> string \<Rightarrow> string" where
  "reader_from u host =
     (let name = trim_space (u_display u); email = trim_space (u_email u) in
      if name \<noteq> [] \<and> email \<noteq> [] then name @ '' <'' @ email @ ''>''
      else if email \<noteq> [] then email
      else u_name u @ ''@'' @ (if host = [] then ''news'' else host))"

definition post_status :: "post_failure \<Rightarrow> nat" where
  "post_status f =
     (case f of Duplicate_Post \<Rightarrow> 409 | Not_Stored Duplicate_ID \<Rightarrow> 409 | Over_Quota n \<Rightarrow> 429 | Not_Stored Quota_Exceeded \<Rightarrow> 429 | _ \<Rightarrow> 400)"

definition reader_post :: "session_env \<Rightarrow> int \<Rightarrow> controller \<Rightarrow> reader_request \<Rightarrow> user \<Rightarrow> portal \<Rightarrow> portal \<times> reader_reply" where
  "reader_post e now c r u p =
     (if \<not> may_post u then (p, Rr_Error 403 May_Not_Post)
      else case accept_articles c of
        Some msg \<Rightarrow> (p, Rr_Error 503 (Closed msg))
      | None \<Rightarrow>
          (case rr_draft r of
             None \<Rightarrow> (p, Rr_Error 400 Body_Not_Json)
           | Some i0 \<Rightarrow>
               let i = (if trim_space (in_from i0) = [] then i0\<lparr>in_from := reader_from u (sv_hostname (cf_server (e_cfg e)))\<rparr> else i0) in
               (case accept_post e now i (u_id u) p of
                  (q, Inl f) \<Rightarrow> (q, Rr_Error (post_status f) (Draft_Refused f))
                | (q, Inr oc) \<Rightarrow> (q, Posted_As oc))))"

section \<open>Routes\<close>

definition reader_group_path ::
    "mime_env \<Rightarrow> reader_request \<Rightarrow> user \<Rightarrow> string \<Rightarrow> portal \<Rightarrow> portal \<times> reader_reply" where
  "reader_group_path me r u rest p =
     (let parts = split_on CHR ''/'' rest; name = hd parts; is_get = (rr_method r = ''GET'') in
      if name = [] then (p, Rr_Error 404 Nothing_There)
      else if length parts = 1 then (if is_get then (p, reader_group_meta u name (po_store p)) else (p, Bad_Method))
      else if parts ! 1 = ''overview'' then
        (if is_get then (p, reader_overview me r u name (po_store p)) else (p, Bad_Method))
      else if parts ! 1 = ''article'' then
        (if \<not> is_get \<or> length parts < 3 then (p, Rr_Error 400 Number_Required)
         else case parse_int (parts ! 2) of
           None \<Rightarrow> (p, Rr_Error 400 Bad_Number)
         | Some n \<Rightarrow> reader_article me u name n p)
      else if parts ! 1 = ''read'' then
        (if rr_method r = ''POST'' then reader_mark_read r u name p else (p, Bad_Method))
      else (p, Rr_Error 404 Nothing_There))"

definition reader_path :: "string \<Rightarrow> string" where
  "reader_path path =
     (let a = trim_suffix (trim_prefix path ''/api/reader'') ''/'' in if a = [] then ''/'' else a)"

definition reader_handler ::
    "session_env \<Rightarrow> mime_env \<Rightarrow> int \<Rightarrow> controller \<Rightarrow> reader_request \<Rightarrow> user \<Rightarrow> portal \<Rightarrow> portal \<times> reader_reply" where
  "reader_handler e me now c r u p =
     (let path = reader_path (rr_path r); meth = rr_method r in
      if path = ''/subscriptions'' \<and> meth = ''GET'' then (p, Subscriptions (list_subscriptions (u_id u) (po_store p)))
      else if path = ''/subscriptions'' \<and> meth = ''POST'' then reader_subscribe now r u p
      else if path = ''/subscriptions'' \<and> meth = ''DELETE'' then reader_unsubscribe r u p
      else if path = ''/groups'' \<and> meth = ''GET'' then (p, reader_search_groups r (po_store p))
      else if path = ''/search'' \<and> meth = ''GET'' then (p, reader_search_articles me r (po_store p))
      else if path = ''/stats'' \<and> meth = ''GET'' then reader_stats now p
      else if path = ''/post'' \<and> meth = ''POST'' then reader_post e now c r u p
      else if has_prefix path ''/groups/'' then reader_group_path me r u (drop 8 path) p
      else (p, Rr_Error 404 Nothing_There))"

end
