(* ===== verification/ReaderLaws.thy ===== *)
theory ReaderLaws
  imports Reader StoreLaws Contract
begin

text \<open>
  The web newsreader: a request touches the marks of its own account only, marks only grow, what was read is not
  counted as unread, and the first page of a group is its newest articles.
\<close>

section \<open>What a post leaves alone\<close>

text \<open>A view of the store that the fields written by posting do not show.\<close>

locale beside =
  fixes f :: "memory \<Rightarrow> 'a"
  assumes groups: "map fst a1 = map fst (m_groups s) \<Longrightarrow> f (s\<lparr>m_groups := a1\<rparr>) = f s"
    and arts: "f (s\<lparr>m_arts := a2\<rparr>) = f s"
    and heap: "f (s\<lparr>m_heap := a3\<rparr>) = f s"
    and numbers: "f (s\<lparr>m_by_num := a4\<rparr>) = f s"
    and refs: "f (s\<lparr>m_next_ref := a5\<rparr>) = f s"
    and seen: "f (s\<lparr>m_history := a6\<rparr>) = f s"
    and accepts: "f (s\<lparr>m_accepts := a7\<rparr>) = f s"
    and alerts: "f (s\<lparr>m_alerts := a8\<rparr>) = f s"
    and alert_ids: "f (s\<lparr>m_next_aid := a9\<rparr>) = f s"
    and quotas: "f (s\<lparr>m_bin_quota := b1\<rparr>) = f s"
    and counts: "f (s\<lparr>m_stat_group_day := b2\<rparr>) = f s" "f (s\<lparr>m_stat_group_total := b3\<rparr>) = f s"
      "f (s\<lparr>m_stat_from_day := b4\<rparr>) = f s" "f (s\<lparr>m_stat_path_day := b5\<rparr>) = f s"
begin

lemmas fields = arts heap numbers refs seen accepts alerts alert_ids quotas counts

lemma put_known: "grp s g = Some mg \<Longrightarrow> f (put_group g mg' s) = f s"
proof -
  assume "grp s g = Some mg"
  then have "(g, mg) \<in> set (m_groups s)" by (simp add: grp_def map_of_SomeD)
  then have "g \<in> fst ` set (m_groups s)" by (rule image_eqI[rotated]) simp
  then show ?thesis by (simp add: put_group_def update_keys groups)
qed

lemma file_in: "f (fst (file_in r g (s, nums, parts))) = f s"
  by (auto simp: file_in_def Let_def put_obj_def set_number_def fields put_known split: option.splits)

lemma file_all: "f (fst (fold (file_in r) gs st)) = f (fst st)"
proof (induction gs arbitrary: st)
  case (Cons g gs)
  then show ?case using file_in[of r g "fst st" "fst (snd st)" "snd (snd st)"] by simp
qed simp

lemma post: "f (fst (post_article now n s)) = f s"
proof -
  let ?st = "fold (file_in (m_next_ref s)) (usable_groups s (n_groups n))
      (put_obj (m_next_ref s) (fresh_art now n) (s\<lparr>m_next_ref := m_next_ref s + 1\<rparr>), [], [])"
  have "f (fst ?st) = f s" by (simp add: file_all put_obj_def fields)
  then show ?thesis
    by (cases ?st) (auto simp: post_article_def Let_def put_obj_def fields split: option.split)
qed

lemma remember: "f (remember_message_id now m s) = f s"
  by (simp add: remember_message_id_def fields)

lemma retention_maps: "f (ensure_retention_maps s) = f s"
  by (simp add: ensure_retention_maps_def fields)

lemma quota: "f (fst (consume_binary_quota now uid limit s)) = f s"
  by (simp add: consume_binary_quota_def Let_def fields retention_maps)

lemma alerted: "f (ensure_open_alert now g d s) = f s" "f (set_retention g ds m s) = f s"
  by (auto simp: ensure_open_alert_def set_retention_def fields put_known split: option.split)

lemma note_group: "f (fst (note_one ft now b fl g st)) = f (fst st)"
  by (cases st) (auto simp: note_one_def Let_def alerted fields split: option.split)

lemma noted: "f (fst (note_accept ft now gs b fl s)) = f s"
proof -
  have "f (fst (fold (note_one ft now b k) hs st)) = f (fst st)" for k hs st
    by (induction hs arbitrary: st) (simp_all add: note_group)
  then show ?thesis by (simp add: note_accept_def Let_def retention_maps)
qed

lemma stats: "f (record_content_stats now ev s) = f s"
  by (simp add: record_content_stats_def record_at_def Let_def fields)

lemma stored: "f (po_store (fst (accept_store e now a b p))) = f (po_store p)"
proof (cases "post_article now (new_article_of e a (wire a) b) (po_store p)")
  case (Pair s r)
  then have "f s = f (po_store p)" using post[of now "new_article_of e a (wire a) b" "po_store p"] by simp
  then show ?thesis using Pair by (cases r) (simp_all add: accept_store_def Let_def noted stats)
qed

lemma charged: "accept_quota e now uid b p = (q, z) \<Longrightarrow> f (po_store q) = f (po_store p)"
  using quota[of now uid "rt_user_binary (cf_retention (e_cfg e))" "po_store p"]
  by (auto simp: accept_quota_def Let_def split: if_splits prod.splits option.splits)

lemma mailed: "mail_moderated e a p = (q, z) \<Longrightarrow> po_store q = po_store p"
  by (auto simp: mail_moderated_def Let_def split: if_splits sum.splits option.splits prod.splits)

lemma injected: "f (po_store (fst (accept_injected e now uid a p))) = f (po_store p)"
proof -
  obtain p1 r where m: "mail_moderated e a p = (p1, r)" by fastforce
  obtain p2 z where q: "accept_quota e now uid (looks_binary (raw_headers a) (body a)) p1 = (p2, z)" by fastforce
  show ?thesis using mailed[OF m] charged[OF q] stored[of e now a "looks_binary (raw_headers a) (body a)" p2]
    by (auto simp: accept_injected_def m q Let_def remember split: sum.split option.split)
qed

lemma accepted: "f (po_store (fst (accept_post e now i uid p))) = f (po_store p)"
  by (auto simp: accept_post_def injected split: sum.split)

end

interpretation marks: beside "\<lambda>s. (m_subs s, m_reads s)"
  by unfold_locales simp_all

interpretation desk: beside admin_part
  by unfold_locales (simp_all add: admin_part_def)

interpretation group_names: beside "\<lambda>s. map fst (m_groups s)"
  by unfold_locales simp_all

section \<open>Marks\<close>

lemma read_state_set:
  "get_read_state v g (set_read_state uid name n s)
     = (if v = uid \<and> trim_space g = trim_space name then max (max n 0) (get_read_state v g s) else get_read_state v g s)"
  by (auto simp: get_read_state_def set_read_state_def user_map_def Let_def map_of_update split: option.splits)

lemma read_state_marks: "m_reads t = m_reads s \<Longrightarrow> get_read_state v g t = get_read_state v g s"
  by (simp add: get_read_state_def)

text \<open>What a request may change: the marks of one account, which only grow, and its subscriptions.\<close>

definition own_marks :: "int \<Rightarrow> memory \<Rightarrow> memory \<Rightarrow> bool" where
  "own_marks uid s t \<longleftrightarrow> admin_part t = admin_part s
     \<and> (\<forall>v. v \<noteq> uid \<longrightarrow> user_map (m_subs t) v = user_map (m_subs s) v \<and> user_map (m_reads t) v = user_map (m_reads s) v)
     \<and> (\<forall>v g. get_read_state v g s \<le> get_read_state v g t)"

lemma own_marks_same: "admin_part t = admin_part s \<Longrightarrow> (m_subs t, m_reads t) = (m_subs s, m_reads s) \<Longrightarrow> own_marks uid s t"
  by (simp add: own_marks_def read_state_marks[of t s])

lemma own_marks_refl: "own_marks uid s s" by (rule own_marks_same) simp_all

lemma own_marks_set: "own_marks uid s (set_read_state uid name n s)"
  unfolding own_marks_def read_state_set
  by (auto simp: set_read_state_def Let_def user_map_def map_of_update admin_part_def)

lemma own_marks_subscribe: "subscribe now uid g s = Inr t \<Longrightarrow> own_marks uid s t"
  by (auto simp: subscribe_def Let_def own_marks_def user_map_def map_of_update admin_part_def get_read_state_def split: if_splits)

lemma own_marks_unsubscribe: "own_marks uid s (unsubscribe uid g s)"
  by (auto simp: unsubscribe_def own_marks_def user_map_def map_of_update admin_part_def get_read_state_def split: option.split)

definition quiet :: "user \<Rightarrow> portal \<Rightarrow> portal \<Rightarrow> bool" where
  "quiet u p q \<longleftrightarrow> (\<exists>s. q = p\<lparr>po_store := s\<rparr> \<and> own_marks (u_id u) (po_store p) s
     \<and> m_arts s = m_arts (po_store p) \<and> m_groups s = m_groups (po_store p) \<and> m_history s = m_history (po_store p))"

lemma quietI: "own_marks (u_id u) (po_store p) s \<Longrightarrow> m_arts s = m_arts (po_store p) \<Longrightarrow> m_groups s = m_groups (po_store p) \<Longrightarrow>
    m_history s = m_history (po_store p) \<Longrightarrow> quiet u p (p\<lparr>po_store := s\<rparr>)"
  unfolding quiet_def by blast

lemma quiet_refl: "quiet u p p"
  using quietI[OF own_marks_refl, of p u] by simp

lemma quiet_set: "quiet u p (p\<lparr>po_store := set_read_state (u_id u) name n (po_store p)\<rparr>)"
  by (intro quietI own_marks_set) (simp_all add: set_read_state_def Let_def)

lemma quiet_article: "reader_article me u name n p = (q, rep) \<Longrightarrow> quiet u p q"
  by (auto simp: reader_article_def Let_def quiet_refl quiet_set split: option.splits)

lemma quiet_mark: "reader_mark_read r u name p = (q, rep) \<Longrightarrow> quiet u p q"
  by (auto simp: reader_mark_read_def Let_def quiet_refl quiet_set split: option.splits prod.splits if_splits)

lemma quiet_group_path: "reader_group_path me r u rest p = (q, rep) \<Longrightarrow> quiet u p q"
  by (auto simp: reader_group_path_def Let_def quiet_refl split: if_splits option.splits dest: quiet_article quiet_mark)

lemma quiet_subscribe: "reader_subscribe now r u p = (q, rep) \<Longrightarrow> quiet u p q"
proof -
  assume a: "reader_subscribe now r u p = (q, rep)"
  have "quiet u p (p\<lparr>po_store := t\<rparr>)" if "subscribe now (u_id u) g (po_store p) = Inr t" for g t
    using that by (intro quietI own_marks_subscribe[OF that]) (auto simp: subscribe_def Let_def split: if_splits)
  then show ?thesis using a by (auto simp: reader_subscribe_def quiet_refl split: option.splits sum.splits store_error.splits)
qed

lemma quiet_unsubscribe: "reader_unsubscribe r u p = (q, rep) \<Longrightarrow> quiet u p q"
proof -
  assume "reader_unsubscribe r u p = (q, rep)"
  then have "q = p\<lparr>po_store := unsubscribe (u_id u) (query_of r ''group'') (po_store p)\<rparr>"
    by (simp add: reader_unsubscribe_def Let_def)
  moreover have "m_arts t = m_arts s \<and> m_groups t = m_groups s \<and> m_history t = m_history s" if "t = unsubscribe k g s" for t k g s
    using that by (simp add: unsubscribe_def split: option.split)
  ultimately show ?thesis using quietI[where u = u and p = p, OF own_marks_unsubscribe] by blast
qed

lemma quiet_stats: "reader_stats now p = (q, rep) \<Longrightarrow> quiet u p q"
proof -
  assume "reader_stats now p = (q, rep)"
  then have "q = p\<lparr>po_store := ensure_retention_maps (po_store p)\<rparr>" by (simp add: reader_stats_def content_stats_def Let_def)
  moreover have "own_marks (u_id u) (po_store p) (ensure_retention_maps (po_store p))"
    by (intro own_marks_same) (simp_all add: desk.retention_maps ensure_retention_maps_def)
  ultimately show ?thesis using quietI[of u p "ensure_retention_maps (po_store p)"] by (simp add: ensure_retention_maps_def)
qed

lemma post_marks: "reader_post e now c r u p = (q, rep) \<Longrightarrow> own_marks (u_id u) (po_store p) (po_store q)"
proof -
  assume a: "reader_post e now c r u p = (q, rep)"
  have "own_marks (u_id u) (po_store p) (po_store (fst (accept_post e now i v p)))" for i v
    using marks.accepted[of e now i v p] desk.accepted[of e now i v p] by (intro own_marks_same) simp_all
  then show ?thesis using a unfolding reader_post_def Let_def
    by (auto simp: own_marks_refl split: if_splits option.splits prod.splits sum.splits) (metis fst_conv)+
qed

lemma quiet_handler:
  assumes "reader_handler e me now c r u p = (q, rep)" "\<not> (reader_path (rr_path r) = ''/post'' \<and> rr_method r = ''POST'')"
  shows "quiet u p q"
  using assms unfolding reader_handler_def Let_def
  by (auto simp: quiet_refl split: if_splits dest: quiet_subscribe quiet_unsubscribe quiet_stats quiet_group_path)

text \<open>C22: Whatever an account asks of the web newsreader, it changes no account, peer, ban, rule or setting; the
  subscriptions and read marks of every other account stay, and read marks only grow. A request that is not a
  post changes no group, no article and no history, sends no mail, and writes and offers nothing.\<close>

theorem reader_confined:
  assumes "reader_handler e me now c r u p = (q, rep)"
  shows "own_marks (u_id u) (po_store p) (po_store q)
    \<and> (reader_path (rr_path r) \<noteq> ''/post'' \<or> rr_method r \<noteq> ''POST'' \<longrightarrow> quiet u p q)"
proof -
  have o: "quiet u p q \<Longrightarrow> own_marks (u_id u) (po_store p) (po_store q)" by (auto simp: quiet_def)
  show ?thesis
  proof (cases "reader_path (rr_path r) = ''/post'' \<and> rr_method r = ''POST''")
    case True
    then have "reader_post e now c r u p = (q, rep)" using assms by (simp add: reader_handler_def)
    from post_marks[OF this] show ?thesis using True by simp
  next
    case False
    have "quiet u p q" by (rule quiet_handler[OF assms False])
    then show ?thesis using o by simp
  qed
qed

definition reader_ann :: user where
  "reader_ann = \<lparr>u_id = 1, u_name = ''ann'', u_hash = [], u_role = ''user'', u_can_post = True, u_disabled = False, u_display = [],
     u_email = [], u_must_change = False, u_gen = 0, u_created = 0\<rparr>"

definition reader_demo :: portal where
  "reader_demo = \<lparr>po_store = demo_group_store, po_mails = [], po_mbox = None, po_offers = None\<rparr>"

definition read_request :: reader_request where
  "read_request = \<lparr>rr_path = ''/api/reader/groups/a/read'', rr_method = ''POST'', rr_query = [], rr_group = None,
     rr_mark = Some (Some 5, False), rr_draft = None\<rparr>"

theorem reader_confined_witness:
  "\<forall>e me c. quiet reader_ann reader_demo (fst (reader_handler e me 7 c read_request reader_ann reader_demo))"
proof (intro allI)
  fix e me c
  have p: "reader_path (rr_path read_request) = ''/groups/a/read''" by code_simp
  obtain q rep where q: "reader_handler e me 7 c read_request reader_ann reader_demo = (q, rep)" by fastforce
  show "quiet reader_ann reader_demo (fst (reader_handler e me 7 c read_request reader_ann reader_demo))"
    using reader_confined[OF q] q p by simp
qed

section \<open>Unread articles\<close>

text \<open>After an account has opened the article with a number, or marked a group as read up to it, the group counts as
  unread what lies above that number, or above the greater one it had read before.\<close>

theorem read_not_unread:
  assumes "(\<exists>a h b nx pv. reader_article me u name n p = (q, Shown_Article name a h b nx pv))
      \<or> reader_mark_read r u name p = (q, Marked n)"
    and "get_group name (po_store p) = Some g"
  shows "let seen = max (max n 0) (get_read_state (u_id u) name (po_store p))
    in reader_group_meta u name (po_store q) = Group_Meta g seen (max 0 (g_high g - seen))"
proof -
  have q: "q = p\<lparr>po_store := set_read_state (u_id u) name n (po_store p)\<rparr>" using assms(1)
    by (auto simp: reader_article_def reader_mark_read_def Let_def split: option.splits prod.splits if_splits)
  have "get_group name (po_store q) = Some g"
    using assms(2) by (simp add: q get_group_def grp_def set_read_state_def Let_def)
  then show ?thesis by (simp add: reader_group_meta_def q read_state_set Let_def max_def)
qed

theorem read_not_unread_witness:
  "\<exists>g. reader_group_meta reader_ann ''a'' (po_store (fst (reader_mark_read read_request reader_ann ''a'' reader_demo))) = Group_Meta g 5 0"
proof -
  obtain g where g: "get_group ''a'' demo_group_store = Some g" "g_high g = 0"
    by (cases "get_group ''a'' demo_group_store") (simp_all add: demo_group_store_def get_group_def ensure_group_def add_group_def
      put_group_def fresh_group_def grp_def map_of_update Let_def group_info.truncate_def new_memory_def default_status_def)
  have s: "get_read_state (u_id reader_ann) ''a'' (po_store reader_demo) = 0" by code_simp
  have m: "reader_mark_read read_request reader_ann ''a'' reader_demo
      = (fst (reader_mark_read read_request reader_ann ''a'' reader_demo), Marked 5)"
    by (simp add: reader_mark_read_def read_request_def Let_def)
  show ?thesis using read_not_unread[OF disjI2, OF m, of g] g s by (simp add: reader_demo_def Let_def)
qed

section \<open>The newest articles\<close>

lemma overview_limit_pos: "0 < overview_limit n"
  by (simp add: overview_limit_def Let_def)

lemma few_above:
  fixes ns :: "int list"
  assumes "distinct ns" "\<forall>n \<in> set ns. n \<le> h" "0 < k"
  shows "int (length (filter (\<lambda>n. h - k < n) ns)) \<le> k"
proof -
  let ?f = "filter (\<lambda>n. h - k < n) ns"
  have "set ?f \<subseteq> {h - k<..h}" using assms(2) by auto
  then have "card (set ?f) \<le> card {h - k<..h}" by (intro card_mono) auto
  moreover have "card (set ?f) = length ?f" using assms(1) by (intro distinct_card) simp
  ultimately show ?thesis using assms(3) by simp
qed

text \<open>C32: Asked for no range, the overview of a group is its newest articles: all numbers above the high mark less
  the limit, in order, never more than the limit, and the store is never found inconsistent.\<close>

theorem newest_overview:
  assumes "store_inv s" "grp s name = Some mg"
    and "atoi_value (query_of r ''lo'') \<le> 0" "atoi_value (query_of r ''hi'') \<le> 0"
  shows "\<exists>rows. reader_overview me r u name s = Overview_Rows name (g_low mg) (g_high mg) (get_read_state (u_id u) name s) rows
    \<and> map o_num rows = filter (\<lambda>n. g_high mg - overview_limit (atoi_value (query_of r ''limit'')) < n) (g_nums mg)
    \<and> int (length rows) \<le> overview_limit (atoi_value (query_of r ''limit''))"
proof -
  let ?k = "overview_limit (atoi_value (query_of r ''limit''))"
  have k: "0 < ?k" by (rule overview_limit_pos)
  have ok: "group_ok mg" using store_invD(1)[OF assms(1)] assms(2) by (auto simp: filing_def dest: filed_group_ok)
  obtain lo hi where w: "overview_window (atoi_value (query_of r ''lo'')) (atoi_value (query_of r ''hi'')) ?k (group_info.truncate mg) = (lo, hi)"
    by fastforce
  have n: "numbers_in lo hi mg = filter (\<lambda>n. g_high mg - ?k < n) (g_nums mg)"
    using w assms(3,4) ok unfolding numbers_in_def
    by (intro filter_cong) (auto simp: overview_window_def Let_def group_info.truncate_def group_ok_def split: if_splits)
  obtain rows where o: "overview name lo hi s = Some rows" "map o_num rows = numbers_in lo hi mg"
    using overview_some[OF assms(1,2)] by blast
  have "distinct (g_nums mg)" "\<forall>n \<in> set (g_nums mg). n \<le> g_high mg" using ok by (auto simp: group_ok_def strict_sorted_iff)
  from few_above[OF this k] have l: "int (length rows) \<le> ?k" using arg_cong[OF o(2), of length] n by simp
  have "map o_num (map (decode_row me) rows) = map o_num rows" by (simp add: decode_row_def)
  then show ?thesis using o n l w assms(2)
    by (simp add: reader_overview_def Let_def get_group_def group_info.truncate_def)
qed

theorem newest_overview_witness:
  "\<forall>me. \<exists>rows. reader_overview me read_request reader_ann ''a'' (fst (post_article 5 (demo_article ''<1@x>'' [''a'']) demo_group_store))
     = Overview_Rows ''a'' 1 1 0 rows \<and> map o_num rows = [1]"
proof
  fix me
  let ?s = "fst (post_article 5 (demo_article ''<1@x>'' [''a'']) demo_group_store)"
  have i: "store_inv ?s" by (intro post_article_inv demo_group_store_inv) (simp add: demo_article_def)
  obtain mg where g: "grp ?s ''a'' = Some mg" "g_low mg = 1" "g_high mg = 1" "g_nums mg = [1]"
  proof -
    have "map_option (\<lambda>mg. (g_low mg, g_high mg, g_nums mg)) (grp ?s ''a'') = Some (1, 1, [1])" by code_simp
    then show ?thesis using that by auto
  qed
  have v: "atoi_value (query_of read_request ''lo'') \<le> 0" "atoi_value (query_of read_request ''hi'') \<le> 0"
    "overview_limit (atoi_value (query_of read_request ''limit'')) = 500" "get_read_state (u_id reader_ann) ''a'' ?s = 0" by code_simp+
  obtain rows where r: "reader_overview me read_request reader_ann ''a'' ?s = Overview_Rows ''a'' (g_low mg) (g_high mg) (get_read_state (u_id reader_ann) ''a'' ?s) rows"
    "map o_num rows = filter (\<lambda>n. g_high mg - overview_limit (atoi_value (query_of read_request ''limit'')) < n) (g_nums mg)"
    using newest_overview[OF i g(1) v(1,2), of me reader_ann] by blast
  have page: "reader_overview me read_request reader_ann ''a'' ?s = Overview_Rows ''a'' 1 1 0 rows" using r(1) by (simp only: g v)
  have "map o_num rows = [1]" using r(2) by (simp add: g v)
  then show "\<exists>rows. reader_overview me read_request reader_ann ''a'' ?s = Overview_Rows ''a'' 1 1 0 rows \<and> map o_num rows = [1]"
    using page by (intro exI[of _ rows] conjI)
qed

end
