(* ===== verification/Desk.thy ===== *)
theory Desk
  imports Reader Accounts Peering Isc Mbox Feeder
begin

text \<open>
  The administrator's desk of the web portal: the rest of the handlers of \<open>internal/admin\<close> (\<open>admin.go\<close>, \<open>ops.go\<close>,
  \<open>mail_admin.go\<close>, \<open>moderators.go\<close>) that keep or change state, and the routes of the portal with the checks before them. A
  request comes decoded: \<open>None\<close> in place of its fields is a body that is no JSON. A method a route does not know is
  refused without effect and left out. The page with the feeder's statistics (\<open>stats\<close>) and the jobs of the archive and of
  the path statistics are left out; of the status page, what is copied from the configuration.
\<close>

section \<open>State and replies\<close>

record office =
  of_web :: web
  of_ctl :: controller
  of_root :: string
  of_files :: "file_system option"
  of_mails :: "delivery list"
  of_offers :: "(string \<times> string \<times> string list \<times> string) list option"

abbreviation of_store :: "office \<Rightarrow> memory" where "of_store w \<equiv> w_store (of_web w)"

definition with_memory :: "memory \<Rightarrow> office \<Rightarrow> office" where
  "with_memory s w = w\<lparr>of_web := (of_web w)\<lparr>w_store := s\<rparr>\<rparr>"

record desk_env =
  de_session :: session_env
  de_mime :: mime_env
  de_web :: web_env
  de_http :: "string \<Rightarrow> (int \<times> string) option"
  de_gunzip :: "string \<Rightarrow> string option"
  de_sha :: "string \<Rightarrow> string"
  de_dial :: "string \<Rightarrow> string + string"

abbreviation de_cfg :: "desk_env \<Rightarrow> config" where "de_cfg e \<equiv> e_cfg (de_session e)"

record mail_view =
  mv_host :: string
  mv_port :: int
  mv_username :: string
  mv_password_set :: bool
  mv_from :: string
  mv_security :: string
  mv_saved :: bool

record article_row =
  ar_msgid :: string
  ar_subject :: string
  ar_from :: string
  ar_sender :: string
  ar_newsgroups :: string
  ar_date :: string
  ar_stored :: string
  ar_xref :: string
  ar_bytes :: int

record peer_stat =
  pz_id :: int
  pz_name :: string
  pz_host :: string
  pz_incoming :: string
  pz_port :: int
  pz_up :: bool
  pz_error :: string
  pz_notes :: string
  pz_enabled :: bool
  pz_has_pass :: bool

record status_page =
  sp_groups :: nat
  sp_articles :: nat
  sp_peers :: "peer list"
  sp_stats :: "peer_stat list"
  sp_queue :: feed_stats
  sp_postgres :: string
  sp_alerts :: nat
  sp_ops :: controller
  sp_open :: bool
  sp_rules :: "string list"
  sp_hosts :: "string list"
  sp_our_side :: "(string \<times> string) list"

datatype desk_reply =
    Desk_Bad_Json | Desk_Bad string | Desk_Missing | Desk_Failed store_error | Desk_Refused store_error
  | Desk_Mail_Refused mail_error | Desk_Not_Sent string | Desk_Fetch_Failed
  | Desk_Ok string | Desk_Removed int | Desk_Patterns "string list" | Desk_Groups "group_info list"
  | Desk_Rules "moderator_rule list" string | Desk_Alerts "group_alert list" | Desk_Mail mail_view
  | Desk_Status status_page | Desk_Our_Side export_opts "(string \<times> string) list"
  | Desk_Rows "article_row list" | Desk_Article string string string string string
  | Desk_Ops controller | Desk_Expired expire_result controller | Desk_Existed bool | Desk_Flushed int | Desk_Loaded nat

section \<open>Groups and articles\<close>

definition groups_post :: "int \<Rightarrow> (string \<times> string \<times> string) option \<Rightarrow> office \<Rightarrow> office \<times> desk_reply" where
  "groups_post now i w =
     (case i of
        None \<Rightarrow> (w, Desk_Bad_Json)
      | Some (name0, desc, status) \<Rightarrow>
          let name = trim_space name0 in
          if \<not> valid_group_name name then (w, Desk_Bad ''invalid group name'')
          else (with_memory (ensure_group now name desc (if status = [] then ''y'' else status) (of_store w)) w, Desk_Ok name))"

definition groups_from_xref :: "string \<Rightarrow> string" where
  "groups_from_xref xref =
     join '', '' (concat (map
       (\<lambda>f. case after_last CHR '':'' f of
              None \<Rightarrow> []
            | Some num \<Rightarrow>
                let g = take (length f - length num - 1) f
                in if g = [] \<or> num = [] \<or> \<not> list_all is_digit num then [] else [g])
       (str_fields xref)))"

definition articles_get :: "mime_env \<Rightarrow> string \<Rightarrow> memory \<Rightarrow> desk_reply" where
  "articles_get me count s =
     (let n = atoi_value count; k = (if n \<le> 0 \<or> n > 25 then 25 else n)
      in Desk_Rows (map (\<lambda>a. \<lparr>ar_msgid = s_msgid a, ar_subject = decode_words me (s_subject a),
             ar_from = decode_words me (s_from a), ar_sender = decode_words me (s_from a), ar_newsgroups = groups_from_xref (s_xref a), ar_date = s_date a,
             ar_stored = format_rfc3339 (s_stored_at a), ar_xref = s_xref a, ar_bytes = s_bytes a\<rparr>)
           (recent_articles k s)))"

text \<open>\<open>None\<close> is a body that does not end; \<open>display_ends\<close> excludes it.\<close>

definition article_get :: "mime_env \<Rightarrow> string \<Rightarrow> memory \<Rightarrow> desk_reply option" where
  "article_get me id0 s =
     (let m = trim_space id0 in
      if m = [] then Some (Desk_Bad ''id required'')
      else case get_by_msgid m s of
        None \<Rightarrow> Some Desk_Missing
      | Some a \<Rightarrow> map_option (\<lambda>b. Desk_Article (s_msgid a) (decode_header_block me (s_headers a)) b
            (decode_words me (s_subject a)) (decode_words me (s_from a))) (body_for_display me (s_headers a) (s_body a)))"

section \<open>Purging\<close>

definition purge_office :: "office \<Rightarrow> office \<times> purge_result" where
  "purge_office w =
     (case purge_unwanted (of_store w) of
        (s, res) \<Rightarrow>
          ((with_memory s w)\<lparr>of_files := map_option (scrub (of_root w) (pu_groups res) (pu_cross res) (pu_msgids res)) (of_files w)\<rparr>,
           res))"

definition ban_post :: "string option \<Rightarrow> office \<Rightarrow> office \<times> desk_reply" where
  "ban_post i w =
     (case i of
        None \<Rightarrow> (w, Desk_Bad_Json)
      | Some pattern \<Rightarrow>
          (case add_group_ban pattern (of_store w) of
             (s, Some err) \<Rightarrow> (with_memory s w, Desk_Refused err)
           | (s, None) \<Rightarrow> (case purge_office (with_memory s w) of (w1, res) \<Rightarrow> (w1, Desk_Removed (pu_articles res)))))"

definition ban_delete :: "string \<Rightarrow> office \<Rightarrow> office \<times> desk_reply" where
  "ban_delete pattern w =
     (case delete_group_ban pattern (of_store w) of
        (s, Some err) \<Rightarrow> (with_memory s w, Desk_Failed err)
      | (s, None) \<Rightarrow> (with_memory s w, Desk_Ok pattern))"

definition alerts_get :: "string \<Rightarrow> memory \<Rightarrow> desk_reply" where
  "alerts_get status s = Desk_Alerts (list_group_alerts (if status = [] then ''open'' else status) s)"

definition alerts_post :: "(int \<times> string) option \<Rightarrow> office \<Rightarrow> office \<times> desk_reply" where
  "alerts_post i w =
     (case i of
        None \<Rightarrow> (w, Desk_Bad_Json)
      | Some (k, act) \<Rightarrow>
          if k \<le> 0 \<or> trim_space act = [] then (w, Desk_Bad ''id and action required'')
          else case resolve_group_alert k act (of_store w) of
            (s, Some err) \<Rightarrow> (with_memory s w, Desk_Refused err)
          | (s, None) \<Rightarrow>
              if equal_fold (trim_space act) ''block''
              then (case purge_office (with_memory s w) of (w1, res) \<Rightarrow> (w1, Desk_Removed (pu_articles res)))
              else (with_memory s w, Desk_Removed 0))"

section \<open>Moderators and mail\<close>

definition rules_post :: "(string \<times> string) option \<Rightarrow> office \<Rightarrow> office \<times> desk_reply" where
  "rules_post i w =
     (case i of
        None \<Rightarrow> (w, Desk_Bad_Json)
      | Some (pattern, address) \<Rightarrow>
          (case add_moderator_rule pattern address (of_store w) of
             Inl err \<Rightarrow> (w, Desk_Refused err) | Inr s \<Rightarrow> (with_memory s w, Desk_Ok ''added'')))"

definition rules_delete :: "string \<Rightarrow> office \<Rightarrow> office \<times> desk_reply" where
  "rules_delete pattern w =
     (case delete_moderator_rule pattern (of_store w) of
        Inl err \<Rightarrow> (w, Desk_Refused err) | Inr s \<Rightarrow> (with_memory s w, Desk_Ok pattern))"

definition mail_view_of :: "config \<Rightarrow> memory \<Rightarrow> mail_view" where
  "mail_view_of cfg s =
     (let m = load_mail s cfg
      in \<lparr>mv_host = mail_host m, mv_port = mail_port m, mv_username = mail_user m,
          mv_password_set = (mail_pass m \<noteq> []), mv_from = mail_from m, mv_security = mail_security m,
          mv_saved = snd (get_mail_settings s)\<rparr>)"

record mail_input =
  mi_settings :: mail_settings
  mi_clear :: bool

definition mail_put :: "config \<Rightarrow> mail_input option \<Rightarrow> office \<Rightarrow> office \<times> desk_reply" where
  "mail_put cfg j w =
     (case j of
        None \<Rightarrow> (w, Desk_Bad_Json)
      | Some i \<Rightarrow>
          let given = mail_pass (mi_settings i);
              password = (if given \<noteq> [] then given else if mi_clear i then [] else mail_pass (load_mail (of_store w) cfg));
              new = normalize_mail ((mi_settings i)\<lparr>mail_pass := password\<rparr>) in
          if mail_host new \<noteq> [] \<and> trim_space (mail_from new) = [] then (w, Desk_Bad ''from address is required'')
          else case validate_mail new of
            Some err \<Rightarrow> (w, Desk_Mail_Refused err)
          | None \<Rightarrow>
              (case save_mail_settings new (of_store w) of
                 Inl err \<Rightarrow> (w, Desk_Refused err)
               | Inr s \<Rightarrow> (with_memory s w, Desk_Mail (mail_view_of cfg s))))"

definition mail_test :: "desk_env \<Rightarrow> string option \<Rightarrow> office \<Rightarrow> office \<times> desk_reply" where
  "mail_test e i w =
     (case i of
        None \<Rightarrow> (w, Desk_Bad_Json)
      | Some to0 \<Rightarrow>
          (case envelope (trim_space to0) of
             Inl err \<Rightarrow> (w, Desk_Bad ''recipient must be an email address'')
           | Inr _ \<Rightarrow>
               let m = load_mail (of_store w) (de_cfg e) in
               if mail_host m = [] then (w, Desk_Bad ''mail server is not configured'')
               else case send_mail m \<lparr>mail_to = [trim_space to0], mail_cc = [], mail_subject = ''OpenUsenetServer test'',
                   mail_body = ''This is a test message from '' @ sv_hostname (cf_server (de_cfg e)) @ ''.'' @ CRLF\<rparr> of
                 Inl err \<Rightarrow> (w, Desk_Mail_Refused err)
               | Inr d \<Rightarrow>
                   (case e_smtp (de_session e) d of
                      Some err \<Rightarrow> (w, Desk_Not_Sent err)
                    | None \<Rightarrow> (w\<lparr>of_mails := of_mails w @ [d]\<rparr>, Desk_Ok ''sent''))))"

section \<open>Our side for a peer\<close>

definition our_side_get :: "config \<Rightarrow> string \<Rightarrow> string \<Rightarrow> string \<Rightarrow> string \<Rightarrow> desk_reply" where
  "our_side_get cfg patterns dists flags port =
     (let xo = \<lparr>xo_patterns = patterns, xo_dists = dists, xo_flags = flags, xo_port = (if port = [] then 0 else atoi_value port),
                xo_pathhost = [], xo_password = []\<rparr>
      in Desk_Our_Side xo (our_side_snippets cfg xo))"

definition our_side_post :: "config \<Rightarrow> export_opts option \<Rightarrow> desk_reply" where
  "our_side_post cfg i = (case i of None \<Rightarrow> Desk_Bad_Json | Some xo \<Rightarrow> Desk_Our_Side xo (our_side_snippets cfg xo))"

text \<open>How the status page shows the address of the database.\<close>

definition redact_url :: "string \<Rightarrow> string" where
  "redact_url s =
     (case cut s ''://'' of (scheme, rest, ok) \<Rightarrow>
        if \<not> ok then s
        else case cut rest ''@'' of (userinfo, addr, ok2) \<Rightarrow>
          if \<not> ok2 then s
          else case cut userinfo '':'' of (user, _, has_pass) \<Rightarrow>
            scheme @ ''://'' @ (if has_pass then user @ '':'' else userinfo) @ ''@'' @ addr)"

section \<open>The status page\<close>

text \<open>\<open>de_dial\<close> yields the error of dialling or reading, or what the peer sends first.\<close>

definition ping_nntp :: "(string \<Rightarrow> string + string) \<Rightarrow> string \<Rightarrow> bool \<times> string" where
  "ping_nntp dial addr =
     (case dial addr of
        Inl err \<Rightarrow> (False, err)
      | Inr line \<Rightarrow>
          if length line < 3 \<or> take 3 line \<noteq> ''200'' \<and> take 3 line \<noteq> ''201'' then (False, trim_space line)
          else (True, []))"

definition peer_stat_of :: "(string \<Rightarrow> string + string) \<Rightarrow> peer \<Rightarrow> peer_stat" where
  "peer_stat_of dial p =
     (let (up, err) = (if p_enabled p then ping_nntp dial (peer_addr p) else (False, []))
      in \<lparr>pz_id = p_id p, pz_name = p_name p, pz_host = p_host p, pz_incoming = p_incoming p, pz_port = p_port p, pz_up = up,
          pz_error = err, pz_notes = p_notes p, pz_enabled = p_enabled p, pz_has_pass = (trim_space (p_in_password p) \<noteq> [])\<rparr>)"

definition status_get :: "int \<Rightarrow> desk_env \<Rightarrow> office \<Rightarrow> status_page" where
  "status_get now e w =
     (let s = of_store w; cfg = de_cfg e; ps = list_peers s; hosts = peer_ihave_hosts ps
      in \<lparr>sp_groups = count_groups s, sp_articles = count_articles s, sp_peers = ps,
          sp_stats = map (peer_stat_of (de_dial e)) ps, sp_queue = feed_queue_stats now s,
          sp_postgres = redact_url (cf_postgres cfg), sp_alerts = length (list_group_alerts ''open'' s), sp_ops = of_ctl w,
          sp_open = inbound_open (cf_inbound cfg), sp_rules = effective_rules (cf_inbound cfg) hosts, sp_hosts = hosts,
          sp_our_side = our_side_snippets cfg \<lparr>xo_patterns = [], xo_dists = [], xo_flags = [], xo_port = 0,
            xo_pathhost = [], xo_password = []\<rparr>\<rparr>)"

section \<open>Operations\<close>

record ops_input =
  oi_action :: string
  oi_reason :: string
  oi_message :: string
  oi_enabled :: "bool option"
  oi_peer :: int
  oi_msgid :: string
  oi_group :: string
  oi_status :: string

definition moved :: "(controller \<Rightarrow> controller) \<Rightarrow> office \<Rightarrow> office \<times> desk_reply" where
  "moved f w = (w\<lparr>of_ctl := f (of_ctl w)\<rparr>, Desk_Ops (f (of_ctl w)))"

definition ops_expire :: "int \<Rightarrow> config \<Rightarrow> office \<Rightarrow> office \<times> desk_reply" where
  "ops_expire now cfg w =
     (case purge_office w of
        (w1, _) \<Rightarrow>
          (case expire now (rt_history (cf_retention cfg)) (of_store w1) of
             (s, res) \<Rightarrow>
               let c = note_expire now res (of_ctl w1)
               in ((with_memory s w1)\<lparr>of_ctl := c\<rparr>, Desk_Expired res c)))"

definition ops_message :: "(string \<Rightarrow> memory \<Rightarrow> memory \<times> desk_reply) \<Rightarrow> string \<Rightarrow> office \<Rightarrow> office \<times> desk_reply" where
  "ops_message f m0 w =
     (let m = trim_space m0 in
      if \<not> valid_message_id m then (w, Desk_Bad ''valid message_id required'')
      else case f m (of_store w) of (s, rep) \<Rightarrow> (with_memory s w, rep))"

definition ops_rmgroup :: "string \<Rightarrow> office \<Rightarrow> office \<times> desk_reply" where
  "ops_rmgroup g0 w =
     (let g = trim_space g0 in
      if \<not> valid_group_name g then (w, Desk_Bad ''invalid group'')
      else case delete_group g (of_store w) of
        (s, Some err) \<Rightarrow> (with_memory s w, Desk_Failed err)
      | (s, None) \<Rightarrow> (with_memory s w, Desk_Ok g))"

definition ops_changegroup :: "int \<Rightarrow> string \<Rightarrow> string \<Rightarrow> office \<Rightarrow> office \<times> desk_reply" where
  "ops_changegroup now g0 st0 w =
     (let g = trim_space g0; st = trim_space st0 in
      if \<not> valid_group_name g \<or> st \<noteq> ''y'' \<and> st \<noteq> ''n'' \<and> st \<noteq> ''m'' then (w, Desk_Bad ''group and status y|n|m required'')
      else (with_memory (ensure_group now g [] st (of_store w)) w, Desk_Ok g))"

definition ops_post :: "int \<Rightarrow> config \<Rightarrow> ops_input option \<Rightarrow> office \<Rightarrow> office \<times> desk_reply" where
  "ops_post now cfg j w =
     (case j of
        None \<Rightarrow> (w, Desk_Bad_Json)
      | Some i \<Rightarrow>
          let act = to_lower (trim_space (oi_action i));
              on = (case oi_enabled i of None \<Rightarrow> True | Some b \<Rightarrow> b) in
          if act = ''pause'' then moved (pause now (oi_reason i) ''admin'') w
          else if act = ''throttle'' then moved (throttle now (oi_reason i) ''admin'') w
          else if act = ''go'' \<or> act = ''resume'' then moved (go_on now ''admin'') w
          else if act = ''readers'' then moved (set_readers on (oi_message i)) w
          else if act = ''peers'' then moved (set_peers on (oi_message i)) w
          else if act = ''watchdog'' then moved (set_watchdog on) w
          else if act = ''expire'' then ops_expire now cfg w
          else if act = ''cancel'' then
            ops_message (\<lambda>m s. case cancel_message_id now m s of (t, existed) \<Rightarrow> (t, Desk_Existed existed)) (oi_msgid i) w
          else if act = ''remember'' then ops_message (\<lambda>m s. (remember_message_id now m s, Desk_Ok m)) (oi_msgid i) w
          else if act = ''flush_feed'' then
            (case flush_feed_queue (oi_peer i) (of_store w) of (s, n) \<Rightarrow> (with_memory s w, Desk_Flushed n))
          else if act = ''rmgroup'' then ops_rmgroup (oi_group i) w
          else if act = ''changegroup'' then ops_changegroup now (oi_group i) (oi_status i) w
          else (w, Desk_Bad ''unknown action''))"

definition isc_post :: "int \<Rightarrow> desk_env \<Rightarrow> office \<Rightarrow> office \<times> desk_reply" where
  "isc_post now e w =
     (case load_isc (de_http e) (de_gunzip e) (cf_isc_url (de_cfg e)) now (of_store w) of
        (s, None) \<Rightarrow> (with_memory s w, Desk_Fetch_Failed)
      | (s, Some n) \<Rightarrow> (with_memory s w, Desk_Loaded n))"

section \<open>The reader at the desk\<close>

text \<open>The reader works on the portal's store; what it files goes to the archive.\<close>

definition portal_of :: "office \<Rightarrow> portal" where
  "portal_of w = \<lparr>po_store = of_store w, po_mails = of_mails w, po_mbox = map_option (\<lambda>_. []) (of_files w), po_offers = of_offers w\<rparr>"

fun append_filed :: "string \<Rightarrow> int \<Rightarrow> (string \<times> article) list \<Rightarrow> file_system \<Rightarrow> file_system \<times> bool" where
  "append_filed dir now [] fs = (fs, True)"
| "append_filed dir now ((g, a) # l) fs =
     (case mbox_append dir g a now fs of None \<Rightarrow> (fs, False) | Some (fs1, _, _) \<Rightarrow> append_filed dir now l fs1)"

text \<open>A panic while the archive is written ends the request before the article is offered to the peers.\<close>

definition reader_desk :: "int \<Rightarrow> desk_env \<Rightarrow> reader_request \<Rightarrow> user \<Rightarrow> office \<Rightarrow> office \<times> reader_reply" where
  "reader_desk now e r u w =
     (case reader_handler (de_session e) (de_mime e) now (of_ctl w) r u (portal_of w) of
        (p, rep) \<Rightarrow>
          let w1 = (with_memory (po_store p) w)\<lparr>of_mails := po_mails p\<rparr> in
          (case (of_files w, po_mbox p) of
             (Some fs, Some l) \<Rightarrow>
               (case append_filed (of_root w) now l fs of
                  (fs1, True) \<Rightarrow> (w1\<lparr>of_files := Some fs1, of_offers := po_offers p\<rparr>, rep)
                | (fs1, False) \<Rightarrow> (w1\<lparr>of_files := Some fs1\<rparr>, Crashed))
           | _ \<Rightarrow> (w1\<lparr>of_offers := po_offers p\<rparr>, rep)))"

section \<open>Routes\<close>

datatype office_request =
    Account account_request
  | Read_Web reader_request
  | Bans_Get | Bans_Post "string option" | Bans_Delete string
  | Groups_Get string bool string | Groups_Post "(string \<times> string \<times> string) option"
  | Status_Get | Articles_Get string | Article_Get string
  | Isc_Post
  | Peers_Get string | Peers_Post "peer option" | Peers_Patch "peer option" | Peers_Delete string
  | Peers_Import "import_input option"
  | Our_Side_Get string string string string | Our_Side_Post "export_opts option"
  | Mail_Get | Mail_Put "mail_input option" | Mail_Test "string option"
  | Rules_Get | Rules_Post "(string \<times> string) option" | Rules_Delete string
  | Alerts_Get string | Alerts_Post "(int \<times> string) option"
  | Ops_Get | Ops_Post "ops_input option"

datatype office_reply =
    Turned_Away nat web_error | Account_Reply reply | Reader_Reply reader_reply | Peer_Reply peer_reply
  | Desk_Reply desk_reply | Unfinished

definition guarded ::
    "desk_env \<Rightarrow> int \<Rightarrow> bool \<Rightarrow> string \<Rightarrow> (user \<Rightarrow> office \<Rightarrow> office \<times> office_reply) \<Rightarrow> request \<Rightarrow> office \<Rightarrow> office \<times> office_reply" where
  "guarded e now admin_only path handler r w =
     (case authorize (de_web e) now admin_only (r\<lparr>rq_path := path\<rparr>) (of_web w) of
        (v, Inl (code, err)) \<Rightarrow> (w\<lparr>of_web := v\<rparr>, Turned_Away code err)
      | (v, Inr u) \<Rightarrow> handler u (w\<lparr>of_web := v\<rparr>))"

definition desk_part :: "(office \<Rightarrow> office \<times> desk_reply) \<Rightarrow> user \<Rightarrow> office \<Rightarrow> office \<times> office_reply" where
  "desk_part f u w = (case f w of (w1, rep) \<Rightarrow> (w1, Desk_Reply rep))"

definition desk_page :: "(memory \<Rightarrow> desk_reply) \<Rightarrow> user \<Rightarrow> office \<Rightarrow> office \<times> office_reply" where
  "desk_page f u w = (w, Desk_Reply (f (of_store w)))"

definition peer_part :: "(memory \<Rightarrow> memory \<times> peer_reply) \<Rightarrow> user \<Rightarrow> office \<Rightarrow> office \<times> office_reply" where
  "peer_part f u w = (case f (of_store w) of (s, rep) \<Rightarrow> (with_memory s w, Peer_Reply rep))"

definition office_handler :: "desk_env \<Rightarrow> int \<Rightarrow> office_request \<Rightarrow> request \<Rightarrow> office \<Rightarrow> office \<times> office_reply" where
  "office_handler e now q r w =
     (let admin = guarded e now True; anyone = guarded e now False in
      case q of
        Account a \<Rightarrow> (case account_handler (de_web e) now a r (of_web w) of (v, rep) \<Rightarrow> (w\<lparr>of_web := v\<rparr>, Account_Reply rep))
      | Read_Web rr \<Rightarrow>
          if \<not> has_prefix (rr_path rr) ''/api/reader/'' then (w, Desk_Reply Desk_Missing)
          else anyone (rr_path rr) (\<lambda>u w. case reader_desk now e rr u w of (w1, rep) \<Rightarrow> (w1, Reader_Reply rep)) r w
      | Bans_Get \<Rightarrow> admin ''/api/group-bans'' (desk_page (\<lambda>s. Desk_Patterns (list_group_bans s))) r w
      | Bans_Post i \<Rightarrow> admin ''/api/group-bans'' (desk_part (ban_post i)) r w
      | Bans_Delete p \<Rightarrow> admin ''/api/group-bans'' (desk_part (ban_delete p)) r w
      | Groups_Get query busy count \<Rightarrow>
          admin ''/api/groups'' (desk_page (\<lambda>s. Desk_Groups (search_groups query busy (atoi_value count) s))) r w
      | Groups_Post i \<Rightarrow> admin ''/api/groups'' (desk_part (groups_post now i)) r w
      | Status_Get \<Rightarrow> anyone ''/api/status'' (\<lambda>u w. (w, Desk_Reply (Desk_Status (status_get now e w)))) r w
      | Articles_Get count \<Rightarrow> anyone ''/api/articles'' (desk_page (articles_get (de_mime e) count)) r w
      | Article_Get m \<Rightarrow>
          anyone ''/api/article'' (\<lambda>u w. (w, case article_get (de_mime e) m (of_store w) of
            None \<Rightarrow> Unfinished | Some rep \<Rightarrow> Desk_Reply rep)) r w
      | Isc_Post \<Rightarrow> admin ''/api/isc'' (desk_part (isc_post now e)) r w
      | Peers_Get k \<Rightarrow> admin ''/api/peers'' (\<lambda>u w. (w, Peer_Reply (peers_get (de_sha e) (de_cfg e) k (of_store w)))) r w
      | Peers_Post i \<Rightarrow> admin ''/api/peers'' (peer_part (peers_post (de_sha e) (de_cfg e) now i)) r w
      | Peers_Patch i \<Rightarrow> admin ''/api/peers'' (peer_part (peers_patch (de_sha e) (de_cfg e) i)) r w
      | Peers_Delete k \<Rightarrow> admin ''/api/peers'' (peer_part (peers_delete k)) r w
      | Peers_Import i \<Rightarrow> admin ''/api/peers/import-inn'' (peer_part (peers_import now i)) r w
      | Our_Side_Get patterns dists flags port \<Rightarrow>
          admin ''/api/peers/our-side'' (desk_page (\<lambda>s. our_side_get (de_cfg e) patterns dists flags port)) r w
      | Our_Side_Post i \<Rightarrow> admin ''/api/peers/our-side'' (desk_page (\<lambda>s. our_side_post (de_cfg e) i)) r w
      | Mail_Get \<Rightarrow> admin ''/api/mail'' (desk_page (\<lambda>s. Desk_Mail (mail_view_of (de_cfg e) s))) r w
      | Mail_Put i \<Rightarrow> admin ''/api/mail'' (desk_part (mail_put (de_cfg e) i)) r w
      | Mail_Test i \<Rightarrow> admin ''/api/mail/test'' (desk_part (mail_test e i)) r w
      | Rules_Get \<Rightarrow> admin ''/api/moderators'' (desk_page (\<lambda>s. Desk_Rules (list_moderator_rules s) default_address)) r w
      | Rules_Post i \<Rightarrow> admin ''/api/moderators'' (desk_part (rules_post i)) r w
      | Rules_Delete p \<Rightarrow> admin ''/api/moderators'' (desk_part (rules_delete p)) r w
      | Alerts_Get status \<Rightarrow> admin ''/api/alerts'' (desk_page (alerts_get status)) r w
      | Alerts_Post i \<Rightarrow> admin ''/api/alerts'' (desk_part (alerts_post i)) r w
      | Ops_Get \<Rightarrow> admin ''/api/ops'' (\<lambda>u w. (w, Desk_Reply (Desk_Ops (of_ctl w)))) r w
      | Ops_Post i \<Rightarrow> admin ''/api/ops'' (desk_part (ops_post now (de_cfg e) i)) r w)"

end
