(* ===== verification/DeskLaws.thy ===== *)
theory DeskLaws
  imports Desk ReaderLaws DisplayLaws AccountsLaws StoreRetention
begin

text \<open>
  The administrator's desk: nothing that belongs to it changes unless an administrator asked, an ignored group is gone from
  the store and the archive, and saving the mail settings as they are shown changes nothing.
\<close>

section \<open>Whose the desk is\<close>

text \<open>The gates, the peers, the ignored groups, the moderators, the mail settings and which groups there are.\<close>

definition settings :: "memory \<Rightarrow> ((int \<times> peer) list \<times> int) \<times> string list \<times> moderator_rule list \<times> bool \<times> mail_settings \<times> string list" where
  "settings s = ((m_peers s, m_next_pid s), m_bans s, m_mod_rules s, m_mail_saved s, m_mail s, map fst (m_groups s))"

definition desk_state where
  "desk_state w = (of_ctl w, settings (of_store w))"

lemma settings_fields [simp]:
  "settings (s\<lparr>m_users := a\<rparr>) = settings s" "settings (s\<lparr>m_next_uid := b\<rparr>) = settings s"
  "settings (s\<lparr>m_secrets := c\<rparr>) = settings s" "settings (put_user n u s) = settings s"
  by (simp_all add: settings_def put_user_def)

lemma settings_same: "admin_part t = admin_part s \<Longrightarrow> map fst (m_groups t) = map fst (m_groups s) \<Longrightarrow> settings t = settings s"
  by (simp add: settings_def admin_part_def)

section \<open>Accounts do not touch it\<close>

lemma account_ops_settings:
  "create_user now u s = Inr (t, v) \<Longrightarrow> settings t = settings s"
  "update_profile n d m s = Inr t \<Longrightarrow> settings t = settings s"
  "change_password n h s = Inr (t, v) \<Longrightarrow> settings t = settings s"
  "update_user n r cp ds h s = Inr t \<Longrightarrow> settings t = settings s"
  "delete_user n s = Inr t \<Longrightarrow> settings t = settings s"
  by (auto simp: create_user_def update_profile_def change_password_def update_user_def delete_user_def Let_def
      settings_def put_user_def split: if_splits option.splits)

lemma signer_settings: "signer_for e w = Some (w1, k) \<Longrightarrow> settings (w_store w1) = settings (w_store w)"
  by (auto simp: signer_for_def get_or_create_secret_def split: option.splits)

lemma current_settings: "current_user e now r w = (w1, v) \<Longrightarrow> settings (w_store w1) = settings (w_store w)"
  by (auto simp: current_user_def read_cookie_def dest: signer_settings split: option.splits prod.splits)

lemma reply_settings: "reply_with_session e now r u rem w = (w1, rep) \<Longrightarrow> settings (w_store w1) = settings (w_store w)"
  by (auto simp: reply_with_session_def session_cookie_def Let_def dest: signer_settings split: option.splits prod.splits)

lemma authorize_settings: "authorize e now adm r w = (w1, x) \<Longrightarrow> settings (w_store w1) = settings (w_store w)"
  by (auto simp: authorize_def dest: current_settings split: if_splits option.splits prod.splits)

lemma auth_settings:
  assumes "with_auth e now adm h r w = (w', rep)"
    and "\<And>u v w1 z. h u v = (w1, z) \<Longrightarrow> settings (w_store w1) = settings (w_store v)"
  shows "settings (w_store w') = settings (w_store w)"
  using assms by (auto simp: with_auth_def split: prod.splits sum.splits dest!: authorize_settings)

lemma account_handler_settings:
  assumes "account_handler e now q r w = (w', rep)"
  shows "settings (w_store w') = settings (w_store w)"
proof (cases q)
  case (Setup_Post i)
  then show ?thesis using assms
    by (auto simp: account_handler_def setup_post_def split: if_splits option.splits sum.splits prod.splits
        dest!: reply_settings account_ops_settings)
next
  case (Login_Post i)
  then show ?thesis using assms
    by (auto simp: account_handler_def login_post_def split: if_splits option.splits prod.splits dest!: reply_settings)
next
  case Logout
  then show ?thesis using assms by (simp add: account_handler_def logout_def)
next
  case (Me_Patch i)
  then show ?thesis using assms
    by (auto simp: account_handler_def me_patch_def Let_def split: if_splits option.splits sum.splits prod.splits
        dest!: current_settings account_ops_settings)
next
  case (Password_Post i)
  have "settings (w_store w1) = settings (w_store v)" if "change_own_password e now i r u v = (w1, z)" for u v w1 z
    using that by (auto simp: change_own_password_def split: if_splits option.splits sum.splits prod.splits
        dest!: reply_settings account_ops_settings)
  then show ?thesis using assms Password_Post by (auto simp: account_handler_def dest!: auth_settings)
next
  case Users_Get
  have "settings (w_store w1) = settings (w_store v)" if "users_get u v = (w1, z)" for u v w1 z
    using that by (auto simp: users_get_def)
  then show ?thesis using assms Users_Get by (auto simp: account_handler_def dest!: auth_settings)
next
  case (Users_Post i)
  have "settings (w_store w1) = settings (w_store v)" if "users_post e now i u v = (w1, z)" for u v w1 z
    using that by (auto simp: users_post_def Let_def split: option.splits sum.splits prod.splits dest!: account_ops_settings)
  then show ?thesis using assms Users_Post by (auto simp: account_handler_def dest!: auth_settings)
next
  case (Users_Patch i)
  have "settings (w_store w1) = settings (w_store v)" if "users_patch e i u v = (w1, z)" for u v w1 z
    using that by (auto simp: users_patch_def Let_def split: if_splits option.splits sum.splits prod.splits dest!: account_ops_settings)
  then show ?thesis using assms Users_Patch by (auto simp: account_handler_def dest!: auth_settings)
next
  case (Users_Delete n)
  have "settings (w_store w1) = settings (w_store v)" if "users_delete n u v = (w1, z)" for u v w1 z
    using that by (auto simp: users_delete_def split: if_splits sum.splits dest!: account_ops_settings)
  then show ?thesis using assms Users_Delete by (auto simp: account_handler_def dest!: auth_settings)
qed

section \<open>Readers do not touch it\<close>

lemma reader_post_groups: "reader_post e now c r u p = (q, rep) \<Longrightarrow> map fst (m_groups (po_store q)) = map fst (m_groups (po_store p))"
proof -
  assume a: "reader_post e now c r u p = (q, rep)"
  have "map fst (m_groups (po_store (fst (accept_post e now i v p)))) = map fst (m_groups (po_store p))" for i v
    by (rule group_names.accepted)
  then show ?thesis using a unfolding reader_post_def Let_def
    by (auto split: if_splits option.splits prod.splits sum.splits) (metis fst_conv)+
qed

lemma reader_settings:
  assumes "reader_handler e me now c r u p = (q, rep)"
  shows "settings (po_store q) = settings (po_store p)"
proof (cases "reader_path (rr_path r) = ''/post'' \<and> rr_method r = ''POST''")
  case True
  then have "reader_post e now c r u p = (q, rep)" using assms by (simp add: reader_handler_def)
  then show ?thesis using post_marks reader_post_groups by (intro settings_same) (auto simp: own_marks_def)
next
  case False
  have "quiet u p q" by (rule quiet_handler[OF assms False])
  then show ?thesis by (auto simp: quiet_def own_marks_def intro: settings_same)
qed

lemma reader_desk_state: "reader_desk now e r u w = (w', rep) \<Longrightarrow> desk_state w' = desk_state w"
proof -
  assume a: "reader_desk now e r u w = (w', rep)"
  obtain p z where h: "reader_handler (de_session e) (de_mime e) now (of_ctl w) r u (portal_of w) = (p, z)" by fastforce
  have "settings (po_store p) = settings (of_store w)" using reader_settings[OF h] by (simp add: portal_of_def)
  then show ?thesis using a h
    by (auto simp: reader_desk_def Let_def desk_state_def with_memory_def split: option.splits prod.splits bool.splits)
qed

section \<open>The guard\<close>

lemma guarded_cases:
  assumes "guarded e now adm path h r w = (w', rep)"
  shows "desk_state w' = desk_state w
    \<or> (\<exists>u v. made_by (de_web e) now r (of_web w) u \<and> (adm \<longrightarrow> is_admin u)
          \<and> desk_state (w\<lparr>of_web := v\<rparr>) = desk_state w \<and> h u (w\<lparr>of_web := v\<rparr>) = (w', rep))"
proof -
  obtain v x where a: "authorize (de_web e) now adm (r\<lparr>rq_path := path\<rparr>) (of_web w) = (v, x)" by fastforce
  have s: "desk_state (w\<lparr>of_web := v\<rparr>) = desk_state w" using authorize_settings[OF a] by (simp add: desk_state_def)
  show ?thesis
  proof (cases x)
    case (Inl l)
    then show ?thesis using assms a s by (cases l) (simp add: guarded_def)
  next
    case (Inr u)
    have "made_by (de_web e) now (r\<lparr>rq_path := path\<rparr>) (of_web w) u \<and> (adm \<longrightarrow> is_admin u)"
      using authorize_cases(3)[OF a Inr] by blast
    then have "made_by (de_web e) now r (of_web w) u \<and> (adm \<longrightarrow> is_admin u)" by (simp add: made_by_def)
    moreover have "h u (w\<lparr>of_web := v\<rparr>) = (w', rep)" using assms a Inr by (simp add: guarded_def)
    ultimately show ?thesis using s by blast
  qed
qed

text \<open>C20: The gates, the peers, the ignored groups, the moderators, the mail settings and the list of groups change only at
  the request of an administrator: whatever is asked of the portal, if one of them changed, the request carried a valid
  session of an enabled account that is an administrator.\<close>

theorem desk_guarded:
  assumes "office_handler e now q r w = (w', rep)" "desk_state w' \<noteq> desk_state w"
  shows "\<exists>u. made_by (de_web e) now r (of_web w) u \<and> is_admin u \<and> \<not> u_disabled u"
proof -
  have admin: ?thesis if "guarded e now True path h r w = (w', rep)" for path h
    using guarded_cases[OF that] assms(2) made_by_id by blast
  have page: "desk_state w' = desk_state w" if "guarded e now adm path h r w = (w', rep)" "\<And>u v y z. h u v = (y, z) \<Longrightarrow> desk_state y = desk_state v"
    for adm path h using guarded_cases[OF that(1)] that(2) by metis
  show ?thesis
  proof (cases q)
    case (Account a)
    then have "desk_state w' = desk_state w" using assms(1)
      by (auto simp: office_handler_def desk_state_def split: prod.splits dest: account_handler_settings)
    then show ?thesis using assms(2) by simp
  next
    case (Read_Web rr)
    have "desk_state y = desk_state v" if "(case reader_desk now e rr u v of (w1, rep) \<Rightarrow> (w1, Reader_Reply rep)) = (y, z)" for u v y z
      using that by (auto split: prod.splits dest: reader_desk_state)
    then have "desk_state w' = desk_state w" using assms(1) Read_Web
      by (auto simp: office_handler_def split: if_splits dest!: page)
    then show ?thesis using assms(2) by simp
  next
    case Status_Get
    have "desk_state w' = desk_state w"
      by (rule page[of False "''/api/status''" "\<lambda>u w. (w, Desk_Reply (Desk_Status (status_get now e w)))"])
        (use assms(1) Status_Get in \<open>simp_all add: office_handler_def\<close>)
    then show ?thesis using assms(2) by simp
  next
    case (Articles_Get k)
    have "desk_state w' = desk_state w"
      by (rule page[of False "''/api/articles''" "desk_page (articles_get (de_mime e) k)"])
        (use assms(1) Articles_Get in \<open>simp_all add: office_handler_def desk_page_def\<close>)
    then show ?thesis using assms(2) by simp
  next
    case (Article_Get m)
    have "desk_state w' = desk_state w"
      by (rule page[of False "''/api/article''" "\<lambda>u w. (w, case article_get (de_mime e) m (of_store w) of
            None \<Rightarrow> Unfinished | Some rep \<Rightarrow> Desk_Reply rep)"])
        (use assms(1) Article_Get in \<open>simp_all add: office_handler_def\<close>)
    then show ?thesis using assms(2) by simp
  qed (use assms(1) admin in \<open>simp_all add: office_handler_def\<close>)
qed

definition demo_desk :: desk_env where
  "demo_desk = \<lparr>de_session = demo_env, de_mime = demo_mime, de_web = demo_web_env, de_http = (\<lambda>u. None), de_gunzip = Some, de_sha = (\<lambda>x. x),
     de_dial = (\<lambda>a. Inl ''refused'')\<rparr>"

definition demo_office :: office where
  "demo_office = \<lparr>of_web = demo_web, of_ctl = new_controller 0, of_root = ''/spool'', of_files = Some [], of_mails = [], of_offers = None\<rparr>"

definition throttle_input :: ops_input where
  "throttle_input = \<lparr>oi_action = ''throttle'', oi_reason = ''full'', oi_message = [], oi_enabled = None, oi_peer = 0, oi_msgid = [],
     oi_group = [], oi_status = []\<rparr>"

theorem desk_guarded_witness: "\<exists>u. made_by demo_web_env demo_now demo_request demo_web u \<and> is_admin u"
proof -
  have "to_lower (trim_space ''throttle'') = ''throttle''" by code_simp
  then have h: "office_handler demo_desk demo_now (Ops_Post (Some throttle_input)) demo_request demo_office
      = (demo_office\<lparr>of_ctl := throttle demo_now ''full'' ''admin'' (new_controller 0)\<rparr>,
         Desk_Reply (Desk_Ops (throttle demo_now ''full'' ''admin'' (new_controller 0))))"
    by (simp add: office_handler_def guarded_def demo_desk_def demo_office_def demo_authorize desk_part_def ops_post_def
        throttle_input_def moved_def)
  have "desk_state (demo_office\<lparr>of_ctl := throttle demo_now ''full'' ''admin'' (new_controller 0)\<rparr>) \<noteq> desk_state demo_office"
    by (simp add: desk_state_def demo_office_def throttle_def set_mode_def new_controller_def)
  from desk_guarded[OF h this] show ?thesis by (auto simp: demo_desk_def demo_office_def)
qed

section \<open>Ignored groups\<close>

lemma scrubbed_file_gone:
  assumes "g \<in> set gs" "dir \<noteq> []"
  shows "map_of (scrub dir gs rw ms fs) (path_for dir g) = None"
proof -
  let ?p = "path_for dir g"
  have keep: "map_of fs' ?p = None \<Longrightarrow> map_of (fold (\<lambda>h. AList.delete (path_for dir h)) hs fs') ?p = None" for hs fs'
    by (induction hs arbitrary: fs') (simp_all add: delete_conv')
  have gone: "g \<in> set hs \<Longrightarrow> map_of (fold (\<lambda>h. AList.delete (path_for dir h)) hs fs') ?p = None" for hs fs'
    by (induction hs arbitrary: fs') (auto simp: delete_conv' intro: keep)
  have rewritten: "map_of fs' ?p = None \<Longrightarrow> map_of (fold (\<lambda>h. rewrite_mbox ms (path_for dir h)) hs fs') ?p = None" for hs fs'
  proof (induction hs arbitrary: fs')
    case (Cons h hs)
    have "map_of (rewrite_mbox ms (path_for dir h) fs') ?p = None"
      using Cons.prems by (auto simp: rewrite_mbox_def map_of_update split: option.split)
    then show ?case using Cons.IH by simp
  qed simp
  show ?thesis using assms gone[OF assms(1), of fs] by (auto simp: scrub_def Let_def intro: rewritten)
qed

lemma block_group_keeps:
  "admin_part (block_group h s) = admin_part s" "map fst (m_groups (block_group h s)) = map fst (m_groups s)"
  by (auto simp: block_group_def desk.put_known group_names.put_known split: option.split)

lemma block_all:
  "admin_part (fold block_group hs s) = admin_part s" "map fst (m_groups (fold block_group hs s)) = map fst (m_groups s)"
  by (induction hs arbitrary: s) (simp_all add: block_group_keeps)

lemma block_all_bans: "m_bans (fold block_group hs s) = m_bans s"
  using block_all(1)[of hs s] by (simp add: admin_part_def)

lemma unfile_names: "map fst (m_groups (fold unfile_from gns s)) = map fst (m_groups s)"
proof -
  have "map fst (m_groups (unfile_from gn s)) = map fst (m_groups s)" for gn s
  proof -
    have "m_groups (drop_number (fst gn) (snd gn) s) = m_groups s" by (simp add: drop_number_def split: option.split)
    then show ?thesis
      by (cases gn) (auto simp: unfile_from_def Let_def group_names.put_known split: option.split)
  qed
  then show ?thesis by (induction gns arbitrary: s) simp_all
qed

lemma delete_article_keeps:
  "admin_part (fst (delete_article m s)) = admin_part s" "map fst (m_groups (fst (delete_article m s))) = map fst (m_groups s)"
  by (auto simp: delete_article_def Let_def admin_unfile unfile_names split: option.split)

lemma delete_all_keeps:
  "admin_part (fst (delete_all ms s)) = admin_part s" "map fst (m_groups (fst (delete_all ms s))) = map fst (m_groups s)"
  by (induction ms arbitrary: s) (simp_all add: Let_def case_prod_beta delete_article_keeps)

lemma purge_keeps:
  "admin_part (fst (purge_unwanted s)) = admin_part s" "map fst (m_groups (fst (purge_unwanted s))) = map fst (m_groups s)"
  by (simp_all add: purge_unwanted_def Let_def case_prod_beta delete_all_keeps block_all desk.retention_maps
      group_names.retention_maps)

lemma purge_bans: "m_bans (fst (purge_unwanted s)) = m_bans s"
  using purge_keeps(1)[of s] by (simp add: admin_part_def)

lemma ban_added: "add_group_ban p s = (t, None) \<Longrightarrow> trim_space p \<in> set (m_bans t) \<and> m_groups t = m_groups s"
  by (auto simp: add_group_ban_def Let_def split: if_splits)

lemma banned_purged:
  assumes "purge_unwanted s = (s', res)" "p \<in> set (m_bans s)" "group_matches [p] [g]" "grp s g \<noteq> None"
  shows "g \<in> set (pu_groups res)"
proof -
  let ?t = "fold block_group (blocked_by_alert s) (ensure_retention_maps s)"
  have "g \<in> set (map fst (m_groups s))" using assms(4) by (auto simp: grp_def dest!: map_of_SomeD intro: rev_image_eqI)
  also have "map fst (m_groups s) = map fst (m_groups ?t)" by (simp add: block_all ensure_retention_maps_def)
  finally obtain mg where "(g, mg) \<in> set (m_groups ?t)" by auto
  moreover have "p \<in> set (m_bans ?t)" using assms(2) by (simp add: block_all_bans ensure_retention_maps_def)
  ultimately have "g \<in> set (blocked_names ?t)" using assms(3)
    by (auto simp: blocked_names_def list_ex_iff intro!: rev_image_eqI[of "(g, mg)"])
  then show ?thesis using purge_unwanted_names[OF assms(1)] by simp
qed

lemma matches_member: "group_matches [p] gs \<Longrightarrow> p \<in> set ps \<Longrightarrow> group_matches ps gs"
  unfolding group_matches_def list_ex_iff by auto


definition ban_office :: office where
  "ban_office = demo_office\<lparr>of_web := \<lparr>w_store = fst (post_article 5 (demo_article ''<1@x>'' [''a'']) demo_group_store), w_signer = None\<rparr>\<rparr>"


section \<open>Mail settings\<close>

lemma security_fixed: "x \<in> {''auto'', ''starttls'', ''plain'', ''tls''} \<Longrightarrow> normalize_security x = x"
proof -
  have "list_all (\<lambda>x. normalize_security x = x) [''auto'', ''starttls'', ''plain'', ''tls'']" by code_simp
  then show "x \<in> {''auto'', ''starttls'', ''plain'', ''tls''} \<Longrightarrow> ?thesis" by auto
qed

lemma normalize_fixed:
  assumes "mail_security (normalize_mail m) \<in> {''auto'', ''starttls'', ''plain'', ''tls''}"
  shows "normalize_mail (normalize_mail m) = normalize_mail m"
proof -
  have s: "normalize_security (mail_security (normalize_mail m)) = mail_security (normalize_mail m)"
    by (rule security_fixed[OF assms])
  have "0 < mail_port (normalize_mail m)" by (simp add: normalize_mail_def Let_def default_mail_port_def)
  then show ?thesis using s unfolding normalize_mail_def[of "normalize_mail m"] Let_def
    by (simp add: normalize_mail_def Let_def)
qed

lemma load_mail_normal: "\<exists>m. load_mail s cfg = normalize_mail m"
  by (auto simp: load_mail_def prefer_saved_def split: prod.split)

definition shown_settings :: "mail_view \<Rightarrow> mail_settings" where
  "shown_settings v = \<lparr>mail_host = mv_host v, mail_port = mv_port v, mail_user = mv_username v, mail_pass = [], mail_from = mv_from v,
     mail_security = mv_security v\<rparr>"

text \<open>Saving the mail settings as the portal shows them, without a password, is accepted and changes nothing: what the
  server sends mail with is the same, the password included, and is shown the same, now as saved.\<close>

theorem mail_saved_as_shown:
  assumes "mail_security (load_mail (of_store w) cfg) \<in> {''auto'', ''starttls'', ''plain'', ''tls''}"
    and "validate_mail (load_mail (of_store w) cfg) = None"
    and "mail_host (load_mail (of_store w) cfg) = [] \<or> mail_from (load_mail (of_store w) cfg) \<noteq> []"
    and "v = mail_view_of cfg (of_store w)"
  shows "snd (mail_put cfg (Some \<lparr>mi_settings = shown_settings v, mi_clear = False\<rparr>) w) = Desk_Mail (v\<lparr>mv_saved := True\<rparr>)
    \<and> load_mail (of_store (fst (mail_put cfg (Some \<lparr>mi_settings = shown_settings v, mi_clear = False\<rparr>) w))) cfg
        = load_mail (of_store w) cfg"
proof -
  let ?l = "load_mail (of_store w) cfg"
  obtain m where m: "?l = normalize_mail m" using load_mail_normal by blast
  have n: "normalize_mail ?l = ?l" using normalize_fixed[of m] assms(1) unfolding m by simp
  have i: "(shown_settings v)\<lparr>mail_pass := mail_pass ?l\<rparr> = ?l"
    by (simp add: shown_settings_def assms(4) mail_view_of_def Let_def)
  have f: "mail_from ?l = trim_space (mail_from m)" by (simp add: m normalize_mail_def Let_def)
  have p: "mail_pass (shown_settings v) = []" by (simp add: shown_settings_def)
  have s: "save_mail_settings ?l (of_store w) = Inr ((of_store w)\<lparr>m_mail := ?l, m_mail_saved := True\<rparr>)"
    using assms(2) by (simp add: save_mail_settings_def Let_def n)
  have r: "mail_put cfg (Some \<lparr>mi_settings = shown_settings v, mi_clear = False\<rparr>) w
      = (with_memory ((of_store w)\<lparr>m_mail := ?l, m_mail_saved := True\<rparr>) w,
         Desk_Mail (mail_view_of cfg ((of_store w)\<lparr>m_mail := ?l, m_mail_saved := True\<rparr>)))"
    using assms(2,3) by (auto simp: mail_put_def Let_def i n p s f)
  have l: "load_mail ((of_store w)\<lparr>m_mail := ?l, m_mail_saved := True\<rparr>) cfg = ?l"
    by (simp add: load_mail_def[of "(of_store w)\<lparr>m_mail := ?l, m_mail_saved := True\<rparr>"] get_mail_settings_def prefer_saved_def n)
  have "mail_view_of cfg ((of_store w)\<lparr>m_mail := ?l, m_mail_saved := True\<rparr>) = v\<lparr>mv_saved := True\<rparr>"
    unfolding mail_view_of_def l assms(4) by (simp add: Let_def get_mail_settings_def)
  then show ?thesis unfolding r using l by (simp add: with_memory_def)
qed

definition sent_with :: mail_settings where
  "sent_with = \<lparr>mail_host = ''h'', mail_port = 25, mail_user = [], mail_pass = ''s'', mail_from = ''a@b'', mail_security = ''auto''\<rparr>"

definition mail_office :: office where
  "mail_office = with_memory (new_memory\<lparr>m_mail := sent_with, m_mail_saved := True\<rparr>) demo_office"

theorem mail_saved_as_shown_witness:
  "load_mail (of_store (fst (mail_put (e_cfg demo_env)
       (Some \<lparr>mi_settings = shown_settings (mail_view_of (e_cfg demo_env) (of_store mail_office)), mi_clear = False\<rparr>) mail_office)))
     (e_cfg demo_env) = sent_with"
proof -
  have n: "normalize_mail sent_with = sent_with" by code_simp
  have l: "load_mail (of_store mail_office) (e_cfg demo_env) = sent_with"
    by (simp add: load_mail_def get_mail_settings_def mail_office_def with_memory_def prefer_saved_def n)
  have v: "validate_mail sent_with = None" by code_simp
  show ?thesis
    using mail_saved_as_shown[of mail_office "e_cfg demo_env" "mail_view_of (e_cfg demo_env) (of_store mail_office)"] v
    by (simp add: l sent_with_def)
qed

section \<open>The address of the database\<close>

text \<open>What the status page keeps back, and what it does not: a password with an at sign, and the keyword form.\<close>

lemma redact_plain: "redact_url ''postgres://news:secret@db/usenet'' = ''postgres://news:@db/usenet''"
  by code_simp

lemma redact_leaks:
  "redact_url ''postgres://news:p@ssword@db/usenet'' = ''postgres://news:@ssword@db/usenet''"
  "redact_url ''host=db password=secret'' = ''host=db password=secret''"
  by code_simp+

section \<open>Passwords of the peers\<close>

text \<open>C39: The status page discloses the feed passwords: whoever is logged in, administrator or not, is sent every peer of
  the server with the passwords in both directions, which the page of the peers gives to administrators only.\<close>

theorem status_discloses_peers:
  assumes "authorize (de_web e) now False (r\<lparr>rq_path := ''/api/status''\<rparr>) (of_web w) = (v, Inr u)"
    and "p \<in> set (list_peers (of_store w))"
  shows "\<exists>pg. snd (office_handler e now Status_Get r w) = Desk_Reply (Desk_Status pg) \<and> p \<in> set (sp_peers pg)"
proof -
  have "m_peers (w_store v) = m_peers (of_store w)" using authorize_settings[OF assms(1)] by (simp add: settings_def)
  then have "list_peers (w_store v) = list_peers (of_store w)" by (simp add: list_peers_def)
  then show ?thesis using assms by (simp add: office_handler_def guarded_def status_get_def Let_def)
qed

definition plain_user :: user where
  "plain_user = demo_admin\<lparr>u_role := ''user''\<rparr>"

definition secret_peer :: peer where
  "secret_peer = \<lparr>p_id = 1, p_name = ''feed'', p_path_token = [], p_incoming = [], p_host = ''news.example'', p_port = 119, p_patterns = ''*'',
     p_distributions = [], p_flags = [], p_enabled = True, p_in_password = ''s3cret'', p_out_password = ''s4cret'', p_notes = [], p_created = 0\<rparr>"

definition plain_office :: office where
  "plain_office = demo_office\<lparr>of_web := \<lparr>w_store = put_user ''ann'' plain_user (new_memory\<lparr>m_peers := [(1, secret_peer)]\<rparr>),
     w_signer = Some ''k''\<rparr>\<rparr>"

theorem status_discloses_peers_witness:
  "\<not> is_admin plain_user \<and> (\<exists>pg. snd (office_handler demo_desk demo_now Status_Get demo_request plain_office) = Desk_Reply (Desk_Status pg)
     \<and> ''s3cret'' \<in> p_in_password ` set (sp_peers pg))"
proof -
  have a: "\<not> is_admin plain_user" by (simp add: is_admin_def plain_user_def)
  have u: "m_users (of_store plain_office) = [(''ann'', plain_user)]" "w_signer (of_web plain_office) = Some ''k''"
    "list_peers (of_store plain_office) = [secret_peer]"
    by (simp_all add: plain_office_def put_user_def new_memory_def list_peers_def)
  have s: "session_user (of_store plain_office) demo_token = Some plain_user"
    unfolding session_user_def get_user_by_id_def u by (simp add: plain_user_def demo_admin_def new_user_def demo_token_def)
  have "read_cookie demo_web_env demo_now (demo_request\<lparr>rq_path := ''/api/status''\<rparr>) (of_web plain_office) = (of_web plain_office, Some demo_token)"
    using demo_cookie u(2) by (auto simp: read_cookie_def signer_for_def)
  then have "authorize (de_web demo_desk) demo_now False (demo_request\<lparr>rq_path := ''/api/status''\<rparr>) (of_web plain_office)
      = (of_web plain_office, Inr plain_user)"
    using u(1) s by (simp add: authorize_def needs_setup_def count_users_def current_user_def demo_desk_def)
      (simp add: plain_user_def demo_admin_def new_user_def)
  from status_discloses_peers[OF this, of secret_peer] obtain pg where
    pg: "snd (office_handler demo_desk demo_now Status_Get demo_request plain_office) = Desk_Reply (Desk_Status pg)" "secret_peer \<in> set (sp_peers pg)"
    using u(3) by auto
  have "p_in_password secret_peer \<in> p_in_password ` set (sp_peers pg)" using pg(2) by (rule imageI)
  moreover have "p_in_password secret_peer = ''s3cret''" by (simp add: secret_peer_def)
  ultimately show ?thesis using a pg(1) by auto
qed

end
