(* ===== verification/Command.thy ===== *)
theory Command
  imports Isc Accounts Ops Mbox Archive Control
begin

text \<open>
  The command line and the start of the server: \<open>cmd/openusenet/main.go\<close>, and \<open>internal/server/server.go\<close> without its
  sockets. The database a command opens is the in-process store; what a command prints is left out. A timer is an
  instant at which \<open>hourly\<close> runs.
\<close>

section \<open>Flags\<close>

text \<open>The flags a command knows with their values, and the words that are no flags.\<close>

record flag_set =
  fl_args :: "(string \<times> string) list"
  fl_bools :: "(string \<times> bool) list"
  fl_words :: "string list"

datatype parsed = All_Read flag_set | Help_Shown | Missing_Value string | Unknown_Flag string

definition is_truthy :: "string \<Rightarrow> bool" where
  "is_truthy v0 = (let v = trim_space (to_lower v0) in v = ''1'' \<or> v = ''true'' \<or> v = ''yes'' \<or> v = ''admin'')"

definition split_eq :: "string \<Rightarrow> (string \<times> string) option" where
  "split_eq s = (case cut s ''='' of (k, v, ok) \<Rightarrow> if ok then Some (k, v) else None)"

definition set_arg :: "string \<Rightarrow> string \<Rightarrow> flag_set \<Rightarrow> flag_set" where
  "set_arg k v f = f\<lparr>fl_args := AList.update k v (fl_args f)\<rparr>"

definition set_bool :: "string \<Rightarrow> bool \<Rightarrow> flag_set \<Rightarrow> flag_set" where
  "set_bool k b f = f\<lparr>fl_bools := AList.update k b (fl_bools f)\<rparr>"

definition bool_words :: "string list" where
  "bool_words = [''true'', ''false'', ''1'', ''0'', ''yes'', ''no'']"

fun read_flags :: "string list \<Rightarrow> flag_set \<Rightarrow> parsed" where
  "read_flags [] f = All_Read f"
| "read_flags (a # rest) f =
     (if a = ''-h'' \<or> a = ''--help'' then Help_Shown
      else if a = ''--admin'' \<and> map_of (fl_args f) ''admin'' \<noteq> None \<and> (rest = [] \<or> has_prefix (hd rest) ''-'')
      then read_flags rest (set_arg ''admin'' ''1'' f)
      else if has_prefix a ''--'' then
        (let eq = split_eq (drop 2 a);
             key = (case eq of None \<Rightarrow> drop 2 a | Some (k, v) \<Rightarrow> k) in
         if map_of (fl_bools f) key \<noteq> None then
           (case eq of
              Some (k, v) \<Rightarrow> read_flags rest (set_bool key (is_truthy v) f)
            | None \<Rightarrow>
                (case rest of
                   [] \<Rightarrow> read_flags [] (set_bool key True f)
                 | b # rest' \<Rightarrow>
                     if b \<in> set bool_words then read_flags rest' (set_bool key (is_truthy b) f)
                     else read_flags (b # rest') (set_bool key True f)))
         else
           (case eq of
              Some (k, v) \<Rightarrow>
                if map_of (fl_args f) key = None then Unknown_Flag key else read_flags rest (set_arg key v f)
            | None \<Rightarrow>
                (case rest of
                   [] \<Rightarrow> Missing_Value key
                 | v # rest' \<Rightarrow>
                     if map_of (fl_args f) key = None then Unknown_Flag key else read_flags rest' (set_arg key v f))))
      else read_flags rest (f\<lparr>fl_words := fl_words f @ [a]\<rparr>))"

definition new_flags :: "string list \<Rightarrow> (string \<times> bool) list \<Rightarrow> flag_set" where
  "new_flags names bools = \<lparr>fl_args = map (\<lambda>n. (n, [])) names, fl_bools = bools, fl_words = []\<rparr>"

definition arg_of :: "flag_set \<Rightarrow> string \<Rightarrow> string" where
  "arg_of f k = (case map_of (fl_args f) k of None \<Rightarrow> [] | Some v \<Rightarrow> v)"

section \<open>Configuration of a run\<close>

definition given :: "flag_set \<Rightarrow> string \<Rightarrow> (string \<Rightarrow> config \<Rightarrow> config) \<Rightarrow> config \<Rightarrow> config" where
  "given f k upd c = (if arg_of f k = [] then c else upd (arg_of f k) c)"

definition serve_flags :: flag_set where
  "serve_flags = new_flags [''config'', ''listen'', ''postgres'', ''mbox-dir'', ''hostname'', ''http''] []"

definition named :: "string \<Rightarrow> config \<Rightarrow> config" where
  "named h c =
     (let s = (cf_server c)\<lparr>sv_hostname := h\<rparr>
      in c\<lparr>cf_server := (if sv_pathhost s = sv_hostname s \<or> sv_pathhost s = [] then s\<lparr>sv_pathhost := h\<rparr> else s)\<rparr>)"

definition serve_config :: "flag_set \<Rightarrow> config \<Rightarrow> config" where
  "serve_config f c =
     given f ''hostname'' named
       (given f ''http'' (\<lambda>v c. c\<lparr>cf_listen := (cf_listen c)\<lparr>ln_http := v\<rparr>\<rparr>)
         (given f ''mbox-dir'' (\<lambda>v c. c\<lparr>cf_mbox_dir := v\<rparr>)
           (given f ''postgres'' (\<lambda>v c. c\<lparr>cf_postgres := v\<rparr>)
             (given f ''listen'' (\<lambda>v c. c\<lparr>cf_listen := (cf_listen c)\<lparr>ln_nntp := v\<rparr>\<rparr>) c))))"

section \<open>Seeding\<close>

text \<open>\<open>None\<close> is an error of the download; what was stored before stays.\<close>

definition seed_groups ::
    "(string \<Rightarrow> (int \<times> string) option) \<Rightarrow> (string \<Rightarrow> string option) \<Rightarrow> int \<Rightarrow> config \<Rightarrow> bool \<Rightarrow> memory \<Rightarrow> memory option" where
  "seed_groups http gunzip now cfg always s =
     map_option
       (\<lambda>s1. seed_builtin_groups now
          (fold (\<lambda>g. ensure_group now (gc_name g) (gc_desc g) (gc_status g)) (cf_groups cfg) s1))
       (if should_fetch_isc cfg \<and> (always \<or> count_groups s = 0)
        then map_option (\<lambda>gs. ensure_groups now gs s) (fetch_groups http gunzip (cf_isc_url cfg)) else Some s)"

datatype start_error = Peer_Not_Seeded store_error | Bad_Bootstrap | Bootstrap_No_Hash | Bootstrap_Refused store_error

definition yaml_peer :: "peer_cfg \<Rightarrow> peer" where
  "yaml_peer p =
     normalize_peer \<lparr>p_id = 0, p_name = [], p_path_token = [], p_incoming = [], p_host = pc_host p, p_port = pc_port p,
       p_patterns = [], p_distributions = [], p_flags = [], p_enabled = True, p_in_password = [], p_out_password = [],
       p_notes = ''seeded from YAML'', p_created = 0\<rparr>"

fun create_peers :: "int \<Rightarrow> peer_cfg list \<Rightarrow> memory \<Rightarrow> memory \<times> start_error option" where
  "create_peers now [] s = (s, None)"
| "create_peers now (p # ps) s =
     (case create_peer now (yaml_peer p) s of
        Inl err \<Rightarrow> (s, Some (Peer_Not_Seeded err))
      | Inr (s1, _) \<Rightarrow> create_peers now ps s1)"

definition seed_peers :: "int \<Rightarrow> config \<Rightarrow> memory \<Rightarrow> memory \<times> start_error option" where
  "seed_peers now cfg s = (if count_peers s > 0 then (s, None) else create_peers now (cf_peers cfg) s)"

text \<open>\<open>raw\<close> is the environment variable with the name and the password of the first administrator.\<close>

definition bootstrap_admin :: "(string \<Rightarrow> string option) \<Rightarrow> int \<Rightarrow> string \<Rightarrow> memory \<Rightarrow> memory \<times> start_error option" where
  "bootstrap_admin bcrypt now raw0 s =
     (let raw = trim_space raw0 in
      if count_users s > 0 \<or> raw = [] then (s, None)
      else case cut raw '':'' of (name, password, ok) \<Rightarrow>
        if \<not> ok \<or> name = [] \<or> password = [] then (s, Some Bad_Bootstrap)
        else case hash_password bcrypt password of
          None \<Rightarrow> (s, Some Bootstrap_No_Hash)
        | Some h \<Rightarrow>
            (case create_user now (new_user name h ''admin'' True True) s of
               Inl err \<Rightarrow> (s, Some (Bootstrap_Refused err))
             | Inr (s1, _) \<Rightarrow> (s1, None)))"

section \<open>Starting\<close>

definition purge_run :: "string \<Rightarrow> memory \<Rightarrow> file_system \<Rightarrow> memory \<times> file_system" where
  "purge_run dir s fs =
     (case purge_unwanted s of (s1, res) \<Rightarrow> (s1, scrub dir (pu_groups res) (pu_cross res) (pu_msgids res) fs))"

text \<open>What \<open>ListenAndServe\<close> does before it listens.\<close>

definition start ::
    "(string \<Rightarrow> string option) \<Rightarrow> int \<Rightarrow> string \<Rightarrow> config \<Rightarrow> memory \<times> file_system \<Rightarrow> (memory \<times> file_system) \<times> start_error option" where
  "start bcrypt now raw cfg st =
     (case st of (s0, fs) \<Rightarrow>
        let s1 = seed_builtin_groups now s0 in
        (case seed_peers now cfg s1 of
           (s2, Some err) \<Rightarrow> ((s2, fs), Some err)
         | (s2, None) \<Rightarrow>
             (case bootstrap_admin bcrypt now raw s2 of
                (s3, Some err) \<Rightarrow> ((s3, fs), Some err)
              | (s3, None) \<Rightarrow> (purge_run (cf_mbox_dir cfg) s3 fs, None))))"

definition first_controller :: "int \<Rightarrow> config \<Rightarrow> controller" where
  "first_controller now cfg =
     (if watchdog_enabled (cf_watchdog cfg) then new_controller now else set_watchdog False (new_controller now))"

definition hourly :: "int \<Rightarrow> config \<Rightarrow> memory \<times> file_system \<times> controller \<Rightarrow> memory \<times> file_system \<times> controller" where
  "hourly now cfg st =
     (case st of (s, fs, c) \<Rightarrow>
        case purge_run (cf_mbox_dir cfg) s fs of (s1, fs1) \<Rightarrow>
          case expire now (rt_history (cf_retention cfg)) s1 of (s2, res) \<Rightarrow>
            (refresh_content_stats [sv_pathhost (cf_server cfg), sv_hostname (cf_server cfg)] s2, fs1, note_expire now res c))"

text \<open>\<open>migrate\<close>: the groups, the peers and the first administrator.\<close>

datatype migrate_error = Groups_Not_Loaded | Not_Started start_error

definition migrate ::
    "(string \<Rightarrow> (int \<times> string) option) \<Rightarrow> (string \<Rightarrow> string option) \<Rightarrow> (string \<Rightarrow> string option) \<Rightarrow> int \<Rightarrow> string \<Rightarrow> config
      \<Rightarrow> memory \<Rightarrow> memory \<times> migrate_error option" where
  "migrate http gunzip bcrypt now raw cfg s =
     (case seed_groups http gunzip now cfg True s of
        None \<Rightarrow> (s, Some Groups_Not_Loaded)
      | Some s1 \<Rightarrow>
          (case seed_peers now cfg s1 of
             (s2, Some err) \<Rightarrow> (s2, Some (Not_Started err))
           | (s2, None) \<Rightarrow> (case bootstrap_admin bcrypt now raw s2 of (s3, err) \<Rightarrow> (s3, map_option Not_Started err))))"

section \<open>Accounts\<close>

datatype user_error = Not_Parsed parsed | Name_And_Password_Required | User_No_Hash | User_Refused store_error

definition user_flags :: flag_set where
  "user_flags = new_flags [''config'', ''postgres'', ''username'', ''password'', ''admin''] []"

definition user_add :: "(string \<Rightarrow> string option) \<Rightarrow> int \<Rightarrow> string list \<Rightarrow> memory \<Rightarrow> memory \<times> (user_error + user)" where
  "user_add bcrypt now args s =
     (case read_flags args user_flags of
        All_Read f \<Rightarrow>
          let admin = is_truthy (arg_of f ''admin'') \<or> ''--admin'' \<in> set args in
          if arg_of f ''username'' = [] \<or> arg_of f ''password'' = [] then (s, Inl Name_And_Password_Required)
          else
            (case hash_password bcrypt (arg_of f ''password'') of
               None \<Rightarrow> (s, Inl User_No_Hash)
             | Some h \<Rightarrow>
                 (case create_user now (new_user (arg_of f ''username'') h (if admin then ''admin'' else ''user'') True True) s of
                    Inl err \<Rightarrow> (s, Inl (User_Refused err))
                  | Inr (s1, u) \<Rightarrow> (s1, Inr u)))
      | other \<Rightarrow> (s, Inl (Not_Parsed other)))"

section \<open>Importing archives\<close>

definition add_results :: "import_result \<Rightarrow> import_result \<Rightarrow> import_result" where
  "add_results a b =
     \<lparr>ir_scanned = ir_scanned a + ir_scanned b, ir_imported = ir_imported a + ir_imported b,
      ir_duplicates = ir_duplicates a + ir_duplicates b, ir_skipped = ir_skipped a + ir_skipped b,
      ir_groups = fold (\<lambda>(g, n) m. AList.update g ((case map_of m g of None \<Rightarrow> 0 | Some k \<Rightarrow> k) + n) m) (ir_groups b) (ir_groups a)\<rparr>"

text \<open>The second component is the file that could not be read. The outer \<open>None\<close> is a panic.\<close>

fun import_all :: "import_opts \<Rightarrow> int \<Rightarrow> string list \<Rightarrow> import_state \<Rightarrow> (import_state \<times> string option) option" where
  "import_all opt now [] st = Some (st, None)"
| "import_all opt now (p # ps) st =
     (case map_of (is_files st) p of
        None \<Rightarrow> Some (st, Some p)
      | Some text \<Rightarrow>
          (case import_file opt now p text (is_store st) (is_files st) of
             None \<Rightarrow> None
           | Some st1 \<Rightarrow>
               import_all opt now ps
                 \<lparr>is_store = is_store st1, is_files = is_files st1, is_res = add_results (is_res st) (is_res st1)\<rparr>))"

definition import_flags :: flag_set where
  "import_flags = new_flags [''config'', ''postgres'', ''group'']
     [(''restrict-group'', False), (''create-groups'', True), (''spool'', False)]"

definition import_options :: "flag_set \<Rightarrow> config \<Rightarrow> import_opts" where
  "import_options f cfg =
     (let on = (\<lambda>k. map_of (fl_bools f) k = Some True)
      in \<lparr>io_group = arg_of f ''group'', io_restrict = on ''restrict-group'', io_create = on ''create-groups'',
          io_spool = (if on ''spool'' then Some (cf_mbox_dir cfg) else None), io_hostname = sv_hostname (cf_server cfg)\<rparr>)"

datatype import_error = Import_Not_Parsed parsed | No_Files | Not_Readable string

definition archive_import ::
    "int \<Rightarrow> config \<Rightarrow> string list \<Rightarrow> memory \<Rightarrow> file_system \<Rightarrow> (import_state \<times> import_error option) option" where
  "archive_import now cfg args s fs =
     (let st = \<lparr>is_store = s, is_files = fs, is_res = no_result\<rparr> in
      case read_flags args import_flags of
        All_Read f \<Rightarrow>
          if fl_words f = [] then Some (st, Some No_Files)
          else map_option (\<lambda>(st1, bad). (st1, map_option Not_Readable bad)) (import_all (import_options f cfg) now (fl_words f) st)
      | other \<Rightarrow> Some (st, Some (Import_Not_Parsed other)))"

section \<open>Health\<close>

text \<open>\<open>dial\<close> yields what the server sends first, \<open>None\<close> an error.\<close>

definition healthy :: "(string \<Rightarrow> string option) \<Rightarrow> string \<Rightarrow> bool" where
  "healthy dial addr =
     (case dial addr of None \<Rightarrow> False | Some line \<Rightarrow> length line \<ge> 3 \<and> (take 3 line = ''200'' \<or> take 3 line = ''201''))"

end
