(* ===== verification/CommandLaws.thy ===== *)
theory CommandLaws
  imports Command DeskLaws
begin

text \<open>
  Starting and the command line: only a server without accounts makes one at its start, starting again changes nothing, a
  flag given as a word of its own means what it says, and the word \<open>--admin\<close> makes an administrator whatever follows it.
\<close>

section \<open>Starting\<close>

lemma builtin_admin: "admin_part (seed_builtin_groups now s) = admin_part s"
proof -
  have e: "admin_part (ensure_group now g d st s) = admin_part s" for g d st s
    by (simp add: ensure_group_def Let_def split: option.split)
  have "admin_part (fold (\<lambda>(name, desc) s. if get_group name s \<noteq> None then s else ensure_group now name desc ''y'' s) gs s)
      = admin_part s" for gs
    by (induction gs arbitrary: s) (auto simp: e)
  then show ?thesis by (simp add: seed_builtin_groups_def)
qed

lemma create_peers_keeps:
  "create_peers now ps s = (t, err) \<Longrightarrow> m_users t = m_users s \<and> m_groups t = m_groups s \<and> m_next_uid t = m_next_uid s"
proof (induction ps arbitrary: s)
  case (Cons p ps)
  then show ?case by (auto simp: create_peer_def Let_def split: sum.splits if_splits)
qed simp

lemma create_peers_some: "create_peers now ps s = (t, None) \<Longrightarrow> ps \<noteq> [] \<Longrightarrow> m_peers t \<noteq> []"
proof (induction ps arbitrary: s)
  case (Cons p ps)
  then obtain s1 q where c: "create_peer now (yaml_peer p) s = Inr (s1, q)" "create_peers now ps s1 = (t, None)"
    by (auto split: sum.splits)
  have "AList.update k v m \<noteq> []" for k and v :: peer and m by (cases m) auto
  then have "m_peers s1 \<noteq> []" using c(1) by (auto simp: create_peer_def Let_def split: if_splits)
  then show ?case using c Cons.IH by (cases ps) auto
qed simp

lemma seed_peers_keeps:
  "seed_peers now cfg s = (t, err) \<Longrightarrow> m_users t = m_users s \<and> m_groups t = m_groups s \<and> m_next_uid t = m_next_uid s"
  by (auto simp: seed_peers_def dest: create_peers_keeps split: if_splits)

lemma seed_peers_again: "seed_peers now cfg s = (t, None) \<Longrightarrow> m_peers u = m_peers t \<Longrightarrow> seed_peers now' cfg u = (u, None)"
proof (cases "cf_peers cfg")
  case (Cons p ps)
  assume a: "seed_peers now cfg s = (t, None)" "m_peers u = m_peers t"
  have "m_peers t \<noteq> []" using a(1) Cons create_peers_some[of now "cf_peers cfg" s t]
    by (auto simp: seed_peers_def count_peers_def split: if_splits)
  then show ?thesis using a(2) by (simp add: seed_peers_def count_peers_def)
qed (simp add: seed_peers_def)

lemma bootstrap_cases:
  assumes "bootstrap_admin bcrypt now raw s = (t, err)"
  shows "t = s \<or> m_users s = [] \<and> err = None
    \<and> (\<exists>u. m_users t = [(u_name u, u)] \<and> is_admin u \<and> u_must_change u \<and> \<not> u_disabled u
          \<and> t = put_user (u_name u) u (s\<lparr>m_next_uid := m_next_uid s + 1\<rparr>))"
proof (cases "t = s")
  case False
  obtain name password ok where c: "cut (trim_space raw) '':'' = (name, password, ok)" by (cases "cut (trim_space raw) '':''") auto
  have n: "m_users s = []" using assms False by (auto simp: bootstrap_admin_def count_users_def Let_def split: if_splits)
  obtain h where h: "hash_password bcrypt password = Some h"
    using assms False c by (cases "hash_password bcrypt password") (auto simp: bootstrap_admin_def Let_def split: if_splits)
  then obtain u where u: "create_user now (new_user name h ''admin'' True True) s = Inr (t, u)" "err = None"
    using assms False c by (auto simp: bootstrap_admin_def Let_def split: if_splits sum.splits)
  then have "t = put_user (u_name u) u (s\<lparr>m_next_uid := m_next_uid s + 1\<rparr>) \<and> is_admin u \<and> u_must_change u \<and> \<not> u_disabled u"
    by (auto simp: create_user_def new_user_def is_admin_def Let_def split: if_splits)
  then show ?thesis using n u(2) by (auto simp: put_user_def)
qed simp

lemma bootstrap_again:
  assumes "bootstrap_admin bcrypt now raw s = (t, None)" "m_users u = m_users t"
  shows "bootstrap_admin bcrypt' now' raw u = (u, None)"
proof (cases "m_users t = []")
  case True
  have "t = s" using True bootstrap_cases[OF assms(1)] by auto
  have made: "m_users w \<noteq> []" if "create_user now v s = Inr (w, z)" for v w z
    using that by (cases "m_users s") (auto simp: create_user_def put_user_def Let_def split: if_splits)
  have "trim_space raw = []"
  proof (rule ccontr)
    assume r: "trim_space raw \<noteq> []"
    obtain name password ok where c: "cut (trim_space raw) '':'' = (name, password, ok)" by (cases "cut (trim_space raw) '':''") auto
    obtain h where "hash_password bcrypt password = Some h" "ok" "name \<noteq> []" "password \<noteq> []"
      using assms(1) r c True \<open>t = s\<close>
      by (cases "hash_password bcrypt password") (auto simp: bootstrap_admin_def count_users_def Let_def split: if_splits)
    then obtain z where "create_user now (new_user name h ''admin'' True True) s = Inr (t, z)"
      using assms(1) r c True \<open>t = s\<close> by (auto simp: bootstrap_admin_def count_users_def Let_def split: sum.splits)
    then show False using made True by blast
  qed
  then show ?thesis by (simp add: bootstrap_admin_def)
next
  case False
  then show ?thesis using assms(2) by (simp add: bootstrap_admin_def count_users_def)
qed

lemma purge_run_keeps:
  "purge_run dir s fs = (t, fs1) \<Longrightarrow> admin_part t = admin_part s \<and> map fst (m_groups t) = map fst (m_groups s)"
  using purge_keeps[of s] by (auto simp: purge_run_def split: prod.splits)



text \<open>Starting a server again, with the same configuration and environment, is no error and changes no account and no peer, as long as
  neither was changed in between.\<close>

theorem restart_keeps:
  assumes "start bcrypt now raw cfg (s, fs) = ((t, fs1), None)" "m_users t' = m_users t" "m_peers t' = m_peers t"
  shows "\<exists>u fs3. start bcrypt' now' raw cfg (t', fs2) = ((u, fs3), None) \<and> m_users u = m_users t' \<and> m_peers u = m_peers t'"
proof -
  let ?s1 = "seed_builtin_groups now s" and ?t1 = "seed_builtin_groups now' t'"
  obtain s2 s3 where p: "seed_peers now cfg ?s1 = (s2, None)" "bootstrap_admin bcrypt now raw s2 = (s3, None)"
    "purge_run (cf_mbox_dir cfg) s3 fs = (t, fs1)"
    using assms(1) by (auto simp: start_def Let_def split: prod.splits option.splits)
  have b: "m_users ?t1 = m_users t'" "m_peers ?t1 = m_peers t'" using builtin_admin[of now' t'] by (simp_all add: admin_part_def)
  have t: "m_users t = m_users s3" "m_peers t = m_peers s3" using purge_run_keeps[OF p(3)] by (simp_all add: admin_part_def)
  have "m_peers s3 = m_peers s2" using bootstrap_cases[OF p(2)] by (auto simp: put_user_def)
  then have q: "seed_peers now' cfg ?t1 = (?t1, None)" using seed_peers_again[OF p(1)] b(2) assms(3) t(2) by simp
  have a: "bootstrap_admin bcrypt' now' raw ?t1 = (?t1, None)"
    using bootstrap_again[OF p(2)] b(1) assms(2) t(1) by simp
  obtain u fs3 where r: "purge_run (cf_mbox_dir cfg) ?t1 fs2 = (u, fs3)" by fastforce
  then have "m_users u = m_users t'" "m_peers u = m_peers t'" using purge_run_keeps[OF r] b by (simp_all add: admin_part_def)
  then show ?thesis using q a r by (auto simp: start_def Let_def)
qed

theorem restart_keeps_witness:
  "\<exists>u fs3. start Some 9 ''root:pw'' (e_cfg demo_env) (fst (start Some 0 ''root:pw'' (e_cfg demo_env) (new_memory, []))) = ((u, fs3), None)
     \<and> map fst (m_users u) = [''root'']"
proof -
  obtain t fs1 err where s: "start Some 0 ''root:pw'' (e_cfg demo_env) (new_memory, []) = ((t, fs1), err)" by (metis prod.exhaust)
  have "snd (start Some 0 ''root:pw'' (e_cfg demo_env) (new_memory, [])) = None"
    "map fst (m_users (fst (fst (start Some 0 ''root:pw'' (e_cfg demo_env) (new_memory, []))))) = [''root'']" by code_simp+
  then have e: "err = None" "map fst (m_users t) = [''root'']" by (simp_all only: s fst_conv snd_conv)
  obtain u fs3 where "start Some 9 ''root:pw'' (e_cfg demo_env) (t, fs1) = ((u, fs3), None)" "m_users u = m_users t"
    using restart_keeps[OF s[unfolded e(1)] refl refl, of Some 9 fs1] by blast
  then show ?thesis using e(2) by (simp add: s)
qed

section \<open>Flags\<close>

lemma split_eq_word: "CHR ''='' \<notin> set k \<Longrightarrow> split_eq (k @ ''='' @ v) = Some (k, v)"
  by (simp add: split_eq_def cut_single)

lemma read_assigned:
  assumes "a \<noteq> ''-h''" "a \<noteq> ''--help''" "a \<noteq> ''--admin''" "drop 2 a = w" "has_prefix a ''--''" "split_eq w = Some (k, v)"
    and "map_of (fl_args f) k \<noteq> None" "map_of (fl_bools f) k = None"
  shows "read_flags (a # ws) f = read_flags ws (set_arg k v f)"
  using assms by (auto simp: Let_def)

text \<open>A command reads flags given as single words exactly: each --name=value, whatever the value, sets that flag and nothing else,
  the last one wins, and no word is lost or taken for another.\<close>

theorem flags_exact:
  assumes "\<forall>(k, v) \<in> set kvs. map_of (fl_args f) k \<noteq> None \<and> map_of (fl_bools f) k = None \<and> CHR ''='' \<notin> set k"
  shows "read_flags (map (\<lambda>(k, v). ''--'' @ k @ ''='' @ v) kvs @ ws) f = read_flags ws (fold (\<lambda>(k, v). set_arg k v) kvs f)"
  using assms
proof (induction kvs arbitrary: f)
  case (Cons kv kvs)
  obtain k v where kv: "kv = (k, v)" by fastforce
  let ?a = "''--'' @ k @ ''='' @ v"
  have k: "CHR ''='' \<notin> set k" "map_of (fl_args f) k \<noteq> None" "map_of (fl_bools f) k = None" using Cons.prems kv by auto
  have e: "CHR ''='' \<in> set ?a" by simp
  have q: "?a \<noteq> w" if "CHR ''='' \<notin> set w" for w using e that by metis
  have n: "?a \<noteq> ''-h''" "?a \<noteq> ''--help''" "?a \<noteq> ''--admin''" by (rule q; simp)+
  have d: "drop 2 ?a = k @ ''='' @ v" "has_prefix ?a ''--''" by (simp_all add: has_prefix_def)
  have s: "read_flags (?a # ws') f = read_flags ws' (set_arg k v f)" for ws'
    by (rule read_assigned[OF n d split_eq_word[OF k(1)] k(2,3)])
  have "read_flags (map (\<lambda>(k, v). ''--'' @ k @ ''='' @ v) kvs @ ws) (set_arg k v f)
      = read_flags ws (fold (\<lambda>(k, v). set_arg k v) kvs (set_arg k v f))"
    using Cons.prems by (intro Cons.IH) (auto simp: set_arg_def update_conv')
  then show ?case using s[of "map (\<lambda>(k, v). ''--'' @ k @ ''='' @ v) kvs @ ws"] by (simp add: kv)
qed simp

theorem flags_exact_witness:
  "read_flags [''--listen=--http'', ''--http=-'', ''--http=:80''] serve_flags
     = All_Read (set_arg ''http'' '':80'' (set_arg ''http'' ''-'' (set_arg ''listen'' ''--http'' serve_flags)))"
  using flags_exact[of "[(''listen'', ''--http''), (''http'', ''-''), (''http'', '':80'')]" serve_flags "[]"]
  by (simp add: serve_flags_def new_flags_def set_arg_def)

text \<open>C40: The word --admin among the arguments makes an administrator, whatever value follows it and even where it is the value of
  another flag: a user added with --admin false is an administrator.\<close>

theorem admin_word_wins:
  assumes "''--admin'' \<in> set args" "user_add bcrypt now args s = (t, Inr u)"
  shows "is_admin u \<and> (\<exists>v. map_of (m_users t) (u_name u) = Some v \<and> is_admin v)"
proof -
  obtain f where "read_flags args user_flags = All_Read f" using assms(2) by (auto simp: user_add_def split: parsed.splits)
  then obtain h where "create_user now (new_user (arg_of f ''username'') h ''admin'' True True) s = Inr (t, u)"
    using assms by (auto simp: user_add_def Let_def split: if_splits option.splits sum.splits)
  then show ?thesis by (auto simp: create_user_def new_user_def is_admin_def put_user_def map_of_update Let_def split: if_splits)
qed

theorem admin_word_wins_witness:
  "\<exists>t u. user_add Some 0 [''--username'', ''bob'', ''--password'', ''pw'', ''--admin'', ''false''] new_memory = (t, Inr u) \<and> is_admin u"
proof -
  let ?a = "[''--username'', ''bob'', ''--password'', ''pw'', ''--admin'', ''false'']"
  have "map_option u_name (case snd (user_add Some 0 ?a new_memory) of Inl e \<Rightarrow> None | Inr u \<Rightarrow> Some u) = Some ''bob''" by code_simp
  then obtain t u where r: "user_add Some 0 ?a new_memory = (t, Inr u)"
    by (cases "user_add Some 0 ?a new_memory") (auto split: sum.splits)
  then show ?thesis using admin_word_wins[OF _ r] by auto
qed

end
