(* ===== verification/Reporting.thy ===== *)
theory Reporting
  imports Desk Inpaths
begin

text \<open>
  Reports of the path statistics: \<open>internal/inpaths/send.go\<close>, \<open>internal/admin/inpaths_admin.go\<close>, the command \<open>inpaths\<close> of
  \<open>cmd/openusenet/main.go\<close> and the schedule in \<open>internal/server/server.go\<close>. \<open>ul\<close> tells which runes above ASCII
  are letters.
\<close>

section \<open>Sending\<close>

definition inpaths_override :: "config \<Rightarrow> mail_settings" where
  "inpaths_override cfg =
     (let r = ip_report (cf_inpaths cfg)
      in if trim_space (rp_smtp_host r) = [] then no_mail_settings
         else normalize_mail
                \<lparr>mail_host = rp_smtp_host r, mail_port = (if rp_smtp_port r \<le> 0 then 587 else rp_smtp_port r),
                 mail_user = rp_smtp_user r, mail_pass = rp_smtp_pass r, mail_from = rp_from r, mail_security = ''auto''\<rparr>)"

definition report_settings :: "memory option \<Rightarrow> config \<Rightarrow> mail_settings" where
  "report_settings s cfg =
     for_send (case s of None \<Rightarrow> mail_from_config cfg | Some m \<Rightarrow> load_mail m cfg) (inpaths_override cfg)"

datatype report_error =
    Inpaths_Off | No_Logger | Not_Flushed | No_Report | No_Report_Recipients | Report_Host_Required | No_Mail_Server
  | Report_Mail mail_error | Report_Not_Sent string | Unknown_Report_Action

definition report_recipients :: "string list \<Rightarrow> string list" where
  "report_recipients xs = filter (\<lambda>a. a \<noteq> []) (map trim_space xs)"

definition send_report :: "string \<Rightarrow> string \<Rightarrow> string list \<Rightarrow> string list \<Rightarrow> mail_settings \<Rightarrow> report_error + delivery" where
  "send_report bdy phost to cc m =
     (if report_recipients to = [] then Inl No_Report_Recipients
      else if trim_space (mail_host m) = [] then Inl Report_Host_Required
      else
        let from = trim_space (mail_from m);
            m1 = m\<lparr>mail_host := trim_space (mail_host m), mail_from := (if from = [] then ''openusenet@'' @ phost else from),
                   mail_security := (if mail_security m = [] then ''auto'' else mail_security m)\<rparr>
        in (case send_mail m1 \<lparr>mail_to = report_recipients to, mail_cc = report_recipients cc,
                mail_subject = ''Path statistics from '' @ phost, mail_body = bdy\<rparr> of
              Inl err \<Rightarrow> Inl (Report_Mail err) | Inr d \<Rightarrow> Inr d))"

definition deliver_report :: "(delivery \<Rightarrow> string option) \<Rightarrow> report_error + delivery \<Rightarrow> delivery list \<Rightarrow> delivery list \<times> report_error option" where
  "deliver_report smtp r sent =
     (case r of
        Inl err \<Rightarrow> (sent, Some err)
      | Inr d \<Rightarrow> (case smtp d of Some err \<Rightarrow> (sent, Some (Report_Not_Sent err)) | None \<Rightarrow> (sent @ [d], None)))"

section \<open>The portal\<close>

abbreviation month :: int where "month \<equiv> 32 * 24 * hour"

text \<open>The log is \<open>None\<close> where the logger does not run; the dumps are then in \<open>files\<close>.\<close>

definition report_body ::
    "(nat \<Rightarrow> bool) \<Rightarrow> int \<Rightarrow> string \<Rightarrow> bool \<Rightarrow> path_log \<Rightarrow> bool \<Rightarrow> path_log \<times> string option" where
  "report_body ul now phost flush_first files running =
     (case (if flush_first \<and> running \<and> pending_articles files > 0 then map_option snd (flush ul now files) else Some files) of
        None \<Rightarrow> (files, None)
      | Some l \<Rightarrow>
          let st = load_dumps now month l;
              st1 = (if running then merge_stats (Some (load_pending ul now l)) st else st)
          in (l, report phost st1))"

record inpaths_status =
  is_enabled :: bool
  is_dir :: string
  is_schedule :: string
  is_mailto :: "string list"
  is_smtp :: bool
  is_pending :: "nat option"
  is_dumps :: nat

definition inpaths_status_of :: "config \<Rightarrow> memory \<Rightarrow> path_log \<Rightarrow> bool \<Rightarrow> inpaths_status" where
  "inpaths_status_of cfg s l running =
     (let ip = cf_inpaths cfg; on = inpaths_enabled ip
      in \<lparr>is_enabled = on, is_dir = inpaths_dir ip, is_schedule = ip_schedule ip, is_mailto = inpaths_mail_to ip,
          is_smtp = (rp_smtp_host (ip_report ip) \<noteq> [] \<or> mail_host (load_mail s cfg) \<noteq> []),
          is_pending = (if on \<and> running then Some (pending_articles l) else None),
          is_dumps = (if on then length (list_dumps l) else 0)\<rparr>)"

datatype inpaths_reply =
    Report_Shown inpaths_status string
  | Report_Refused report_error "string option" | Report_Page string | Dumped string | Report_Sent

definition inpaths_get :: "(nat \<Rightarrow> bool) \<Rightarrow> int \<Rightarrow> config \<Rightarrow> bool \<Rightarrow> memory \<Rightarrow> path_log \<Rightarrow> inpaths_reply" where
  "inpaths_get ul now cfg running s l =
     (if \<not> inpaths_enabled (cf_inpaths cfg) then Report_Refused Inpaths_Off None
      else Report_Shown (inpaths_status_of cfg s l running)
             (case snd (report_body ul now (sv_pathhost (cf_server cfg)) False l running) of None \<Rightarrow> [] | Some b \<Rightarrow> b))"

definition inpaths_action ::
    "(nat \<Rightarrow> bool) \<Rightarrow> (delivery \<Rightarrow> string option) \<Rightarrow> int \<Rightarrow> config \<Rightarrow> string \<Rightarrow> bool \<Rightarrow> memory
      \<Rightarrow> path_log \<times> delivery list \<Rightarrow> (path_log \<times> delivery list) \<times> inpaths_reply" where
  "inpaths_action ul smtp now cfg action running s st =
     (case st of (l, sent) \<Rightarrow>
        let host = sv_pathhost (cf_server cfg); ip = cf_inpaths cfg; bdy = report_body ul now host True l running in
        if \<not> inpaths_enabled ip then (st, Report_Refused Inpaths_Off None)
        else if action = ''flush'' then
          (if \<not> running then (st, Report_Refused No_Logger None)
           else case flush ul now l of
             None \<Rightarrow> (st, Report_Refused Not_Flushed None) | Some (name, l1) \<Rightarrow> ((l1, sent), Dumped name))
        else if action = ''report'' then
          (case bdy of (l1, None) \<Rightarrow> ((l1, sent), Report_Refused No_Report None) | (l1, Some b) \<Rightarrow> ((l1, sent), Report_Page b))
        else if action = ''send'' then
          (case bdy of
             (l1, None) \<Rightarrow> ((l1, sent), Report_Refused No_Report None)
           | (l1, Some b) \<Rightarrow>
               let m = report_settings (Some s) cfg in
               if mail_host m = [] then ((l1, sent), Report_Refused No_Mail_Server (Some b))
               else case deliver_report smtp (send_report b host (inpaths_mail_to ip) (rp_mail_cc (ip_report ip)) m) sent of
                 (sent1, Some err) \<Rightarrow> ((l1, sent1), Report_Refused err None)
               | (sent1, None) \<Rightarrow> ((l1, sent1), Report_Sent))
        else (st, Report_Refused Unknown_Report_Action None))"

section \<open>The schedule\<close>

definition report_every :: "string \<Rightarrow> int option" where
  "report_every sched0 =
     (let sched = to_lower (trim_space sched0)
      in if sched = ''daily'' then Some (24 * hour) else if sched = ''weekly'' then Some (7 * 24 * hour) else None)"

text \<open>One run; an error only ends it.\<close>

definition report_run ::
    "(nat \<Rightarrow> bool) \<Rightarrow> (delivery \<Rightarrow> string option) \<Rightarrow> int \<Rightarrow> config \<Rightarrow> memory \<Rightarrow> path_log \<times> delivery list \<Rightarrow> path_log \<times> delivery list" where
  "report_run ul smtp now cfg s st =
     (case st of (l0, sent) \<Rightarrow>
        let l = (if pending_articles l0 > 0 then (case flush ul now l0 of None \<Rightarrow> l0 | Some (_, l1) \<Rightarrow> l1) else l0);
            m = report_settings (Some s) cfg; stats = load_dumps now month l; host = sv_pathhost (cf_server cfg); ip = cf_inpaths cfg in
        if trim_space (mail_host m) = [] \<or> ps_articles stats = 0 then (l, sent)
        else case report host stats of
          None \<Rightarrow> (l, sent)
        | Some b \<Rightarrow>
            (case deliver_report smtp (send_report b host (inpaths_mail_to ip) (rp_mail_cc (ip_report ip)) m) sent of
               (sent1, Some err) \<Rightarrow> (l, sent1)
             | (sent1, None) \<Rightarrow> (snd (prune_dumps now (7 * 24 * hour) l), sent1)))"

section \<open>The command\<close>

definition inpaths_command ::
    "(nat \<Rightarrow> bool) \<Rightarrow> (delivery \<Rightarrow> string option) \<Rightarrow> int \<Rightarrow> config \<Rightarrow> string \<Rightarrow> path_log \<times> delivery list
      \<Rightarrow> (path_log \<times> delivery list) \<times> inpaths_reply" where
  "inpaths_command ul smtp now cfg sub st =
     (case st of (l, sent) \<Rightarrow>
        let sv = cf_server cfg; host = (if sv_pathhost sv = [] then sv_hostname sv else sv_pathhost sv); ip = cf_inpaths cfg;
            bdy = report host (load_dumps now month l); m = report_settings None cfg in
        if \<not> inpaths_enabled ip then (st, Report_Refused Inpaths_Off None)
        else if sub = ''flush'' then
          (case flush ul now l of None \<Rightarrow> (st, Report_Refused Not_Flushed None) | Some (name, l1) \<Rightarrow> ((l1, sent), Dumped name))
        else if sub = ''report'' then
          (case bdy of None \<Rightarrow> (st, Report_Refused No_Report None) | Some b \<Rightarrow> (st, Report_Page b))
        else if sub = ''send'' then
          (case bdy of
             None \<Rightarrow> (st, Report_Refused No_Report None)
           | Some b \<Rightarrow>
               if mail_host m = [] then (st, Report_Refused No_Mail_Server None)
               else case deliver_report smtp (send_report b host (inpaths_mail_to ip) (rp_mail_cc (ip_report ip)) m) sent of
                 (sent1, Some err) \<Rightarrow> ((l, sent1), Report_Refused err None)
               | (sent1, None) \<Rightarrow> ((l, sent1), Report_Sent))
        else (st, Report_Refused Unknown_Report_Action None))"

section \<open>What a run keeps\<close>

lemma flush_keeps:
  assumes "flush ul now l = Some (d, l1)" and "name \<noteq> dump_prefix @ format_int (unix_seconds now)"
  shows "map_of (pl_dumps l1) name = map_of (pl_dumps l) name"
  using assms by (auto simp: flush_def Let_def update_conv split: if_splits option.splits)

lemma prune_dumps_recent:
  assumes "map_of (pl_dumps l) name = Some (mtime, txt0)" and "now - keep \<le> mtime"
  shows "map_of (pl_dumps (snd (prune_dumps now keep l))) name = Some (mtime, txt0)"
proof (cases "keep \<le> 0")
  case False
  define old where "old = filter (\<lambda>n. case map_of (pl_dumps l) n of None \<Rightarrow> False | Some (m, _) \<Rightarrow> m < now - keep) (list_dumps l)"
  have n: "name \<notin> set old" using assms by (simp add: old_def)
  have k: "map_of (filter (\<lambda>(n, _). n \<notin> set old) xs) name = map_of xs name" for xs :: "(string \<times> int \<times> string) list"
    using n by (induction xs) auto
  have "snd (prune_dumps now keep l) = l\<lparr>pl_dumps := filter (\<lambda>(n, _). n \<notin> set old) (pl_dumps l)\<rparr>"
    using False by (simp add: prune_dumps_def Let_def old_def)
  then show ?thesis using k[of "pl_dumps l"] assms(1) by simp
qed (use assms(1) in \<open>simp add: prune_dumps_def\<close>)

lemma deliver_report_sent:
  "fst (deliver_report smtp r sent) = sent \<and> snd (deliver_report smtp r sent) \<noteq> None
   \<or> (\<exists>d. smtp d = None \<and> r = Inr d \<and> deliver_report smtp r sent = (sent @ [d], None))"
  by (auto simp: deliver_report_def split: sum.splits option.splits)


definition report_config :: config where
  "report_config =
     default_config\<lparr>cf_server := \<lparr>sv_hostname = ''n.example'', sv_organization = [], sv_pathhost = ''n.example''\<rparr>,
       cf_inpaths := \<lparr>ip_enabled = True, ip_dir = [], ip_schedule = ''weekly'',
         ip_report = \<lparr>rp_mail_to = [''t@x''], rp_mail_cc = [], rp_smtp_host = ''mx'', rp_smtp_port = 25,
           rp_smtp_user = [], rp_smtp_pass = [], rp_from = []\<rparr>\<rparr>\<rparr>"

definition report_log :: path_log where
  "report_log = \<lparr>pl_pending = Some (''a!b'' @ [LF]), pl_dumps = [(''inpaths.1'', 0, ''x'')]\<rparr>"


end
