(* ===== verification/Spec2Isabelle.thy ===== *)
theory Spec2Isabelle
  imports Outcomes StoreLaws StoreRetention ArchiveLaws ArchivePath FeederLaws InpathsLaws PostingLaws AccountsLaws PeeringLaws IscLaws DisplayLaws ReaderLaws DeskLaws CommandLaws Reporting
begin

text \<open>
  OpenUsenetServer is a Usenet news server written in Go. Readers and other servers connect over NNTP; accepted
  articles are stored, appended to an archive in mbox format, counted, and offered to the peers that want them; a web
  portal administers the server and lets accounts read and post. This library models the program file by file as
  functions and proves what its parts promise. The theory of each part opens with what it holds; this is the map.

  \<^bold>\<open>How the parts interact.\<close> \<open>cmd/openusenet\<close> reads the configuration (\<open>internal/config\<close>) and starts \<open>internal/server\<close>,
  which accepts connections and hands each one to \<open>internal/nntp\<close>. A session reads lines and blocks
  (\<open>wire.go\<close>), asks the gates (\<open>internal/ops\<close>), the access rules (\<open>internal/inbound\<close>, \<open>internal/peerauth\<close>) and the
  accounts, parses and completes articles (\<open>internal/article\<close>), classifies them (\<open>internal/binary\<close>), passes them to the
  external filter (\<open>internal/cleanfeed\<close>), treats control messages (\<open>internal/control\<close>) and moderated groups
  (\<open>internal/moderate\<close>, \<open>internal/mail\<close>), and stores the rest (\<open>internal/store\<close>). A stored article goes to the archive
  (\<open>internal/archive\<close>), to the path statistics (\<open>internal/inpaths\<close>) and to the outgoing feed (\<open>internal/feed\<close>), which
  speaks NNTP as a client. The portal (\<open>internal/admin\<close>, \<open>internal/auth\<close>) uses the same store, and its posts go through
  \<open>internal/posting\<close>; peers are exchanged with INN servers through \<open>internal/inn\<close>, and the list of groups is loaded from
  the ISC through \<open>internal/isc\<close>.

  \<^bold>\<open>Theories and sources.\<close>
  \<^item> Go's library, as far as the program uses it: GoStrings and GoText (strings, strconv, unicode, utf8), GoTime
    (instants, layouts, wrapping durations), GoNet (addresses and prefixes), GoSort, GoScan (bufio.Scanner).
    Prelude has the collections of rewrite rules and lemmas on lists and maps, Lines those on texts made of lines.
  \<^item> Article data: Wildmat (\<open>wildmat\<close>), Article (\<open>article.go\<close>, \<open>policy.go\<close>, \<open>utf8.go\<close>: parsing, printing, injection,
    the checks of names and Message-IDs), Binary (\<open>binary\<close>).
  \<^item> The store: StoreTypes (\<open>store.go\<close>, \<open>types_*.go\<close>, the fields of Memory), StoreArticles, StoreFeed, StoreUsers
    (\<open>memory.go\<close> and \<open>memory_moderators.go\<close>), StoreRetention (\<open>memory_retention.go\<close>, \<open>memory_purge.go\<close>), StoreStats
    (statistics and search, with the types of \<open>postgres_stats.go\<close> and \<open>postgres_search.go\<close>). Its laws: Filing and StoreInv (the invariant and that
    every operation keeps it), Spool (the abstract spool and the refinement), Readable (no reader meets a
    dangling number), StoreLaws.
  \<^item> The session: Wire (\<open>wire.go\<close>, \<open>codes.go\<close>), Session, Handlers and Serve (\<open>session.go\<close>), Contract (the interface all
    commands keep), Replies and Outcomes (what clients are told and what becomes of articles), with Cleanfeed,
    Control, Moderate, Mail, Inbound, Ops and Config for the packages of these names.
  \<^item> The feed: Flags (\<open>flags.go\<close>, \<open>filter.go\<close>), Feeder and FeederLaws (\<open>feed.go\<close>, \<open>stream.go\<close>).
  \<^item> The archive: Mbox, Archive, ArchivePath, ArchiveLaws (\<open>archive\<close>).
  \<^item> Path statistics: Inpaths, InpathsLaws (\<open>inpaths\<close>).
  \<^item> The portal: Auth (\<open>auth\<close>), Accounts and AccountsLaws (accounts and sessions in \<open>admin.go\<close>), Posting and PostingLaws
    (\<open>posting\<close>), Inn, InnLaws, Peering and PeeringLaws (\<open>inn\<close>, \<open>store/peer_inn.go\<close> and the peers in \<open>admin.go\<close>), Isc and
    IscLaws (\<open>isc\<close>). Display and DisplayLaws (\<open>rfc2047.go\<close>, \<open>charset.go\<close>, \<open>display.go\<close>: what the web reader shows of an
    article), Reader and ReaderLaws (\<open>reader.go\<close>, the web newsreader), Desk and DeskLaws (\<open>ops.go\<close>, \<open>mail_admin.go\<close>, \<open>moderators.go\<close> and
    the rest of \<open>admin.go\<close>, with the routes and their checks).
  \<^item> The program: Command and CommandLaws (\<open>cmd/openusenet/main.go\<close>, and \<open>server.go\<close> without its sockets), Reporting (the
    path reports: \<open>send.go\<close>, \<open>inpaths_admin.go\<close>, the command inpaths and its schedule).

  \<^bold>\<open>How the code is represented.\<close> A string of bytes is a list of characters. A Go map is an association list, and where
  the source iterates over a map the model has the order of that list or of the sort that follows. A struct is a
  record, a state that is shared (the store, a session, the feeder) is passed and returned. Stored articles are
  objects: the store keeps them in a heap by reference, since the source shares one object among several maps. An
  error is a value of a data type (a sum or an option); a panic is \<open>None\<close> where it can occur, or the fault \<open>Panic\<close>. Times are
  nanoseconds, and durations wrap at 64 bits as Go's do. The floating point comparisons of the watchdog and the
  flood ratio are exact fractions. Files are an association list from paths to texts.

  \<^bold>\<open>What is an argument of the model.\<close> The clock; random bytes; the parser of Date headers (\<open>net/mail\<close>); bcrypt, HMAC and
  SHA-256; name resolution; the SMTP conversation; the answer of the external filter; what a dialled peer or a web
  server answers; gunzip; the YAML and JSON decoders; the parsers of Go's \<open>mime\<close> packages and the tables of character sets; letters beyond ASCII; the text of a flood alert. Properties that rely on
  one of them say what they assume, and their witnesses instantiate it.

  \<^bold>\<open>Interfaces.\<close> The locales state what one part relies on in another, and each is interpreted on the model's own
  functions: \<open>handler_law\<close> (Contract), a relation that every command of a session keeps, with four interpretations (the
  input only shrinks, replies are only added, the store stays readable, logins are earned); \<open>message_history\<close> (StoreLaws);
  \<open>feed_queue\<close> (StoreFeed); \<open>header_fields\<close> (Article); \<open>last_match\<close> (Wildmat); \<open>line_codec\<close> (Wire); \<open>beside\<close> (ReaderLaws), a part of the
  store that posting never touches, with three interpretations (read marks, the desk's settings, the names of groups).

  \<^bold>\<open>What the lemmas show.\<close> Invariants: the store's, kept by every operation and every connection; the tables of the
  path statistics. Refinement: the store implements the spool. Termination: a connection ends on every input, and so does showing a body with nested parts;
  the recursions over texts have measures, and no function runs on fuel. Round trips: parse and print of articles, dot-stuffed blocks,
  mbox files, exports, dumps, cookies, INN fragments, LIST ACTIVE. Equivalence: the wildmat matcher and
  its declarative meaning, expiry, purging, control messages. Safety: what a session may change, who may log in, who may administer,
  and what the web newsreader, a start of the server and a run of the report schedule leave alone.
  Error behaviour: the outcomes in which the code surprises, each stated exactly as the code has it.

  \<^bold>\<open>Not modelled.\<close> The PostgreSQL store (\<open>store/postgres*.go\<close>): its logic is SQL, which these theories cannot read; the
  in-process store implements the same interface. Listeners, TLS, tickers and goroutines of \<open>server.go\<close>: operating system glue. Commands and requests are atomic: locks of the
  store make each operation so, and an interleaving of several connections is a sequence of operations, for which the
  store's laws hold. Failures of writing files. Of the command line, what is printed and the
  command that exports (a call of \<open>export\<close>). Of the portal, JSON and HTML, the page of statistics, the archive's background jobs and the
  values the status page copies from the configuration. The database of a command is the in-process store.
\<close>

end
